(* ===== verification/Prelude.thy ===== *)
theory Prelude
  imports Main "HOL-Library.AList" "HOL-Library.Char_ord" "HOL-Library.List_Lexorder"
    "HOL-Library.Product_Lexorder"
begin

text \<open>
  What the components share: Python's exceptions as values, the result type, the
  loop combinators over results, decimal printing, and generic list lemmas.

  An exception is its class with the fixed text of its message (the interpolated parts
  of an f-string are left out unless the code's behaviour depends on them).
  \<open>AttributeError\<close> is what Python raises when a method is called on \<open>None\<close>;
  \<open>ValidationError\<close> is what pydantic's \<open>validate_call\<close> raises for an argument out of
  its annotated range; \<open>CompileError\<close> is \<open>TTLangCompileError\<close> with its source file, line and
  column.
\<close>

section \<open>Exceptions and results\<close>

datatype exn =
    RuntimeError string
  | ValueError string
  | IndexError string
  | KeyError string
  | TypeError string
  | AttributeError string
  | AssertionError string
  | ValidationError string
  | NameError string
  | ImportError string
  | NotImplementedError string
  | CompileError string "string option" "int option" "int option"
  | ZeroDivisionError
  | StopIteration
  | TimeoutError string
  | DFBContractError string
  | DFBNotConfigured string
  | DFBTimeoutError string

type_synonym 'a result = "exn + 'a"

named_theorems res_simps \<open>evaluation of results\<close>

definition rbind :: "'a result \<Rightarrow> ('a \<Rightarrow> 'b result) \<Rightarrow> 'b result" where
  "rbind r f = (case r of Inl e \<Rightarrow> Inl e | Inr a \<Rightarrow> f a)"

lemma rbind_Inl [simp, res_simps]: "rbind (Inl e) f = Inl e"
  by (simp add: rbind_def)

lemma rbind_Inr [simp, res_simps]: "rbind (Inr a) f = f a"
  by (simp add: rbind_def)

lemma rbind_eq_Inr: "rbind r f = Inr b \<longleftrightarrow> (\<exists>a. r = Inr a \<and> f a = Inr b)"
  by (cases r) auto

lemma rbind_eq_Inl: "rbind r f = Inl e \<longleftrightarrow> r = Inl e \<or> (\<exists>a. r = Inr a \<and> f a = Inl e)"
  by (cases r) auto

lemma rbind_InrE:
  assumes "rbind r f = Inr b"
  obtains a where "r = Inr a" and "f a = Inr b"
  using assms by (auto simp: rbind_eq_Inr)

text \<open>A check that raises: \<open>if not c: raise e\<close>.\<close>

definition guard :: "bool \<Rightarrow> exn \<Rightarrow> unit result" where
  "guard c e = (if c then Inr () else Inl e)"

lemma guard_simps [simp, res_simps]: "guard True e = Inr ()" "guard False e = Inl e"
  by (simp_all add: guard_def)

lemma guard_eq_Inr [simp]: "guard c e = Inr u \<longleftrightarrow> c"
  by (simp add: guard_def)

lemma guard_eq_Inl [simp]: "guard c e = Inl e' \<longleftrightarrow> \<not> c \<and> e = e'"
  by (auto simp: guard_def)

text \<open>A list comprehension whose body may raise: the first exception wins.\<close>

fun rmap :: "('a \<Rightarrow> 'b result) \<Rightarrow> 'a list \<Rightarrow> 'b list result" where
  "rmap f [] = Inr []"
| "rmap f (x # xs) = rbind (f x) (\<lambda>y. rbind (rmap f xs) (\<lambda>ys. Inr (y # ys)))"

lemma rmap_Inr_iff:
  "rmap f xs = Inr ys \<longleftrightarrow> length ys = length xs \<and> (\<forall>i < length xs. f (xs ! i) = Inr (ys ! i))"
proof (induction xs arbitrary: ys)
  case Nil
  then show ?case by auto
next
  case (Cons x xs)
  show ?case
    by (cases ys) (auto simp: rbind_eq_Inr Cons.IH less_Suc_eq_0_disj)
qed

lemma rmap_all_Inr: "(\<And>x. x \<in> set xs \<Longrightarrow> f x = Inr (g x)) \<Longrightarrow> rmap f xs = Inr (map g xs)"
  by (induction xs) auto

lemma rmap_length: "rmap f xs = Inr ys \<Longrightarrow> length ys = length xs"
  by (simp add: rmap_Inr_iff)

lemma rmap_ex_iff: "(\<exists>ys. rmap f xs = Inr ys) \<longleftrightarrow> (\<forall>x \<in> set xs. \<exists>y. f x = Inr y)"
  by (induction xs) (auto simp: rbind_eq_Inr)

lemma rmap_first_error:
  "i < length xs \<Longrightarrow> f (xs ! i) = Inl e \<Longrightarrow> \<forall>j < i. \<exists>y. f (xs ! j) = Inr y \<Longrightarrow> rmap f xs = Inl e"
proof (induction xs arbitrary: i)
  case (Cons x xs)
  show ?case
  proof (cases i)
    case (Suc k)
    with Cons.prems obtain y where "f x = Inr y" by force
    moreover have "rmap f xs = Inl e" using Cons.prems Suc by (intro Cons.IH [of k]) force+
    ultimately show ?thesis by simp
  qed (use Cons.prems in simp)
qed simp

text \<open>A \<open>for\<close> loop over a state whose body may raise.\<close>

fun rfold :: "('a \<Rightarrow> 's \<Rightarrow> 's result) \<Rightarrow> 'a list \<Rightarrow> 's \<Rightarrow> 's result" where
  "rfold f [] s = Inr s"
| "rfold f (x # xs) s = rbind (f x s) (rfold f xs)"

lemma rfold_append: "rfold f (xs @ ys) s = rbind (rfold f xs s) (rfold f ys)"
  by (induction xs arbitrary: s) (auto simp: rbind_def split: sum.splits)

lemma rfold_invariant:
  assumes "rfold f xs s = Inr s'" and "P s"
    and "\<And>x s s'. x \<in> set xs \<Longrightarrow> P s \<Longrightarrow> f x s = Inr s' \<Longrightarrow> P s'"
  shows "P s'"
  using assms
proof (induction xs arbitrary: s)
  case Nil
  then show ?case by simp
next
  case (Cons x xs)
  from Cons.prems(1) obtain s1 where "f x s = Inr s1" "rfold f xs s1 = Inr s'"
    by (auto simp: rbind_eq_Inr)
  with Cons show ?case by (metis list.set_intros)
qed

text \<open>
  Python does not undo what a method did before it raised, so an operation on a state
  returns the state with either outcome.
\<close>

type_synonym ('s, 'a) state_op = "'s \<Rightarrow> 'a result \<times> 's"

definition sbind :: "('s, 'a) state_op \<Rightarrow> ('a \<Rightarrow> ('s, 'b) state_op) \<Rightarrow> ('s, 'b) state_op" where
  "sbind m f s = (case m s of (Inl e, s') \<Rightarrow> (Inl e, s') | (Inr a, s') \<Rightarrow> f a s')"

definition sreturn :: "'a \<Rightarrow> ('s, 'a) state_op" where
  "sreturn a s = (Inr a, s)"

definition sraise :: "exn \<Rightarrow> ('s, 'a) state_op" where
  "sraise e s = (Inl e, s)"

definition slift :: "('s \<Rightarrow> 'a result) \<Rightarrow> ('s, 'a) state_op" where
  "slift f s = (f s, s)"

definition smodify :: "('s \<Rightarrow> 's) \<Rightarrow> ('s, unit) state_op" where
  "smodify f s = (Inr (), f s)"

lemma sbind_simps [simp, res_simps]:
  "m s = (Inl e, s') \<Longrightarrow> sbind m f s = (Inl e, s')"
  "m s = (Inr a, s') \<Longrightarrow> sbind m f s = f a s'"
  by (simp_all add: sbind_def)

lemma sop_simps [simp, res_simps]:
  "sreturn a s = (Inr a, s)" "sraise e s = (Inl e, s)" "slift g s = (g s, s)"
  "smodify h s = (Inr (), h s)"
  by (simp_all add: sreturn_def sraise_def slift_def smodify_def)

lemma sbind_eq_Inr:
  "sbind m f s = (Inr b, s2) \<longleftrightarrow> (\<exists>a s1. m s = (Inr a, s1) \<and> f a s1 = (Inr b, s2))"
  by (auto simp: sbind_def split: prod.splits sum.splits)

lemma sbind_InrE:
  assumes "sbind m f s = (Inr b, s2)"
  obtains a s1 where "m s = (Inr a, s1)" and "f a s1 = (Inr b, s2)"
  using assms by (auto simp: sbind_eq_Inr)

lemma sbind_eq_Inl:
  "sbind m f s = (Inl e, s2) \<longleftrightarrow>
     m s = (Inl e, s2) \<or> (\<exists>a s1. m s = (Inr a, s1) \<and> f a s1 = (Inl e, s2))"
  by (auto simp: sbind_def split: prod.splits sum.splits)

text \<open>A predicate that every outcome of an operation keeps.\<close>

definition preserves :: "('s \<Rightarrow> bool) \<Rightarrow> ('s, 'a) state_op \<Rightarrow> bool" where
  "preserves P m \<longleftrightarrow> (\<forall>s. P s \<longrightarrow> P (snd (m s)))"

lemma preservesD: "preserves P m \<Longrightarrow> P s \<Longrightarrow> m s = (r, s') \<Longrightarrow> P s'"
  unfolding preserves_def by (metis snd_conv)

lemma preserves_sbind:
  assumes "preserves P m" and "\<And>a. preserves P (f a)"
  shows "preserves P (sbind m f)"
  using assms by (fastforce simp: preserves_def sbind_def split: prod.splits sum.splits dest: spec)

lemma preserves_basic [simp]:
  "preserves P (sreturn a)" "preserves P (sraise e)" "preserves P (slift f)"
  by (simp_all add: preserves_def)

text \<open>A \<open>for\<close> loop whose body has effects.\<close>

fun sfor :: "('a \<Rightarrow> ('s, unit) state_op) \<Rightarrow> 'a list \<Rightarrow> ('s, unit) state_op" where
  "sfor f [] s = (Inr (), s)"
| "sfor f (x # xs) s = sbind (f x) (\<lambda>_. sfor f xs) s"

lemma preserves_sfor: "(\<And>x. preserves P (f x)) \<Longrightarrow> preserves P (sfor f xs)"
proof (induction xs)
  case (Cons x xs)
  then have "preserves P (sbind (f x) (\<lambda>_. sfor f xs))"
    by (intro preserves_sbind) auto
  then show ?case by (simp add: preserves_def)
qed (simp add: preserves_def)

section \<open>Indexing\<close>

text \<open>\<open>xs[i]\<close> for an index that is not negative.\<close>

definition py_nth :: "'a list \<Rightarrow> nat \<Rightarrow> 'a result" where
  "py_nth xs i = (if i < length xs then Inr (xs ! i) else Inl (IndexError ''list index out of range''))"

lemma py_nth_ok [simp]: "i < length xs \<Longrightarrow> py_nth xs i = Inr (xs ! i)"
  by (simp add: py_nth_def)

text \<open>\<open>xs[i]\<close> for any Python integer, which counts from the end when it is negative.\<close>

definition py_item :: "'a list \<Rightarrow> int \<Rightarrow> 'a result" where
  "py_item xs i =
     (if 0 \<le> i then py_nth xs (nat i)
      else if - int (length xs) \<le> i then py_nth xs (nat (i + int (length xs)))
      else Inl (IndexError ''list index out of range''))"

lemma py_item_ok [simp]: "0 \<le> i \<Longrightarrow> nat i < length xs \<Longrightarrow> py_item xs i = Inr (xs ! nat i)"
  by (simp add: py_item_def)

section \<open>Decimal printing\<close>

definition digit_char :: "nat \<Rightarrow> char" where
  "digit_char d = ''0123456789'' ! d"

fun show_nat :: "nat \<Rightarrow> string" where
  "show_nat n =
     (if n < 10 then [digit_char n] else show_nat (n div 10) @ [digit_char (n mod 10)])"

declare show_nat.simps [simp del]

definition show_int :: "int \<Rightarrow> string" where
  "show_int i = (if i < 0 then CHR ''-'' # show_nat (nat (- i)) else show_nat (nat i))"

definition digit_val :: "char \<Rightarrow> nat" where
  "digit_val c = of_char c - 48"

definition parse_nat :: "string \<Rightarrow> nat" where
  "parse_nat s = foldl (\<lambda>n c. 10 * n + digit_val c) 0 s"

lemma less_10_cases: "d < (10::nat) \<Longrightarrow>
    d = 0 \<or> d = 1 \<or> d = 2 \<or> d = 3 \<or> d = 4 \<or> d = 5 \<or> d = 6 \<or> d = 7 \<or> d = 8 \<or> d = 9"
  by arith

lemma digit_val_digit_char: "d < 10 \<Longrightarrow> digit_val (digit_char d) = d"
  by (drule less_10_cases) (elim disjE; simp add: digit_val_def digit_char_def)

lemma digit_char_range: "d < 10 \<Longrightarrow> digit_char d \<in> set ''0123456789''"
  unfolding digit_char_def by (rule nth_mem) simp

lemma parse_nat_snoc: "parse_nat (s @ [c]) = 10 * parse_nat s + digit_val c"
  by (simp add: parse_nat_def)

lemma parse_show_nat [simp]: "parse_nat (show_nat n) = n"
proof (induction n rule: show_nat.induct)
  case (1 n)
  show ?case
  proof (cases "n < 10")
    case True
    then show ?thesis
      by (simp add: show_nat.simps[of n] parse_nat_def digit_val_digit_char)
  next
    case False
    with 1 show ?thesis
      by (simp add: show_nat.simps[of n] parse_nat_snoc digit_val_digit_char)
  qed
qed

lemma show_nat_inj: "show_nat m = show_nat n \<Longrightarrow> m = n"
  by (metis parse_show_nat)

lemma show_nat_digits: "set (show_nat n) \<subseteq> set ''0123456789''"
proof (induction n rule: show_nat.induct)
  case (1 n)
  show ?case
    using 1 digit_char_range[of n] digit_char_range[of "n mod 10"]
    by (simp only: show_nat.simps[of n]) (simp split: if_splits)
qed

lemma show_nat_not_Nil: "show_nat n \<noteq> []"
  by (subst show_nat.simps) simp

text \<open>\<open>sep.join(parts)\<close>.\<close>

fun join :: "string \<Rightarrow> string list \<Rightarrow> string" where
  "join sep [] = []"
| "join sep [x] = x"
| "join sep (x # y # zs) = x @ sep @ join sep (y # zs)"

section \<open>Lists\<close>

text \<open>Python's \<open>range(start, stop)\<close> and \<open>range(start, stop, step)\<close>.\<close>

definition py_range :: "int \<Rightarrow> int \<Rightarrow> int \<Rightarrow> int list result" where
  "py_range start stop step =
     (if step = 0 then Inl (ValueError ''range() arg 3 must not be zero'')
      else if step > 0
        then Inr (map (\<lambda>i. start + step * int i) [0..<nat ((stop - start + step - 1) div step)])
        else Inr (map (\<lambda>i. start + step * int i) [0..<nat ((start - stop - step - 1) div (- step))]))"

lemma in_map_arith:
  assumes "step > 0"
  shows "x \<in> set (map (\<lambda>i. start + step * int i) [0..<nat ((stop - start + step - 1) div step)])
     \<longleftrightarrow> start \<le> x \<and> x < stop \<and> (x - start) mod step = (0::int)"
proof
  assume "x \<in> set (map (\<lambda>i. start + step * int i) [0..<nat ((stop - start + step - 1) div step)])"
  then obtain i where x: "x = start + step * int i"
    and i: "i < nat ((stop - start + step - 1) div step)" by fastforce
  from i have "int i + 1 \<le> (stop - start + step - 1) div step" by linarith
  then have "(int i + 1) * step \<le> (stop - start + step - 1) div step * step"
    using assms by (intro mult_right_mono) auto
  also have "\<dots> \<le> stop - start + step - 1"
    using assms by (metis div_mult_mod_eq add_le_same_cancel1 le_add_same_cancel1 pos_mod_sign)
  finally have "step * int i < stop - start" by (simp add: algebra_simps)
  with x assms show "start \<le> x \<and> x < stop \<and> (x - start) mod step = 0" by simp
next
  assume a: "start \<le> x \<and> x < stop \<and> (x - start) mod step = 0"
  let ?i = "nat ((x - start) div step)"
  have nn: "(x - start) div step \<ge> 0" using a assms by (simp add: pos_imp_zdiv_nonneg_iff)
  have xe: "x = start + step * int ?i"
    using a nn by (metis add.commute diff_add_cancel int_nat_eq mult_div_mod_eq add.right_neutral)
  have "step * ((x - start) div step) < stop - start" using a xe nn by simp
  then have "((x - start) div step + 1) * step \<le> stop - start + step - 1"
    by (simp add: algebra_simps)
  then have "(x - start) div step + 1 \<le> (stop - start + step - 1) div step"
    using assms zdiv_mono1 [of "((x - start) div step + 1) * step" _ step] by simp
  with nn have "?i < nat ((stop - start + step - 1) div step)" by linarith
  with xe show "x \<in> set (map (\<lambda>i. start + step * int i) [0..<nat ((stop - start + step - 1) div step)])"
    by (auto simp del: int_nat_eq)
qed

lemma mod_shift_inj:
  fixes a c i j :: nat
  assumes "(a + i) mod c = (a + j) mod c" and "i < c" and "j < c"
  shows "i = j"
proof -
  have *: "j' = i'" if "(a + i') mod c = (a + j') mod c" "i' \<le> j'" "j' < c" for i' j' :: nat
  proof -
    have "c dvd (a + j') - (a + i')"
      using that by (subst mod_eq_dvd_iff_nat [symmetric]) auto
    then have "c dvd j' - i'" by simp
    with that show ?thesis by (metis diff_is_0_eq dvd_imp_le le_antisym less_imp_diff_less
        neq0_conv not_le)
  qed
  from assms *[of i j] *[of j i] show ?thesis by (metis nat_le_linear)
qed

lemma int_div_less:
  fixes a g p :: int
  assumes "0 < p" and "a < g * p"
  shows "a div p < g"
proof (rule ccontr)
  assume "\<not> a div p < g"
  then have "g * p \<le> a div p * p" using assms(1) by (intro mult_right_mono) auto
  also have "\<dots> \<le> a"
    using assms(1) by (metis add.commute le_add_same_cancel1 mod_div_mult_eq pos_mod_sign)
  finally show False using assms(2) by simp
qed

lemma sum_list_replicate_nat [simp]: "sum_list (replicate n (x::nat)) = n * x"
  by (induction n) auto

end
