(* ===== verification/Torch.thy ===== *)
theory Torch
  imports Prelude
begin

text \<open>
  The tensor library is not part of the repository: its operations are the fields of the
  record \<open>torch\<close>, an argument of every definition that calls it, over a type \<open>'x\<close> of
  tensors. What the code relies on is stated as the named laws at the end; each is documented
  behaviour of PyTorch. A tensor is a value here: that a slice is a view sharing storage with
  its base is not modelled.

  \<open>class Tensor\<close> of \<open>python/sim/ttnnsim.py\<close> wraps one torch tensor and is identified
  with it.
\<close>

record 'x torch =
  shape_of :: "'x \<Rightarrow> nat list"
  t_zeros :: "nat list \<Rightarrow> 'x \<Rightarrow> 'x"
  t_add :: "'x \<Rightarrow> 'x \<Rightarrow> 'x result"
  t_mul :: "'x \<Rightarrow> 'x \<Rightarrow> 'x result"
  t_maximum :: "'x \<Rightarrow> 'x \<Rightarrow> 'x result"
  t_matmul :: "'x \<Rightarrow> 'x \<Rightarrow> 'x result"
  t_transpose :: "'x \<Rightarrow> 'x result"
  t_stack :: "'x list \<Rightarrow> 'x result"
  t_reshape :: "'x \<Rightarrow> nat list \<Rightarrow> 'x result"
  t_index :: "'x \<Rightarrow> nat \<Rightarrow> 'x result"
  t_index2 :: "'x \<Rightarrow> int \<Rightarrow> int \<Rightarrow> 'x result"
  t_assign2 :: "'x \<Rightarrow> int \<Rightarrow> int \<Rightarrow> 'x \<Rightarrow> 'x result"
  t_slice :: "'x \<Rightarrow> int \<times> int \<Rightarrow> int \<times> int \<Rightarrow> 'x result"
  t_assign :: "'x \<Rightarrow> int \<times> int \<Rightarrow> int \<times> int \<Rightarrow> 'x \<Rightarrow> 'x result"
  t_expand_first :: "int list \<Rightarrow> 'x \<Rightarrow> 'x result"

text \<open>The constant \<open>TILE_SHAPE\<close> of \<open>python/sim/constants.py\<close>.\<close>

definition TILE_SHAPE :: "nat list" where
  "TILE_SHAPE = [32, 32]"

text \<open>
  What a slice \<open>a:b\<close> with explicit bounds selects of a dimension of size \<open>n\<close>: negative
  bounds count from the end, both are clipped to the dimension.
\<close>

definition clip_index :: "nat \<Rightarrow> int \<Rightarrow> int" where
  "clip_index n i = (if i < 0 then max 0 (i + int n) else min i (int n))"

definition slice_indices :: "nat \<Rightarrow> int \<times> int \<Rightarrow> int list" where
  "slice_indices n s = [clip_index n (fst s)..clip_index n (snd s) - 1]"

lemma slice_indices_inside:
  assumes "0 \<le> a" and "a \<le> b" and "b \<le> int n"
  shows "slice_indices n (a, b) = [a..b - 1]"
  using assms by (simp add: slice_indices_def clip_index_def)

lemma set_slice_indices: "set (slice_indices n s) \<subseteq> {0..<int n}"
  by (auto simp: slice_indices_def clip_index_def split: if_splits)

section \<open>Laws of slicing\<close>

text \<open>
  The shape of a slice of a matrix; reading a slice back after assigning a value of its shape,
  and reading another one that shares no element with it.
\<close>

definition slice_shape :: "nat \<Rightarrow> nat \<Rightarrow> int \<times> int \<Rightarrow> int \<times> int \<Rightarrow> nat list" where
  "slice_shape m n r c = [length (slice_indices m r), length (slice_indices n c)]"

definition assign_laws :: "'x torch \<Rightarrow> bool" where
  "assign_laws T \<longleftrightarrow>
     (\<forall>x r c v y. t_assign T x r c v = Inr y \<longrightarrow> shape_of T y = shape_of T x) \<and>
     (\<forall>x m n r c v. shape_of T x = [m, n] \<longrightarrow> t_slice T x r c = Inr v \<longrightarrow>
        shape_of T v = slice_shape m n r c) \<and>
     (\<forall>x m n r c v y. shape_of T x = [m, n] \<longrightarrow> shape_of T v = slice_shape m n r c \<longrightarrow>
        t_assign T x r c v = Inr y \<longrightarrow> t_slice T y r c = Inr v) \<and>
     (\<forall>x m n r c r' c' v y. shape_of T x = [m, n] \<longrightarrow> t_assign T x r c v = Inr y \<longrightarrow>
        set (slice_indices m r) \<inter> set (slice_indices m r') = {} \<or>
        set (slice_indices n c) \<inter> set (slice_indices n c') = {} \<longrightarrow>
        t_slice T y r' c' = t_slice T x r' c')"

lemma assign_shape: "assign_laws T \<Longrightarrow> t_assign T x r c v = Inr y \<Longrightarrow> shape_of T y = shape_of T x"
  unfolding assign_laws_def by (elim conjE) meson

lemma slice_shape: "assign_laws T \<Longrightarrow> shape_of T x = [m, n] \<Longrightarrow> t_slice T x r c = Inr v \<Longrightarrow>
    shape_of T v = slice_shape m n r c"
  unfolding assign_laws_def by (elim conjE) meson

lemma assign_same:
  "assign_laws T \<Longrightarrow> shape_of T x = [m, n] \<Longrightarrow> shape_of T v = slice_shape m n r c \<Longrightarrow>
     t_assign T x r c v = Inr y \<Longrightarrow> t_slice T y r c = Inr v"
  unfolding assign_laws_def by (elim conjE) meson

lemma assign_other:
  "assign_laws T \<Longrightarrow> shape_of T x = [m, n] \<Longrightarrow> t_assign T x r c v = Inr y \<Longrightarrow>
     set (slice_indices m r) \<inter> set (slice_indices m r') = {} \<or>
     set (slice_indices n c) \<inter> set (slice_indices n c') = {} \<Longrightarrow>
     t_slice T y r' c' = t_slice T x r' c'"
  unfolding assign_laws_def by (elim conjE) meson

end
