(* ===== verification/Ttnnsim.thy ===== *)
theory Ttnnsim
  imports Tensoraccessor "HOL-Library.Multiset"
begin

text \<open>
  The rest of \<open>python/sim/ttnnsim.py\<close>: tile shapes, broadcasting of tile lists, core ranges
  and \<open>split_work_to_cores\<close>.

  The lemmas: the work split assigns every unit exactly once, to distinct cores of the grid,
  the loads of two cores differ by at most one unit, and for a set of ranges without
  inverted ones the counts agree with the lists of cores.
\<close>

definition tensor_shape_in_tiles :: "nat list \<Rightarrow> nat list \<Rightarrow> nat list" where
  "tensor_shape_in_tiles shp tile = map (\<lambda>(d, t). d div t) (zip shp tile)"

definition broadcast_tensors ::
    "'x torch \<Rightarrow> 'x list \<Rightarrow> 'x list \<Rightarrow> nat list \<Rightarrow> nat list \<Rightarrow> ('x \<Rightarrow> 'x \<Rightarrow> 'x result) \<Rightarrow>
     'x list result" where
  "broadcast_tensors T left_tensors right_tensors left_shape right_shape op =
     rbind (t_stack T left_tensors) (\<lambda>left_batched.
     rbind (t_stack T right_tensors) (\<lambda>right_batched.
     rbind (t_reshape T left_batched (left_shape @ tl (shape_of T left_batched))) (\<lambda>left_reshaped.
     rbind (t_reshape T right_batched (right_shape @ tl (shape_of T right_batched))) (\<lambda>right_reshaped.
     rbind (op left_reshaped right_reshaped) (\<lambda>result_batched.
     rbind (py_nth (shape_of T result_batched) 0) (\<lambda>d0.
     rbind (py_nth (shape_of T result_batched) 1) (\<lambda>d1.
     rbind (t_reshape T result_batched ((d0 * d1) # drop 2 (shape_of T result_batched))) (\<lambda>result_flat.
       rmap (\<lambda>i. t_index T result_flat i) [0..<d0 * d1]))))))))"

section \<open>Cores and core ranges\<close>

record core_xy =
  cx :: int
  cy :: int

definition core_at :: "int \<Rightarrow> int \<Rightarrow> core_xy" where
  "core_at x y = \<lparr>cx = x, cy = y\<rparr>"

record core_range =
  cr_start :: core_xy
  cr_end :: core_xy

definition num_cores :: "core_range \<Rightarrow> int" where
  "num_cores r = (cx (cr_end r) - cx (cr_start r) + 1) * (cy (cr_end r) - cy (cr_start r) + 1)"

definition set_num_cores :: "core_range list \<Rightarrow> int" where
  "set_num_cores rs = sum_list (map num_cores rs)"

definition compute_with_storage_grid_size :: core_xy where
  "compute_with_storage_grid_size = core_at 8 8"

text \<open>The nested loops over a grid, in the two orders, and over a list of ranges.\<close>

definition grid_cores :: "bool \<Rightarrow> int \<Rightarrow> int \<Rightarrow> core_xy list" where
  "grid_cores row_wise gx gy =
     (if row_wise then concat (map (\<lambda>y. map (\<lambda>x. core_at x y) [0..gx - 1]) [0..gy - 1])
      else concat (map (\<lambda>x. map (\<lambda>y. core_at x y) [0..gy - 1]) [0..gx - 1]))"

definition range_cores :: "core_range \<Rightarrow> core_xy list" where
  "range_cores r =
     concat (map (\<lambda>y. map (\<lambda>x. core_at x y) [cx (cr_start r)..cx (cr_end r)])
                 [cy (cr_start r)..cy (cr_end r)])"

definition all_range_cores :: "core_range list \<Rightarrow> core_xy list" where
  "all_range_cores rs = concat (map range_cores rs)"

text \<open>\<open>if len(cores_list) < n: cores_list.append(c)\<close> over the loop.\<close>

fun append_up_to :: "int \<Rightarrow> core_xy list \<Rightarrow> core_xy list \<Rightarrow> core_xy list" where
  "append_up_to n acc [] = acc"
| "append_up_to n acc (c # cs) =
     append_up_to n (if int (length acc) < n then acc @ [c] else acc) cs"

definition singleton_ranges :: "core_xy list \<Rightarrow> core_range list" where
  "singleton_ranges cs = map (\<lambda>c. \<lparr>cr_start = c, cr_end = c\<rparr>) cs"

datatype core_grid = Grid core_xy | Range_set "core_range list"

record work_split =
  ws_num_cores :: int
  ws_all :: "core_range list"
  ws_group1 :: "core_range list"
  ws_group2 :: "core_range list"
  ws_units1 :: int
  ws_units2 :: int

definition split_work_to_cores :: "core_grid \<Rightarrow> int \<Rightarrow> bool \<Rightarrow> work_split" where
  "split_work_to_cores core_grid units row_wise =
     (let (n, all_cores, cores) =
        (case core_grid of
           Grid g \<Rightarrow>
             (cx g * cy g,
              [\<lparr>cr_start = core_at 0 0, cr_end = core_at (cx g - 1) (cy g - 1)\<rparr>],
              grid_cores row_wise (cx g) (cy g))
         | Range_set rs \<Rightarrow> (set_num_cores rs, rs, all_range_cores rs));
        used = min n units in
      if used = 0 \<or> units = 0
      then \<lparr>ws_num_cores = 0, ws_all = [], ws_group1 = [], ws_group2 = [],
            ws_units1 = 0, ws_units2 = 0\<rparr>
      else
        let base = units div used;
            remainder = units mod used in
        if remainder > 0
        then
          \<lparr>ws_num_cores = used, ws_all = all_cores,
           ws_group1 = singleton_ranges (take (nat remainder) cores),
           ws_group2 = singleton_ranges (drop (nat remainder) (take (nat used) cores)),
           ws_units1 = base + 1, ws_units2 = base\<rparr>
        else
          \<lparr>ws_num_cores = used, ws_all = all_cores,
           ws_group1 = singleton_ranges (append_up_to used [] cores),
           ws_group2 = [], ws_units1 = base, ws_units2 = 0\<rparr>)"

section \<open>Lemmas about the split\<close>

lemma append_up_to_take: "append_up_to n acc cs = acc @ take (nat (n - int (length acc))) cs"
proof (induction cs arbitrary: acc)
  case (Cons c cs)
  show ?case
  proof (cases "int (length acc) < n")
    case True
    then have "nat (n - int (length acc)) = Suc (nat (n - int (length (acc @ [c]))))" by simp
    with True Cons [of "acc @ [c]"] show ?thesis by simp
  next
    case False
    with Cons [of acc] show ?thesis by simp
  qed
qed simp

lemma length_grid_cores: "0 \<le> gx \<Longrightarrow> 0 \<le> gy \<Longrightarrow> length (grid_cores rw gx gy) = nat (gx * gy)"
  by (simp add: grid_cores_def length_concat comp_def sum_list_triv nat_mult_distrib mult.commute)

lemma core_at_inj [simp]: "core_at x y = core_at x' y' \<longleftrightarrow> x = x' \<and> y = y'"
  by (auto simp: core_at_def)

lemma distinct_nested:
  assumes "distinct xs" and "distinct ys" and "\<And>x y x' y'. f x y = f x' y' \<Longrightarrow> x = x' \<and> y = y'"
  shows "distinct (concat (map (\<lambda>x. map (f x) ys) xs))"
  using assms(1)
proof (induction xs)
  case (Cons x xs)
  have "distinct (map (f x) ys)" using assms(2,3) by (auto simp: distinct_map inj_on_def)
  moreover have "set (map (f x) ys) \<inter> set (concat (map (\<lambda>x. map (f x) ys) xs)) = {}"
    using Cons.prems assms(3) by fastforce
  ultimately show ?case using Cons by simp
qed simp

lemma distinct_grid_cores: "distinct (grid_cores rw gx gy)"
  using distinct_nested [of "[0..gy - 1]" "[0..gx - 1]" "\<lambda>y x. core_at x y"]
    distinct_nested [of "[0..gx - 1]" "[0..gy - 1]" core_at]
  by (simp add: grid_cores_def)

lemma set_grid_cores:
  "set (grid_cores rw gx gy) = {core_at x y |x y. 0 \<le> x \<and> x < gx \<and> 0 \<le> y \<and> y < gy}"
  by (auto simp: grid_cores_def)

definition proper_range :: "core_range \<Rightarrow> bool" where
  "proper_range r \<longleftrightarrow>
     cx (cr_start r) \<le> cx (cr_end r) + 1 \<and> cy (cr_start r) \<le> cy (cr_end r) + 1"

lemma length_range_cores: "proper_range r \<Longrightarrow> int (length (range_cores r)) = num_cores r"
  by (simp add: range_cores_def length_concat comp_def sum_list_triv num_cores_def proper_range_def
      algebra_simps)

lemma length_all_range_cores:
  "\<forall>r\<in>set rs. proper_range r \<Longrightarrow> int (length (all_range_cores rs)) = set_num_cores rs"
  by (induction rs) (auto simp: all_range_cores_def set_num_cores_def length_range_cores)

text \<open>The cores a split can use, and when the code counts them right.\<close>

fun cores_of :: "core_grid \<Rightarrow> bool \<Rightarrow> core_xy list" where
  "cores_of (Grid g) rw = grid_cores rw (cx g) (cy g)"
| "cores_of (Range_set rs) rw = all_range_cores rs"

fun proper_grid :: "core_grid \<Rightarrow> bool" where
  "proper_grid (Grid g) \<longleftrightarrow> 0 \<le> cx g \<and> 0 \<le> cy g"
| "proper_grid (Range_set rs) \<longleftrightarrow> (\<forall>r\<in>set rs. proper_range r)"

definition group_cores :: "core_range list \<Rightarrow> core_xy list" where
  "group_cores rs = map cr_start rs"

lemma group_cores_singletons [simp]: "group_cores (singleton_ranges cs) = cs"
  by (simp add: group_cores_def singleton_ranges_def comp_def)

lemma num_cores_singletons [simp]: "set_num_cores (singleton_ranges cs) = int (length cs)"
  by (induction cs) (simp_all add: set_num_cores_def singleton_ranges_def num_cores_def)

lemma split_work_eq:
  assumes "proper_grid g" and "0 \<le> units"
    and cs_def: "cs = cores_of g rw" and used_def: "used = min (int (length cs)) units"
  shows "if used = 0 then split_work_to_cores g units rw =
      \<lparr>ws_num_cores = 0, ws_all = [], ws_group1 = [], ws_group2 = [], ws_units1 = 0, ws_units2 = 0\<rparr>
    else
      ws_num_cores (split_work_to_cores g units rw) = used \<and>
      (if units mod used > 0
       then group_cores (ws_group1 (split_work_to_cores g units rw)) = take (nat (units mod used)) cs \<and>
         group_cores (ws_group2 (split_work_to_cores g units rw)) =
            drop (nat (units mod used)) (take (nat used) cs) \<and>
         ws_units1 (split_work_to_cores g units rw) = units div used + 1 \<and>
         ws_units2 (split_work_to_cores g units rw) = units div used
       else group_cores (ws_group1 (split_work_to_cores g units rw)) = take (nat used) cs \<and>
         ws_group2 (split_work_to_cores g units rw) = [] \<and>
         ws_units1 (split_work_to_cores g units rw) = units div used)"
proof -
  have n: "(case g of Grid g \<Rightarrow> cx g * cy g | Range_set rs \<Rightarrow> set_num_cores rs) = int (length cs)"
    using assms(1) by (cases g) (simp_all add: cs_def length_grid_cores length_all_range_cores)
  have c: "(case g of Grid g \<Rightarrow> grid_cores rw (cx g) (cy g) | Range_set rs \<Rightarrow> all_range_cores rs) = cs"
    by (cases g) (simp_all add: cs_def)
  show ?thesis
    using n c
    by (cases g) (auto simp: split_work_to_cores_def Let_def used_def append_up_to_take)
qed

text \<open>The two groups together are the first cores of the list, each once.\<close>

lemma split_groups:
  assumes "proper_grid g" and "0 \<le> units"
    and w_def: "w = split_work_to_cores g units rw"
  shows "group_cores (ws_group1 w) @ group_cores (ws_group2 w) =
      take (nat (ws_num_cores w)) (cores_of g rw)"
    and "ws_num_cores w = min (int (length (cores_of g rw))) units"
proof -
  let ?n = "int (length (cores_of g rw))"
  let ?used = "min ?n units"
  have u: "0 \<le> ?used" using assms(2) by simp
  have "group_cores (ws_group1 w) @ group_cores (ws_group2 w) =
      take (nat (ws_num_cores w)) (cores_of g rw) \<and> ws_num_cores w = ?used"
  proof (cases "?used = 0")
    case True
    with split_work_eq [OF assms(1,2) refl refl, of rw] show ?thesis
      by (simp add: w_def group_cores_def)
  next
    case False
    note E = split_work_eq [OF assms(1,2) refl refl, of rw, simplified False if_False]
    show ?thesis
    proof (cases "units mod ?used > 0")
      case True
      have "units mod ?used < ?used" using False u by (intro pos_mod_bound) linarith
      then have "nat (units mod ?used) \<le> nat ?used" by (intro nat_mono) linarith
      then have "take (nat (units mod ?used)) (cores_of g rw) @
          drop (nat (units mod ?used)) (take (nat ?used) (cores_of g rw)) = take (nat ?used) (cores_of g rw)"
        by (metis append_take_drop_id min.absorb1 take_take)
      with E True show ?thesis unfolding w_def by simp
    next
      case no: False
      with E show ?thesis unfolding w_def by (simp add: group_cores_def)
    qed
  qed
  then show "group_cores (ws_group1 w) @ group_cores (ws_group2 w) =
      take (nat (ws_num_cores w)) (cores_of g rw)"
    and "ws_num_cores w = min (int (length (cores_of g rw))) units" by blast+
qed

lemma split_units:
  assumes "proper_grid g" and "0 \<le> units"
    and w_def: "w = split_work_to_cores g units rw"
  shows "ws_units1 w * int (length (group_cores (ws_group1 w))) +
      ws_units2 w * int (length (group_cores (ws_group2 w))) =
      (if cores_of g rw = [] then 0 else units)"
    and "ws_group2 w \<noteq> [] \<Longrightarrow> ws_units1 w = ws_units2 w + 1"
proof -
  let ?n = "int (length (cores_of g rw))"
  let ?used = "min ?n units"
  have u: "0 \<le> ?used" using assms(2) by simp
  have "ws_units1 w * int (length (group_cores (ws_group1 w))) +
      ws_units2 w * int (length (group_cores (ws_group2 w))) =
      (if cores_of g rw = [] then 0 else units) \<and>
      (ws_group2 w \<noteq> [] \<longrightarrow> ws_units1 w = ws_units2 w + 1)"
  proof (cases "?used = 0")
    case True
    with split_work_eq [OF assms(1,2) refl refl, of rw] assms(2) show ?thesis
      by (auto simp: w_def min_def split: if_splits)
  next
    case False
    then have ne: "cores_of g rw \<noteq> []" using assms(2) by auto
    note E = split_work_eq [OF assms(1,2) refl refl, of rw, simplified False if_False]
    let ?m = "units mod ?used"
    have up: "0 < ?used" using False u by linarith
    have m: "?m < ?used" "0 \<le> ?m" using pos_mod_bound [OF up] pos_mod_sign [OF up] by blast+
    have units: "units = (units div ?used) * ?used + ?m" by (simp only: div_mult_mod_eq)
    show ?thesis
    proof (cases "?m > 0")
      case True
      have le: "nat ?m \<le> length (cores_of g rw)" "nat ?used \<le> length (cores_of g rw)"
        using m by linarith+
      have "length (group_cores (ws_group1 w)) = nat ?m"
        using E True le unfolding w_def by (simp only: if_True length_take min.absorb2)
      then have l1: "int (length (group_cores (ws_group1 w))) = ?m" using m by simp
      have "length (group_cores (ws_group2 w)) = nat ?used - nat ?m"
        using E True le unfolding w_def by (simp only: if_True length_take length_drop min.absorb2)
      then have l2: "int (length (group_cores (ws_group2 w))) = ?used - ?m" using m up by linarith
      have e: "ws_units1 w = units div ?used + 1" "ws_units2 w = units div ?used"
        using E True unfolding w_def by (simp_all only: if_True)
      have "(units div ?used + 1) * ?m + units div ?used * (?used - ?m) = units"
        using units by (simp only: distrib_right right_diff_distrib)
      with ne show ?thesis by (simp only: e l1 l2 if_False) blast
    next
      case no: False
      then have m0: "?m = 0" using m by linarith
      have "nat ?used \<le> length (cores_of g rw)" by linarith
      then have "length (group_cores (ws_group1 w)) = nat ?used"
        using E no unfolding w_def by (simp only: if_False length_take min.absorb2)
      then have l1: "int (length (group_cores (ws_group1 w))) = ?used" using up by linarith
      have e: "ws_units1 w = units div ?used" "ws_group2 w = []"
        using E no unfolding w_def by (simp_all only: if_False)
      have "units div ?used * ?used = units" using units m0 by (simp only: add_0_right)
      with ne show ?thesis by (simp only: e l1 if_False) (simp add: group_cores_def)
    qed
  qed
  then show "ws_units1 w * int (length (group_cores (ws_group1 w))) +
      ws_units2 w * int (length (group_cores (ws_group2 w))) =
      (if cores_of g rw = [] then 0 else units)"
    and "ws_group2 w \<noteq> [] \<Longrightarrow> ws_units1 w = ws_units2 w + 1" by blast+
qed

section \<open>Properties\<close>

text \<open>Property C26: \<open>split_work_to_cores\<close> hands out every unit of work exactly once: the cores
  of the two groups, with their units per core, add up to the requested units (whenever there
  is a core), no core appears in both groups or twice, every core lies in the grid, and two
  cores differ by at most one unit.\<close>

theorem split_work_conserves:
  assumes "0 \<le> cx g" and "0 \<le> cy g" and "0 \<le> units" and "0 < cx g * cy g"
  shows "ws_units1 (split_work_to_cores (Grid g) units rw) *
        set_num_cores (ws_group1 (split_work_to_cores (Grid g) units rw)) +
      ws_units2 (split_work_to_cores (Grid g) units rw) *
        set_num_cores (ws_group2 (split_work_to_cores (Grid g) units rw)) = units \<and>
    distinct (group_cores (ws_group1 (split_work_to_cores (Grid g) units rw)) @
        group_cores (ws_group2 (split_work_to_cores (Grid g) units rw))) \<and>
    (\<forall>c\<in>set (group_cores (ws_group1 (split_work_to_cores (Grid g) units rw)) @
        group_cores (ws_group2 (split_work_to_cores (Grid g) units rw))).
        0 \<le> cx c \<and> cx c < cx g \<and> 0 \<le> cy c \<and> cy c < cy g) \<and>
    (ws_group2 (split_work_to_cores (Grid g) units rw) \<noteq> [] \<longrightarrow>
        ws_units1 (split_work_to_cores (Grid g) units rw) =
        ws_units2 (split_work_to_cores (Grid g) units rw) + 1)"
proof -
  let ?w = "split_work_to_cores (Grid g) units rw"
  have pg: "proper_grid (Grid g)" using assms by simp
  have ne: "cores_of (Grid g) rw \<noteq> []"
    using assms(4) length_grid_cores [OF assms(1,2), of rw] by auto
  note G = split_groups [OF pg assms(3) refl, of rw] and U = split_units [OF pg assms(3) refl, of rw]
  have single: "\<exists>cs1 cs2. ws_group1 ?w = singleton_ranges cs1 \<and> ws_group2 ?w = singleton_ranges cs2"
    by (auto simp: split_work_to_cores_def Let_def) (metis list.simps(8) singleton_ranges_def)+
  then have n1: "set_num_cores (ws_group1 ?w) = int (length (group_cores (ws_group1 ?w)))"
    and n2: "set_num_cores (ws_group2 ?w) = int (length (group_cores (ws_group2 ?w)))"
    by auto
  have cs: "set (group_cores (ws_group1 ?w) @ group_cores (ws_group2 ?w)) \<subseteq> set (grid_cores rw (cx g) (cy g))"
    unfolding G(1) using set_take_subset by fastforce
  have "distinct (group_cores (ws_group1 ?w) @ group_cores (ws_group2 ?w))"
    unfolding G(1) using distinct_grid_cores by (simp add: distinct_take)
  moreover have "\<forall>c\<in>set (group_cores (ws_group1 ?w) @ group_cores (ws_group2 ?w)).
      0 \<le> cx c \<and> cx c < cx g \<and> 0 \<le> cy c \<and> cy c < cy g"
    using cs by (auto simp: set_grid_cores core_at_def)
  ultimately show ?thesis using U ne by (simp only: n1 n2) auto
qed

theorem split_work_conserves_witness:
  "ws_units1 (split_work_to_cores (Grid (core_at 8 8)) 100 False) *
        set_num_cores (ws_group1 (split_work_to_cores (Grid (core_at 8 8)) 100 False)) +
      ws_units2 (split_work_to_cores (Grid (core_at 8 8)) 100 False) *
        set_num_cores (ws_group2 (split_work_to_cores (Grid (core_at 8 8)) 100 False)) = 100"
  using split_work_conserves [of "core_at 8 8" 100 False] by (simp add: core_at_def)

text \<open>The element ranges of the tiles of an aligned dimension partition it: every
  element index lies in the range of exactly one tile, the one of its index divided by the tile
  size (a dimension of size one has the single tile 0).\<close>

lemma tile_ranges_partition:
  assumes "d = 1 \<or> d mod (TILE_SHAPE ! 0) = 0" and "0 \<le> k" and "k < int d"
  shows "\<exists>!i. i < fst (get_tile_shape [d, n]) \<and>
    k \<in> set (slice_indices d (element_range (TILE_SHAPE ! 0) (int i, int i + 1)))"
proof -
  have r: "element_range (TILE_SHAPE ! 0) (int i, int i + 1) = tile_range i" for i
    by (simp add: element_range_def TILE_SHAPE_def tile_range_def)
  have a: "d = 1 \<or> d mod 32 = 0" using assms(1) by (simp add: TILE_SHAPE_def)
  show ?thesis
    unfolding r get_tile_shape_eq fst_conv
    using tile_ranges_cover [OF a assms(2,3)] in_tile_range [OF a] by (metis of_nat_eq_iff)
qed

lemma tile_ranges_partition_witness:
  "\<exists>!i. i < fst (get_tile_shape [64, 32]) \<and>
    40 \<in> set (slice_indices 64 (element_range (TILE_SHAPE ! 0) (int i, int i + 1)))"
  by (rule tile_ranges_partition) (simp_all add: TILE_SHAPE_def)

end
