(* ===== verification/Simtensor.thy ===== *)
theory Simtensor
  imports Ttnnsim
begin

text \<open>
  The operators and conversions of \<open>class Tensor\<close> of \<open>python/sim/ttnnsim.py\<close>, and the wrapper it
  puts around golden functions. As in Torch a \<open>Tensor\<close> is identified with
  the torch tensor it wraps where only one of them can occur. The arithmetic of torch is the parameter
  \<open>torch_ops\<close>, by the name of the operation.
\<close>

section \<open>Operators\<close>

text \<open>The operand of an operator: a \<open>Tensor\<close>, a \<open>float\<close> or \<open>int\<close>, or any other object.\<close>

datatype ('x, 'k) operand = Op_tensor 'x | Op_scalar 'k | Op_other

record ('x, 'k, 'd) torch_ops =
  tensor_tensor :: "string \<Rightarrow> 'x \<Rightarrow> 'x \<Rightarrow> 'x result"
  tensor_scalar :: "string \<Rightarrow> 'x \<Rightarrow> 'k \<Rightarrow> 'x result"
  scalar_tensor :: "string \<Rightarrow> 'k \<Rightarrow> 'x \<Rightarrow> 'x result"
  dtype_name :: "'x \<Rightarrow> 'd"
  convert_to :: "'x \<Rightarrow> 'd \<Rightarrow> 'x result"
  squeeze_all :: "'x \<Rightarrow> 'x result"
  squeeze_dim :: "'x \<Rightarrow> int \<Rightarrow> 'x result"
  rand_float32 :: "nat list \<Rightarrow> 'x result"
  empty_of :: "nat list \<Rightarrow> 'd \<Rightarrow> 'x result"

text \<open>
  \<open>__add__\<close>, \<open>__sub__\<close>, \<open>__mul__\<close>, \<open>__truediv__\<close>, \<open>__floordiv__\<close>, \<open>__mod__\<close>, \<open>__pow__\<close> by the
  symbol of the operator, their reflected versions and \<open>__matmul__\<close>. \<open>None\<close> is \<open>NotImplemented\<close>.
\<close>

definition OPERATORS :: "string list" where
  "OPERATORS = [''+'', ''-'', ''*'', ''/'', ''//'', ''%'', ''**'']"

definition tensor_binary :: "('x, 'k, 'd) torch_ops \<Rightarrow> string \<Rightarrow> 'x \<Rightarrow> ('x, 'k) operand \<Rightarrow> 'x result option" where
  "tensor_binary T o1 x other =
     (case other of
        Op_tensor y \<Rightarrow> Some (tensor_tensor T o1 x y)
      | Op_scalar k \<Rightarrow> Some (tensor_scalar T o1 x k)
      | Op_other \<Rightarrow> None)"

definition tensor_matmul :: "('x, 'k, 'd) torch_ops \<Rightarrow> 'x \<Rightarrow> ('x, 'k) operand \<Rightarrow> 'x result option" where
  "tensor_matmul T x other =
     (case other of Op_tensor y \<Rightarrow> Some (tensor_tensor T ''@'' x y) | _ \<Rightarrow> None)"

definition tensor_reflected :: "('x, 'k, 'd) torch_ops \<Rightarrow> string \<Rightarrow> 'x \<Rightarrow> ('x, 'k) operand \<Rightarrow> 'x result option" where
  "tensor_reflected T o1 x other =
     (case other of Op_scalar k \<Rightarrow> Some (scalar_tensor T o1 k x) | _ \<Rightarrow> None)"

text \<open>
  \<open>a OP b\<close> as Python evaluates it when at least one operand is a \<open>Tensor\<close> and no other object has a
  method for the operator: numbers have none for a \<open>Tensor\<close>.
\<close>

definition operator_error :: exn where
  "operator_error = TypeError ''unsupported operand type(s)''"

definition binary_operator ::
    "('x, 'k, 'd) torch_ops \<Rightarrow> string \<Rightarrow> ('x, 'k) operand \<Rightarrow> ('x, 'k) operand \<Rightarrow> 'x result" where
  "binary_operator T o1 a b =
     (case (a, b) of
        (Op_tensor x, _) \<Rightarrow>
          (case (if o1 = ''@'' then tensor_matmul T x b
                 else if o1 \<in> set OPERATORS then tensor_binary T o1 x b else None) of
             Some r \<Rightarrow> r | None \<Rightarrow> Inl operator_error)
      | (_, Op_tensor y) \<Rightarrow>
          (case (if o1 \<in> set OPERATORS then tensor_reflected T o1 y a else None) of
             Some r \<Rightarrow> r | None \<Rightarrow> Inl operator_error)
      | _ \<Rightarrow> Inl operator_error)"

lemma binary_operator_defined:
  "o1 \<in> set OPERATORS \<union> {''@''} \<Longrightarrow> binary_operator T o1 (Op_tensor x) (Op_tensor y) = tensor_tensor T o1 x y"
  "o1 \<in> set OPERATORS \<Longrightarrow> binary_operator T o1 (Op_scalar k) (Op_tensor y) = scalar_tensor T o1 k y"
  "binary_operator T ''@'' (Op_scalar k) (Op_tensor y) = Inl operator_error"
  by (auto simp: binary_operator_def tensor_binary_def tensor_matmul_def tensor_reflected_def OPERATORS_def)

section \<open>Creation and conversion\<close>

definition rand :: "('x, 'k, 'd) torch_ops \<Rightarrow> nat list \<Rightarrow> 'd \<Rightarrow> 'x result" where
  "rand T shp dtype = rbind (rand_float32 T shp) (\<lambda>t. convert_to T t dtype)"

definition empty_tensor :: "('x, 'k, 'd) torch_ops \<Rightarrow> nat list \<Rightarrow> 'd \<Rightarrow> 'x result" where
  "empty_tensor T shp dtype = empty_of T shp dtype"

text \<open>An object that is a \<open>Tensor\<close>, a torch tensor or something else.\<close>

datatype ('x, 'o) py_object = Py_Tensor 'x | Py_torch 'x | Py_object 'o

definition to_torch :: "('x, 'o) py_object \<Rightarrow> 'x result" where
  "to_torch t =
     (case t of Py_Tensor x \<Rightarrow> Inr x | Py_torch x \<Rightarrow> Inr x | Py_object _ \<Rightarrow> Inl (TypeError ''Unsupported type for to_torch''))"

definition from_torch :: "('x, 'k, 'd) torch_ops \<Rightarrow> 'x \<Rightarrow> 'd option \<Rightarrow> 'x result" where
  "from_torch T x dtype =
     (case dtype of None \<Rightarrow> Inr x | Some d \<Rightarrow> if dtype_name T x \<noteq> d then convert_to T x d else Inr x)"

definition squeeze :: "('x, 'k, 'd) torch_ops \<Rightarrow> 'x \<Rightarrow> int option \<Rightarrow> 'x result" where
  "squeeze T x dim = (case dim of None \<Rightarrow> squeeze_all T x | Some d \<Rightarrow> squeeze_dim T x d)"

text \<open>The wrapper around a golden function: it sees torch tensors only, and its result is wrapped.\<close>

definition convert_arg :: "('x, 'o) py_object \<Rightarrow> ('x, 'o) py_object" where
  "convert_arg a = (case a of Py_Tensor x \<Rightarrow> Py_torch x | _ \<Rightarrow> a)"

definition wrap_result :: "('x, 'o) py_object \<Rightarrow> ('x, 'o) py_object" where
  "wrap_result r = (case r of Py_torch x \<Rightarrow> Py_Tensor x | _ \<Rightarrow> r)"

definition golden_wrapper ::
    "(('x, 'o) py_object list \<Rightarrow> (string \<times> ('x, 'o) py_object) list \<Rightarrow> ('x, 'o) py_object result) \<Rightarrow>
     ('x, 'o) py_object list \<Rightarrow> (string \<times> ('x, 'o) py_object) list \<Rightarrow> ('x, 'o) py_object result" where
  "golden_wrapper golden_fn args kwargs =
     rbind (golden_fn (map convert_arg args) (map (map_prod id convert_arg) kwargs)) (\<lambda>r. Inr (wrap_result r))"

lemma golden_wrapper_sides:
  assumes "golden_wrapper g args kwargs = Inr r"
  shows "(\<forall>x. r \<noteq> Py_torch x) \<and> (\<exists>args' kwargs'. (\<forall>a \<in> set args' \<union> snd ` set kwargs'. \<forall>x. a \<noteq> Py_Tensor x) \<and>
    rbind (g args' kwargs') (\<lambda>r. Inr (wrap_result r)) = Inr r)"
proof -
  have "convert_arg a \<noteq> Py_Tensor x" "Py_Tensor x \<noteq> convert_arg a" "wrap_result a \<noteq> Py_torch x" for a :: "('a, 'b) py_object" and x
    by (auto simp: convert_arg_def wrap_result_def split: py_object.splits)
  with assms show ?thesis
    by (auto simp: golden_wrapper_def rbind_eq_Inr intro!: exI [of _ "map convert_arg args"]
        exI [of _ "map (map_prod id convert_arg) kwargs"])
qed

end
