(* ===== verification/Corecontext.thy ===== *)
theory Corecontext
  imports Prelude
begin

text \<open>
  Core coordinates and the grid: \<open>python/sim/corecontext.py\<close>. The call stack in which
  \<open>_get_from_frame\<close> looks for \<open>_core\<close> and \<open>grid\<close> is an argument, the innermost frame
  first. Coordinates and dimensions are Python integers.

  The lemmas: \<open>core\<close> in the grid's own dimensionality lists the digits of the core
  number in the mixed radix of the grid, \<open>flatten_core_index\<close> is its inverse, distinct
  cores have distinct coordinates in every dimensionality, and \<open>grid_size\<close> keeps the number
  of cores. With fewer dimensions than the grid has, \<open>core\<close> merges the first ones and
  \<open>grid_size\<close> the last ones.
\<close>

section \<open>Looking up the context\<close>

datatype frame_val = VGrid "int list" | VCore int

record frame =
  f_locals :: "string \<rightharpoonup> frame_val"
  f_globals :: "string \<rightharpoonup> frame_val"

fun get_from_frame :: "string \<Rightarrow> string \<Rightarrow> frame list \<Rightarrow> frame_val result" where
  "get_from_frame var msg [] = Inl (RuntimeError msg)"
| "get_from_frame var msg (f # fs) =
     (case f_locals f var of
        Some v \<Rightarrow> Inr v
      | None \<Rightarrow>
          (case f_globals f var of
             Some v \<Rightarrow> Inr v
           | None \<Rightarrow> get_from_frame var msg fs))"

definition get_grid :: "frame list \<Rightarrow> int list result" where
  "get_grid fr =
     rbind (get_from_frame ''grid'' ''grid not available'' fr) (\<lambda>v.
       case v of VGrid g \<Rightarrow> Inr g | VCore _ \<Rightarrow> Inl (TypeError ''grid''))"

definition get_core_id :: "frame list \<Rightarrow> int result" where
  "get_core_id fr =
     rbind (get_from_frame ''_core'' ''core not available'' fr) (\<lambda>v.
       case v of VCore c \<Rightarrow> Inr c | VGrid _ \<Rightarrow> Inl (TypeError ''_core''))"

text \<open>The stack of a thread function: its globals carry the per-core context.\<close>

definition core_frames :: "int list \<Rightarrow> int \<Rightarrow> frame list" where
  "core_frames grid cid =
     [\<lparr>f_locals = Map.empty,
       f_globals = [''grid'' \<mapsto> VGrid grid, ''_core'' \<mapsto> VCore cid]\<rparr>]"

lemma core_frames_simps [simp]:
  "get_grid (core_frames grid cid) = Inr grid"
  "get_core_id (core_frames grid cid) = Inr cid"
  by (simp_all add: get_grid_def get_core_id_def core_frames_def)

section \<open>Coordinates\<close>

datatype core_coord = C1 int | CN "int list"

text \<open>The loop \<open>linear = linear * grid[i] + coords[i]\<close> over the dimensions after the first.\<close>

fun flatten_loop :: "int list \<Rightarrow> int list \<Rightarrow> int \<Rightarrow> int result" where
  "flatten_loop gs [] acc = Inr acc"
| "flatten_loop [] (c # cs) acc = Inl (IndexError ''grid[i]'')"
| "flatten_loop (g # gs) (c # cs) acc = flatten_loop gs cs (acc * g + c)"

fun flatten_core_index :: "frame list \<Rightarrow> core_coord \<Rightarrow> int result" where
  "flatten_core_index fr (C1 i) = Inr i"
| "flatten_core_index fr (CN coords) =
     rbind (get_grid fr) (\<lambda>grid.
       case coords of
         [] \<Rightarrow> Inl (IndexError ''coords[0]'')
       | c # cs \<Rightarrow> flatten_loop (drop 1 grid) cs c)"

definition grid_size :: "frame list \<Rightarrow> int \<Rightarrow> core_coord result" where
  "grid_size fr dims =
     (if dims \<le> 0 then Inl (ValueError ''dims must be positive'')
      else
        rbind (get_grid fr) (\<lambda>grid.
          let n = length grid; d = nat dims;
              res = (if d = n then grid
                     else if d < n then
                       (if d = 1 then [prod_list grid]
                        else take (d - 1) grid @ [prod_list (drop (d - 1) grid)])
                     else grid @ replicate (d - n) 1) in
          case res of
            [] \<Rightarrow> Inl (IndexError ''result[0]'')
          | r # _ \<Rightarrow> Inr (if d = 1 then C1 r else CN res)))"

text \<open>The loop over \<open>reversed(grid)\<close>.\<close>

fun core_digits_rev :: "int list \<Rightarrow> int \<Rightarrow> int list result" where
  "core_digits_rev [] cid = Inr []"
| "core_digits_rev (s # ss) cid =
     (if s = 0 then Inl ZeroDivisionError
      else rbind (core_digits_rev ss (cid div s)) (\<lambda>ds. Inr (cid mod s # ds)))"

definition core :: "frame list \<Rightarrow> nat \<Rightarrow> core_coord result" where
  "core fr dims =
     rbind (get_core_id fr) (\<lambda>cid. rbind (get_grid fr) (\<lambda>grid.
     rbind (core_digits_rev (rev grid) cid) (\<lambda>ds.
       let coords = rev ds; n = length coords in
       rbind (if dims < n
              then if dims = 0 then Inl (IndexError ''grid[i]'')
                   else rbind (flatten_loop (drop 1 grid) (take (n - dims) (tl coords)) (hd coords))
                     (\<lambda>f. Inr (f # drop (n - dims + 1) coords))
              else Inr coords) (\<lambda>coords1.
         let coords2 = coords1 @ replicate (dims - length coords1) 0 in
         Inr (if dims = 1 then C1 (hd coords2) else CN coords2)))))"

section \<open>Mixed radix\<close>

definition positive_grid :: "int list \<Rightarrow> bool" where
  "positive_grid grid \<longleftrightarrow> grid \<noteq> [] \<and> (\<forall>g\<in>set grid. 0 < g)"

fun digits :: "int list \<Rightarrow> int \<Rightarrow> int list" where
  "digits [] cid = []"
| "digits (g # gs) cid = (cid div prod_list gs) mod g # digits gs cid"

lemma length_digits [simp]: "length (digits gs cid) = length gs"
  by (induction gs) auto

lemma prod_list_pos: "(\<forall>g\<in>set gs. 0 < g) \<Longrightarrow> 0 < prod_list (gs :: int list)"
  by (induction gs) auto

lemma digits_snoc:
  assumes "\<forall>g\<in>set (gs @ [g]). 0 < g"
  shows "digits (gs @ [g]) cid = digits gs (cid div g) @ [cid mod g]"
  using assms
proof (induction gs)
  case Nil
  then show ?case by simp
next
  case (Cons h gs)
  then have "0 \<le> prod_list gs" using prod_list_pos [of gs] by simp
  then have "cid div (g * prod_list gs) = cid div g div prod_list gs"
    by (rule zdiv_zmult2_eq)
  with Cons show ?case by (simp add: mult.commute)
qed

lemma core_digits_rev_digits:
  assumes "\<forall>g\<in>set gs. 0 < g"
  shows "core_digits_rev (rev gs) cid = Inr (rev (digits gs cid))"
  using assms
proof (induction gs arbitrary: cid rule: rev_induct)
  case Nil
  then show ?case by simp
next
  case (snoc g gs)
  then show ?case using digits_snoc [OF snoc.prems] by auto
qed

lemma digits_bounds:
  assumes "\<forall>g\<in>set gs. 0 < g" and "i < length gs"
  shows "0 \<le> digits gs cid ! i \<and> digits gs cid ! i < gs ! i"
  using assms
proof (induction gs arbitrary: i)
  case (Cons g gs)
  then show ?case by (cases i) auto
qed simp

lemma flatten_digits:
  assumes "\<forall>g\<in>set gs. 0 < g"
  shows "flatten_loop gs (digits gs cid) acc = Inr (acc * prod_list gs + cid mod prod_list gs)"
  using assms
proof (induction gs arbitrary: acc)
  case Nil
  then show ?case by simp
next
  case (Cons g gs)
  let ?P = "prod_list gs"
  have "cid mod (?P * g) = ?P * (cid div ?P mod g) + cid mod ?P"
    using Cons.prems by (intro zmod_zmult2_eq) simp
  with Cons show ?case by (simp add: algebra_simps)
qed

lemma flatten_loop_prefix:
  "length cs \<le> k \<Longrightarrow> flatten_loop (take k gs) cs acc = flatten_loop gs cs acc"
  by (induction gs cs acc arbitrary: k rule: flatten_loop.induct) (auto simp: take_Cons' split: if_splits)

lemma take_digits:
  assumes "\<forall>g\<in>set gs. 0 < g" and "k \<le> length gs"
  shows "take k (digits gs cid) = digits (take k gs) (cid div prod_list (drop k gs))"
  using assms
proof (induction gs arbitrary: k)
  case (Cons g gs)
  show ?case
  proof (cases k)
    case (Suc j)
    have nn: "0 \<le> prod_list (take j gs)"
      using Cons.prems prod_list_pos [of "take j gs"] by (force dest: in_set_takeD)
    have "prod_list gs = prod_list (drop j gs) * prod_list (take j gs)"
      by (metis append_take_drop_id mult.commute prod_list.append)
    then have "cid div prod_list gs = cid div prod_list (drop j gs) div prod_list (take j gs)"
      using zdiv_zmult2_eq [OF nn] by simp
    with Cons Suc show ?thesis by simp
  qed simp
qed simp

lemma drop_digits: "drop k (digits gs cid) = digits (drop k gs) cid"
proof (induction gs arbitrary: k)
  case (Cons g gs)
  then show ?case by (cases k) auto
qed simp

section \<open>Behaviour of \<open>core\<close>\<close>

definition valid_core :: "int list \<Rightarrow> int \<Rightarrow> bool" where
  "valid_core grid cid \<longleftrightarrow> positive_grid grid \<and> 0 \<le> cid \<and> cid < prod_list grid"

text \<open>The coordinates \<open>core\<close> returns when it merges: everything but the last \<open>dims - 1\<close>.\<close>

definition coords_of :: "int list \<Rightarrow> nat \<Rightarrow> int \<Rightarrow> int list" where
  "coords_of grid dims cid =
     (if dims < length grid
      then cid div prod_list (drop (length grid - dims + 1) grid)
           # digits (drop (length grid - dims + 1) grid) cid
      else digits grid cid @ replicate (dims - length grid) 0)"

definition to_coord :: "int list \<Rightarrow> core_coord" where
  "to_coord cs = (if length cs = 1 then C1 (hd cs) else CN cs)"

lemma length_coords_of: "0 < dims \<Longrightarrow> length (coords_of grid dims cid) = dims"
  by (auto simp: coords_of_def)

lemma core_merge:
  assumes "valid_core grid cid" and "0 < dims" and "dims < length grid"
  shows "flatten_loop (drop 1 grid) (take (length grid - dims) (tl (digits grid cid))) (hd (digits grid cid))
    = Inr (cid div prod_list (drop (length grid - dims + 1) grid))"
proof -
  obtain g gs where grid: "grid = g # gs"
    using assms(1) by (cases grid) (auto simp: valid_core_def positive_grid_def)
  have pos: "0 < g" "\<forall>g\<in>set gs. 0 < g" and cid: "0 \<le> cid" "cid < g * prod_list gs"
    using assms(1) by (auto simp: valid_core_def positive_grid_def grid)
  let ?k = "length grid - dims"
  have k: "?k \<le> length gs" using assms(2) grid by simp
  let ?D = "prod_list (drop ?k gs)" and ?T = "prod_list (take ?k gs)"
  have D: "0 < ?D" and T: "0 < ?T"
    using pos(2) by (auto intro!: prod_list_pos dest: in_set_dropD in_set_takeD)
  have DT: "prod_list gs = ?D * ?T"
    by (metis append_take_drop_id mult.commute prod_list.append)
  have P: "0 < prod_list gs" using pos(2) by (rule prod_list_pos)
  have "cid div prod_list gs < g" using int_div_less [OF P cid(2)] .
  moreover have "0 \<le> cid div prod_list gs" using cid(1) P by (simp add: pos_imp_zdiv_nonneg_iff)
  ultimately have hd: "hd (digits grid cid) = cid div prod_list gs"
    by (simp add: grid)
  have split: "cid div prod_list gs = cid div ?D div ?T"
    using T DT zdiv_zmult2_eq [of ?T cid ?D] by simp
  have "flatten_loop (take ?k gs) (digits (take ?k gs) (cid div ?D)) (cid div prod_list gs)
      = Inr (cid div prod_list gs * ?T + cid div ?D mod ?T)"
    using pos(2) by (intro flatten_digits) (auto dest: in_set_takeD)
  also have "cid div prod_list gs * ?T + cid div ?D mod ?T = cid div ?D"
    by (simp add: split)
  finally have "flatten_loop gs (digits (take ?k gs) (cid div ?D)) (cid div prod_list gs)
      = Inr (cid div ?D)"
    using k by (simp add: flatten_loop_prefix)
  then show ?thesis
    using k pos(2) hd by (simp add: grid take_digits [symmetric] Suc_diff_le)
qed

lemma core_eq:
  assumes "valid_core grid cid" and "0 < dims"
  shows "core (core_frames grid cid) dims = Inr (to_coord (coords_of grid dims cid))"
proof -
  have pos: "\<forall>g\<in>set grid. 0 < g" and ne: "grid \<noteq> []"
    using assms(1) by (auto simp: valid_core_def positive_grid_def)
  have rev: "core_digits_rev (rev grid) cid = Inr (rev (digits grid cid))"
    using core_digits_rev_digits [OF pos] .
  show ?thesis
  proof (cases "dims < length grid")
    case True
    with core_merge [OF assms True] assms(2) show ?thesis
      by (auto simp: core_def rev coords_of_def to_coord_def drop_digits Let_def)
  next
    case False
    then show ?thesis
      using assms(2) ne by (auto simp: core_def rev coords_of_def to_coord_def Let_def hd_append)
  qed
qed

lemma flatten_full:
  assumes "valid_core grid cid"
  shows "flatten_core_index fr' (C1 cid) = Inr cid"
    and "flatten_core_index (core_frames grid cid') (CN (digits grid cid)) = Inr cid"
proof -
  obtain g gs where grid: "grid = g # gs"
    using assms by (cases grid) (auto simp: valid_core_def positive_grid_def)
  have pos: "\<forall>g\<in>set gs. 0 < g" and cid: "0 \<le> cid" "cid < g * prod_list gs"
    using assms by (auto simp: valid_core_def positive_grid_def grid)
  have P: "0 < prod_list gs" using pos by (rule prod_list_pos)
  have "cid div prod_list gs < g" "0 \<le> cid div prod_list gs"
    using int_div_less [OF P cid(2)] cid(1) P by (auto simp: pos_imp_zdiv_nonneg_iff)
  then show "flatten_core_index (core_frames grid cid') (CN (digits grid cid)) = Inr cid"
    by (simp add: grid flatten_digits [OF pos])
qed simp

lemma digits_inj:
  assumes "valid_core grid c1" and "valid_core grid c2" and "digits grid c1 = digits grid c2"
  shows "c1 = c2"
  using flatten_full(2) [OF assms(1)] flatten_full(2) [OF assms(2)] assms(3) by simp

lemma coords_of_inj:
  assumes "valid_core grid c1" and "valid_core grid c2" and "0 < dims"
    and eq: "coords_of grid dims c1 = coords_of grid dims c2"
  shows "c1 = c2"
proof (cases "dims < length grid")
  case True
  let ?t = "drop (length grid - dims + 1) grid"
  have pos: "\<forall>g\<in>set ?t. 0 < g"
    using assms(1) by (auto simp: valid_core_def positive_grid_def dest: in_set_dropD)
  have d: "c1 div prod_list ?t = c2 div prod_list ?t" "digits ?t c1 = digits ?t c2"
    using eq True by (auto simp: coords_of_def)
  have "c1 mod prod_list ?t = c2 mod prod_list ?t"
    using flatten_digits [OF pos, of c1 0] flatten_digits [OF pos, of c2 0] d(2) by simp
  with d(1) show ?thesis by (metis div_mult_mod_eq)
next
  case False
  with eq digits_inj [OF assms(1,2)] show ?thesis by (simp add: coords_of_def)
qed

lemma to_coord_inj: "length xs = length ys \<Longrightarrow> to_coord xs = to_coord ys \<Longrightarrow> xs = ys"
  by (cases xs; cases ys) (auto simp: to_coord_def split: if_splits)

section \<open>Behaviour of \<open>grid_size\<close>\<close>

definition sizes_of :: "int list \<Rightarrow> nat \<Rightarrow> int list" where
  "sizes_of grid dims =
     (if dims < length grid then take (dims - 1) grid @ [prod_list (drop (dims - 1) grid)]
      else grid @ replicate (dims - length grid) 1)"

lemma length_sizes_of: "0 < dims \<Longrightarrow> length (sizes_of grid dims) = dims"
  by (auto simp: sizes_of_def)

lemma grid_size_eq:
  assumes "grid \<noteq> []" and "0 < dims"
  shows "grid_size (core_frames grid cid) (int dims) = Inr (to_coord (sizes_of grid dims))"
proof -
  have "sizes_of grid dims \<noteq> []" using length_sizes_of [OF assms(2), of grid] assms(2) by auto
  moreover have "(if dims = length grid then grid
      else if dims < length grid then
        (if dims = 1 then [prod_list grid] else take (dims - 1) grid @ [prod_list (drop (dims - 1) grid)])
      else grid @ replicate (dims - length grid) 1) = sizes_of grid dims"
    using assms by (auto simp: sizes_of_def)
  moreover have "length (sizes_of grid dims) = 1 \<longleftrightarrow> dims = 1"
    using length_sizes_of [OF assms(2)] by simp
  ultimately show ?thesis
    using assms by (auto simp: grid_size_def to_coord_def Let_def split: list.splits)
qed

lemma prod_sizes_of: "prod_list (sizes_of grid dims) = prod_list grid"
proof (cases "dims < length grid")
  case True
  have "prod_list (take (dims - 1) grid) * prod_list (drop (dims - 1) grid) = prod_list grid"
    by (metis append_take_drop_id prod_list.append)
  with True show ?thesis by (simp add: sizes_of_def)
next
  case False
  then show ?thesis by (simp add: sizes_of_def)
qed

section \<open>Properties\<close>

text \<open>
  \<open>core\<close> and \<open>flatten_core_index\<close> are inverse: flattening the coordinates that
  \<open>core\<close> reports in the grid's own dimensionality gives the core number back, from any core,
  and two cores of a grid never report the same coordinates, whatever the number of
  dimensions asked for.
\<close>

lemma core_flatten_inverse:
  assumes "valid_core grid c1" and "valid_core grid c2" and "0 < dims"
  shows "(\<exists>c. core (core_frames grid c1) (length grid) = Inr c \<and>
      flatten_core_index (core_frames grid c2) c = Inr c1) \<and>
    (core (core_frames grid c1) dims = core (core_frames grid c2) dims \<longleftrightarrow> c1 = c2)"
proof -
  have ne: "0 < length grid" using assms(1) by (simp add: valid_core_def positive_grid_def)
  have own: "core (core_frames grid c1) (length grid) = Inr (to_coord (digits grid c1))"
    using core_eq [OF assms(1) ne] by (simp add: coords_of_def)
  have "flatten_core_index (core_frames grid c2) (to_coord (digits grid c1)) = Inr c1"
  proof (cases "length grid = 1")
    case True
    then obtain g where "grid = [g]" by (cases grid) auto
    then show ?thesis using assms(1) by (simp add: to_coord_def valid_core_def)
  next
    case False
    then show ?thesis using flatten_full(2) [OF assms(1)] by (simp add: to_coord_def)
  qed
  moreover have "c1 = c2" if "core (core_frames grid c1) dims = core (core_frames grid c2) dims"
    using that core_eq [OF assms(1,3)] core_eq [OF assms(2,3)] coords_of_inj [OF assms]
      to_coord_inj [of "coords_of grid dims c1" "coords_of grid dims c2"]
    by (simp add: length_coords_of [OF assms(3)])
  ultimately show ?thesis using own by blast
qed

lemma core_flatten_inverse_witness:
  "\<exists>c. core (core_frames [2, 3] 5) 2 = Inr c \<and> flatten_core_index (core_frames [2, 3] 0) c = Inr 5"
  using core_flatten_inverse [of "[2, 3]" 5 0 1]
  by (simp add: valid_core_def positive_grid_def eval_nat_numeral)

definition coord_list :: "core_coord \<Rightarrow> int list" where
  "coord_list c = (case c of C1 i \<Rightarrow> [i] | CN is \<Rightarrow> is)"

lemma coord_list_to_coord [simp]: "xs \<noteq> [] \<Longrightarrow> coord_list (to_coord xs) = xs"
  by (cases xs) (auto simp: coord_list_def to_coord_def)

text \<open>
  \<open>grid_size\<close> describes the same number of cores in every dimensionality, and in
  the grid's own dimensionality (or a larger one) every coordinate \<open>core\<close> reports lies below
  the size \<open>grid_size\<close> reports in that dimension.
\<close>

lemma grid_size_bounds_core:
  assumes "valid_core grid cid" and "0 < dims"
  shows "\<exists>g c. grid_size (core_frames grid cid) (int dims) = Inr g \<and>
    core (core_frames grid cid) dims = Inr c \<and> prod_list (coord_list g) = prod_list grid \<and>
    (length grid \<le> dims \<longrightarrow> list_all2 (\<lambda>x n. 0 \<le> x \<and> x < n) (coord_list c) (coord_list g))"
proof -
  let ?g = "sizes_of grid dims" and ?c = "coords_of grid dims cid"
  have pos: "\<forall>g\<in>set grid. 0 < g" and ne: "grid \<noteq> []"
    using assms(1) by (auto simp: valid_core_def positive_grid_def)
  have l: "length ?g = dims" "length ?c = dims"
    using assms(2) by (simp_all add: length_sizes_of length_coords_of)
  then have n: "?g \<noteq> []" "?c \<noteq> []" using assms(2) by auto
  have "list_all2 (\<lambda>x n. 0 \<le> x \<and> x < n) ?c ?g" if "length grid \<le> dims"
    using that digits_bounds [OF pos]
    by (auto simp: list_all2_conv_all_nth l) (auto simp: coords_of_def sizes_of_def nth_append)
  then show ?thesis
    using core_eq [OF assms] grid_size_eq [OF ne assms(2), of cid] n prod_sizes_of [of grid dims]
    by auto
qed

lemma grid_size_bounds_core_witness:
  "\<exists>g c. grid_size (core_frames [2, 3] 5) 3 = Inr g \<and> core (core_frames [2, 3] 5) 3 = Inr c \<and>
     list_all2 (\<lambda>x n. 0 \<le> x \<and> x < n) (coord_list c) (coord_list g)"
  using grid_size_bounds_core [of "[2, 3]" 5 3]
  by (auto simp: valid_core_def positive_grid_def)

text \<open>
  Asked for fewer dimensions than the grid has, \<open>core\<close> merges the first dimensions
  while \<open>grid_size\<close> merges the last ones. In a grid \<open>(a, b, c)\<close> with \<open>b > 1\<close> the last core
  then reports a first coordinate outside the two-dimensional grid size it is told.
\<close>

lemma merged_core_outside_grid_size:
  assumes "0 < a" and "1 < b" and "0 < c"
  shows "core (core_frames [a, b, c] (a * b * c - 1)) 2 = Inr (CN [a * b - 1, c - 1]) \<and>
    grid_size (core_frames [a, b, c] (a * b * c - 1)) 2 = Inr (CN [a, b * c]) \<and> a \<le> a * b - 1"
proof -
  let ?id = "a * b * c - 1"
  have ab: "a + 1 \<le> a * b"
  proof -
    have "a * 2 \<le> a * b" using assms by (intro mult_left_mono) auto
    with assms(1) show ?thesis by linarith
  qed
  have "0 < a * b * c" using assms by simp
  then have v: "valid_core [a, b, c] ?id"
    using assms by (simp add: valid_core_def positive_grid_def mult.assoc)
  have e: "?id = (a * b - 1) * c + (c - 1)" by (simp add: algebra_simps)
  have r: "(c - 1) div c = 0" "(c - 1) mod c = c - 1"
    using assms(3) by (intro div_pos_pos_trivial mod_pos_pos_trivial; simp)+
  have "c \<noteq> 0" using assms(3) by simp
  from div_mult_self3 [OF this, of "a * b - 1" "c - 1"]
  have d1: "?id div c = a * b - 1" unfolding e r by linarith
  have d2: "?id mod c = c - 1" unfolding e by (simp only: mod_mult_self3 r)
  note d = d1 d2
  have "core (core_frames [a, b, c] ?id) 2 = Inr (CN [a * b - 1, c - 1])"
    using core_eq [OF v, of 2] d by (simp add: coords_of_def to_coord_def)
  moreover have "grid_size (core_frames [a, b, c] ?id) 2 = Inr (CN [a, b * c])"
    using grid_size_eq [of "[a, b, c]" 2 ?id] by (simp add: sizes_of_def to_coord_def)
  ultimately show ?thesis using ab by simp
qed

lemma merged_core_outside_grid_size_witness:
  "core (core_frames [2, 3, 4] 23) 2 = Inr (CN [5, 3]) \<and>
   grid_size (core_frames [2, 3, 4] 23) 2 = Inr (CN [2, 12])"
  using merged_core_outside_grid_size [of 2 3 4] by simp

end
