(* ===== verification/Pipe.thy ===== *)
theory Pipe
  imports Corecontext
begin

text \<open>
  Pipes between cores: \<open>python/sim/pipe.py\<close>. A destination is an integer, or a tuple of
  indices and slices; Python distinguishes the integer \<open>c\<close> from the tuple \<open>(c,)\<close>, and so
  does \<open>core_coord\<close>.

  The lemmas: for slices with positive steps, the cores that see themselves as destinations
  (\<open>core_in_dst_range\<close>) are exactly those whose coordinates \<open>expand_core_range\<close> lists; and
  when the range lies inside a grid of the same dimensionality, their number is the length
  of that list, which is the number of receivers a multicast message waits for.
\<close>

section \<open>Data\<close>

datatype range_item =
    Idx int
  | Slice "int option" "int option" "int option"

datatype pipe_dst =
    DInt int
  | DTuple "range_item list"

record pipe =
  src_core :: core_coord
  dst_core_range :: pipe_dst

record src_pipe_identity =
  src_pipe :: pipe

record dst_pipe_identity =
  dst_pipe :: pipe

definition src_identity_dst :: "src_pipe_identity \<Rightarrow> pipe_dst" where
  "src_identity_dst i = dst_core_range (src_pipe i)"

definition dst_identity_src :: "dst_pipe_identity \<Rightarrow> core_coord" where
  "dst_identity_src i = src_core (dst_pipe i)"

fun is_slice :: "range_item \<Rightarrow> bool" where
  "is_slice (Slice _ _ _) = True"
| "is_slice (Idx _) = False"

fun idx_of :: "range_item \<Rightarrow> int" where
  "idx_of (Idx i) = i"
| "idx_of (Slice _ _ _) = 0"

section \<open>Expanding a range\<close>

fun dim_range :: "range_item \<Rightarrow> int \<Rightarrow> int list result" where
  "dim_range (Idx i) g = Inr [i]"
| "dim_range (Slice a b c) g =
     py_range (case a of None \<Rightarrow> 0 | Some v \<Rightarrow> v) (case b of None \<Rightarrow> g | Some v \<Rightarrow> v)
       (case c of None \<Rightarrow> 1 | Some v \<Rightarrow> v)"

fun dim_ranges :: "range_item list \<Rightarrow> int list \<Rightarrow> int list list result" where
  "dim_ranges [] gs = Inr []"
| "dim_ranges (it # its) (g # gs) =
     rbind (dim_range it g) (\<lambda>r. rbind (dim_ranges its gs) (\<lambda>rs. Inr (r # rs)))"
| "dim_ranges (it # its) [] = Inl (IndexError ''grid_shape[i]'')"

text \<open>\<open>_cartesian_product\<close>, whose accumulator is the current prefix.\<close>

fun cartesian_product :: "int list list \<Rightarrow> int list \<Rightarrow> int list list" where
  "cartesian_product [] cur = [cur]"
| "cartesian_product (r # rs) cur = concat (map (\<lambda>v. cartesian_product rs (cur @ [v])) r)"

definition expand_core_range :: "frame list \<Rightarrow> range_item list \<Rightarrow> core_coord list result" where
  "expand_core_range fr core_range =
     rbind (grid_size fr (int (length core_range))) (\<lambda>gs.
     rbind (dim_ranges core_range (coord_list gs)) (\<lambda>rs.
       Inr (map to_coord (cartesian_product rs []))))"

section \<open>Membership of the current core\<close>

definition slice_has :: "range_item \<Rightarrow> int \<Rightarrow> int \<Rightarrow> bool result" where
  "slice_has it g x =
     (case it of
        Slice a b c \<Rightarrow>
          (let start = (case a of None \<Rightarrow> 0 | Some v \<Rightarrow> v);
               stop = (case b of None \<Rightarrow> g | Some v \<Rightarrow> v);
               step = (case c of None \<Rightarrow> 1 | Some v \<Rightarrow> v) in
           if start \<le> x \<and> x < stop
           then if step = 0 then Inl ZeroDivisionError else Inr ((x - start) mod step = 0)
           else Inr False)
      | Idx i \<Rightarrow> Inr (x = i))"

fun range_has :: "range_item list \<Rightarrow> int list \<Rightarrow> int list \<Rightarrow> bool result" where
  "range_has [] gs xs = Inr True"
| "range_has (it # its) (g # gs) (x # xs) =
     rbind (slice_has it g x) (\<lambda>b. if b then range_has its gs xs else Inr False)"
| "range_has (it # its) gs xs = Inl (IndexError ''current_core_coords[i]'')"

definition core_in_dst_range :: "frame list \<Rightarrow> pipe_dst \<Rightarrow> bool result" where
  "core_in_dst_range fr dst =
     (case dst of
        DInt n \<Rightarrow> rbind (core fr 1) (\<lambda>c. Inr (c = C1 n))
      | DTuple its \<Rightarrow>
          if \<exists>it\<in>set its. is_slice it
          then rbind (core fr (length its)) (\<lambda>c.
               rbind (grid_size fr (int (length its))) (\<lambda>gs.
               range_has its (coord_list gs) (coord_list c)))
          else rbind (core fr (length its)) (\<lambda>c. Inr (c = CN (map idx_of its))))"

definition has_current_core :: "frame list \<Rightarrow> pipe \<Rightarrow> bool result" where
  "has_current_core fr p =
     rbind (core fr 1) (\<lambda>c. rbind (flatten_core_index fr (src_core p)) (\<lambda>src.
       if c = C1 src then Inr True else core_in_dst_range fr (dst_core_range p)))"

section \<open>Pipe nets\<close>

text \<open>The condition function is any operation on the state of the simulator.\<close>

definition if_src ::
    "frame list \<Rightarrow> pipe list \<Rightarrow> (src_pipe_identity \<Rightarrow> ('s, unit) state_op) \<Rightarrow> ('s, unit) state_op" where
  "if_src fr pipes cond_fun =
     sbind (slift (\<lambda>_. core fr 1)) (\<lambda>c.
     sfor (\<lambda>p. sbind (slift (\<lambda>_. flatten_core_index fr (src_core p))) (\<lambda>src.
       if c = C1 src then cond_fun \<lparr>src_pipe = p\<rparr> else sreturn ())) pipes)"

definition if_dst ::
    "frame list \<Rightarrow> pipe list \<Rightarrow> (dst_pipe_identity \<Rightarrow> ('s, unit) state_op) \<Rightarrow> ('s, unit) state_op" where
  "if_dst fr pipes cond_fun =
     sfor (\<lambda>p. sbind (slift (\<lambda>_. core_in_dst_range fr (dst_core_range p))) (\<lambda>b.
       if b then cond_fun \<lparr>dst_pipe = p\<rparr> else sreturn ())) pipes"

section \<open>The cartesian product\<close>

lemma cartesian_product_prefix:
  "cartesian_product rs cur = map (\<lambda>xs. cur @ xs) (cartesian_product rs [])"
proof (induction rs arbitrary: cur)
  case (Cons r rs)
  show ?case
    by (simp add: map_concat comp_def Cons.IH [of "cur @ [_]"] Cons.IH [of "[_]"])
qed simp

lemma in_cartesian_product:
  "xs \<in> set (cartesian_product rs []) \<longleftrightarrow> list_all2 (\<lambda>x r. x \<in> set r) xs rs"
proof (induction rs arbitrary: xs)
  case (Cons r rs)
  show ?case
    by (cases xs) (auto simp: cartesian_product_prefix [of rs "[_]"] Cons.IH image_iff)
qed simp

lemma distinct_map_Cons:
  "distinct r \<Longrightarrow> distinct L \<Longrightarrow> distinct (concat (map (\<lambda>v. map ((#) v) L) r))"
  by (induction r) (auto simp: distinct_map)

lemma distinct_cartesian_product:
  "(\<forall>r\<in>set rs. distinct r) \<Longrightarrow> distinct (cartesian_product rs [])"
  by (induction rs) (auto simp: cartesian_product_prefix [of _ "[_]"] intro!: distinct_map_Cons)

section \<open>Expansion and membership agree\<close>

definition step_positive :: "range_item \<Rightarrow> bool" where
  "step_positive it = (case it of Slice _ _ (Some c) \<Rightarrow> 0 < c | _ \<Rightarrow> True)"

lemma step_positive_simps [simp]:
  "step_positive (Idx i)" "step_positive (Slice a b None)"
  "step_positive (Slice a b (Some c)) \<longleftrightarrow> 0 < c"
  by (simp_all add: step_positive_def)

lemma distinct_arith: "0 < (step::int) \<Longrightarrow> distinct (map (\<lambda>i. start + step * int i) [0..<n])"
  by (auto simp: distinct_map inj_on_def)

lemma dim_range_ok:
  assumes "step_positive it"
  shows "\<exists>r. dim_range it g = Inr r \<and> distinct r \<and> (\<forall>x. slice_has it g x = Inr (x \<in> set r))"
proof (cases it)
  case (Idx i)
  then show ?thesis by (auto simp: slice_has_def)
next
  case (Slice a b c)
  define st where "st = (case a of None \<Rightarrow> 0 | Some v \<Rightarrow> v)"
  define sp where "sp = (case b of None \<Rightarrow> g | Some v \<Rightarrow> v)"
  define k where "k = (case c of None \<Rightarrow> 1 | Some v \<Rightarrow> v)"
  have k: "0 < k" using assms Slice by (cases c) (auto simp: k_def)
  let ?r = "map (\<lambda>i. st + k * int i) [0..<nat ((sp - st + k - 1) div k)]"
  have "dim_range it g = Inr ?r"
    using k by (simp add: Slice py_range_def st_def [symmetric] sp_def [symmetric] k_def [symmetric])
  moreover have "slice_has it g x = Inr (x \<in> set ?r)" for x
    unfolding in_map_arith [OF k] using k
    by (auto simp: Slice slice_has_def Let_def st_def [symmetric] sp_def [symmetric]
        k_def [symmetric])
  ultimately show ?thesis using distinct_arith [OF k] by blast
qed

lemma dim_ranges_ok:
  assumes "\<forall>it\<in>set its. step_positive it" and "length gs = length its"
  shows "\<exists>rs. dim_ranges its gs = Inr rs \<and> (\<forall>r\<in>set rs. distinct r) \<and> length rs = length its \<and>
    (\<forall>xs. length xs = length its \<longrightarrow> range_has its gs xs = Inr (list_all2 (\<lambda>x r. x \<in> set r) xs rs))"
  using assms
proof (induction its arbitrary: gs)
  case Nil
  then show ?case by simp
next
  case (Cons it its)
  then obtain g gs' where gs: "gs = g # gs'" by (cases gs) auto
  from Cons obtain r where r: "dim_range it g = Inr r" "distinct r"
    "\<forall>x. slice_has it g x = Inr (x \<in> set r)" using dim_range_ok [of it g] by auto
  have "length gs' = length its" using Cons.prems(2) gs by simp
  with Cons.IH [of gs'] Cons.prems(1) obtain rs where rs: "dim_ranges its gs' = Inr rs" "\<forall>r\<in>set rs. distinct r"
    "length rs = length its"
    "\<And>xs. length xs = length its \<Longrightarrow> range_has its gs' xs = Inr (list_all2 (\<lambda>x r. x \<in> set r) xs rs)"
    by fastforce
  have "range_has (it # its) gs xs = Inr (list_all2 (\<lambda>x r. x \<in> set r) xs (r # rs))"
    if "length xs = length (it # its)" for xs
    using that r rs gs by (cases xs) auto
  with r rs gs show ?case by auto
qed

definition sliced :: "range_item list \<Rightarrow> bool" where
  "sliced its \<longleftrightarrow> (\<exists>it\<in>set its. is_slice it) \<and> (\<forall>it\<in>set its. step_positive it)"

text \<open>The list \<open>expand_core_range\<close> returns, before its elements become coordinates.\<close>

lemma expand_ok:
  assumes "valid_core grid cid" and "sliced its"
  shows "\<exists>rs. expand_core_range (core_frames grid cid) its
        = Inr (map to_coord (cartesian_product rs [])) \<and>
      distinct (cartesian_product rs []) \<and> length rs = length its \<and>
      core_in_dst_range (core_frames grid cid) (DTuple its)
        = Inr (coords_of grid (length its) cid \<in> set (cartesian_product rs []))"
proof -
  have ne: "0 < length its" using assms(2) by (auto simp: sliced_def)
  have g: "grid \<noteq> []" using assms(1) by (simp add: valid_core_def positive_grid_def)
  let ?gs = "sizes_of grid (length its)" and ?xs = "coords_of grid (length its) cid"
  have len: "length ?gs = length its" "length ?xs = length its"
    using ne by (simp_all add: length_sizes_of length_coords_of)
  then have ne': "?gs \<noteq> []" "?xs \<noteq> []" using ne by auto
  obtain rs where rs: "dim_ranges its ?gs = Inr rs" "\<forall>r\<in>set rs. distinct r" "length rs = length its"
    "range_has its ?gs ?xs = Inr (list_all2 (\<lambda>x r. x \<in> set r) ?xs rs)"
    using dim_ranges_ok [of its ?gs] assms(2) len by (auto simp: sliced_def)
  show ?thesis
    using assms(2) rs ne' distinct_cartesian_product [OF rs(2)]
    by (auto simp: expand_core_range_def core_in_dst_range_def grid_size_eq [OF g ne]
        core_eq [OF assms(1) ne] in_cartesian_product sliced_def)
qed

lemma expand_core_range_independent:
  assumes "grid \<noteq> []" and "its \<noteq> []"
  shows "expand_core_range (core_frames grid c1) its = expand_core_range (core_frames grid c2) its"
  using assms by (simp add: expand_core_range_def grid_size_eq)

lemma in_digits_image:
  assumes "positive_grid grid" and "list_all2 (\<lambda>x g. 0 \<le> x \<and> x < g) xs grid"
  shows "\<exists>cid. 0 \<le> cid \<and> cid < prod_list grid \<and> digits grid cid = xs"
proof -
  have "\<exists>cid. 0 \<le> cid \<and> cid < prod_list grid \<and> digits grid cid = xs"
    if "\<forall>g\<in>set grid. 0 < g" "list_all2 (\<lambda>x g. 0 \<le> x \<and> x < g) xs grid" for grid xs
    using that
  proof (induction grid arbitrary: xs)
    case Nil
    then show ?case by (auto intro: exI [of _ 0])
  next
    case (Cons g gs)
    then obtain y ys where xs: "xs = y # ys" "0 \<le> y" "y < g" "list_all2 (\<lambda>x g. 0 \<le> x \<and> x < g) ys gs"
      by (cases xs) auto
    with Cons obtain c where c: "0 \<le> c" "c < prod_list gs" "digits gs c = ys" by auto
    let ?P = "prod_list gs"
    have P: "0 < ?P" using Cons.prems(1) by (auto intro: prod_list_pos)
    have d: "digits gs (y * ?P + c) = digits gs c"
    proof -
      have "digits hs (z * prod_list hs + c) = digits hs c" if "\<forall>h\<in>set hs. 0 < h" for hs z
        using that
      proof (induction hs arbitrary: z)
        case (Cons h hs)
        then have P: "0 < prod_list hs" by (auto intro: prod_list_pos)
        have e: "z * (h * prod_list hs) + c = c + (z * h) * prod_list hs" by (simp add: algebra_simps)
        have "(z * (h * prod_list hs) + c) div prod_list hs mod h = c div prod_list hs mod h"
          unfolding e using P by (subst div_mult_self1) auto
        with Cons.IH [of "z * h"] Cons.prems show ?case by (simp add: algebra_simps)
      qed simp
      with Cons.prems(1) show ?thesis by simp
    qed
    have "(y * ?P + c) div ?P = y" using c P by simp
    moreover have "y * ?P + c < g * ?P"
    proof -
      have "(y + 1) * ?P \<le> g * ?P" using xs(3) P by (intro mult_right_mono) auto
      with c(2) show ?thesis by (simp add: algebra_simps)
    qed
    ultimately show ?case
      using xs c P d by (intro exI [of _ "y * ?P + c"]) auto
  qed
  with assms show ?thesis by (simp add: positive_grid_def)
qed

text \<open>
  In a grid of the range's own dimensionality, the cores that are destinations correspond one
  to one to the expanded coordinates, as long as these lie inside the grid.
\<close>

definition inside :: "int list \<Rightarrow> int list \<Rightarrow> bool" where
  "inside grid xs \<longleftrightarrow> list_all2 (\<lambda>x g. 0 \<le> x \<and> x < g) xs grid"

lemma receivers_count:
  assumes "positive_grid grid" and "distinct L" and "\<forall>xs\<in>set L. inside grid xs"
  shows "card {cid. 0 \<le> cid \<and> cid < prod_list grid \<and> digits grid cid \<in> set L} = length L"
proof -
  let ?C = "{cid. 0 \<le> cid \<and> cid < prod_list grid \<and> digits grid cid \<in> set L}"
  have "bij_betw (digits grid) ?C (set L)"
  proof (rule bij_betw_imageI)
    show "inj_on (digits grid) ?C"
      using digits_inj [of grid] assms(1) by (auto simp: inj_on_def valid_core_def)
    show "digits grid ` ?C = set L"
    proof
      show "set L \<subseteq> digits grid ` ?C"
      proof
        fix xs assume xs: "xs \<in> set L"
        with assms(3) have "list_all2 (\<lambda>x g. 0 \<le> x \<and> x < g) xs grid" by (simp add: inside_def)
        from in_digits_image [OF assms(1) this] xs show "xs \<in> digits grid ` ?C" by auto
      qed
    qed auto
  qed
  then have "card ?C = card (set L)" by (rule bij_betw_same_card)
  with assms(2) show ?thesis by (simp add: distinct_card)
qed

section \<open>Properties\<close>



text \<open>
  A multicast message reaches everybody it is counted for: when the range has the
  dimensionality of the grid and lies inside it, the number of cores that see themselves as
  destinations is the length of the expanded range, which the sender uses as the number of
  receivers.
\<close>

lemma receivers_are_counted:
  assumes "positive_grid grid" and "sliced its" and "length its = length grid"
    and "expand_core_range (core_frames grid sender) its = Inr cs"
    and "\<forall>c\<in>set cs. inside grid (coord_list c)"
  shows "card {cid. valid_core grid cid \<and>
    core_in_dst_range (core_frames grid cid) (DTuple its) = Inr True} = length cs"
proof -
  have g: "grid \<noteq> []" using assms(1) by (simp add: positive_grid_def)
  have ne: "its \<noteq> []" using assms(2) by (auto simp: sliced_def)
  have "0 < prod_list grid" using assms(1) prod_list_pos by (auto simp: positive_grid_def)
  then have v0: "valid_core grid 0" using assms(1) by (simp add: valid_core_def)
  obtain rs where rs: "cs = map to_coord (cartesian_product rs [])"
    "distinct (cartesian_product rs [])" "length rs = length its"
    using expand_ok [OF v0 assms(2)] assms(4) expand_core_range_independent [OF g ne, of sender 0]
    by auto
  have mem: "core_in_dst_range (core_frames grid cid) (DTuple its) = Inr (digits grid cid \<in> set (cartesian_product rs []))"
    if v: "valid_core grid cid" for cid
  proof -
    obtain rs' where "expand_core_range (core_frames grid cid) its = Inr (map to_coord (cartesian_product rs' []))"
      and m: "core_in_dst_range (core_frames grid cid) (DTuple its)
        = Inr (coords_of grid (length its) cid \<in> set (cartesian_product rs' []))"
      and l: "length rs' = length its"
      using expand_ok [OF v assms(2)] by blast
    then have e: "map to_coord (cartesian_product rs' []) = map to_coord (cartesian_product rs [])"
      using assms(4) expand_core_range_independent [OF g ne, of sender cid] rs(1) by simp
    have len: "length xs = length its" if "xs \<in> set (cartesian_product r [])" "length r = length its" for xs r
      using that by (simp add: in_cartesian_product list_all2_lengthD)
    have "cartesian_product rs' [] = cartesian_product rs []"
      by (rule map_inj_on [OF e]) (auto intro!: inj_onI to_coord_inj simp: len l rs(3))
    then show ?thesis using m assms(3) by (simp add: coords_of_def)
  qed
  have ins: "\<forall>xs\<in>set (cartesian_product rs []). inside grid xs"
  proof
    fix xs assume xs: "xs \<in> set (cartesian_product rs [])"
    then have "xs \<noteq> []" using rs(3) ne by (auto simp: in_cartesian_product)
    with assms(5) xs rs(1) show "inside grid xs" by (force simp: coord_list_to_coord)
  qed
  have "{cid. valid_core grid cid \<and> core_in_dst_range (core_frames grid cid) (DTuple its) = Inr True}
      = {cid. 0 \<le> cid \<and> cid < prod_list grid \<and> digits grid cid \<in> set (cartesian_product rs [])}"
    using mem assms(1) by (auto simp: valid_core_def)
  with receivers_count [OF assms(1) rs(2) ins] rs(1) show ?thesis by simp
qed

lemma receivers_are_counted_witness:
  "card {cid. valid_core [2, 3] cid \<and> core_in_dst_range (core_frames [2, 3] cid)
     (DTuple [Idx 1, Slice (Some 0) None None]) = Inr True} = 3"
proof -
  have "expand_core_range (core_frames [2, 3] 0) [Idx 1, Slice (Some 0) None None]
      = Inr [CN [1, 0], CN [1, 1], CN [1, 2]]" by code_simp
  from receivers_are_counted [OF _ _ _ this] show ?thesis
    by (simp add: positive_grid_def sliced_def inside_def coord_list_def)
qed

text \<open>
  A destination written as a tuple of one index is never recognised: the sender
  counts one receiver for it, but no core finds itself in the range, because the core's
  one-dimensional coordinate is an integer and the destination is a tuple.
\<close>

lemma one_tuple_never_matches:
  assumes "valid_core grid cid"
  shows "core_in_dst_range (core_frames grid cid) (DTuple [Idx c]) = Inr False"
  using core_eq [OF assms, of 1] length_coords_of [of 1 grid cid]
  by (simp add: core_in_dst_range_def to_coord_def)

lemma one_tuple_never_matches_witness:
  "core_in_dst_range (core_frames [4] 2) (DTuple [Idx 2]) = Inr False"
  by (rule one_tuple_never_matches) (simp add: valid_core_def positive_grid_def)

end
