(* ===== verification/Stats.thy ===== *)
theory Stats
  imports Pipe Ttnnsim
begin

text \<open>
  Statistics: \<open>python/sim/stats.py\<close>. The three \<open>defaultdict\<close> tables are association
  lists in insertion order. The object identity that \<open>_get_tensor_name\<close> falls back to is
  an argument; the printed report is the list of its rows with the totals (column widths are
  left out).

  The lemmas: the interface \<open>tally\<close> says what a table of counters promises (recording an
  event under a name changes that entry only, by the event); from it follows once that after
  any sequence of events the totals of the report are the sums over the events. The three
  tables provide it.
\<close>

section \<open>State\<close>

record counters =
  reads :: nat
  writes :: nat
  tiles_read :: nat
  tiles_written :: nat

record dfb_counters =
  reserves :: nat
  waits :: nat
  tiles_reserved :: nat
  tiles_waited :: nat

definition zero_counters :: counters where
  "zero_counters = \<lparr>reads = 0, writes = 0, tiles_read = 0, tiles_written = 0\<rparr>"

definition zero_dfb_counters :: dfb_counters where
  "zero_dfb_counters = \<lparr>reserves = 0, waits = 0, tiles_reserved = 0, tiles_waited = 0\<rparr>"

record stats_state =
  stats_enabled :: bool
  stats_by_name :: "(string \<times> counters) list"
  pipe_stats_by_name :: "(string \<times> counters) list"
  dfb_stats_by_name :: "(string \<times> dfb_counters) list"
  dfb_name_counter :: nat

definition init_stats :: stats_state where
  "init_stats = \<lparr>stats_enabled = False, stats_by_name = [], pipe_stats_by_name = [],
     dfb_stats_by_name = [], dfb_name_counter = 0\<rparr>"

definition enable_stats :: "stats_state \<Rightarrow> stats_state" where
  "enable_stats s = s\<lparr>stats_enabled := True\<rparr>"

definition disable_stats :: "stats_state \<Rightarrow> stats_state" where
  "disable_stats s = s\<lparr>stats_enabled := False\<rparr>"

definition reset_stats :: "stats_state \<Rightarrow> stats_state" where
  "reset_stats s = s\<lparr>stats_by_name := [], pipe_stats_by_name := [], dfb_stats_by_name := [],
     dfb_name_counter := 0\<rparr>"

text \<open>\<open>table[name] ...\<close> of a \<open>defaultdict\<close>: the entry is created on first use.\<close>

definition bump :: "'c \<Rightarrow> ('c \<Rightarrow> 'c) \<Rightarrow> string \<Rightarrow> (string \<times> 'c) list \<Rightarrow> (string \<times> 'c) list" where
  "bump zero f name table =
     AList.update name (f (case map_of table name of None \<Rightarrow> zero | Some c \<Rightarrow> c)) table"

section \<open>Names and tile counts\<close>

definition get_tensor_name :: "string option \<Rightarrow> nat \<Rightarrow> string" where
  "get_tensor_name name oid =
     (if name \<noteq> None \<and> name \<noteq> Some [] then the name
      else ''tensor_'' @ show_nat (oid mod 10000))"

text \<open>\<open>math.ceil(d / t)\<close>; the float quotient is exact enough for every tensor dimension.\<close>

definition ceil_div :: "nat \<Rightarrow> nat \<Rightarrow> nat" where
  "ceil_div d t = (d + t - 1) div t"

definition calculate_tensor_tiles :: "nat list \<Rightarrow> nat" where
  "calculate_tensor_tiles shp =
     (if length shp \<noteq> 2 then 0
      else ceil_div (shp ! 0) (TILE_SHAPE ! 0) * ceil_div (shp ! 1) (TILE_SHAPE ! 1))"

definition calculate_block_tiles :: "nat list list \<Rightarrow> nat" where
  "calculate_block_tiles shapes = sum_list (map calculate_tensor_tiles shapes)"

fun show_coord :: "core_coord \<Rightarrow> string" where
  "show_coord (C1 i) = show_int i"
| "show_coord (CN is) = ''('' @ join '','' (map show_int is) @ '')''"

fun show_item :: "range_item \<Rightarrow> string" where
  "show_item (Idx i) = show_int i"
| "show_item (Slice a b c) =
     show_int (case a of None \<Rightarrow> 0 | Some v \<Rightarrow> v) @ '':'' @
     (case b of None \<Rightarrow> ''?'' | Some v \<Rightarrow> show_int v)"

fun show_dst :: "pipe_dst \<Rightarrow> string" where
  "show_dst (DInt i) = show_int i"
| "show_dst (DTuple its) = ''('' @ join '','' (map show_item its) @ '')''"

definition get_pipe_name :: "pipe \<Rightarrow> string" where
  "get_pipe_name p =
     ''pipe_'' @ show_coord (src_core p) @ ''_to_'' @ show_dst (dst_core_range p)"

text \<open>The names a buffer may have: a registered one, one from its id, or a fresh one.\<close>

definition get_dfb_name ::
    "string option \<Rightarrow> nat option \<Rightarrow> stats_state \<Rightarrow> string \<times> stats_state" where
  "get_dfb_name stats_name dfb_id s =
     (if stats_name \<noteq> None \<and> stats_name \<noteq> Some [] then (the stats_name, s)
      else
        (case dfb_id of
           Some i \<Rightarrow> (''dfb_'' @ show_nat i, s)
         | None \<Rightarrow>
             (''dfb_unnamed_'' @ show_nat (dfb_name_counter s + 1),
              s\<lparr>dfb_name_counter := dfb_name_counter s + 1\<rparr>)))"

section \<open>Recording\<close>

definition record_tensor_read :: "string option \<Rightarrow> nat \<Rightarrow> nat list \<Rightarrow> stats_state \<Rightarrow> stats_state" where
  "record_tensor_read name oid shp s =
     (if \<not> stats_enabled s then s
      else s\<lparr>stats_by_name := bump zero_counters
               (\<lambda>c. c\<lparr>reads := reads c + 1, tiles_read := tiles_read c + calculate_tensor_tiles shp\<rparr>)
               (get_tensor_name name oid) (stats_by_name s)\<rparr>)"

definition record_tensor_write :: "string option \<Rightarrow> nat \<Rightarrow> nat list \<Rightarrow> stats_state \<Rightarrow> stats_state" where
  "record_tensor_write name oid shp s =
     (if \<not> stats_enabled s then s
      else s\<lparr>stats_by_name := bump zero_counters
               (\<lambda>c. c\<lparr>writes := writes c + 1,
                      tiles_written := tiles_written c + calculate_tensor_tiles shp\<rparr>)
               (get_tensor_name name oid) (stats_by_name s)\<rparr>)"

definition record_pipe_write :: "pipe \<Rightarrow> nat list list \<Rightarrow> stats_state \<Rightarrow> stats_state" where
  "record_pipe_write p shapes s =
     (if \<not> stats_enabled s then s
      else s\<lparr>pipe_stats_by_name := bump zero_counters
               (\<lambda>c. c\<lparr>writes := writes c + 1,
                      tiles_written := tiles_written c + calculate_block_tiles shapes\<rparr>)
               (get_pipe_name p) (pipe_stats_by_name s)\<rparr>)"

definition record_pipe_read :: "pipe \<Rightarrow> nat list list \<Rightarrow> stats_state \<Rightarrow> stats_state" where
  "record_pipe_read p shapes s =
     (if \<not> stats_enabled s then s
      else s\<lparr>pipe_stats_by_name := bump zero_counters
               (\<lambda>c. c\<lparr>reads := reads c + 1,
                      tiles_read := tiles_read c + calculate_block_tiles shapes\<rparr>)
               (get_pipe_name p) (pipe_stats_by_name s)\<rparr>)"

definition record_dfb_reserve ::
    "string option \<Rightarrow> nat option \<Rightarrow> nat \<Rightarrow> stats_state \<Rightarrow> stats_state" where
  "record_dfb_reserve stats_name dfb_id n s =
     (if \<not> stats_enabled s then s
      else (case get_dfb_name stats_name dfb_id s of (name, s1) \<Rightarrow>
        s1\<lparr>dfb_stats_by_name := bump zero_dfb_counters
             (\<lambda>c. c\<lparr>reserves := reserves c + 1, tiles_reserved := tiles_reserved c + n\<rparr>)
             name (dfb_stats_by_name s1)\<rparr>))"

definition record_dfb_wait ::
    "string option \<Rightarrow> nat option \<Rightarrow> nat \<Rightarrow> stats_state \<Rightarrow> stats_state" where
  "record_dfb_wait stats_name dfb_id n s =
     (if \<not> stats_enabled s then s
      else (case get_dfb_name stats_name dfb_id s of (name, s1) \<Rightarrow>
        s1\<lparr>dfb_stats_by_name := bump zero_dfb_counters
             (\<lambda>c. c\<lparr>waits := waits c + 1, tiles_waited := tiles_waited c + n\<rparr>)
             name (dfb_stats_by_name s1)\<rparr>))"

section \<open>The report\<close>

text \<open>One table: the rows sorted by name and the column totals.\<close>

definition sorted_rows :: "(string \<times> 'c) list \<Rightarrow> (string \<times> 'c) list" where
  "sorted_rows table = map (\<lambda>n. (n, the (map_of table n))) (sort (map fst table))"

definition totals :: "('c \<Rightarrow> nat) list \<Rightarrow> (string \<times> 'c) list \<Rightarrow> nat list" where
  "totals cols rows = map (\<lambda>col. foldl (\<lambda>acc r. acc + col (snd r)) 0 rows) cols"

definition counter_cols :: "(counters \<Rightarrow> nat) list" where
  "counter_cols = [reads, writes, tiles_read, tiles_written]"

definition dfb_counter_cols :: "(dfb_counters \<Rightarrow> nat) list" where
  "dfb_counter_cols = [reserves, waits, tiles_reserved, tiles_waited]"

type_synonym printed_table = "(string \<times> nat list) list \<times> nat list"

definition print_table :: "('c \<Rightarrow> nat) list \<Rightarrow> (string \<times> 'c) list \<Rightarrow> printed_table" where
  "print_table cols table =
     (map (\<lambda>(n, c). (n, map (\<lambda>col. col c) cols)) (sorted_rows table),
      totals cols (sorted_rows table))"

text \<open>\<open>None\<close>: "No statistics collected."; a table without entries is not printed.\<close>

definition print_stats ::
    "stats_state \<Rightarrow> (printed_table option \<times> printed_table option \<times> printed_table option) option" where
  "print_stats s =
     (if stats_by_name s = [] \<and> pipe_stats_by_name s = [] \<and> dfb_stats_by_name s = [] then None
      else Some
        (if stats_by_name s = [] then None else Some (print_table counter_cols (stats_by_name s)),
         if pipe_stats_by_name s = [] then None
         else Some (print_table counter_cols (pipe_stats_by_name s)),
         if dfb_stats_by_name s = [] then None
         else Some (print_table dfb_counter_cols (dfb_stats_by_name s))))"

section \<open>A table of counters\<close>

text \<open>
  What the report relies on: an event adds its amount to one column of the entry of its name
  and nothing else, and an entry that was not there counts as zero.
\<close>

locale tally =
  fixes zero :: 'c
    and add_event :: "'e \<Rightarrow> 'c \<Rightarrow> 'c"
    and amount :: "'e \<Rightarrow> 'k \<Rightarrow> nat"
    and col :: "'k \<Rightarrow> 'c \<Rightarrow> nat"
  assumes col_zero: "col k zero = 0"
    and col_add: "col k (add_event e c) = col k c + amount e k"
begin

fun log :: "(string \<times> 'e) list \<Rightarrow> (string \<times> 'c) list \<Rightarrow> (string \<times> 'c) list" where
  "log [] table = table"
| "log ((name, e) # evs) table = log evs (bump zero (add_event e) name table)"

lemma bump_sum:
  assumes "distinct (map fst table)"
  shows "sum_list (map (\<lambda>r. col k (snd r)) (bump zero (add_event e) name table)) =
     sum_list (map (\<lambda>r. col k (snd r)) table) + amount e k"
  using assms
proof (induction table)
  case Nil
  then show ?case by (simp add: bump_def col_add col_zero)
next
  case (Cons p table)
  then show ?case by (cases p) (auto simp: bump_def col_add)
qed

lemma bump_distinct:
  "distinct (map fst table) \<Longrightarrow> distinct (map fst (bump zero (add_event e) name table))"
  by (simp add: bump_def AList.distinct_update)

lemma log_sum:
  assumes "distinct (map fst table)"
  shows "sum_list (map (\<lambda>r. col k (snd r)) (log evs table)) =
      sum_list (map (\<lambda>r. col k (snd r)) table) + sum_list (map (\<lambda>e. amount (snd e) k) evs) \<and>
    distinct (map fst (log evs table))"
  using assms
proof (induction evs arbitrary: table)
  case (Cons ev evs)
  obtain n e where ev: "ev = (n, e)" by (cases ev)
  from Cons.IH [OF bump_distinct [OF Cons.prems, of e n]] bump_sum [OF Cons.prems, of k e n]
  show ?case by (simp add: ev)
qed simp

end

lemma sorted_rows_mset:
  assumes "distinct (map fst table)"
  shows "mset (sorted_rows table) = mset table"
proof -
  have "mset (sorted_rows table) = mset (map (\<lambda>n. (n, the (map_of table n))) (map fst table))"
    by (simp add: sorted_rows_def multiset.map_comp)
  also have "map (\<lambda>n. (n, the (map_of table n))) (map fst table) = table"
    unfolding map_map by (rule map_idI) (use assms in auto)
  finally show ?thesis .
qed

lemma foldl_sum: "foldl (\<lambda>acc r. acc + f r) a rows = a + sum_list (map f rows :: nat list)"
  by (induction rows arbitrary: a) simp_all

lemma totals_eq:
  assumes "distinct (map fst table)"
  shows "totals cols (sorted_rows table) = map (\<lambda>c. sum_list (map (\<lambda>r. c (snd r)) table)) cols"
proof -
  have "sum_list (map f (sorted_rows table)) = sum_list (map f table)" for f :: "string \<times> 'a \<Rightarrow> nat"
  proof -
    have "mset (map f (sorted_rows table)) = mset (map f table)"
      using sorted_rows_mset [OF assms] by simp
    then show ?thesis by (metis sum_mset_sum_list)
  qed
  then show ?thesis by (simp add: totals_def foldl_sum)
qed

text \<open>The events of the two kinds of table: an access and its tiles.\<close>

datatype access = Access bool nat

fun add_access :: "access \<Rightarrow> counters \<Rightarrow> counters" where
  "add_access (Access True n) c = c\<lparr>reads := reads c + 1, tiles_read := tiles_read c + n\<rparr>"
| "add_access (Access False n) c = c\<lparr>writes := writes c + 1, tiles_written := tiles_written c + n\<rparr>"

fun add_dfb_access :: "access \<Rightarrow> dfb_counters \<Rightarrow> dfb_counters" where
  "add_dfb_access (Access True n) c = c\<lparr>waits := waits c + 1, tiles_waited := tiles_waited c + n\<rparr>"
| "add_dfb_access (Access False n) c =
     c\<lparr>reserves := reserves c + 1, tiles_reserved := tiles_reserved c + n\<rparr>"

text \<open>Columns by whether they concern reads (waits) and whether they count tiles.\<close>

fun access_amount :: "access \<Rightarrow> bool \<times> bool \<Rightarrow> nat" where
  "access_amount (Access r n) (r', tiles) = (if r = r' then if tiles then n else 1 else 0)"

fun counter_col :: "bool \<times> bool \<Rightarrow> counters \<Rightarrow> nat" where
  "counter_col (True, False) c = reads c"
| "counter_col (False, False) c = writes c"
| "counter_col (True, True) c = tiles_read c"
| "counter_col (False, True) c = tiles_written c"

fun dfb_counter_col :: "bool \<times> bool \<Rightarrow> dfb_counters \<Rightarrow> nat" where
  "dfb_counter_col (True, False) c = waits c"
| "dfb_counter_col (False, False) c = reserves c"
| "dfb_counter_col (True, True) c = tiles_waited c"
| "dfb_counter_col (False, True) c = tiles_reserved c"

interpretation access_table: tally zero_counters add_access access_amount counter_col
proof
  fix k e c
  show "counter_col k zero_counters = 0"
    by (cases k rule: prod.exhaust) (metis (full_types) counter_col.simps counters.select_convs
        zero_counters_def)
  show "counter_col k (add_access e c) = counter_col k c + access_amount e k"
    by (cases k; cases e; cases "fst k"; cases "snd k") (auto elim: add_access.elims)
qed

interpretation dfb_table: tally zero_dfb_counters add_dfb_access access_amount dfb_counter_col
proof
  fix k e c
  show "dfb_counter_col k zero_dfb_counters = 0"
    by (cases k rule: prod.exhaust) (metis (full_types) dfb_counter_col.simps
        dfb_counters.select_convs zero_dfb_counters_def)
  show "dfb_counter_col k (add_dfb_access e c) = dfb_counter_col k c + access_amount e k"
    by (cases k; cases e; cases "fst k"; cases "snd k") (auto elim: add_dfb_access.elims)
qed

section \<open>Sequences of recorded operations\<close>

text \<open>A call of one of the six \<open>record\<close> functions.\<close>

datatype stat_event =
    Tensor_access bool "string option" nat "nat list"
  | Pipe_access bool pipe "nat list list"
  | Dfb_access bool "string option" "nat option" nat

fun record_event :: "stat_event \<Rightarrow> stats_state \<Rightarrow> stats_state" where
  "record_event (Tensor_access True nm oid shp) s = record_tensor_read nm oid shp s"
| "record_event (Tensor_access False nm oid shp) s = record_tensor_write nm oid shp s"
| "record_event (Pipe_access True p shapes) s = record_pipe_read p shapes s"
| "record_event (Pipe_access False p shapes) s = record_pipe_write p shapes s"
| "record_event (Dfb_access True nm i n) s = record_dfb_wait nm i n s"
| "record_event (Dfb_access False nm i n) s = record_dfb_reserve nm i n s"

fun tensor_tally :: "bool \<Rightarrow> bool \<Rightarrow> stat_event \<Rightarrow> nat" where
  "tensor_tally r tiles (Tensor_access r' nm oid shp) =
     (if r' = r then if tiles then calculate_tensor_tiles shp else 1 else 0)"
| "tensor_tally r tiles _ = 0"

fun pipe_tally :: "bool \<Rightarrow> bool \<Rightarrow> stat_event \<Rightarrow> nat" where
  "pipe_tally r tiles (Pipe_access r' p shapes) =
     (if r' = r then if tiles then calculate_block_tiles shapes else 1 else 0)"
| "pipe_tally r tiles _ = 0"

fun dfb_tally :: "bool \<Rightarrow> bool \<Rightarrow> stat_event \<Rightarrow> nat" where
  "dfb_tally r tiles (Dfb_access r' nm i n) = (if r' = r then if tiles then n else 1 else 0)"
| "dfb_tally r tiles _ = 0"

definition table_sum :: "('c \<Rightarrow> nat) \<Rightarrow> (string \<times> 'c) list \<Rightarrow> nat" where
  "table_sum col table = sum_list (map (\<lambda>r. col (snd r)) table)"

lemma add_access_fun:
  "add_access (Access True n) = (\<lambda>c. c\<lparr>reads := reads c + 1, tiles_read := tiles_read c + n\<rparr>)"
  "add_access (Access False n) = (\<lambda>c. c\<lparr>writes := writes c + 1, tiles_written := tiles_written c + n\<rparr>)"
  "add_dfb_access (Access True n) = (\<lambda>c. c\<lparr>waits := waits c + 1, tiles_waited := tiles_waited c + n\<rparr>)"
  "add_dfb_access (Access False n) =
     (\<lambda>c. c\<lparr>reserves := reserves c + 1, tiles_reserved := tiles_reserved c + n\<rparr>)"
  by (simp_all add: fun_eq_iff)

text \<open>What one recorded operation does to the three tables.\<close>

lemma record_event_tables:
  assumes "stats_enabled s" and "distinct (map fst (stats_by_name s))"
    and "distinct (map fst (pipe_stats_by_name s))" and "distinct (map fst (dfb_stats_by_name s))"
  shows "stats_enabled (record_event ev s) \<and> distinct (map fst (stats_by_name (record_event ev s))) \<and>
    distinct (map fst (pipe_stats_by_name (record_event ev s))) \<and>
    distinct (map fst (dfb_stats_by_name (record_event ev s))) \<and>
    table_sum (counter_col (r, t)) (stats_by_name (record_event ev s)) =
      table_sum (counter_col (r, t)) (stats_by_name s) + tensor_tally r t ev \<and>
    table_sum (counter_col (r, t)) (pipe_stats_by_name (record_event ev s)) =
      table_sum (counter_col (r, t)) (pipe_stats_by_name s) + pipe_tally r t ev \<and>
    table_sum (dfb_counter_col (r, t)) (dfb_stats_by_name (record_event ev s)) =
      table_sum (dfb_counter_col (r, t)) (dfb_stats_by_name s) + dfb_tally r t ev"
proof -
  note A = access_table.bump_sum [where k = "(r, t)"] access_table.bump_distinct
  note D = dfb_table.bump_sum [where k = "(r, t)"] dfb_table.bump_distinct
  show ?thesis
  proof (cases ev)
    case (Tensor_access rd nm oid shp)
    define e where "e = Access rd (calculate_tensor_tiles shp)"
    have rec: "record_event ev s = s\<lparr>stats_by_name :=
        bump zero_counters (add_access e) (get_tensor_name nm oid) (stats_by_name s)\<rparr>"
      using assms(1) by (cases rd) (simp_all add: Tensor_access record_tensor_read_def
          record_tensor_write_def e_def add_access_fun)
    have ta: "tensor_tally r t ev = access_amount e (r, t)" "pipe_tally r t ev = 0" "dfb_tally r t ev = 0"
      by (auto simp add: Tensor_access e_def)
    show ?thesis
      unfolding rec ta table_sum_def using assms A [OF assms(2), of e "get_tensor_name nm oid"] by (simp)
  next
    case (Pipe_access rd p shapes)
    define e where "e = Access rd (calculate_block_tiles shapes)"
    have rec: "record_event ev s = s\<lparr>pipe_stats_by_name :=
        bump zero_counters (add_access e) (get_pipe_name p) (pipe_stats_by_name s)\<rparr>"
      using assms(1) by (cases rd) (simp_all add: Pipe_access record_pipe_read_def
          record_pipe_write_def e_def add_access_fun)
    have ta: "pipe_tally r t ev = access_amount e (r, t)" "tensor_tally r t ev = 0" "dfb_tally r t ev = 0"
      by (auto simp add: Pipe_access e_def)
    show ?thesis
      unfolding rec ta table_sum_def using assms A [OF assms(3), of e "get_pipe_name p"] by (simp)
  next
    case (Dfb_access rd nm i n)
    define e where "e = Access rd n"
    obtain name s1 where nm: "get_dfb_name nm i s = (name, s1)" by (cases "get_dfb_name nm i s")
    then have s1: "s1 = s\<lparr>dfb_name_counter := dfb_name_counter s1\<rparr>"
      by (auto simp: get_dfb_name_def split: if_splits option.splits)
    then have f: "stats_enabled s1 = stats_enabled s" "stats_by_name s1 = stats_by_name s"
      "pipe_stats_by_name s1 = pipe_stats_by_name s" "dfb_stats_by_name s1 = dfb_stats_by_name s"
      by (metis stats_state.select_convs stats_state.surjective stats_state.update_convs(5))+
    have rec: "record_event ev s = s1\<lparr>dfb_stats_by_name :=
        bump zero_dfb_counters (add_dfb_access e) name (dfb_stats_by_name s1)\<rparr>"
      using assms(1) by (cases rd) (simp_all add: Dfb_access record_dfb_reserve_def
          record_dfb_wait_def nm e_def add_access_fun)
    have ta: "dfb_tally r t ev = access_amount e (r, t)" "tensor_tally r t ev = 0" "pipe_tally r t ev = 0"
      by (auto simp add: Dfb_access e_def)
    show ?thesis
      unfolding rec ta table_sum_def using assms D [OF assms(4), of e name] by (simp add: f)
  qed
qed

lemma record_events_tables:
  assumes "stats_enabled s" and "distinct (map fst (stats_by_name s))"
    and "distinct (map fst (pipe_stats_by_name s))" and "distinct (map fst (dfb_stats_by_name s))"
  shows "distinct (map fst (stats_by_name (fold record_event evs s))) \<and>
    distinct (map fst (pipe_stats_by_name (fold record_event evs s))) \<and>
    distinct (map fst (dfb_stats_by_name (fold record_event evs s))) \<and>
    table_sum (counter_col (r, t)) (stats_by_name (fold record_event evs s)) =
      table_sum (counter_col (r, t)) (stats_by_name s) + sum_list (map (tensor_tally r t) evs) \<and>
    table_sum (counter_col (r, t)) (pipe_stats_by_name (fold record_event evs s)) =
      table_sum (counter_col (r, t)) (pipe_stats_by_name s) + sum_list (map (pipe_tally r t) evs) \<and>
    table_sum (dfb_counter_col (r, t)) (dfb_stats_by_name (fold record_event evs s)) =
      table_sum (dfb_counter_col (r, t)) (dfb_stats_by_name s) + sum_list (map (dfb_tally r t) evs)"
  using assms
proof (induction evs arbitrary: s)
  case (Cons ev evs)
  note R = record_event_tables [OF Cons.prems, of ev r t]
  then have "stats_enabled (record_event ev s)" "distinct (map fst (stats_by_name (record_event ev s)))"
    "distinct (map fst (pipe_stats_by_name (record_event ev s)))"
    "distinct (map fst (dfb_stats_by_name (record_event ev s)))" by blast+
  from Cons.IH [OF this] R show ?case by simp
qed simp

section \<open>Properties\<close>

text \<open>Whatever sequence of accesses was recorded since statistics were enabled on
  a fresh state, the TOTAL lines of the printed report are the numbers of accesses and of tiles
  of each kind: no access is lost, counted twice, or counted in another column or table.\<close>

lemma report_totals:
  "totals counter_cols (sorted_rows (stats_by_name (fold record_event evs (enable_stats init_stats)))) =
     [sum_list (map (tensor_tally True False) evs), sum_list (map (tensor_tally False False) evs),
      sum_list (map (tensor_tally True True) evs), sum_list (map (tensor_tally False True) evs)] \<and>
   totals counter_cols (sorted_rows (pipe_stats_by_name (fold record_event evs (enable_stats init_stats)))) =
     [sum_list (map (pipe_tally True False) evs), sum_list (map (pipe_tally False False) evs),
      sum_list (map (pipe_tally True True) evs), sum_list (map (pipe_tally False True) evs)] \<and>
   totals dfb_counter_cols (sorted_rows (dfb_stats_by_name (fold record_event evs (enable_stats init_stats)))) =
     [sum_list (map (dfb_tally False False) evs), sum_list (map (dfb_tally True False) evs),
      sum_list (map (dfb_tally False True) evs), sum_list (map (dfb_tally True True) evs)]"
proof -
  let ?s = "fold record_event evs (enable_stats init_stats)"
  have "stats_enabled (enable_stats init_stats)" "distinct (map fst (stats_by_name (enable_stats init_stats)))"
    "distinct (map fst (pipe_stats_by_name (enable_stats init_stats)))"
    "distinct (map fst (dfb_stats_by_name (enable_stats init_stats)))"
    by (simp_all add: enable_stats_def init_stats_def)
  note R = record_events_tables [OF this, of evs]
  have z: "table_sum c (stats_by_name (enable_stats init_stats)) = 0"
    "table_sum c (pipe_stats_by_name (enable_stats init_stats)) = 0"
    "table_sum d (dfb_stats_by_name (enable_stats init_stats)) = 0" for c d
    by (simp_all add: table_sum_def enable_stats_def init_stats_def)
  have cols: "map (\<lambda>c. sum_list (map (\<lambda>r. c (snd r)) tb)) counter_cols =
      [table_sum (counter_col (True, False)) tb, table_sum (counter_col (False, False)) tb,
       table_sum (counter_col (True, True)) tb, table_sum (counter_col (False, True)) tb]" for tb
    by (simp add: counter_cols_def table_sum_def)
  have dcols: "map (\<lambda>c. sum_list (map (\<lambda>r. c (snd r)) tb)) dfb_counter_cols =
      [table_sum (dfb_counter_col (False, False)) tb, table_sum (dfb_counter_col (True, False)) tb,
       table_sum (dfb_counter_col (False, True)) tb, table_sum (dfb_counter_col (True, True)) tb]" for tb
    by (simp add: dfb_counter_cols_def table_sum_def)
  have d: "distinct (map fst (stats_by_name ?s))" "distinct (map fst (pipe_stats_by_name ?s))"
    "distinct (map fst (dfb_stats_by_name ?s))"
    using R [of True True] by blast+
  show ?thesis
    unfolding totals_eq [OF d(1)] totals_eq [OF d(2)] totals_eq [OF d(3)] cols dcols
    using R [of True True] R [of True False] R [of False True] R [of False False]
    by (simp only: z add_0)
qed

end
