(* ===== verification/Blockstate.thy ===== *)
theory Blockstate
  imports Prelude
begin

text \<open>
  The block state machine: the enumerations and the transition table of
  \<open>python/sim/blockstate.py\<close>, and the part of \<open>class Block\<close> of
  \<open>python/sim/dfb.py\<close> that runs it (\<open>_initialize_state\<close>, \<open>_validate_state\<close>,
  \<open>_transition_state\<close> and the \<open>mark_*\<close> methods). The four state machine variables
  are the record \<open>bstate\<close>; the block itself (theory Block) extends it.

  The lemmas: the states a block can reach are those listed in the table of its acquisition
  and thread type; in each of them every expected operation succeeds, so the
  \<open>Impossible!\<close> branches are dead; a block leaves its scope only through \<open>push\<close>/\<open>pop\<close>
  and is inert afterwards; and no block is pushed before it was written or popped before it
  was read.
\<close>

section \<open>Enumerations\<close>

datatype access_state = MW | MR | RW | A | NAR | NAW | OS

datatype thread_type = DM | COMPUTE

datatype block_acquisition = RESERVE | WAIT

datatype expected_op =
    COPY_SRC | COPY_DST | TX_WAIT | PUSH | POP | STORE | STORE_ACC | STORE_SRC | DONE

fun expected_op_name :: "expected_op \<Rightarrow> string" where
  "expected_op_name COPY_SRC = ''COPY_SRC''"
| "expected_op_name COPY_DST = ''COPY_DST''"
| "expected_op_name TX_WAIT = ''TX_WAIT''"
| "expected_op_name PUSH = ''PUSH''"
| "expected_op_name POP = ''POP''"
| "expected_op_name STORE = ''STORE''"
| "expected_op_name STORE_ACC = ''STORE_ACC''"
| "expected_op_name STORE_SRC = ''STORE_SRC''"
| "expected_op_name DONE = ''DONE''"

lemma expected_op_name_inj: "expected_op_name x = expected_op_name y \<Longrightarrow> x = y"
  by (cases x; cases y) simp_all

text \<open>Error messages list the expected operations sorted by name.\<close>

instantiation expected_op :: linorder
begin

definition less_eq_expected_op :: "expected_op \<Rightarrow> expected_op \<Rightarrow> bool" where
  "less_eq_expected_op x y \<longleftrightarrow> expected_op_name x \<le> expected_op_name y"

definition less_expected_op :: "expected_op \<Rightarrow> expected_op \<Rightarrow> bool" where
  "less_expected_op x y \<longleftrightarrow> expected_op_name x < expected_op_name y"

instance
  by standard
    (auto simp: less_eq_expected_op_def less_expected_op_def dest: expected_op_name_inj)

end

definition expected_names :: "expected_op set \<Rightarrow> string" where
  "expected_names ops = join '', '' (map expected_op_name (sorted_list_of_set ops))"

section \<open>The current thread type\<close>

text \<open>
  The module global \<open>_current_thread_type\<close>; the state of the simulator extends this
  record.
\<close>

record globals =
  current_thread_type :: "thread_type option"

definition get_current_thread_type :: "'a globals_scheme \<Rightarrow> thread_type result" where
  "get_current_thread_type g =
     (case current_thread_type g of
        None \<Rightarrow> Inl (RuntimeError ''Thread context not set'')
      | Some t \<Rightarrow> Inr t)"

definition set_current_thread_type ::
    "thread_type option \<Rightarrow> 'a globals_scheme \<Rightarrow> 'a globals_scheme" where
  "set_current_thread_type t g = g\<lparr>current_thread_type := t\<rparr>"

definition clear_current_thread_type :: "'a globals_scheme \<Rightarrow> 'a globals_scheme" where
  "clear_current_thread_type g = g\<lparr>current_thread_type := None\<rparr>"

section \<open>The transition table\<close>

datatype op_key =
    Copy_src | Copy_dst | Tx_wait | Store_src | Store_dst | Store_dst_acc

type_synonym transition = "access_state \<times> expected_op set"

definition wait_dm_transitions :: "((op_key \<times> access_state) \<times> transition) list" where
  "wait_dm_transitions =
     [((Copy_src, MR), (NAR, {TX_WAIT})),
      ((Copy_src, RW), (NAR, {TX_WAIT})),
      ((Copy_dst, RW), (NAW, {TX_WAIT})),
      ((Tx_wait, NAR), (RW, {COPY_DST, COPY_SRC, POP})),
      ((Tx_wait, NAW), (MR, {COPY_SRC}))]"

definition reserve_dm_transitions :: "((op_key \<times> access_state) \<times> transition) list" where
  "reserve_dm_transitions =
     [((Copy_src, MR), (NAR, {TX_WAIT})),
      ((Copy_src, RW), (NAR, {TX_WAIT})),
      ((Copy_dst, MW), (NAW, {TX_WAIT})),
      ((Copy_dst, RW), (NAW, {TX_WAIT})),
      ((Tx_wait, NAW), (MR, {PUSH, COPY_SRC})),
      ((Tx_wait, NAR), (RW, {COPY_DST, COPY_SRC, PUSH}))]"

definition wait_compute_transitions :: "((op_key \<times> access_state) \<times> transition) list" where
  "wait_compute_transitions =
     [((Store_src, MR), (RW, {STORE_SRC, STORE, STORE_ACC, POP})),
      ((Store_src, RW), (RW, {STORE_SRC, STORE, STORE_ACC, POP})),
      ((Store_src, A), (RW, {STORE_SRC, STORE, STORE_ACC, POP})),
      ((Store_dst_acc, RW), (A, {STORE_SRC, STORE_ACC})),
      ((Store_dst_acc, A), (A, {STORE_SRC, STORE_ACC})),
      ((Store_dst, RW), (MR, {STORE_SRC}))]"

definition reserve_compute_transitions :: "((op_key \<times> access_state) \<times> transition) list" where
  "reserve_compute_transitions =
     [((Store_src, MR), (RW, {STORE_SRC, STORE, STORE_ACC, PUSH})),
      ((Store_src, RW), (RW, {STORE_SRC, STORE, STORE_ACC, PUSH})),
      ((Store_src, A), (RW, {STORE_SRC, STORE, STORE_ACC, PUSH})),
      ((Store_dst_acc, MW), (A, {STORE_SRC, STORE_ACC, PUSH})),
      ((Store_dst_acc, RW), (A, {STORE_SRC, STORE_ACC, PUSH})),
      ((Store_dst_acc, A), (A, {STORE_SRC, STORE_ACC, PUSH})),
      ((Store_dst, MW), (MR, {STORE_SRC, PUSH})),
      ((Store_dst, RW), (MR, {STORE_SRC, PUSH}))]"

fun state_transitions ::
    "block_acquisition \<Rightarrow> thread_type \<Rightarrow> ((op_key \<times> access_state) \<times> transition) list" where
  "state_transitions WAIT DM = wait_dm_transitions"
| "state_transitions RESERVE DM = reserve_dm_transitions"
| "state_transitions WAIT COMPUTE = wait_compute_transitions"
| "state_transitions RESERVE COMPUTE = reserve_compute_transitions"

lemmas transition_tables = wait_dm_transitions_def reserve_dm_transitions_def
  wait_compute_transitions_def reserve_compute_transitions_def

section \<open>The state machine of a block\<close>

record bstate =
  acquisition :: block_acquisition
  thread_type :: thread_type
  access_state :: access_state
  expected_ops :: "expected_op set"

fun initial_state :: "block_acquisition \<Rightarrow> thread_type \<Rightarrow> transition" where
  "initial_state RESERVE DM = (MW, {COPY_DST})"
| "initial_state RESERVE COMPUTE = (MW, {STORE, STORE_ACC})"
| "initial_state WAIT DM = (MR, {COPY_SRC})"
| "initial_state WAIT COMPUTE = (MR, {STORE_SRC})"

definition initialize_state :: "'a bstate_scheme \<Rightarrow> 'a bstate_scheme" where
  "initialize_state b =
     b\<lparr>access_state := fst (initial_state (acquisition b) (thread_type b)),
       expected_ops := snd (initial_state (acquisition b) (thread_type b))\<rparr>"

definition validate_state :: "string \<Rightarrow> expected_op \<Rightarrow> 'a bstate_scheme \<Rightarrow> unit result" where
  "validate_state operation op b =
     (if expected_ops b = {}
      then Inl (RuntimeError (''Cannot perform '' @ operation @
             '': Block is in DONE/uninitialized state.''))
      else if op \<notin> expected_ops b
      then Inl (RuntimeError (''Cannot perform '' @ operation @ '': Expected one of ['' @
             expected_names (expected_ops b) @ ''], but got '' @ operation))
      else Inr ())"

definition transition_state ::
    "op_key \<Rightarrow> string \<Rightarrow> expected_op \<Rightarrow> 'a bstate_scheme \<Rightarrow> 'a bstate_scheme result" where
  "transition_state key display op b =
     rbind (validate_state display op b) (\<lambda>_.
       case map_of (state_transitions (acquisition b) (thread_type b)) (key, access_state b) of
         None \<Rightarrow> Inl (RuntimeError (''Impossible! Invalid state for '' @ display))
       | Some (acc, ops) \<Rightarrow> Inr (b\<lparr>access_state := acc, expected_ops := ops\<rparr>))"

definition mark_copy_as_source :: "'a bstate_scheme \<Rightarrow> 'a bstate_scheme result" where
  "mark_copy_as_source = transition_state Copy_src ''copy (as source)'' COPY_SRC"

definition mark_copy_as_dest :: "'a bstate_scheme \<Rightarrow> 'a bstate_scheme result" where
  "mark_copy_as_dest = transition_state Copy_dst ''copy (as destination)'' COPY_DST"

definition mark_tx_wait_complete :: "'a bstate_scheme \<Rightarrow> 'a bstate_scheme result" where
  "mark_tx_wait_complete = transition_state Tx_wait ''tx.wait()'' TX_WAIT"

definition mark_store_read_complete :: "'a bstate_scheme \<Rightarrow> 'a bstate_scheme result" where
  "mark_store_read_complete = transition_state Store_src ''store (as source)'' STORE_SRC"

definition mark_store_complete :: "bool \<Rightarrow> 'a bstate_scheme \<Rightarrow> 'a bstate_scheme result" where
  "mark_store_complete acc =
     (if acc then transition_state Store_dst_acc ''store(acc=True)'' STORE_ACC
      else transition_state Store_dst ''store(acc=False)'' STORE)"

definition mark_push_complete :: "'a bstate_scheme \<Rightarrow> 'a bstate_scheme result" where
  "mark_push_complete b =
     rbind (validate_state ''push()'' PUSH b) (\<lambda>_.
     if acquisition b \<noteq> RESERVE
     then Inl (RuntimeError ''Cannot perform push(): push() is only valid for reserve() blocks'')
     else Inr (b\<lparr>access_state := OS, expected_ops := {}\<rparr>))"

definition mark_pop_complete :: "'a bstate_scheme \<Rightarrow> 'a bstate_scheme result" where
  "mark_pop_complete b =
     rbind (validate_state ''pop()'' POP b) (\<lambda>_.
     if acquisition b \<noteq> WAIT
     then Inl (RuntimeError ''Cannot perform pop(): pop() is only valid for wait() blocks'')
     else if access_state b \<notin> {MR, RW, A}
     then Inl (RuntimeError ''Cannot perform pop(): Invalid access state'')
     else Inr (b\<lparr>access_state := OS, expected_ops := {}\<rparr>))"

lemmas mark_defs = mark_copy_as_source_def mark_copy_as_dest_def mark_tx_wait_complete_def
  mark_store_read_complete_def mark_store_complete_def mark_push_complete_def
  mark_pop_complete_def transition_state_def validate_state_def

section \<open>Operations, reachable states\<close>

text \<open>The operations on a block, each with the \<open>mark_*\<close> method it runs.\<close>

datatype bop =
    Op_copy_src | Op_copy_dst | Op_tx_wait | Op_store_src | Op_store bool | Op_push | Op_pop

fun mark :: "bop \<Rightarrow> 'a bstate_scheme \<Rightarrow> 'a bstate_scheme result" where
  "mark Op_copy_src = mark_copy_as_source"
| "mark Op_copy_dst = mark_copy_as_dest"
| "mark Op_tx_wait = mark_tx_wait_complete"
| "mark Op_store_src = mark_store_read_complete"
| "mark (Op_store acc) = mark_store_complete acc"
| "mark Op_push = mark_push_complete"
| "mark Op_pop = mark_pop_complete"

fun op_expected :: "bop \<Rightarrow> expected_op" where
  "op_expected Op_copy_src = COPY_SRC"
| "op_expected Op_copy_dst = COPY_DST"
| "op_expected Op_tx_wait = TX_WAIT"
| "op_expected Op_store_src = STORE_SRC"
| "op_expected (Op_store acc) = (if acc then STORE_ACC else STORE)"
| "op_expected Op_push = PUSH"
| "op_expected Op_pop = POP"

definition fresh_bstate :: "block_acquisition \<Rightarrow> thread_type \<Rightarrow> bstate" where
  "fresh_bstate acq t =
     initialize_state \<lparr>acquisition = acq, thread_type = t, access_state = OS, expected_ops = {}\<rparr>"

inductive bstep :: "bstate \<Rightarrow> bop \<Rightarrow> bstate \<Rightarrow> bool" where
  step: "mark op b = Inr b' \<Longrightarrow> bstep b op b'"

inductive_simps bstep_iff: "bstep b op b'"

inductive btrace :: "bstate \<Rightarrow> bop list \<Rightarrow> bstate \<Rightarrow> bool" where
  start: "btrace b [] b"
| snoc: "btrace b ops b' \<Longrightarrow> bstep b' op b'' \<Longrightarrow> btrace b (ops @ [op]) b''"

inductive_cases btrace_snocE: "btrace b (ops @ [op]) b'"

text \<open>
  The states a block of a given acquisition and thread type may be in: its initial state,
  the targets of its transition table, and the final state.
\<close>

definition legal_states :: "block_acquisition \<Rightarrow> thread_type \<Rightarrow> transition list" where
  "legal_states acq t = (OS, {}) # initial_state acq t # map snd (state_transitions acq t)"

definition legal :: "'a bstate_scheme \<Rightarrow> bool" where
  "legal b \<longleftrightarrow>
     (access_state b, expected_ops b) \<in> set (legal_states (acquisition b) (thread_type b))"

text \<open>Facts about the table, by evaluation over its entries.\<close>

fun op_key_of :: "bop \<Rightarrow> op_key" where
  "op_key_of Op_copy_src = Copy_src"
| "op_key_of Op_copy_dst = Copy_dst"
| "op_key_of Op_tx_wait = Tx_wait"
| "op_key_of Op_store_src = Store_src"
| "op_key_of (Op_store acc) = (if acc then Store_dst_acc else Store_dst)"
| "op_key_of Op_push = Tx_wait"
| "op_key_of Op_pop = Tx_wait"

lemma table_complete:
  assumes "p \<in> set (legal_states acq t)" and "op_expected op \<in> snd p"
    and "op \<noteq> Op_push" and "op \<noteq> Op_pop"
  shows "map_of (state_transitions acq t) (op_key_of op, fst p) \<noteq> None"
proof -
  have "\<forall>p\<in>set (legal_states acq t). op_expected op \<in> snd p \<longrightarrow>
      op = Op_push \<or> op = Op_pop \<or> map_of (state_transitions acq t) (op_key_of op, fst p) \<noteq> None"
    by (cases acq; cases t; cases op) (simp_all add: legal_states_def transition_tables)
  with assms show ?thesis by blast
qed

lemma table_done:
  assumes "p \<in> set (legal_states acq t)"
  shows "snd p = {} \<longleftrightarrow> fst p = OS"
proof -
  have "\<forall>p\<in>set (legal_states acq t). snd p = {} \<longleftrightarrow> fst p = OS"
    by (cases acq; cases t) (simp_all add: legal_states_def transition_tables)
  with assms show ?thesis by blast
qed

lemma table_release:
  assumes "p \<in> set (legal_states acq t)"
  shows "PUSH \<in> snd p \<Longrightarrow> acq = RESERVE" "POP \<in> snd p \<Longrightarrow> acq = WAIT \<and> fst p = RW"
proof -
  have "\<forall>p\<in>set (legal_states acq t). (PUSH \<in> snd p \<longrightarrow> acq = RESERVE)
      \<and> (POP \<in> snd p \<longrightarrow> acq = WAIT \<and> fst p = RW)"
    by (cases acq; cases t) (simp_all add: legal_states_def transition_tables)
  with assms show "PUSH \<in> snd p \<Longrightarrow> acq = RESERVE" "POP \<in> snd p \<Longrightarrow> acq = WAIT \<and> fst p = RW"
    by blast+
qed

text \<open>Success and failure of the two building blocks.\<close>

lemma validate_state_eq_Inr [simp]:
  "validate_state d op b = Inr u \<longleftrightarrow> op \<in> expected_ops b"
  by (auto simp: validate_state_def)

lemma validate_state_fails:
  "op \<notin> expected_ops b \<Longrightarrow> \<exists>m. validate_state d op b = Inl (RuntimeError m)"
  by (simp add: validate_state_def)

lemma transition_state_eq_Inr:
  "transition_state key d op b = Inr b' \<longleftrightarrow>
     op \<in> expected_ops b \<and>
     (\<exists>acc ops. map_of (state_transitions (acquisition b) (thread_type b)) (key, access_state b)
         = Some (acc, ops) \<and> b' = b\<lparr>access_state := acc, expected_ops := ops\<rparr>)"
  by (auto simp: transition_state_def rbind_eq_Inr split: option.splits)

lemma mark_as_transition:
  assumes "op \<noteq> Op_push" and "op \<noteq> Op_pop"
  shows "\<exists>d. mark op b = transition_state (op_key_of op) d (op_expected op) b"
  using assms
  by (cases op) (auto simp: mark_copy_as_source_def mark_copy_as_dest_def
      mark_tx_wait_complete_def mark_store_read_complete_def mark_store_complete_def)

lemma mark_push_eq_Inr: "mark Op_push b = Inr b' \<longleftrightarrow>
    PUSH \<in> expected_ops b \<and> acquisition b = RESERVE \<and> b' = b\<lparr>access_state := OS, expected_ops := {}\<rparr>"
  by (auto simp: mark_push_complete_def rbind_eq_Inr)

lemma mark_pop_eq_Inr: "mark Op_pop b = Inr b' \<longleftrightarrow>
    POP \<in> expected_ops b \<and> acquisition b = WAIT \<and> access_state b \<in> {MR, RW, A} \<and>
    b' = b\<lparr>access_state := OS, expected_ops := {}\<rparr>"
  by (auto simp: mark_pop_complete_def rbind_eq_Inr)

lemma mark_transition_eq_Inr:
  assumes "op \<noteq> Op_push" and "op \<noteq> Op_pop"
  shows "mark op b = Inr b' \<longleftrightarrow> op_expected op \<in> expected_ops b \<and>
     (\<exists>acc ops. map_of (state_transitions (acquisition b) (thread_type b)) (op_key_of op, access_state b)
         = Some (acc, ops) \<and> b' = b\<lparr>access_state := acc, expected_ops := ops\<rparr>)"
proof -
  obtain d where "mark op b = transition_state (op_key_of op) d (op_expected op) b"
    using mark_as_transition [OF assms, of b] by blast
  then show ?thesis by (simp only: transition_state_eq_Inr)
qed

lemma mark_expected: "mark op b = Inr b' \<Longrightarrow> op_expected op \<in> expected_ops b"
  by (cases "op = Op_push \<or> op = Op_pop")
    (auto simp: mark_push_eq_Inr mark_pop_eq_Inr mark_transition_eq_Inr simp del: mark.simps)

lemma mark_keeps:
  assumes "mark op b = Inr b'"
  shows "acquisition b' = acquisition b" "thread_type b' = thread_type b"
  using assms
  by (cases "op = Op_push \<or> op = Op_pop";
      auto simp: mark_push_eq_Inr mark_pop_eq_Inr mark_transition_eq_Inr simp del: mark.simps)+

lemma mark_legal:
  assumes "mark op b = Inr b'"
  shows "legal b'"
  using assms
  by (cases "op = Op_push \<or> op = Op_pop")
    (auto simp: mark_push_eq_Inr mark_pop_eq_Inr mark_transition_eq_Inr legal_def legal_states_def
      simp del: mark.simps dest!: map_of_SomeD intro!: image_eqI [where f = snd])

lemma legal_initialize [intro]: "legal (initialize_state b)"
  by (simp add: legal_def legal_states_def initialize_state_def)

text \<open>An operation of a legal state that is expected finds its entry in the table.\<close>

lemma legal_expected_succeeds:
  assumes "legal b" and "op_expected op \<in> expected_ops b"
  shows "\<exists>b'. mark op b = Inr b'"
proof -
  let ?p = "(access_state b, expected_ops b)"
  from assms(1) have p: "?p \<in> set (legal_states (acquisition b) (thread_type b))"
    by (simp add: legal_def)
  consider "op = Op_push" | "op = Op_pop" | "op \<noteq> Op_push" "op \<noteq> Op_pop" by blast
  then show ?thesis
  proof cases
    case 1
    with table_release(1) [OF p] assms(2) show ?thesis
      by (simp add: mark_push_eq_Inr del: mark.simps)
  next
    case 2
    with table_release(2) [OF p] assms(2) show ?thesis
      by (simp add: mark_pop_eq_Inr del: mark.simps)
  next
    case 3
    with table_complete [OF p, of op] assms(2) show ?thesis
      by (auto simp: mark_transition_eq_Inr simp del: mark.simps)
  qed
qed

lemma unexpected_fails:
  assumes "op_expected op \<notin> expected_ops b"
  shows "\<exists>m. mark op b = Inl (RuntimeError m)"
proof -
  have f: "\<exists>m. validate_state d (op_expected op) b = Inl (RuntimeError m)" for d
    using assms by (rule validate_state_fails)
  consider "op = Op_push" | "op = Op_pop" | "op \<noteq> Op_push" "op \<noteq> Op_pop" by blast
  then show ?thesis
  proof cases
    case 1
    with f [of "''push()''"] show ?thesis by (auto simp: mark_push_complete_def)
  next
    case 2
    with f [of "''pop()''"] show ?thesis by (auto simp: mark_pop_complete_def)
  next
    case 3
    then obtain d where "mark op b = transition_state (op_key_of op) d (op_expected op) b"
      using mark_as_transition by blast
    with f [of d] show ?thesis by (auto simp: transition_state_def)
  qed
qed

lemma btrace_legal:
  assumes "btrace b ops b'" and "legal b"
  shows "legal b'"
  using assms by (induction rule: btrace.induct) (auto simp: bstep_iff dest: mark_legal)

lemma btrace_keeps:
  assumes "btrace b ops b'"
  shows "acquisition b' = acquisition b \<and> thread_type b' = thread_type b"
  using assms by (induction rule: btrace.induct) (auto simp: bstep_iff dest: mark_keeps)

lemma fresh_bstate_simps [simp]:
  "acquisition (fresh_bstate acq t) = acq" "thread_type (fresh_bstate acq t) = t"
  by (simp_all add: fresh_bstate_def initialize_state_def)

lemma legal_fresh [simp]: "legal (fresh_bstate acq t)"
  unfolding fresh_bstate_def by (rule legal_initialize)

text \<open>A write of the block: a completed store, or a transfer into it.\<close>

fun is_write :: "bop \<Rightarrow> bool" where
  "is_write Op_copy_dst = True"
| "is_write (Op_store acc) = True"
| "is_write _ = False"

fun is_read :: "bop \<Rightarrow> bool" where
  "is_read Op_copy_src = True"
| "is_read Op_store_src = True"
| "is_read _ = False"

text \<open>
  Strengthened invariant for the lifecycle: before any write a reserved block is still in its
  initial state; before any read a waited block is.
\<close>

lemma untouched_reserve:
  assumes "btrace b ops b'" and "b = fresh_bstate RESERVE t" and "\<forall>op\<in>set ops. \<not> is_write op"
  shows "b' = b"
  using assms
proof (induction rule: btrace.induct)
  case (snoc b ops b' op b'')
  then have "op_expected op \<in> expected_ops (fresh_bstate RESERVE t)" and "\<not> is_write op"
    by (auto simp: bstep_iff dest!: mark_expected)
  then have False
    by (cases t; cases op) (auto simp: fresh_bstate_def initialize_state_def split: if_splits)
  then show ?case ..
qed simp

lemma untouched_wait:
  assumes "btrace b ops b'" and "b = fresh_bstate WAIT t" and "\<forall>op\<in>set ops. \<not> is_read op"
  shows "b' = b"
  using assms
proof (induction rule: btrace.induct)
  case (snoc b ops b' op b'')
  then have "op_expected op \<in> expected_ops (fresh_bstate WAIT t)" and "\<not> is_read op"
    by (auto simp: bstep_iff dest!: mark_expected)
  then have False
    by (cases t; cases op) (auto simp: fresh_bstate_def initialize_state_def split: if_splits)
  then show ?case ..
qed simp

lemma push_pop_done:
  assumes "mark op b = Inr b'" and "op = Op_push \<or> op = Op_pop"
  shows "access_state b' = OS \<and> expected_ops b' = {}"
  using assms by (auto simp: mark_push_eq_Inr mark_pop_eq_Inr simp del: mark.simps)

lemma done_fails: "expected_ops b = {} \<Longrightarrow> \<exists>m. mark op b = Inl (RuntimeError m)"
  by (rule unexpected_fails) simp

lemma legal_pop_state: "legal b \<Longrightarrow> POP \<in> expected_ops b \<Longrightarrow> access_state b = RW"
  by (auto simp: legal_def dest: table_release(2))

lemma legal_done_iff: "legal b \<Longrightarrow> expected_ops b = {} \<longleftrightarrow> access_state b = OS"
  by (auto simp: legal_def dest: table_done)

section \<open>Properties\<close>

text \<open>
  Property C14: in every state a block can reach by the operations of its life, an operation
  succeeds exactly if the state machine expects it, and an operation that fails raises
  \<open>RuntimeError\<close>. So the \<open>Impossible!\<close> branch of \<open>_transition_state\<close> is never taken on
  an expected operation.
\<close>

theorem expected_iff_succeeds:
  assumes "btrace (fresh_bstate acq t) ops b"
  shows "(op_expected op \<in> expected_ops b \<longrightarrow> (\<exists>b'. mark op b = Inr b')) \<and>
    (op_expected op \<notin> expected_ops b \<longrightarrow> (\<exists>m. mark op b = Inl (RuntimeError m)))"
  using legal_expected_succeeds [OF btrace_legal [OF assms legal_fresh]] unexpected_fails by blast

lemma store_push_trace:
  "btrace (fresh_bstate RESERVE COMPUTE) [Op_store False]
     \<lparr>acquisition = RESERVE, thread_type = COMPUTE, access_state = MR, expected_ops = {STORE_SRC, PUSH}\<rparr>"
  using snoc [OF start, of "fresh_bstate RESERVE COMPUTE" "Op_store False"]
  by (simp add: bstep_iff fresh_bstate_def initialize_state_def mark_store_complete_def
      transition_state_def validate_state_def reserve_compute_transitions_def)

theorem expected_iff_succeeds_witness:
  "(\<exists>b'. mark Op_push \<lparr>acquisition = RESERVE, thread_type = COMPUTE, access_state = MR,
        expected_ops = {STORE_SRC, PUSH}\<rparr> = Inr b') \<and>
   (\<exists>m. mark Op_pop \<lparr>acquisition = RESERVE, thread_type = COMPUTE, access_state = MR,
        expected_ops = {STORE_SRC, PUSH}\<rparr> = Inl (RuntimeError m))"
  using expected_iff_succeeds [OF store_push_trace, of Op_push]
    expected_iff_succeeds [OF store_push_trace, of Op_pop] by (simp del: mark.simps)

text \<open>
  Property C19: a block is given back only after it was used: every trace of a reserved block
  that ends in \<open>push\<close> contains a write of the block (a completed store or a copy into it),
  every trace of a waited block that ends in \<open>pop\<close> contains a read, a block is never pushed
  and popped by the wrong acquisition, and after \<open>push\<close> or \<open>pop\<close> every further operation
  raises.
\<close>

theorem released_only_after_use:
  assumes "btrace (fresh_bstate acq t) (ops @ [op]) b" and "op = Op_push \<or> op = Op_pop"
  shows "(acq = RESERVE \<longleftrightarrow> op = Op_push) \<and> (acq = RESERVE \<longrightarrow> (\<exists>o'\<in>set ops. is_write o')) \<and>
    (acq = WAIT \<longrightarrow> (\<exists>o'\<in>set ops. is_read o')) \<and> access_state b = OS \<and>
    (\<forall>op'. \<exists>m. mark op' b = Inl (RuntimeError m))"
proof -
  from assms(1) obtain b0 where b0: "btrace (fresh_bstate acq t) ops b0" "mark op b0 = Inr b"
    by (elim btrace_snocE) (auto simp: bstep_iff)
  have acq: "acquisition b0 = acq" using btrace_keeps [OF b0(1)] by simp
  have ex: "op_expected op \<in> expected_ops b0" by (rule mark_expected [OF b0(2)])
  have w: "\<exists>o'\<in>set ops. is_write o'" if "acq = RESERVE"
  proof (rule ccontr)
    assume "\<not> ?thesis"
    with untouched_reserve [OF b0(1)] that have "b0 = fresh_bstate RESERVE t" by blast
    with ex assms(2) show False
      by (cases t) (auto simp: fresh_bstate_def initialize_state_def)
  qed
  have r: "\<exists>o'\<in>set ops. is_read o'" if "acq = WAIT"
  proof (rule ccontr)
    assume "\<not> ?thesis"
    with untouched_wait [OF b0(1)] that have "b0 = fresh_bstate WAIT t" by blast
    with ex assms(2) show False
      by (cases t) (auto simp: fresh_bstate_def initialize_state_def)
  qed
  have "acq = RESERVE \<longleftrightarrow> op = Op_push"
    using b0(2) acq assms(2) by (auto simp: mark_push_eq_Inr mark_pop_eq_Inr simp del: mark.simps)
  with w r push_pop_done [OF b0(2) assms(2)] done_fails [of b] show ?thesis by blast
qed

theorem released_only_after_use_witness:
  "\<exists>o'\<in>set [Op_store False]. is_write o'"
proof -
  have "btrace (fresh_bstate RESERVE COMPUTE) ([Op_store False] @ [Op_push])
      \<lparr>acquisition = RESERVE, thread_type = COMPUTE, access_state = OS, expected_ops = {}\<rparr>"
    by (rule snoc [OF store_push_trace]) (simp add: bstep_iff mark_push_eq_Inr del: mark.simps)
  from released_only_after_use [OF this] show ?thesis by simp
qed

end
