(* ===== verification/Fifo.thy ===== *)
theory Fifo
  imports Prelude
begin

text \<open>
  The contract of a bounded channel that moves items in chunks of a fixed size, as producers
  and consumers of a dataflow buffer rely on it: an accepted \<open>put\<close> appends its chunk, a
  successful \<open>get\<close> returns and removes the oldest chunk, and an operation that raises
  leaves the contents alone. What a client gets from the contract is proved once: over any
  interleaving of attempts, what was delivered followed by what is still inside is what was
  inside followed by what was accepted.
\<close>

datatype 'a chan_op = Put "'a list" | Get

text \<open>Run a sequence of attempts; collect what was accepted and what was delivered.\<close>

fun run_chan ::
    "('a list \<Rightarrow> ('s, unit) state_op) \<Rightarrow> ('s, 'a list) state_op \<Rightarrow> 'a chan_op list \<Rightarrow> 's \<Rightarrow>
     'a list \<times> 'a list \<times> 's" where
  "run_chan put get [] s = ([], [], s)"
| "run_chan put get (Put xs # ops) s =
     (case put xs s of
        (Inl _, s') \<Rightarrow> run_chan put get ops s'
      | (Inr _, s') \<Rightarrow>
          (case run_chan put get ops s' of (acc, del, t) \<Rightarrow> (xs @ acc, del, t)))"
| "run_chan put get (Get # ops) s =
     (case get s of
        (Inl _, s') \<Rightarrow> run_chan put get ops s'
      | (Inr ys, s') \<Rightarrow>
          (case run_chan put get ops s' of (acc, del, t) \<Rightarrow> (acc, ys @ del, t)))"

definition chunked :: "nat \<Rightarrow> 'a chan_op list \<Rightarrow> bool" where
  "chunked n ops \<longleftrightarrow> (\<forall>xs. Put xs \<in> set ops \<longrightarrow> length xs = n)"

lemma chunked_Cons [simp]:
  "chunked n (op # ops) \<longleftrightarrow> (case op of Put xs \<Rightarrow> length xs = n | Get \<Rightarrow> True) \<and> chunked n ops"
  by (auto simp: chunked_def split: chan_op.splits)

locale fifo =
  fixes inv :: "'s \<Rightarrow> bool"
    and contents :: "'s \<Rightarrow> 'a list"
    and capacity :: "'s \<Rightarrow> nat"
    and chunk :: nat
    and put :: "'a list \<Rightarrow> ('s, unit) state_op"
    and get :: "('s, 'a list) state_op"
  assumes bounded: "inv s \<Longrightarrow> length (contents s) \<le> capacity s"
    and put_ok: "inv s \<Longrightarrow> length xs = chunk \<Longrightarrow> length (contents s) + chunk \<le> capacity s \<Longrightarrow>
      \<exists>s'. put xs s = (Inr (), s') \<and> inv s' \<and> contents s' = contents s @ xs \<and>
        capacity s' = capacity s"
    and put_full: "inv s \<Longrightarrow> length xs = chunk \<Longrightarrow> length (contents s) + chunk > capacity s \<Longrightarrow>
      \<exists>e s'. put xs s = (Inl e, s') \<and> inv s' \<and> contents s' = contents s \<and>
        capacity s' = capacity s"
    and get_ok: "inv s \<Longrightarrow> chunk \<le> length (contents s) \<Longrightarrow>
      \<exists>s'. get s = (Inr (take chunk (contents s)), s') \<and> inv s' \<and>
        contents s' = drop chunk (contents s) \<and> capacity s' = capacity s"
    and get_empty: "inv s \<Longrightarrow> length (contents s) < chunk \<Longrightarrow>
      \<exists>e s'. get s = (Inl e, s') \<and> inv s' \<and> contents s' = contents s \<and>
        capacity s' = capacity s"
begin

lemma run_conserves:
  assumes "inv s" and "chunked chunk ops" and "run_chan put get ops s = (acc, del, s')"
  shows "inv s' \<and> capacity s' = capacity s \<and> contents s @ acc = del @ contents s'"
  using assms
proof (induction ops arbitrary: s acc del)
  case Nil
  then show ?case by simp
next
  case (Cons op ops)
  show ?case
  proof (cases op)
    case (Put xs)
    with Cons.prems have len: "length xs = chunk" "chunked chunk ops" by auto
    show ?thesis
    proof (cases "length (contents s) + chunk \<le> capacity s")
      case True
      with put_ok [OF Cons.prems(1) len(1)] obtain s1 where
        s1: "put xs s = (Inr (), s1)" "inv s1" "contents s1 = contents s @ xs"
          "capacity s1 = capacity s" by auto
      obtain acc1 where r: "run_chan put get ops s1 = (acc1, del, s')" "acc = xs @ acc1"
        using Cons.prems(3) by (auto simp: Put s1 split: prod.splits)
      from Cons.IH [OF s1(2) len(2) r(1)] s1 r(2) show ?thesis by simp
    next
      case False
      with put_full [OF Cons.prems(1) len(1)] obtain e s1 where
        s1: "put xs s = (Inl e, s1)" "inv s1" "contents s1 = contents s"
          "capacity s1 = capacity s" by auto
      have r: "run_chan put get ops s1 = (acc, del, s')"
        using Cons.prems(3) by (simp add: Put s1)
      from Cons.IH [OF s1(2) len(2) r] s1 show ?thesis by simp
    qed
  next
    case Get
    with Cons.prems have len: "chunked chunk ops" by auto
    show ?thesis
    proof (cases "chunk \<le> length (contents s)")
      case True
      with get_ok [OF Cons.prems(1)] obtain s1 where
        s1: "get s = (Inr (take chunk (contents s)), s1)" "inv s1"
          "contents s1 = drop chunk (contents s)" "capacity s1 = capacity s" by auto
      obtain del1 where r: "run_chan put get ops s1 = (acc, del1, s')"
          "del = take chunk (contents s) @ del1"
        using Cons.prems(3) by (auto simp: Get s1 split: prod.splits)
      from Cons.IH [OF s1(2) len r(1)] s1 r(2)
      have "inv s' \<and> capacity s' = capacity s \<and> drop chunk (contents s) @ acc = del1 @ contents s'"
        by simp
      then show ?thesis
        using r(2) by (metis append.assoc append_take_drop_id)
    next
      case False
      with get_empty [OF Cons.prems(1)] obtain e s1 where
        s1: "get s = (Inl e, s1)" "inv s1" "contents s1 = contents s"
          "capacity s1 = capacity s" by auto
      have r: "run_chan put get ops s1 = (acc, del, s')"
        using Cons.prems(3) by (simp add: Get s1)
      from Cons.IH [OF s1(2) len r] s1 show ?thesis by simp
    qed
  qed
qed

corollary run_occupancy:
  assumes "inv s" and "chunked chunk ops" and "run_chan put get ops s = (acc, del, s')"
  shows "length (contents s) + length acc \<le> length del + capacity s"
proof -
  from run_conserves [OF assms] have i: "inv s'" "capacity s' = capacity s"
    and e: "contents s @ acc = del @ contents s'" by auto
  from e have "length (contents s @ acc) = length (del @ contents s')" by (rule arg_cong)
  with bounded [OF i(1)] i(2) show ?thesis by simp
qed

text \<open>Items come out in the order in which they went in.\<close>

corollary run_delivers_prefix:
  assumes "inv s" and "contents s = []" and "chunked chunk ops"
    and "run_chan put get ops s = (acc, del, s')"
  shows "\<exists>rest. acc = del @ rest \<and> length rest \<le> capacity s"
  using run_conserves [OF assms(1,3,4)] bounded [of s'] assms(2) by auto

end

end
