(* ===== verification/Dfbstate.thy ===== *)
theory Dfbstate
  imports Blockstate Fifo
begin

text \<open>
  The ring buffer of one dataflow buffer: \<open>class DFBState\<close> of
  \<open>python/sim/dfbstate.py\<close> and the bodies of the \<open>DFBAPI\<close> methods of
  \<open>python/sim/dfb.py\<close> that act on one such state. The state's list object is never
  replaced (\<open>reset\<close> assigns its slice), so the list is a field of the record and blocks
  refer to it through the state.

  All greenlets run in one operating system thread: while \<open>wait_for\<close> blocks nobody can
  make its predicate true, so it is evaluated once and a false predicate is a timeout. The
  thread identity is an argument.

  The lemmas: the invariant of the ring is kept by every operation, also by one that raises;
  seen as the list of its visible items, \<open>push\<close> appends the oldest reserved items,
  \<open>pop\<close> drops items from the front, and writes through the reserved window leave the
  visible items alone. The interface \<open>fifo\<close> states this contract, its clients' theorems
  are proved once, and the ring is shown to provide it.
\<close>

section \<open>State\<close>

type_synonym tid = nat

record span =
  start :: nat
  span_length :: nat

record 't dfb_state =
  cap :: nat
  buf :: "'t option list"
  head :: nat
  visible :: nat
  reserved :: nat
  step :: "nat option"
  last_wait_target :: nat
  last_reserve_target :: nat
  configured :: bool
  consumer_waiting :: "tid option"
  producer_reserving :: "tid option"
  dfb_shape :: "nat list"

definition init_dfb_state :: "'t dfb_state" where
  "init_dfb_state =
     \<lparr>cap = 1, buf = [], head = 0, visible = 0, reserved = 0, step = None,
      last_wait_target = 0, last_reserve_target = 0, configured = False,
      consumer_waiting = None, producer_reserving = None, dfb_shape = []\<rparr>"

definition require_configured :: "'t dfb_state \<Rightarrow> unit result" where
  "require_configured s =
     guard (configured s) (DFBNotConfigured ''DFB not configured; call host_configure_dfb'')"

definition check_num_tiles :: "nat \<Rightarrow> 't dfb_state \<Rightarrow> unit result" where
  "check_num_tiles n s =
     (if n > cap s then Inl (DFBContractError ''num_tiles must be <= capacity'')
      else if cap s mod n \<noteq> 0
      then Inl (DFBContractError ''First num_tiles must evenly divide capacity'')
      else Inr ())"

definition free :: "'t dfb_state \<Rightarrow> int" where
  "free s = int (cap s) - (int (visible s) + int (reserved s))"

definition front_span :: "nat \<Rightarrow> 't dfb_state \<Rightarrow> span" where
  "front_span n s = \<lparr>start = head s, span_length = n\<rparr>"

definition back_span :: "nat \<Rightarrow> 't dfb_state \<Rightarrow> span" where
  "back_span n s = \<lparr>start = (head s + visible s) mod cap s, span_length = n\<rparr>"

definition reset_state :: "'t dfb_state \<Rightarrow> 't dfb_state" where
  "reset_state s =
     s\<lparr>buf := replicate (cap s) None, head := 0, visible := 0, reserved := 0, step := None,
       last_wait_target := 0, consumer_waiting := None, producer_reserving := None,
       configured := True\<rparr>"

section \<open>Operations on one buffer\<close>

definition configure_state :: "nat \<Rightarrow> nat list \<Rightarrow> 't dfb_state \<Rightarrow> 't dfb_state" where
  "configure_state n shp s = reset_state (s\<lparr>cap := n, dfb_shape := shp\<rparr>)"

definition host_reset :: "('t dfb_state, unit) state_op" where
  "host_reset s =
     (if \<not> configured s then (Inl (DFBContractError ''DFB not configured; cannot reset''), s)
      else (Inr (), reset_state s))"

record 't dfb_stats =
  stat_capacity :: nat
  stat_visible :: nat
  stat_reserved :: nat
  stat_free :: int
  stat_step :: "nat option"
  stat_head :: nat
  stat_list :: "'t option list"

definition state_stats :: "'t dfb_state \<Rightarrow> 't dfb_stats result" where
  "state_stats s =
     rbind (require_configured s) (\<lambda>_.
       Inr \<lparr>stat_capacity = cap s, stat_visible = visible s, stat_reserved = reserved s,
            stat_free = free s, stat_step = step s, stat_head = head s, stat_list = buf s\<rparr>)"

definition pages_available_at_front :: "nat \<Rightarrow> 't dfb_state \<Rightarrow> bool result" where
  "pages_available_at_front n s =
     rbind (require_configured s) (\<lambda>_. rbind (check_num_tiles n s) (\<lambda>_.
       Inr (visible s \<ge> n)))"

definition pages_reservable_at_back :: "nat \<Rightarrow> 't dfb_state \<Rightarrow> bool result" where
  "pages_reservable_at_back n s =
     rbind (require_configured s) (\<lambda>_. rbind (check_num_tiles n s) (\<lambda>_.
       Inr (free s \<ge> int n)))"

definition wait_front :: "tid \<Rightarrow> nat \<Rightarrow> ('t dfb_state, unit) state_op" where
  "wait_front t n s =
     (case rbind (require_configured s) (\<lambda>_. check_num_tiles n s) of
        Inl e \<Rightarrow> (Inl e, s)
      | Inr _ \<Rightarrow>
          if consumer_waiting s \<noteq> None \<and> consumer_waiting s \<noteq> Some t
          then (Inl (DFBContractError ''Only one consumer thread may wait on a DFB at a time''), s)
          else
            let s1 = s\<lparr>consumer_waiting := Some t\<rparr> in
            if step s1 \<noteq> None \<and> n \<noteq> last_wait_target s1 + the (step s1)
            then (Inl (DFBContractError ''dfb_wait_front must be cumulative''), s1)
            else
              let s2 = (if step s1 = None then s1\<lparr>step := Some n\<rparr> else s1) in
              if visible s2 \<ge> n then (Inr (), s2\<lparr>last_wait_target := n\<rparr>)
              else (Inl (DFBTimeoutError ''dfb_wait_front timed out''), s2))"

definition reserve_back :: "tid \<Rightarrow> nat \<Rightarrow> ('t dfb_state, unit) state_op" where
  "reserve_back t n s =
     (case rbind (require_configured s) (\<lambda>_. check_num_tiles n s) of
        Inl e \<Rightarrow> (Inl e, s)
      | Inr _ \<Rightarrow>
          if producer_reserving s \<noteq> None \<and> producer_reserving s \<noteq> Some t
          then (Inl (DFBContractError ''Only one producer thread may reserve on a DFB at a time''), s)
          else
            let s1 = s\<lparr>producer_reserving := Some t\<rparr> in
            if n < reserved s1
            then (Inl (DFBContractError ''reserve target cannot regress within epoch''), s1)
            else if free s1 \<ge> int n
            then (Inr (), s1\<lparr>reserved := n, last_reserve_target := n\<rparr>)
            else (Inl (DFBTimeoutError ''dfb_reserve_back timed out''), s1))"

definition push_back :: "nat \<Rightarrow> ('t dfb_state, unit) state_op" where
  "push_back n s =
     (case rbind (require_configured s) (\<lambda>_. check_num_tiles n s) of
        Inl e \<Rightarrow> (Inl e, s)
      | Inr _ \<Rightarrow>
          if n > reserved s then (Inl (DFBContractError ''dfb_push_back exceeds reserved''), s)
          else
            let s1 = s\<lparr>reserved := reserved s - n, visible := visible s + n\<rparr> in
            (Inr (), if reserved s1 = 0 then s1\<lparr>producer_reserving := None\<rparr> else s1))"

text \<open>\<open>Block.pop_idx\<close> for each index of the view, on the ring's list.\<close>

fun pop_slots :: "nat \<Rightarrow> nat \<Rightarrow> nat list \<Rightarrow> ('t option list, unit) state_op" where
  "pop_slots st c [] b = (Inr (), b)"
| "pop_slots st c (i # is) b =
     (case py_nth b ((st + i) mod c) of
        Inl e \<Rightarrow> (Inl e, b)
      | Inr None \<Rightarrow> (Inl (ValueError ''Popping uninitialized or consumed slot''), b)
      | Inr (Some _) \<Rightarrow> pop_slots st c is (b[(st + i) mod c := None]))"

definition pop_front :: "thread_type option \<Rightarrow> nat \<Rightarrow> ('t dfb_state, unit) state_op" where
  "pop_front tt n s =
     (case rbind (require_configured s) (\<lambda>_. check_num_tiles n s) of
        Inl e \<Rightarrow> (Inl e, s)
      | Inr _ \<Rightarrow>
          if n > visible s then (Inl (DFBContractError ''dfb_pop_front exceeds visible''), s)
          else if tt = None then (Inl (RuntimeError ''Thread context not set''), s)
          else
            (case pop_slots (start (front_span n s)) (cap s) [0..<n] (buf s) of
               (Inl e, b) \<Rightarrow> (Inl e, s\<lparr>buf := b\<rparr>)
             | (Inr _, b) \<Rightarrow>
                 let s1 = s\<lparr>buf := b, head := (head s + n) mod cap s,
                           visible := visible s - n, last_wait_target := 0\<rparr> in
                 (Inr (), if visible s1 = 0 then s1\<lparr>consumer_waiting := None\<rparr> else s1)))"

text \<open>The windows of \<open>get_read_ptr\<close> and \<open>get_write_ptr\<close>.\<close>

definition read_window :: "'t dfb_state \<Rightarrow> span result" where
  "read_window s =
     rbind (require_configured s) (\<lambda>_.
       if last_wait_target s \<le> 0
       then Inl (DFBContractError ''get_read_ptr requires prior dfb_wait_front'')
       else if visible s < last_wait_target s
       then Inl (DFBContractError ''read window invalidated; call dfb_wait_front again'')
       else Inr (front_span (last_wait_target s) s))"

definition write_window :: "'t dfb_state \<Rightarrow> span result" where
  "write_window s =
     rbind (require_configured s) (\<lambda>_.
       if last_reserve_target s \<le> 0
       then Inl (DFBContractError ''get_write_ptr requires prior dfb_reserve_back'')
       else if reserved s < last_reserve_target s
       then Inl (DFBContractError ''write window invalidated; call dfb_reserve_back again'')
       else Inr (back_span (last_reserve_target s) s))"

text \<open>A write through a span that does not wrap a temporary block.\<close>

definition write_ring :: "nat \<Rightarrow> nat \<Rightarrow> 't \<Rightarrow> 't dfb_state \<Rightarrow> 't dfb_state" where
  "write_ring st i v s = s\<lparr>buf := (buf s)[(st + i) mod cap s := Some v]\<rparr>"

section \<open>Invariant\<close>

definition ring_inv :: "'t dfb_state \<Rightarrow> bool" where
  "ring_inv s \<longleftrightarrow>
     configured s \<and> 0 < cap s \<and> length (buf s) = cap s \<and> head s < cap s \<and>
     visible s + reserved s \<le> cap s \<and> last_wait_target s \<le> visible s"

lemma ring_inv_configure: "0 < n \<Longrightarrow> ring_inv (configure_state n shp s)"
  by (simp add: ring_inv_def configure_state_def reset_state_def)

lemma ring_inv_free: "ring_inv s \<Longrightarrow> free s \<ge> 0"
  by (simp add: ring_inv_def free_def)

lemma pop_slots_length: "length (snd (pop_slots st c is b)) = length b"
  by (induction st c "is" b rule: pop_slots.induct) (auto split: sum.splits option.splits)

lemma preserves_wait_front: "preserves ring_inv (wait_front t n)"
  by (auto simp: preserves_def wait_front_def ring_inv_def Let_def split: sum.splits)

lemma preserves_reserve_back: "preserves ring_inv (reserve_back t n)"
  by (auto simp: preserves_def reserve_back_def ring_inv_def Let_def free_def split: sum.splits)

lemma preserves_push_back: "preserves ring_inv (push_back n)"
  by (auto simp: preserves_def push_back_def ring_inv_def Let_def split: sum.splits)

lemma preserves_pop_front: "preserves ring_inv (pop_front tt n)"
proof -
  have "ring_inv (snd (pop_front tt n s))" if s: "ring_inv s" for s :: "'a dfb_state"
  proof -
    obtain r b where p: "pop_slots (start (front_span n s)) (cap s) [0..<n] (buf s) = (r, b)"
      by (cases "pop_slots (start (front_span n s)) (cap s) [0..<n] (buf s)")
    then have "length b = cap s"
      using pop_slots_length [of "start (front_span n s)" "cap s" "[0..<n]" "buf s"] s
      by (simp add: ring_inv_def)
    with s show ?thesis
      by (auto simp: pop_front_def p ring_inv_def Let_def split: sum.splits)
  qed
  then show ?thesis by (simp add: preserves_def)
qed

lemma preserves_host_reset: "preserves ring_inv host_reset"
  by (auto simp: preserves_def host_reset_def ring_inv_def reset_state_def)

lemmas ring_preserves = preserves_wait_front preserves_reserve_back preserves_push_back
  preserves_pop_front preserves_host_reset

lemma ring_inv_write_ring: "ring_inv s \<Longrightarrow> ring_inv (write_ring st i v s)"
  by (simp add: ring_inv_def write_ring_def)

text \<open>The branch \<open>read window invalidated\<close> of \<open>get_read_ptr\<close> is dead.\<close>

lemma read_window_valid:
  "ring_inv s \<Longrightarrow> 0 < last_wait_target s \<Longrightarrow>
     read_window s = Inr (front_span (last_wait_target s) s)"
  by (simp add: read_window_def ring_inv_def require_configured_def)

section \<open>The visible items and the reserved window\<close>

definition window :: "nat \<Rightarrow> nat \<Rightarrow> 't dfb_state \<Rightarrow> 't option list" where
  "window off n s = map (\<lambda>i. buf s ! ((head s + off + i) mod cap s)) [0..<n]"

definition items :: "'t dfb_state \<Rightarrow> 't option list" where
  "items s = window 0 (visible s) s"

definition pending :: "'t dfb_state \<Rightarrow> 't option list" where
  "pending s = window (visible s) (reserved s) s"

lemma length_window [simp]: "length (window off n s) = n"
  by (simp add: window_def)

lemma window_nth: "i < n \<Longrightarrow> window off n s ! i = buf s ! ((head s + off + i) mod cap s)"
  by (simp add: window_def)

lemma length_items [simp]: "length (items s) = visible s"
  by (simp add: items_def)

lemma length_pending [simp]: "length (pending s) = reserved s"
  by (simp add: pending_def)

lemma window_append: "window off (m + n) s = window off m s @ window (off + m) n s"
  by (rule nth_equalityI) (auto simp: window_nth nth_append add.assoc)

lemma take_window: "m \<le> n \<Longrightarrow> take m (window off n s) = window off m s"
  by (rule nth_equalityI) (auto simp: window_nth)

lemma drop_window: "m \<le> n \<Longrightarrow> drop m (window off n s) = window (off + m) (n - m) s"
  by (rule nth_equalityI) (auto simp: window_nth add.assoc)

lemma window_cong:
  "head s = head s' \<Longrightarrow> cap s = cap s' \<Longrightarrow> buf s = buf s' \<Longrightarrow> window off n s = window off n s'"
  by (simp add: window_def)

lemma window_shift:
  assumes "head s' = (head s + k) mod cap s" and "cap s' = cap s" and "buf s' = buf s"
  shows "window off n s' = window (k + off) n s"
  using assms by (simp add: window_def add.assoc mod_add_left_eq)

text \<open>A write at position \<open>off + i\<close> of the ring changes exactly that position.\<close>

lemma window_write:
  assumes "ring_inv s" and "off + n \<le> cap s" and "k < cap s" and st: "st = (head s + j) mod cap s"
    and k: "k = j + i"
  shows "window off n (write_ring st i v s) =
    (if off \<le> k \<and> k < off + n then (window off n s)[k - off := Some v] else window off n s)"
proof (rule nth_equalityI)
  fix m
  assume "m < length (window off n (write_ring st i v s))"
  then have m: "m < n" by simp
  have pos: "(st + i) mod cap s = (head s + k) mod cap s"
    by (simp add: st k mod_add_left_eq add.assoc)
  have eq: "(head s + k) mod cap s = (head s + off + m) mod cap s \<longleftrightarrow> k = off + m"
  proof
    assume "(head s + k) mod cap s = (head s + off + m) mod cap s"
    then show "k = off + m"
      using mod_shift_inj [of "head s" k "cap s" "off + m"] assms(2,3) m
      by (simp add: add.assoc)
  qed (simp add: add.assoc)
  show "window off n (write_ring st i v s) ! m = (if off \<le> k \<and> k < off + n
      then (window off n s)[k - off := Some v] else window off n s) ! m"
    using m assms(1,2,3)
    by (auto simp: window_nth write_ring_def pos nth_list_update eq ring_inv_def)
qed simp_all

lemma items_write_pending:
  assumes "ring_inv s" and "i < reserved s"
  shows "items (write_ring ((head s + visible s) mod cap s) i v s) = items s"
    and "pending (write_ring ((head s + visible s) mod cap s) i v s) = (pending s)[i := Some v]"
proof -
  have c: "visible s + i < cap s" "visible s + reserved s \<le> cap s"
    using assms by (auto simp: ring_inv_def)
  have v [simp]: "visible (write_ring st j v s) = visible s" "reserved (write_ring st j v s) = reserved s"
    for st j by (simp_all add: write_ring_def)
  show "items (write_ring ((head s + visible s) mod cap s) i v s) = items s"
    using c by (simp add: items_def window_write [OF assms(1) _ c(1) refl refl])
  show "pending (write_ring ((head s + visible s) mod cap s) i v s) = (pending s)[i := Some v]"
    using c assms(2) by (simp add: pending_def window_write [OF assms(1) _ c(1) refl refl])
qed

section \<open>Functional behaviour of the operations\<close>

lemma wait_front_ok:
  assumes "wait_front t n s = (Inr u, s')"
  shows "s' = s\<lparr>consumer_waiting := Some t, step := Some (case step s of None \<Rightarrow> n | Some k \<Rightarrow> k),
               last_wait_target := n\<rparr>"
    and "n \<le> visible s" and "n \<le> cap s" and "cap s mod n = 0"
  using assms
  by (auto simp: wait_front_def Let_def rbind_eq_Inr check_num_tiles_def split: sum.splits if_splits
      option.splits)

lemma reserve_back_ok:
  assumes "reserve_back t n s = (Inr u, s')"
  shows "s' = s\<lparr>producer_reserving := Some t, reserved := n, last_reserve_target := n\<rparr>"
    and "visible s + reserved s + n \<le> cap s" and "reserved s \<le> n"
  using assms
  by (auto simp: reserve_back_def Let_def free_def split: sum.splits if_splits)

lemma push_back_ok:
  assumes "push_back n s = (Inr u, s')"
  shows "n \<le> reserved s"
    and "s' = s\<lparr>reserved := reserved s - n, visible := visible s + n,
               producer_reserving := (if reserved s = n then None else producer_reserving s)\<rparr>"
  using assms by (auto simp: push_back_def Let_def split: sum.splits if_splits)

lemma push_back_items:
  assumes "push_back n s = (Inr u, s')"
  shows "items s' = items s @ take n (pending s)" and "pending s' = drop n (pending s)"
proof -
  note p = push_back_ok [OF assms]
  have w: "window off m s' = window off m s" for off m
    using p(2) by (simp add: window_def)
  have f: "visible s' = visible s + n" "reserved s' = reserved s - n"
    using p(2) by simp_all
  show "items s' = items s @ take n (pending s)"
    using p(1) by (simp add: items_def pending_def take_window w f window_append)
  show "pending s' = drop n (pending s)"
    using p(1) by (simp add: pending_def w f drop_window)
qed

text \<open>\<open>pop_slots\<close> clears the slots it is given, when all hold a value.\<close>

lemma pop_slots_ok:
  assumes "distinct (map (\<lambda>i. (st + i) mod c) is)" and "\<forall>i\<in>set is. (st + i) mod c < length b"
    and "\<forall>i\<in>set is. b ! ((st + i) mod c) \<noteq> None"
  shows "\<exists>b'. pop_slots st c is b = (Inr (), b') \<and> length b' = length b \<and>
    (\<forall>k<length b. b' ! k = (if k \<in> (\<lambda>i. (st + i) mod c) ` set is then None else b ! k))"
  using assms
proof (induction "is" arbitrary: b)
  case Nil
  then show ?case by simp
next
  case (Cons i "is")
  let ?p = "\<lambda>i. (st + i) mod c"
  let ?b = "b[?p i := None]"
  obtain v where v: "b ! ?p i = Some v" using Cons.prems(3) by auto
  have "\<forall>j\<in>set is. ?b ! ?p j \<noteq> None"
    using Cons.prems by (auto simp: nth_list_update)
  with Cons.IH [of ?b] Cons.prems obtain b' where
    b': "pop_slots st c is ?b = (Inr (), b')" "length b' = length b"
    "\<forall>k<length b. b' ! k = (if k \<in> ?p ` set is then None else ?b ! k)" by auto
  show ?case
    using b' Cons.prems(2) v by (auto simp: nth_list_update)
qed

lemma pop_front_ok:
  assumes inv: "ring_inv s" and n: "n \<le> visible s" "0 < n" "cap s mod n = 0" and tt: "tt \<noteq> None"
    and full: "\<forall>x\<in>set (take n (items s)). x \<noteq> None"
  shows "\<exists>s'. pop_front tt n s = (Inr (), s') \<and> items s' = drop n (items s) \<and>
    pending s' = pending s \<and> cap s' = cap s \<and> visible s' = visible s - n \<and>
    reserved s' = reserved s \<and> last_wait_target s' = 0 \<and> step s' = step s \<and>
    last_reserve_target s' = last_reserve_target s \<and> producer_reserving s' = producer_reserving s \<and>
    consumer_waiting s' = (if visible s = n then None else consumer_waiting s) \<and>
    dfb_shape s' = dfb_shape s"
proof -
  let ?p = "\<lambda>i. (head s + i) mod cap s"
  have c: "0 < cap s" "length (buf s) = cap s" "visible s + reserved s \<le> cap s" "configured s"
    using inv by (auto simp: ring_inv_def)
  have d: "distinct (map ?p [0..<n])"
    using n c by (auto simp: distinct_map inj_on_def dest!: mod_shift_inj)
  have "buf s ! ?p i \<noteq> None" if "i < n" for i
  proof -
    have "take n (items s) ! i \<in> set (take n (items s))"
      using that n by (intro nth_mem) simp
    with full that n show ?thesis by (simp add: items_def window_nth)
  qed
  with pop_slots_ok [OF d, of "buf s"] c obtain b where
    b: "pop_slots (head s) (cap s) [0..<n] (buf s) = (Inr (), b)" "length b = cap s"
    "\<forall>k<cap s. b ! k = (if k \<in> ?p ` {0..<n} then None else buf s ! k)" by auto
  define s' where "s' = (let s1 = s\<lparr>buf := b, head := (head s + n) mod cap s,
      visible := visible s - n, last_wait_target := 0\<rparr> in
      if visible s1 = 0 then s1\<lparr>consumer_waiting := None\<rparr> else s1)"
  have r: "pop_front tt n s = (Inr (), s')"
    using n c tt b(1) by (simp add: pop_front_def require_configured_def check_num_tiles_def
        front_span_def s'_def Let_def)
  have keep: "b ! ((head s + k) mod cap s) = buf s ! ((head s + k) mod cap s)"
    if "n \<le> k" "k < cap s" for k
  proof -
    have "?p k \<notin> ?p ` {0..<n}"
      using that n c by (auto dest!: mod_shift_inj)
    with b(3) c(1) show ?thesis by simp
  qed
  have f: "head s' = (head s + n) mod cap s" "cap s' = cap s" "buf s' = b"
    "visible s' = visible s - n" "reserved s' = reserved s"
    by (simp_all add: s'_def Let_def)
  have w: "window off m s' = window (n + off) m s" if "n + off + m \<le> cap s" for off m
    using that by (intro nth_equalityI)
      (auto simp: window_nth f mod_add_left_eq add.assoc intro!: keep)
  have "items s' = drop n (items s)"
    using n c by (simp add: items_def f w drop_window)
  moreover have "pending s' = pending s"
    using n c by (simp add: pending_def f w)
  ultimately show ?thesis
    using r n by (intro exI [of _ s']) (simp add: f, simp add: s'_def Let_def)
qed

section \<open>The ring as a bounded channel\<close>

text \<open>
  A producer's cycle (\<open>reserve\<close>, write every slot of the window, \<open>push\<close>) and a
  consumer's cycle (\<open>wait\<close>, read every slot, \<open>pop\<close>) of \<open>n\<close> tiles, both run by
  the one operating system thread \<open>t\<close>.
\<close>

fun write_span :: "nat \<Rightarrow> nat \<Rightarrow> 't list \<Rightarrow> 't dfb_state \<Rightarrow> 't dfb_state" where
  "write_span st i [] s = s"
| "write_span st i (v # vs) s = write_span st (Suc i) vs (write_ring st i v s)"

definition read_span :: "span \<Rightarrow> 't dfb_state \<Rightarrow> 't list result" where
  "read_span sp s =
     rmap (\<lambda>i. case buf s ! ((start sp + i) mod cap s) of
             None \<Rightarrow> Inl (ValueError ''Reading uninitialized or consumed slot'')
           | Some v \<Rightarrow> Inr v) [0..<span_length sp]"

definition ring_put :: "tid \<Rightarrow> nat \<Rightarrow> 't list \<Rightarrow> ('t dfb_state, unit) state_op" where
  "ring_put t n xs =
     sbind (reserve_back t n) (\<lambda>_.
     sbind (slift write_window) (\<lambda>sp.
     sbind (smodify (write_span (start sp) 0 xs)) (\<lambda>_. push_back n)))"

definition ring_get :: "tid \<Rightarrow> thread_type \<Rightarrow> nat \<Rightarrow> ('t dfb_state, 't list) state_op" where
  "ring_get t ty n =
     sbind (wait_front t n) (\<lambda>_.
     sbind (slift read_window) (\<lambda>sp.
     sbind (slift (read_span sp)) (\<lambda>xs.
     sbind (pop_front (Some ty) n) (\<lambda>_. sreturn xs))))"

definition chan_inv :: "tid \<Rightarrow> nat \<Rightarrow> 't dfb_state \<Rightarrow> bool" where
  "chan_inv t n s \<longleftrightarrow>
     ring_inv s \<and> 0 < n \<and> n \<le> cap s \<and> cap s mod n = 0 \<and> reserved s = 0 \<and>
     last_wait_target s = 0 \<and> step s \<in> {None, Some n} \<and>
     consumer_waiting s \<in> {None, Some t} \<and> producer_reserving s \<in> {None, Some t} \<and>
     None \<notin> set (items s)"

definition contents :: "'t dfb_state \<Rightarrow> 't list" where
  "contents s = map the (items s)"

lemma length_contents [simp]: "length (contents s) = visible s"
  by (simp add: contents_def)

lemma items_eq_contents: "None \<notin> set (items s) \<Longrightarrow> items s = map Some (contents s)"
  unfolding contents_def map_map
  by (rule map_idI [symmetric]) (metis comp_apply option.collapse)

lemma write_span_frame [simp]:
  "cap (write_span st i vs s) = cap s" "head (write_span st i vs s) = head s"
  "visible (write_span st i vs s) = visible s" "reserved (write_span st i vs s) = reserved s"
  "configured (write_span st i vs s) = configured s" "step (write_span st i vs s) = step s"
  "last_wait_target (write_span st i vs s) = last_wait_target s"
  "last_reserve_target (write_span st i vs s) = last_reserve_target s"
  "consumer_waiting (write_span st i vs s) = consumer_waiting s"
  "producer_reserving (write_span st i vs s) = producer_reserving s"
  "dfb_shape (write_span st i vs s) = dfb_shape s"
  by (induction vs arbitrary: i s) (simp_all add: write_ring_def)

lemma write_span_ring_inv: "ring_inv s \<Longrightarrow> ring_inv (write_span st i vs s)"
  by (induction vs arbitrary: i s) (simp_all add: ring_inv_write_ring)

lemma write_span_pending:
  assumes "ring_inv s" and "i + length vs = reserved s"
  shows "items (write_span ((head s + visible s) mod cap s) i vs s) = items s \<and>
    pending (write_span ((head s + visible s) mod cap s) i vs s)
       = take i (pending s) @ map Some vs"
  using assms
proof (induction vs arbitrary: i s)
  case Nil
  then show ?case by simp
next
  case (Cons v vs)
  let ?s = "write_ring ((head s + visible s) mod cap s) i v s"
  have f: "head ?s = head s" "visible ?s = visible s" "cap ?s = cap s" "reserved ?s = reserved s"
    by (simp_all add: write_ring_def)
  have l: "Suc i + length vs = reserved ?s" and lt: "i < reserved s"
    using Cons.prems(2) f by simp_all
  note w = items_write_pending [OF Cons.prems(1) lt, of v]
  have "take (Suc i) ((pending s)[i := Some v]) = take i (pending s) @ [Some v]"
    using lt by (simp add: take_Suc_conv_app_nth)
  then show ?case
    using Cons.IH [OF ring_inv_write_ring [OF Cons.prems(1)] l] w f by simp
qed

lemma read_span_items:
  assumes "None \<notin> set (items s)" and "n \<le> visible s"
  shows "read_span \<lparr>start = head s, span_length = n\<rparr> s = Inr (take n (contents s))"
proof -
  have "read_span \<lparr>start = head s, span_length = n\<rparr> s
      = Inr (map (\<lambda>i. the (buf s ! ((head s + i) mod cap s))) [0..<n])"
    unfolding read_span_def span.simps
  proof (rule rmap_all_Inr)
    fix i assume "i \<in> set [0..<n]"
    with assms have "i < visible s" by simp
    then have "items s ! i \<in> set (items s)" by (intro nth_mem) simp
    with assms(1) have "items s ! i \<noteq> None" by metis
    with \<open>i < visible s\<close> have "buf s ! ((head s + i) mod cap s) \<noteq> None"
      by (simp add: items_def window_nth)
    then show "(case buf s ! ((head s + i) mod cap s) of
          None \<Rightarrow> Inl (ValueError ''Reading uninitialized or consumed slot'') | Some v \<Rightarrow> Inr v)
        = Inr (the (buf s ! ((head s + i) mod cap s)))" by auto
  qed
  also have "map (\<lambda>i. the (buf s ! ((head s + i) mod cap s))) [0..<n] = take n (contents s)"
    using assms(2) by (auto simp: contents_def items_def window_nth intro!: nth_equalityI)
  finally show ?thesis .
qed

lemma chan_inv_ready:
  assumes "chan_inv t n s"
  shows "configured s" "check_num_tiles n s = Inr ()" "0 < cap s" "visible s \<le> cap s"
  using assms by (auto simp: chan_inv_def ring_inv_def check_num_tiles_def)

lemma ring_put_ok:
  assumes inv: "chan_inv t n s" and len: "length xs = n" and room: "visible s + n \<le> cap s"
  shows "\<exists>s'. ring_put t n xs s = (Inr (), s') \<and> chan_inv t n s' \<and>
    contents s' = contents s @ xs \<and> cap s' = cap s"
proof -
  note r = chan_inv_ready [OF inv]
  define s1 where "s1 = s\<lparr>producer_reserving := Some t, reserved := n, last_reserve_target := n\<rparr>"
  define s2 where "s2 = write_span ((head s + visible s) mod cap s) 0 xs s1"
  define s3 where "s3 = s2\<lparr>reserved := 0, visible := visible s + n, producer_reserving := None\<rparr>"
  have 1: "reserve_back t n s = (Inr (), s1)"
    using inv r room by (auto simp: reserve_back_def require_configured_def chan_inv_def free_def
        s1_def Let_def)
  have 2: "write_window s1 = Inr \<lparr>start = (head s + visible s) mod cap s, span_length = n\<rparr>"
    using inv r by (simp add: write_window_def s1_def require_configured_def chan_inv_def
        back_span_def)
  have 3: "push_back n s2 = (Inr (), s3)"
    using r inv by (simp add: push_back_def s2_def s1_def s3_def require_configured_def
        check_num_tiles_def chan_inv_def)
  have i1: "ring_inv s1" using inv room by (simp add: s1_def ring_inv_def chan_inv_def)
  have it1: "items s1 = items s" by (simp add: s1_def items_def window_def)
  have "reserved s1 = length xs" "head s1 = head s" "visible s1 = visible s" "cap s1 = cap s"
    using len by (simp_all add: s1_def)
  then have p: "items s2 = items s" "pending s2 = map Some xs"
    using write_span_pending [OF i1, of 0 xs] it1 by (simp_all add: s2_def)
  have "items s3 = items s2 @ take n (pending s2)"
    by (rule push_back_items(1) [OF 3])
  with p len have it3: "items s3 = items s @ map Some xs" by simp
  have i3: "ring_inv s3"
    using preserves_push_back [of n] write_span_ring_inv [OF i1, of "(head s + visible s) mod cap s" 0 xs]
    by (metis 3 preservesD s2_def)
  have "chan_inv t n s3"
    using inv it3 i3 by (auto simp: chan_inv_def s3_def s2_def s1_def)
  moreover have "contents s3 = contents s @ xs"
    by (simp add: contents_def it3 comp_def)
  moreover have "ring_put t n xs s = (Inr (), s3)"
    by (simp add: ring_put_def 1 2 3 [unfolded s2_def])
  ultimately show ?thesis by (auto simp: s3_def s2_def s1_def)
qed

lemma ring_put_full:
  assumes inv: "chan_inv t n s" and room: "visible s + n > cap s"
  shows "\<exists>e s'. ring_put t n xs s = (Inl e, s') \<and> chan_inv t n s' \<and>
    contents s' = contents s \<and> cap s' = cap s"
proof -
  note r = chan_inv_ready [OF inv]
  let ?s = "s\<lparr>producer_reserving := Some t\<rparr>"
  have "reserve_back t n s = (Inl (DFBTimeoutError ''dfb_reserve_back timed out''), ?s)"
    using inv r room by (auto simp: reserve_back_def require_configured_def chan_inv_def free_def
        Let_def)
  moreover have "items ?s = items s" by (simp add: items_def window_def)
  ultimately show ?thesis
    using inv by (auto simp: ring_put_def chan_inv_def ring_inv_def contents_def)
qed

lemma ring_get_ok:
  assumes inv: "chan_inv t n s" and enough: "n \<le> visible s"
  shows "\<exists>s'. ring_get t ty n s = (Inr (take n (contents s)), s') \<and> chan_inv t n s' \<and>
    contents s' = drop n (contents s) \<and> cap s' = cap s"
proof -
  note r = chan_inv_ready [OF inv]
  define s1 where "s1 = s\<lparr>consumer_waiting := Some t, step := Some n, last_wait_target := n\<rparr>"
  have 1: "wait_front t n s = (Inr (), s1)"
    using inv r enough by (auto simp: wait_front_def require_configured_def chan_inv_def
        s1_def Let_def)
  have it1: "items s1 = items s" "contents s1 = contents s"
    by (simp_all add: s1_def items_def window_def contents_def)
  have i1: "ring_inv s1" using inv enough by (simp add: s1_def ring_inv_def chan_inv_def)
  have 2: "read_window s1 = Inr \<lparr>start = head s1, span_length = n\<rparr>"
    using read_window_valid [OF i1] inv by (simp add: s1_def front_span_def chan_inv_def)
  have 3: "read_span \<lparr>start = head s1, span_length = n\<rparr> s1 = Inr (take n (contents s))"
    using read_span_items [of s1 n] inv enough it1 by (simp add: chan_inv_def s1_def)
  have "\<forall>x\<in>set (take n (items s1)). x \<noteq> None"
    using inv it1(1) by (metis chan_inv_def in_set_takeD)
  with pop_front_ok [OF i1, of n "Some ty"] inv enough obtain s2 where
    s2: "pop_front (Some ty) n s1 = (Inr (), s2)" "items s2 = drop n (items s)" "cap s2 = cap s"
      "reserved s2 = 0" "last_wait_target s2 = 0" "step s2 = Some n"
      "producer_reserving s2 = producer_reserving s"
      "consumer_waiting s2 \<in> {None, Some t}"
    by (auto simp: s1_def chan_inv_def it1 [unfolded s1_def])
  have i2: "ring_inv s2"
    using preservesD [OF preserves_pop_front i1 s2(1)] .
  have "chan_inv t n s2"
    using inv i2 s2 by (auto simp: chan_inv_def dest: in_set_dropD)
  moreover have "contents s2 = drop n (contents s)"
    by (simp add: contents_def s2 drop_map)
  moreover have "ring_get t ty n s = (Inr (take n (contents s)), s2)"
    by (simp add: ring_get_def 1 2 3 s2)
  ultimately show ?thesis using s2 by auto
qed

lemma ring_get_empty:
  assumes inv: "chan_inv t n s" and few: "visible s < n"
  shows "\<exists>e s'. ring_get t ty n s = (Inl e, s') \<and> chan_inv t n s' \<and>
    contents s' = contents s \<and> cap s' = cap s"
proof -
  note r = chan_inv_ready [OF inv]
  let ?s = "s\<lparr>consumer_waiting := Some t, step := Some n\<rparr>"
  have "wait_front t n s = (Inl (DFBTimeoutError ''dfb_wait_front timed out''), ?s)"
    using inv r few by (auto simp: wait_front_def require_configured_def chan_inv_def Let_def)
  moreover have "items ?s = items s" by (simp add: items_def window_def)
  ultimately show ?thesis
    using inv by (auto simp: ring_get_def chan_inv_def ring_inv_def contents_def)
qed

interpretation ring: fifo "chan_inv t n" contents cap n "ring_put t n" "ring_get t ty n"
  for t :: tid and n :: nat and ty :: thread_type
  by unfold_locales
    (auto simp: chan_inv_ready intro: ring_put_ok ring_put_full ring_get_ok ring_get_empty)

lemma chan_inv_configure:
  assumes "0 < n" and "0 < k"
  shows "chan_inv t n (configure_state (n * k) shp s)"
proof -
  have "n * 1 \<le> n * k" using assms by (intro mult_le_mono) auto
  with assms show ?thesis
    by (simp add: chan_inv_def ring_inv_configure items_def window_def)
      (simp add: configure_state_def reset_state_def)
qed

lemma contents_configure [simp]: "contents (configure_state n shp s) = []"
  by (simp add: contents_def items_def configure_state_def reset_state_def window_def)

section \<open>Reading back a written span\<close>

lemma write_ring_frame [simp]:
  "cap (write_ring st i v s) = cap s" "length (buf (write_ring st i v s)) = length (buf s)"
  by (simp_all add: write_ring_def)

lemma buf_write_span:
  assumes "length (buf s) = cap s" and "i + length vs \<le> cap s" and "j < cap s"
  shows "buf (write_span st i vs s) ! ((st + j) mod cap s) =
    (if i \<le> j \<and> j < i + length vs then Some (vs ! (j - i)) else buf s ! ((st + j) mod cap s))"
  using assms
proof (induction vs arbitrary: i s)
  case Nil
  then show ?case by auto
next
  case (Cons v vs)
  have i: "i < cap s" using Cons.prems(2) by simp
  have "(st + j) mod cap s = (st + i) mod cap s \<longleftrightarrow> j = i"
    using mod_shift_inj [OF _ Cons.prems(3) i, of st] by auto
  then have one: "buf (write_ring st i v s) ! ((st + j) mod cap s) =
      (if j = i then Some v else buf s ! ((st + j) mod cap s))"
    using i Cons.prems(1) by (auto simp: write_ring_def nth_list_update)
  have "buf (write_span st (Suc i) vs (write_ring st i v s)) ! ((st + j) mod cap s) =
      (if Suc i \<le> j \<and> j < Suc i + length vs then Some (vs ! (j - Suc i))
       else buf (write_ring st i v s) ! ((st + j) mod cap s))"
    using Cons.IH [of "write_ring st i v s" "Suc i"] Cons.prems by simp
  with one show ?case
    by (auto simp: nth_Cons' Suc_le_eq)
qed

lemma length_buf_write_span [simp]: "length (buf (write_span st i vs s)) = length (buf s)"
  by (induction vs arbitrary: i s) simp_all

lemma read_write_span:
  assumes "length (buf s) = cap s" and "length vs \<le> cap s"
  shows "read_span \<lparr>start = st, span_length = length vs\<rparr> (write_span st 0 vs s) = Inr vs"
  using assms buf_write_span [OF assms(1), of 0 vs _ st]
  by (auto simp: read_span_def rmap_Inr_iff)

section \<open>Properties\<close>

datatype 't ring_op =
    Wait_front tid nat | Reserve_back tid nat | Push_back nat | Pop_front "thread_type option" nat
  | Host_reset | Write_window nat 't

fun ring_do :: "'t ring_op \<Rightarrow> ('t dfb_state, unit) state_op" where
  "ring_do (Wait_front t n) s = wait_front t n s"
| "ring_do (Reserve_back t n) s = reserve_back t n s"
| "ring_do (Push_back n) s = push_back n s"
| "ring_do (Pop_front tt n) s = pop_front tt n s"
| "ring_do Host_reset s = host_reset s"
| "ring_do (Write_window i v) s =
     (case write_window s of Inl e \<Rightarrow> (Inl e, s) | Inr sp \<Rightarrow> (Inr (), write_ring (start sp) i v s))"

definition ring_run :: "'t ring_op list \<Rightarrow> 't dfb_state \<Rightarrow> 't dfb_state" where
  "ring_run ops s = foldl (\<lambda>s op. snd (ring_do op s)) s ops"

lemma ring_do_inv:
  assumes "ring_inv s"
  shows "ring_inv (snd (ring_do op s))"
  using assms
  by (cases op) (auto simp: ring_preserves [unfolded preserves_def, rule_format]
      ring_inv_write_ring split: sum.splits)

text \<open>
  Property C21: the state of a configured buffer is well formed after any sequence of the
  operations of \<open>DFBAPI\<close>, also of calls that raise: the counters stay within the capacity, the
  head stays inside the list, the list keeps its length, and an open read window is covered
  by visible tiles, so \<open>get_read_ptr\<close> never finds its window invalidated.
\<close>

theorem ring_always_well_formed:
  assumes "0 < n"
  shows "let s = ring_run ops (configure_state n shp s0) in
    configured s \<and> length (buf s) = cap s \<and> head s < cap s \<and> visible s + reserved s \<le> cap s \<and>
    (0 < last_wait_target s \<longrightarrow> read_window s = Inr (front_span (last_wait_target s) s))"
proof -
  have "ring_inv s \<Longrightarrow> ring_inv (ring_run ops s)" for s :: "'a dfb_state"
    unfolding ring_run_def by (induction ops arbitrary: s) (simp_all add: ring_do_inv)
  from this [OF ring_inv_configure [OF assms]] show ?thesis
    by (simp add: Let_def read_window_valid) (simp add: ring_inv_def)
qed

theorem ring_always_well_formed_witness:
  "let s = ring_run [Reserve_back 0 2, Write_window 0 (7::nat), Push_back 2, Wait_front 0 1,
      Pop_front (Some DM) 2] (configure_state 4 [2, 2] init_dfb_state) in
    length (buf s) = cap s \<and> visible s + reserved s \<le> cap s"
  using ring_always_well_formed [of 4 "[Reserve_back 0 2, Write_window 0 (7::nat), Push_back 2,
      Wait_front 0 1, Pop_front (Some DM) 2]" "[2, 2]" init_dfb_state]
  by (simp add: Let_def)

text \<open>
  Property C20: the ring is a first-in first-out queue. Whatever interleaving of producer cycles
  and consumer cycles is attempted on a freshly configured ring, including attempts that time
  out, the tiles delivered followed by the tiles still inside are the tiles accepted, in
  order, and never more than the capacity are inside.
\<close>

theorem ring_conserves:
  assumes "0 < n" and "0 < k" and "chunked n ops"
    and "run_chan (ring_put t n) (ring_get t ty n) ops (configure_state (n * k) shp s0) = (acc, del, s)"
  shows "acc = del @ contents s \<and> length acc \<le> length del + n * k"
proof -
  let ?s = "configure_state (n * k) shp s0"
  have inv: "chan_inv t n ?s" by (rule chan_inv_configure [OF assms(1,2)])
  have "cap ?s = n * k" by (simp add: configure_state_def reset_state_def)
  with ring.run_conserves [OF inv assms(3,4)] ring.run_occupancy [OF inv assms(3,4)]
  show ?thesis by simp
qed

theorem ring_conserves_witness:
  "\<exists>acc del s. run_chan (ring_put 0 1) (ring_get 0 DM 1) [Put [5], Get, Get, Put [6], Put [(7::nat)]]
      (configure_state 2 [1, 1] init_dfb_state) = (acc, del, s) \<and> acc = del @ contents s"
proof -
  obtain acc del s where r: "run_chan (ring_put 0 1) (ring_get 0 DM 1)
      [Put [5], Get, Get, Put [6], Put [(7::nat)]] (configure_state 2 [1, 1] init_dfb_state)
      = (acc, del, s)" by (metis prod_cases3)
  then have "acc = del @ contents s"
    using ring_conserves [of 1 2 "[Put [5], Get, Get, Put [6], Put [(7::nat)]]" 0 DM "[1, 1]"
        init_dfb_state acc del s] by (simp add: chunked_def del: run_chan.simps)
  with r show ?thesis by blast
qed

fun is_producer_op :: "'t ring_op \<Rightarrow> bool" where
  "is_producer_op (Reserve_back t n) = True"
| "is_producer_op (Push_back n) = True"
| "is_producer_op (Write_window i v) = True"
| "is_producer_op _ = False"

definition write_in_window :: "'t dfb_state \<Rightarrow> 't ring_op \<Rightarrow> bool" where
  "write_in_window s op = (case op of Write_window i v \<Rightarrow> i < last_reserve_target s | _ \<Rightarrow> True)"

lemma write_window_ok:
  assumes "write_window s = Inr sp"
  shows "start sp = (head s + visible s) mod cap s" "last_reserve_target s \<le> reserved s"
  using assms by (auto simp: write_window_def rbind_eq_Inr back_span_def split: if_splits)

text \<open>
  Property C23: while a consumer holds a read window of \<open>n\<close> tiles, nothing a producer does
  (reserve, write through its window, push) changes the tiles of that window.
\<close>

theorem producer_keeps_read_window:
  assumes "ring_inv s" and "is_producer_op op" and "write_in_window s op" and "n \<le> visible s"
  shows "let s' = snd (ring_do op s) in
    n \<le> visible s' \<and> take n (items s') = take n (items s) \<and> head s' = head s"
proof (cases op)
  case (Reserve_back t m)
  obtain r s' where r: "reserve_back t m s = (r, s')" by fastforce
  then have "head s' = head s \<and> buf s' = buf s \<and> cap s' = cap s \<and> visible s' = visible s"
    by (auto simp: reserve_back_def Let_def split: sum.splits if_splits)
  with r assms(4) window_cong [of s' s] show ?thesis
    by (simp add: Reserve_back Let_def items_def)
next
  case (Push_back m)
  show ?thesis
  proof (cases "push_back m s")
    case (Pair r s')
    show ?thesis
    proof (cases r)
      case (Inl e)
      with Pair have "s' = s" by (auto simp: push_back_def Let_def split: sum.splits if_splits)
      with Pair Inl assms(4) show ?thesis by (simp add: Push_back Let_def)
    next
      case (Inr u)
      with Pair have p: "push_back m s = (Inr u, s')" by simp
      then have "items s' = items s @ take m (pending s)" by (rule push_back_items)
      with push_back_ok [OF p] p assms(4) show ?thesis by (simp add: Push_back Let_def)
    qed
  qed
next
  case (Write_window i v)
  show ?thesis
  proof (cases "write_window s")
    case (Inl e)
    with assms(4) show ?thesis by (simp add: Write_window Let_def)
  next
    case (Inr sp)
    note w = write_window_ok [OF Inr]
    have "i < reserved s" using assms(3) w(2) by (simp add: write_in_window_def Write_window)
    then have "items (write_ring (start sp) i v s) = items s"
      using items_write_pending(1) [OF assms(1)] w(1) by simp
    with assms(4) show ?thesis by (simp add: Write_window Inr Let_def) (simp add: write_ring_def)
  qed
qed (use assms(2) in auto)

theorem producer_keeps_read_window_witness:
  "let s = snd (ring_do (Wait_front 0 2) (ring_run [Reserve_back 0 2, Write_window 0 (7::nat),
        Write_window 1 8, Push_back 2, Reserve_back 0 2] (configure_state 4 [2, 2] init_dfb_state)));
      s' = snd (ring_do (Write_window 1 9) s) in
    take 2 (items s') = take 2 (items s)"
proof -
  define s where "s = snd (ring_do (Wait_front 0 2) (ring_run [Reserve_back 0 2,
      Write_window 0 (7::nat), Write_window 1 8, Push_back 2, Reserve_back 0 2]
      (configure_state 4 [2, 2] init_dfb_state)))"
  have s: "s = \<lparr>cap = 4, buf = [Some 7, Some 8, None, None], head = 0, visible = 2, reserved = 2,
      step = Some 2, last_wait_target = 2, last_reserve_target = 2, configured = True,
      consumer_waiting = Some 0, producer_reserving = Some 0, dfb_shape = [2, 2]\<rparr>"
    unfolding s_def by code_simp
  have "ring_inv s" by (simp add: s ring_inv_def)
  from producer_keeps_read_window [OF this, of "Write_window 1 9" 2]
  show ?thesis by (fold s_def) (simp add: s write_in_window_def Let_def del: ring_do.simps)
qed

end
