(* ===== verification/Block.thy ===== *)
theory Block
  imports Dfbstate Stats
begin

text \<open>
  Blocks: the rest of \<open>class Block\<close> of \<open>python/sim/dfb.py\<close>, and the functions
  \<open>track_source_blocks\<close> and \<open>matmul\<close>. Python's objects are the entries of a heap: the
  \<open>DFBAPI\<close> objects with their pools, the blocks, the statistics; a block holds a reference
  to the list it looks into (the list of a ring, or its own list for a temporary block), and
  two blocks over one ring see each other's writes.

  The lemmas: which slots a store or a copy writes and that all others keep their value; a
  store that the state machine expects succeeds; marking the source blocks of a store never
  fails; and the tiles of a matrix product.
\<close>

section \<open>The heap\<close>

record 't api =
  api_pool :: "'t dfb_state option list"
  next_dfb_id :: nat

datatype 't bufref = Ring nat nat | Own "'t option list"

record 't block = bstate +
  bbuf :: "'t bufref"
  bcapacity :: nat
  bspan :: span
  bshape :: "nat list"
  is_temporary :: bool
  source_blocks :: "nat list"
  bdfb :: "nat option"

record 't heap = globals +
  apis :: "'t api list"
  blocks :: "'t block list"
  stats :: stats_state

definition lookup_dfb :: "('t, 'z) heap_scheme \<Rightarrow> nat \<Rightarrow> nat \<Rightarrow> 't dfb_state option" where
  "lookup_dfb w a d =
     (if a < length (apis w) \<and> d < length (api_pool (apis w ! a)) then api_pool (apis w ! a) ! d
      else None)"

definition update_dfb ::
    "nat \<Rightarrow> nat \<Rightarrow> 't dfb_state \<Rightarrow> ('t, 'z) heap_scheme \<Rightarrow> ('t, 'z) heap_scheme" where
  "update_dfb a d s w =
     w\<lparr>apis := (apis w)[a := (apis w ! a)\<lparr>api_pool := (api_pool (apis w ! a))[d := Some s]\<rparr>]\<rparr>"

text \<open>The list object a block looks into.\<close>

definition buf_of :: "('t, 'z) heap_scheme \<Rightarrow> 't block \<Rightarrow> 't option list" where
  "buf_of w bl =
     (case bbuf bl of
        Own xs \<Rightarrow> xs
      | Ring a d \<Rightarrow> (case lookup_dfb w a d of None \<Rightarrow> [] | Some s \<Rightarrow> buf s))"

definition put_slot ::
    "nat \<Rightarrow> nat \<Rightarrow> 't option \<Rightarrow> ('t, 'z) heap_scheme \<Rightarrow> ('t, 'z) heap_scheme" where
  "put_slot b k v w =
     (case bbuf (blocks w ! b) of
        Own xs \<Rightarrow> w\<lparr>blocks := (blocks w)[b := (blocks w ! b)\<lparr>bbuf := Own (xs[k := v])\<rparr>]\<rparr>
      | Ring a d \<Rightarrow>
          (case lookup_dfb w a d of
             None \<Rightarrow> w
           | Some s \<Rightarrow> update_dfb a d (s\<lparr>buf := (buf s)[k := v]\<rparr>) w))"

definition the_block :: "nat \<Rightarrow> (('t, 'z) heap_scheme, 't block) state_op" where
  "the_block b = slift (\<lambda>w. py_nth (blocks w) b)"

definition alloc_block :: "'t block \<Rightarrow> (('t, 'z) heap_scheme, nat) state_op" where
  "alloc_block bl w = (Inr (length (blocks w)), w\<lparr>blocks := blocks w @ [bl]\<rparr>)"

definition mark_block :: "nat \<Rightarrow> bop \<Rightarrow> (('t, 'z) heap_scheme, unit) state_op" where
  "mark_block b op =
     sbind (the_block b) (\<lambda>bl w.
       case mark op bl of
         Inl e \<Rightarrow> (Inl e, w)
       | Inr bl' \<Rightarrow> (Inr (), w\<lparr>blocks := (blocks w)[b := bl']\<rparr>))"

section \<open>Construction\<close>

definition new_block ::
    "'t bufref \<Rightarrow> nat \<Rightarrow> span \<Rightarrow> nat list \<Rightarrow> block_acquisition \<Rightarrow> thread_type \<Rightarrow> bool \<Rightarrow>
     nat option \<Rightarrow> 't block" where
  "new_block ref capacity sp shp acq tt temporary dfb =
     (let bl = \<lparr>acquisition = acq, thread_type = tt, access_state = OS, expected_ops = {},
                bbuf = ref, bcapacity = capacity, bspan = sp, bshape = shp,
                is_temporary = temporary, source_blocks = [], bdfb = dfb\<rparr> in
      if \<not> temporary then initialize_state bl
      else bl\<lparr>access_state := RW, expected_ops := {}\<rparr>)"

definition from_list :: "'t list \<Rightarrow> nat list \<Rightarrow> 't block" where
  "from_list tensors shp =
     new_block (Own (map Some tensors)) (length tensors)
       \<lparr>start = 0, span_length = length tensors\<rparr> shp RESERVE COMPUTE True None"

section \<open>Access to the slots\<close>

definition expected_ops_str :: "'a bstate_scheme \<Rightarrow> string" where
  "expected_ops_str bl = (if expected_ops bl = {} then ''DONE'' else expected_names (expected_ops bl))"

definition check_can_read :: "'t block \<Rightarrow> unit result" where
  "check_can_read bl =
     (if is_temporary bl then Inr ()
      else if access_state bl = MW
      then Inl (RuntimeError (''Cannot read from Block: Block is in must-write (MW) state. '' @
             expected_ops_str bl))
      else if access_state bl \<in> {NAW, OS}
      then Inl (RuntimeError (''Cannot read from Block: Block has no access '' @ expected_ops_str bl))
      else Inr ())"

definition check_can_write :: "'t block \<Rightarrow> unit result" where
  "check_can_write bl =
     (if is_temporary bl then Inr ()
      else if access_state bl = NAW
      then Inl (RuntimeError ''Cannot write to Block: Block is locked as copy destination'')
      else if access_state bl \<in> {NAR, OS}
      then Inl (RuntimeError (''Cannot write to Block: Block has no access '' @ expected_ops_str bl))
      else Inr ())"

definition ring_index :: "'t block \<Rightarrow> nat \<Rightarrow> nat result" where
  "ring_index bl i =
     (if bcapacity bl = 0 then Inl ZeroDivisionError
      else Inr ((start (bspan bl) + i) mod bcapacity bl))"

definition slot_index :: "'t block \<Rightarrow> nat \<Rightarrow> nat result" where
  "slot_index bl i = (if is_temporary bl then Inr i else ring_index bl i)"

definition get_item :: "('t, 'z) heap_scheme \<Rightarrow> 't block \<Rightarrow> nat \<Rightarrow> 't result" where
  "get_item w bl i =
     rbind (check_can_read bl) (\<lambda>_.
     if \<not> i < span_length (bspan bl) then Inl (IndexError (show_nat i))
     else rbind (slot_index bl i) (\<lambda>k. rbind (py_nth (buf_of w bl) k) (\<lambda>v.
       case v of
         None \<Rightarrow> Inl (ValueError ''Reading uninitialized or consumed slot'')
       | Some x \<Rightarrow> Inr x)))"

definition to_list :: "('t, 'z) heap_scheme \<Rightarrow> 't block \<Rightarrow> 't list result" where
  "to_list w bl = rmap (get_item w bl) [0..<span_length (bspan bl)]"

definition set_index :: "nat \<Rightarrow> nat \<Rightarrow> 't option \<Rightarrow> (('t, 'z) heap_scheme, unit) state_op" where
  "set_index b k v w =
     (if k < length (buf_of w (blocks w ! b)) then (Inr (), put_slot b k v w)
      else (Inl (IndexError ''list assignment index out of range''), w))"

definition write_slot :: "nat \<Rightarrow> nat \<Rightarrow> 't \<Rightarrow> (('t, 'z) heap_scheme, unit) state_op" where
  "write_slot b i v =
     sbind (the_block b) (\<lambda>bl.
     sbind (slift (\<lambda>_. check_can_write bl)) (\<lambda>_.
     if \<not> i < span_length (bspan bl) then sraise (IndexError (show_nat i))
     else sbind (slift (\<lambda>_. slot_index bl i)) (\<lambda>k. set_index b k (Some v))))"

definition pop_idx :: "nat \<Rightarrow> nat \<Rightarrow> (('t, 'z) heap_scheme, unit) state_op" where
  "pop_idx b i =
     sbind (the_block b) (\<lambda>bl.
     if \<not> i < span_length (bspan bl) then sraise (IndexError (show_nat i))
     else sbind (slift (\<lambda>_. ring_index bl i)) (\<lambda>k.
       sbind (slift (\<lambda>w. py_nth (buf_of w bl) k)) (\<lambda>v.
       case v of
         None \<Rightarrow> sraise (ValueError ''Popping uninitialized or consumed slot'')
       | Some _ \<Rightarrow> set_index b k None)))"

text \<open>\<open>for i, v in enumerate(items): body(i, v)\<close>.\<close>

definition for_enum :: "(nat \<Rightarrow> 'v \<Rightarrow> ('s, unit) state_op) \<Rightarrow> 'v list \<Rightarrow> ('s, unit) state_op" where
  "for_enum body xs = sfor (\<lambda>(i, v). body i v) (zip [0..<length xs] xs)"

definition copy_as_dest :: "nat \<Rightarrow> 't list \<Rightarrow> (('t, 'z) heap_scheme, unit) state_op" where
  "copy_as_dest b xs =
     sbind (the_block b) (\<lambda>bl.
     if length xs \<noteq> span_length (bspan bl)
     then sraise (ValueError ''Length mismatch in copy_as_dest()'')
     else for_enum (\<lambda>i v. sbind (slift (\<lambda>_. ring_index bl i)) (\<lambda>k. set_index b k (Some v))) xs)"

section \<open>Storing\<close>

datatype 't store_items = Items_block nat | Items_list "'t list"

definition store_sources :: "('t, 'z) heap_scheme \<Rightarrow> nat \<Rightarrow> 't block \<Rightarrow> nat list" where
  "store_sources w s bl =
     (if acquisition bl = WAIT \<and> thread_type bl = COMPUTE \<and> STORE_SRC \<in> expected_ops bl then [s]
      else if is_temporary bl \<and> source_blocks bl \<noteq> []
      then filter (\<lambda>k. STORE_SRC \<in> expected_ops (blocks w ! k)) (source_blocks bl)
      else [])"

definition store_input ::
    "'t store_items \<Rightarrow> (('t, 'z) heap_scheme, 't list \<times> nat list) state_op" where
  "store_input its =
     (case its of
        Items_list xs \<Rightarrow> sreturn (xs, [])
      | Items_block s \<Rightarrow>
          sbind (the_block s) (\<lambda>bl. slift (\<lambda>w.
            rbind (to_list w bl) (\<lambda>xs. Inr (xs, store_sources w s bl)))))"

definition accumulate_slot ::
    "'t torch \<Rightarrow> nat \<Rightarrow> nat \<Rightarrow> 't \<Rightarrow> (('t, 'z) heap_scheme, unit) state_op" where
  "accumulate_slot T b i v =
     sbind (the_block b) (\<lambda>bl.
     sbind (slift (\<lambda>w. get_item w bl i)) (\<lambda>old.
     sbind (slift (\<lambda>_. t_add T old v)) (\<lambda>new. write_slot b i new)))"

definition store ::
    "'t torch \<Rightarrow> nat \<Rightarrow> 't store_items \<Rightarrow> bool \<Rightarrow> (('t, 'z) heap_scheme, unit) state_op" where
  "store T b its acc =
     sbind (store_input its) (\<lambda>(xs, sources).
     sbind (the_block b) (\<lambda>bl.
     if length xs \<noteq> span_length (bspan bl) then sraise (ValueError ''Length mismatch in store()'')
     else
       sbind (slift (\<lambda>_. check_can_write bl)) (\<lambda>_.
       sbind (sfor (\<lambda>s. mark_block s Op_store_src) sources) (\<lambda>_.
       sbind (the_block b) (\<lambda>bl1.
       let is_first_acc_store = (acc \<and> access_state bl1 = MW) in
       sbind (mark_block b (Op_store acc)) (\<lambda>_.
       if acc \<and> \<not> is_first_acc_store then for_enum (accumulate_slot T b) xs
       else for_enum (write_slot b) xs))))))"

section \<open>Operators\<close>

definition infer_broadcast_shape :: "nat list \<Rightarrow> nat list \<Rightarrow> nat list result" where
  "infer_broadcast_shape l r =
     (if length l \<noteq> length r then Inl (ValueError ''Shape dimension mismatch'')
      else if \<exists>(x, y)\<in>set (zip l r). x \<noteq> 1 \<and> y \<noteq> 1 \<and> x \<noteq> y
      then Inl (ValueError ''Incompatible shapes for broadcasting'')
      else Inr (map (\<lambda>(x, y). max x y) (zip l r)))"

definition apply_binary_op ::
    "'t torch \<Rightarrow> ('t, 'z) heap_scheme \<Rightarrow> 't block \<Rightarrow> 't block \<Rightarrow> ('t \<Rightarrow> 't \<Rightarrow> 't result) \<Rightarrow>
     't list result" where
  "apply_binary_op T w left right op =
     (if bshape left = bshape right \<and> span_length (bspan left) = span_length (bspan right)
      then rmap (\<lambda>i. rbind (get_item w left i) (\<lambda>x. rbind (get_item w right i) (\<lambda>y. op x y)))
             [0..<span_length (bspan left)]
      else if length (bshape left) \<noteq> length (bshape right)
      then Inl (ValueError ''Cannot broadcast: dimension mismatch'')
      else if \<exists>(x, y)\<in>set (zip (bshape left) (bshape right)). x \<noteq> y \<and> x \<noteq> 1 \<and> y \<noteq> 1
      then Inl (ValueError ''Cannot broadcast: incompatible shapes'')
      else rbind (to_list w left) (\<lambda>ls. rbind (to_list w right) (\<lambda>rs.
             broadcast_tensors T ls rs (bshape left) (bshape right) op)))"

text \<open>The source blocks an input contributes to a result (\<open>track_source_blocks\<close>, and the
  same loop in \<open>_binary_op\<close> and \<open>__pow__\<close>).\<close>

definition contributed :: "nat \<times> 't block \<Rightarrow> nat list" where
  "contributed p =
     (case p of (b, bl) \<Rightarrow>
        if \<not> is_temporary bl \<and> acquisition bl = WAIT \<and> thread_type bl = COMPUTE then [b]
        else if is_temporary bl then source_blocks bl else [])"

definition track_source_blocks :: "'t block \<Rightarrow> (nat \<times> 't block) list \<Rightarrow> 't block" where
  "track_source_blocks result inputs =
     result\<lparr>source_blocks := source_blocks result @ concat (map contributed inputs)\<rparr>"

definition binary_op ::
    "'t torch \<Rightarrow> nat \<Rightarrow> nat \<Rightarrow> ('t \<Rightarrow> 't \<Rightarrow> 't result) \<Rightarrow> (('t, 'z) heap_scheme, nat) state_op" where
  "binary_op T a b op =
     sbind (the_block a) (\<lambda>x. sbind (the_block b) (\<lambda>y.
     sbind (slift (\<lambda>w. apply_binary_op T w x y op)) (\<lambda>ts.
     sbind (slift (\<lambda>_. infer_broadcast_shape (bshape x) (bshape y))) (\<lambda>shp.
       alloc_block (track_source_blocks (from_list ts shp) [(a, x), (b, y)])))))"

text \<open>\<open>__pow__\<close> with an integer exponent; \<open>pow\<close> is \<open>t ** other\<close>.\<close>

definition pow_int :: "('t \<Rightarrow> 't result) \<Rightarrow> nat \<Rightarrow> (('t, 'z) heap_scheme, nat) state_op" where
  "pow_int pow a =
     sbind (the_block a) (\<lambda>x.
     sbind (slift (\<lambda>w. to_list w x)) (\<lambda>ts.
     sbind (slift (\<lambda>_. rmap pow ts)) (\<lambda>rs.
       alloc_block (track_source_blocks (from_list rs (bshape x)) [(a, x)]))))"

text \<open>The inner loop of \<open>matmul\<close>: the partial products for \<open>k\<close> in \<open>ks\<close>.\<close>

fun matmul_tile ::
    "'t torch \<Rightarrow> 't list \<Rightarrow> 't list \<Rightarrow> nat \<Rightarrow> nat \<Rightarrow> nat \<Rightarrow> nat \<Rightarrow> nat list \<Rightarrow> 't option \<Rightarrow> 't result" where
  "matmul_tile T as bs K N i j [] acc =
     (case acc of None \<Rightarrow> Inl (AssertionError ''K must be > 0 for matmul'') | Some x \<Rightarrow> Inr x)"
| "matmul_tile T as bs K N i j (k # ks) acc =
     rbind (py_nth as (i * K + k)) (\<lambda>x. rbind (py_nth bs (k * N + j)) (\<lambda>y.
     rbind (t_matmul T x y) (\<lambda>p.
     rbind (case acc of None \<Rightarrow> Inr p | Some s \<Rightarrow> t_add T s p) (\<lambda>s.
       matmul_tile T as bs K N i j ks (Some s)))))"

definition matmul_tensors ::
    "'t torch \<Rightarrow> 't list \<Rightarrow> 't list \<Rightarrow> nat \<Rightarrow> nat \<Rightarrow> nat \<Rightarrow> 't list result" where
  "matmul_tensors T as bs M K N =
     rmap (\<lambda>(i, j). matmul_tile T as bs K N i j [0..<K] None)
       (concat (map (\<lambda>i. map (\<lambda>j. (i, j)) [0..<N]) [0..<M]))"

definition matmul :: "'t torch \<Rightarrow> nat \<Rightarrow> nat \<Rightarrow> (('t, 'z) heap_scheme, nat) state_op" where
  "matmul T a b =
     sbind (the_block a) (\<lambda>x. sbind (the_block b) (\<lambda>y.
     case (bshape x, bshape y) of
       ([M, K], [K', N]) \<Rightarrow>
         if K \<noteq> K' then sraise (ValueError ''Inner dimensions must match for matmul'')
         else
           sbind (slift (\<lambda>w. to_list w x)) (\<lambda>as.
           sbind (slift (\<lambda>w. to_list w y)) (\<lambda>bs.
           sbind (slift (\<lambda>_. matmul_tensors T as bs M K N)) (\<lambda>ts.
             alloc_block (track_source_blocks (from_list ts [M, N]) [(a, x), (b, y)]))))
     | _ \<Rightarrow> sraise (ValueError ''matmul requires 2D blocks'')))"

section \<open>Heap lemmas\<close>

lemma lookup_dfb_bounds:
  "lookup_dfb w a d = Some s \<Longrightarrow> a < length (apis w) \<and> d < length (api_pool (apis w ! a))"
  by (simp add: lookup_dfb_def split: if_splits)

lemma lookup_update_same [simp]:
  "lookup_dfb w a d = Some s \<Longrightarrow> lookup_dfb (update_dfb a d s' w) a d = Some s'"
  by (auto simp: lookup_dfb_def update_dfb_def split: if_splits)

lemma lookup_update_other:
  "(a, d) \<noteq> (a', d') \<Longrightarrow> lookup_dfb (update_dfb a d s' w) a' d' = lookup_dfb w a' d'"
  by (cases "a < length (apis w)"; cases "a = a'")
    (auto simp: lookup_dfb_def update_dfb_def nth_list_update)

lemma update_dfb_frame [simp]:
  "blocks (update_dfb a d s w) = blocks w" "stats (update_dfb a d s w) = stats w"
  "current_thread_type (update_dfb a d s w) = current_thread_type w"
  by (simp_all add: update_dfb_def)

lemma update_update_dfb [simp]:
  "lookup_dfb w a d = Some s \<Longrightarrow> update_dfb a d s2 (update_dfb a d s1 w) = update_dfb a d s2 w"
  by (auto dest: lookup_dfb_bounds simp: update_dfb_def)

lemma update_dfb_id [simp]:
  assumes "lookup_dfb w a d = Some s"
  shows "update_dfb a d s w = w"
proof -
  have b: "a < length (apis w)" "d < length (api_pool (apis w ! a))"
    "api_pool (apis w ! a) ! d = Some s"
    using assms by (auto simp: lookup_dfb_def split: if_splits)
  then have "(api_pool (apis w ! a))[d := Some s] = api_pool (apis w ! a)"
    by (metis list_update_id)
  then show ?thesis by (simp add: update_dfb_def)
qed

lemma lookup_blocks [simp]: "lookup_dfb (w\<lparr>blocks := bs\<rparr>) a d = lookup_dfb w a d"
  by (simp add: lookup_dfb_def)

lemma the_block_ok [simp]: "b < length (blocks w) \<Longrightarrow> the_block b w = (Inr (blocks w ! b), w)"
  by (simp add: the_block_def)

lemma mark_block_eq:
  assumes "b < length (blocks w)"
  shows "mark_block b op w =
    (case mark op (blocks w ! b) of Inl e \<Rightarrow> (Inl e, w)
     | Inr bl \<Rightarrow> (Inr (), w\<lparr>blocks := (blocks w)[b := bl]\<rparr>))"
  using assms by (simp add: mark_block_def)

text \<open>\<open>mark\<close> changes the access state and the expected operations only.\<close>

lemma mark_fields:
  assumes "mark op bl = Inr bl'"
  shows "\<exists>acc ops. bl' = bl\<lparr>access_state := acc, expected_ops := ops\<rparr>"
  using assms
  by (cases "op = Op_push \<or> op = Op_pop")
    (auto simp: mark_push_eq_Inr mark_pop_eq_Inr mark_transition_eq_Inr simp del: mark.simps,
      (rule exI, rule exI, rule refl)+)

lemma mark_block_fields:
  assumes "mark op bl = Inr (bl' :: 't block)"
  shows "bbuf bl' = bbuf bl" "bcapacity bl' = bcapacity bl" "bspan bl' = bspan bl"
    "bshape bl' = bshape bl" "is_temporary bl' = is_temporary bl"
    "source_blocks bl' = source_blocks bl" "bdfb bl' = bdfb bl"
  using mark_fields [OF assms] by auto

section \<open>Writing through a block\<close>

text \<open>A block that looks into the ring \<open>d\<close> of the API object \<open>a\<close>, in state \<open>s\<close>.\<close>

definition ring_block :: "('t, 'z) heap_scheme \<Rightarrow> nat \<Rightarrow> nat \<Rightarrow> nat \<Rightarrow> 't dfb_state \<Rightarrow> bool" where
  "ring_block w b a d s \<longleftrightarrow>
     b < length (blocks w) \<and> bbuf (blocks w ! b) = Ring a d \<and> \<not> is_temporary (blocks w ! b) \<and>
     lookup_dfb w a d = Some s \<and> bcapacity (blocks w ! b) = cap s \<and> 0 < cap s \<and>
     length (buf s) = cap s"

lemma ring_block_update:
  assumes "ring_block w b a d s" and "cap s' = cap s" and "length (buf s') = cap s"
  shows "ring_block (update_dfb a d s' w) b a d s'"
  using assms by (simp add: ring_block_def)

lemma write_slot_ring:
  assumes "ring_block w b a d s" and "check_can_write (blocks w ! b) = Inr ()"
    and "i < span_length (bspan (blocks w ! b))"
  shows "write_slot b i v w =
    (Inr (), update_dfb a d (write_ring (start (bspan (blocks w ! b))) i v s) w)"
  using assms
  by (simp add: ring_block_def write_slot_def slot_index_def ring_index_def set_index_def buf_of_def
      put_slot_def write_ring_def)

lemma zip_upt_Cons:
  "n = i + length (v # vs) \<Longrightarrow> zip [i..<n] (v # vs) = (i, v) # zip [Suc i..<n] vs"
  by (simp add: upt_conv_Cons del: upt_Suc)

lemma sfor_Cons_ok: "f x s = (Inr (), t) \<Longrightarrow> sfor f (x # xs) s = sfor f xs t"
  by simp

lemma write_loop_ring:
  assumes "ring_block w b a d s" and "check_can_write (blocks w ! b) = Inr ()"
    and "span_length (bspan (blocks w ! b)) = n" and "n = i + length vs"
  shows "sfor (\<lambda>(i, v). write_slot b i v) (zip [i..<n] vs) w =
    (Inr (), update_dfb a d (write_span (start (bspan (blocks w ! b))) i vs s) w)"
  using assms
proof (induction vs arbitrary: i w s)
  case Nil
  then show ?case by (simp add: ring_block_def)
next
  case (Cons v vs)
  let ?st = "start (bspan (blocks w ! b))"
  let ?w = "update_dfb a d (write_ring ?st i v s) w"
  have l: "lookup_dfb w a d = Some s" and len: "length (buf s) = cap s"
    using Cons.prems(1) by (simp_all add: ring_block_def)
  have rb: "ring_block ?w b a d (write_ring ?st i v s)"
    using Cons.prems(1) len by (intro ring_block_update) simp_all
  have "sfor (\<lambda>(i, v). write_slot b i v) (zip [Suc i..<n] vs) ?w =
      (Inr (), update_dfb a d (write_span ?st (Suc i) vs (write_ring ?st i v s)) ?w)"
    using Cons.IH [OF rb, of "Suc i"] Cons.prems(2-4) by simp
  moreover have "write_slot b i v w = (Inr (), ?w)"
    using Cons.prems by (intro write_slot_ring) simp_all
  ultimately show ?case
    using l by (simp add: zip_upt_Cons [OF Cons.prems(4)] sbind_def)
qed

lemma for_enum_write:
  assumes "ring_block w b a d s" and "check_can_write (blocks w ! b) = Inr ()"
    and "span_length (bspan (blocks w ! b)) = length vs"
  shows "for_enum (write_slot b) vs w =
    (Inr (), update_dfb a d (write_span (start (bspan (blocks w ! b))) 0 vs s) w)"
  using write_loop_ring [OF assms(1,2,3), of 0] by (simp add: for_enum_def)

text \<open>\<open>copy_as_dest\<close> writes the same slots without asking the state machine.\<close>

lemma copy_loop_ring:
  assumes "ring_block w b a d s" and "bl = blocks w ! b" and "n = i + length vs"
  shows "sfor (\<lambda>(i, v). sbind (slift (\<lambda>_. ring_index bl i)) (\<lambda>k. set_index b k (Some v)))
      (zip [i..<n] vs) w =
    (Inr (), update_dfb a d (write_span (start (bspan bl)) i vs s) w)"
  using assms
proof (induction vs arbitrary: i w s)
  case Nil
  then show ?case by (simp add: ring_block_def)
next
  case (Cons v vs)
  let ?st = "start (bspan bl)"
  let ?w = "update_dfb a d (write_ring ?st i v s) w"
  have l: "lookup_dfb w a d = Some s" and len: "length (buf s) = cap s"
    using Cons.prems(1) by (simp_all add: ring_block_def)
  have rb: "ring_block ?w b a d (write_ring ?st i v s)"
    using Cons.prems(1) len by (intro ring_block_update) simp_all
  have one: "sbind (slift (\<lambda>_. ring_index bl i)) (\<lambda>k. set_index b k (Some v)) w = (Inr (), ?w)"
    using Cons.prems by (simp add: ring_block_def ring_index_def set_index_def buf_of_def
        put_slot_def write_ring_def)
  have "sfor (\<lambda>(i, v). sbind (slift (\<lambda>_. ring_index bl i)) (\<lambda>k. set_index b k (Some v)))
      (zip [Suc i..<n] vs) ?w =
      (Inr (), update_dfb a d (write_span ?st (Suc i) vs (write_ring ?st i v s)) ?w)"
    by (rule Cons.IH [OF rb]) (simp_all add: Cons.prems(2,3))
  note rest = this
  have ws: "update_dfb a d s' ?w = update_dfb a d s' w" for s' using l by simp
  show ?case
    unfolding zip_upt_Cons [OF Cons.prems(3)]
    by (subst sfor_Cons_ok [where t = ?w]) (simp_all only: prod.case one rest ws write_span.simps)
qed

lemma copy_as_dest_ring:
  assumes "ring_block w b a d s" and "span_length (bspan (blocks w ! b)) = length vs"
  shows "copy_as_dest b vs w =
    (Inr (), update_dfb a d (write_span (start (bspan (blocks w ! b))) 0 vs s) w)"
proof -
  have "b < length (blocks w)" using assms(1) by (simp add: ring_block_def)
  with copy_loop_ring [OF assms(1) refl, of "length vs" 0 vs] assms(2) show ?thesis
    by (simp add: copy_as_dest_def for_enum_def)
qed

text \<open>Reading through a block is reading its span of the ring.\<close>

lemma to_list_ring:
  assumes "ring_block w b a d s" and "check_can_read (blocks w ! b) = Inr ()"
  shows "to_list w (blocks w ! b) = read_span (bspan (blocks w ! b)) s"
proof -
  have "get_item w (blocks w ! b) i =
      (case buf s ! ((start (bspan (blocks w ! b)) + i) mod cap s) of
         None \<Rightarrow> Inl (ValueError ''Reading uninitialized or consumed slot'')
       | Some v \<Rightarrow> Inr v)" if "i < span_length (bspan (blocks w ! b))" for i
    using assms that
    by (simp add: get_item_def ring_block_def slot_index_def ring_index_def buf_of_def)
  then have "rmap (get_item w (blocks w ! b)) is =
      rmap (\<lambda>i. case buf s ! ((start (bspan (blocks w ! b)) + i) mod cap s) of
         None \<Rightarrow> Inl (ValueError ''Reading uninitialized or consumed slot'')
       | Some v \<Rightarrow> Inr v) is" if "set is \<subseteq> {..<span_length (bspan (blocks w ! b))}" for "is"
    using that by (induction "is") auto
  then show ?thesis by (simp add: to_list_def read_span_def atLeast0LessThan [symmetric])
qed

section \<open>Storing\<close>

lemma mark_store_ok:
  assumes "legal bl" and "op_expected (Op_store acc) \<in> expected_ops bl"
  shows "\<exists>bl'. mark (Op_store acc) bl = Inr bl' \<and> check_can_write bl = Inr () \<and>
    check_can_write (bl' :: 't block) = Inr () \<and> legal bl' \<and>
    (if acc then access_state bl' = A else access_state bl' = MR)"
proof -
  obtain bl' where m: "mark (Op_store acc) bl = Inr bl'"
    using legal_expected_succeeds [OF assms] by blast
  have nw: "access_state bl \<notin> {NAW, NAR, OS}"
  proof -
    have "\<forall>p\<in>set (legal_states q t). op_expected (Op_store c) \<in> snd p \<longrightarrow> fst p \<notin> {NAW, NAR, OS}"
      for q t c
      by (cases q; cases t; cases c) (simp_all add: legal_states_def transition_tables)
    with assms show ?thesis by (force simp: legal_def)
  qed
  have tgt: "\<forall>e\<in>set (state_transitions q t). fst (fst e) = op_key_of (Op_store c) \<longrightarrow>
      fst (snd e) = (if c then A else MR)" for q t c
    by (cases q; cases t; cases c) (simp_all add: transition_tables)
  have "access_state bl' = (if acc then A else MR)"
  proof -
    from m obtain x ops where t: "map_of (state_transitions (acquisition bl) (thread_type bl))
        (op_key_of (Op_store acc), access_state bl) = Some (x, ops)"
      and bl': "bl' = bl\<lparr>access_state := x, expected_ops := ops\<rparr>"
      by (auto simp: mark_transition_eq_Inr simp del: mark.simps op_key_of.simps)
    from bspec [OF tgt map_of_SomeD [OF t], of acc] have "x = (if acc then A else MR)" by simp
    with bl' show ?thesis by simp
  qed
  with m nw mark_legal [OF m] show ?thesis by (auto simp: check_can_write_def)
qed

text \<open>Marking the sources of a store never fails: a source that was marked once still expects
  to be marked, so repetitions in the list are harmless.\<close>

lemma mark_source_again:
  assumes "mark Op_store_src bl = Inr bl'"
  shows "STORE_SRC \<in> expected_ops bl'"
proof -
  have "\<forall>e\<in>set (state_transitions q t). fst (fst e) = Store_src \<longrightarrow> STORE_SRC \<in> snd (snd e)" for q t
    by (cases q; cases t) (simp_all add: transition_tables)
  with assms show ?thesis
    by (fastforce simp: mark_transition_eq_Inr simp del: mark.simps dest!: map_of_SomeD)
qed

definition heap_legal :: "('t, 'z) heap_scheme \<Rightarrow> bool" where
  "heap_legal w \<longleftrightarrow> (\<forall>bl\<in>set (blocks w). is_temporary bl \<or> legal bl)"

lemma mark_sources_ok:
  assumes "\<forall>k\<in>set ks. k < length (blocks w) \<and> legal (blocks w ! k) \<and>
      STORE_SRC \<in> expected_ops (blocks w ! k)"
  shows "\<exists>bs. sfor (\<lambda>k. mark_block k Op_store_src) ks w = (Inr (), w\<lparr>blocks := bs\<rparr>) \<and>
    length bs = length (blocks w) \<and> (\<forall>k. k \<notin> set ks \<longrightarrow> bs ! k = blocks w ! k) \<and>
    (\<forall>k\<in>set ks. \<exists>acc ops. bs ! k = (blocks w ! k)\<lparr>access_state := acc, expected_ops := ops\<rparr>) \<and>
    (\<forall>k\<in>set ks. legal (bs ! k) \<and> STORE_SRC \<in> expected_ops (bs ! k))"
  using assms
proof (induction ks arbitrary: w)
  case Nil
  show ?case by (rule exI [of _ "blocks w"]) simp
next
  case (Cons k ks)
  from Cons.prems have k: "k < length (blocks w)" "legal (blocks w ! k)"
    "STORE_SRC \<in> expected_ops (blocks w ! k)" by auto
  then obtain bl where m: "mark Op_store_src (blocks w ! k) = Inr bl"
    using legal_expected_succeeds [of "blocks w ! k" Op_store_src] by auto
  let ?w = "w\<lparr>blocks := (blocks w)[k := bl]\<rparr>"
  have one: "mark_block k Op_store_src w = (Inr (), ?w)"
    using mark_block_eq [OF k(1), of Op_store_src] m by simp
  have bl: "legal bl" "STORE_SRC \<in> expected_ops bl"
    using mark_legal [OF m] mark_source_again [OF m] by blast+
  have "\<forall>j\<in>set ks. j < length (blocks ?w) \<and> legal (blocks ?w ! j) \<and>
      STORE_SRC \<in> expected_ops (blocks ?w ! j)"
    using Cons.prems bl by (auto simp: nth_list_update)
  from Cons.IH [OF this] obtain bs where
    bs: "sfor (\<lambda>k. mark_block k Op_store_src) ks ?w = (Inr (), ?w\<lparr>blocks := bs\<rparr>)"
      "length bs = length (blocks w)" "\<forall>j. j \<notin> set ks \<longrightarrow> bs ! j = (blocks w)[k := bl] ! j"
      "\<forall>j\<in>set ks. \<exists>acc ops.
         bs ! j = ((blocks w)[k := bl] ! j)\<lparr>access_state := acc, expected_ops := ops\<rparr>"
      "\<forall>j\<in>set ks. legal (bs ! j) \<and> STORE_SRC \<in> expected_ops (bs ! j)" by auto
  have f: "\<exists>acc ops. bl = (blocks w ! k)\<lparr>access_state := acc, expected_ops := ops\<rparr>"
    using mark_fields [OF m] .
  have "\<forall>j\<in>set (k # ks). \<exists>acc ops. bs ! j = (blocks w ! j)\<lparr>access_state := acc, expected_ops := ops\<rparr>"
  proof
    fix j assume j: "j \<in> set (k # ks)"
    consider "j = k" "k \<notin> set ks" | "j = k" "k \<in> set ks" | "j \<noteq> k" "j \<in> set ks" using j by auto
    then show "\<exists>acc ops. bs ! j = (blocks w ! j)\<lparr>access_state := acc, expected_ops := ops\<rparr>"
    proof cases
      case 1
      with bs(3) k(1) f show ?thesis by simp
    next
      case 2
      with bs(4) k(1) obtain acc ops where "bs ! k = bl\<lparr>access_state := acc, expected_ops := ops\<rparr>"
        by force
      with f 2 have "bs ! j = (blocks w ! j)\<lparr>access_state := acc, expected_ops := ops\<rparr>" by auto
      then show ?thesis by (intro exI)
    next
      case 3
      with bs(4) show ?thesis by (metis nth_list_update_neq)
    qed
  qed
  moreover have "\<forall>j\<in>set (k # ks). legal (bs ! j) \<and> STORE_SRC \<in> expected_ops (bs ! j)"
    using bs(3,5) bl k(1) by (metis nth_list_update_eq set_ConsD)
  moreover have "\<forall>j. j \<notin> set (k # ks) \<longrightarrow> bs ! j = blocks w ! j"
    using bs(3) by simp
  ultimately show ?case
    using bs(1,2) one by (intro exI [of _ bs]) (simp add: sbind_def)
qed

lemma update_dfb_blocks:
  "update_dfb a d s (w\<lparr>blocks := bs\<rparr>) = (update_dfb a d s w)\<lparr>blocks := bs\<rparr>"
  by (simp add: update_dfb_def)

lemma ring_block_mark:
  assumes "ring_block w b a d s" and "mark op (blocks w ! b) = Inr bl"
  shows "ring_block (w\<lparr>blocks := (blocks w)[b := bl]\<rparr>) b a d s"
  using assms mark_block_fields [OF assms(2)] by (simp add: ring_block_def)

text \<open>A store of a list that assigns: the plain store, and the first accumulating one.\<close>

lemma store_assigns:
  assumes rb: "ring_block w b a d s" and leg: "legal (blocks w ! b)"
    and ex: "op_expected (Op_store acc) \<in> expected_ops (blocks w ! b)"
    and len: "span_length (bspan (blocks w ! b)) = length xs"
    and first: "acc \<Longrightarrow> access_state (blocks w ! b) = MW"
  shows "\<exists>bl. mark (Op_store acc) (blocks w ! b) = Inr bl \<and>
    store T b (Items_list xs) acc w =
      (Inr (), (update_dfb a d (write_span (start (bspan (blocks w ! b))) 0 xs s) w)
         \<lparr>blocks := (blocks w)[b := bl]\<rparr>)"
proof -
  obtain bl where m: "mark (Op_store acc) (blocks w ! b) = Inr bl"
    and cw: "check_can_write (blocks w ! b) = Inr ()" "check_can_write bl = Inr ()"
    using mark_store_ok [OF leg ex] by blast
  have b: "b < length (blocks w)" using rb by (simp add: ring_block_def)
  let ?w = "w\<lparr>blocks := (blocks w)[b := bl]\<rparr>"
  have mk: "mark_block b (Op_store acc) w = (Inr (), ?w)"
    using mark_block_eq [OF b, of "Op_store acc"] m by simp
  have "for_enum (write_slot b) xs ?w =
      (Inr (), update_dfb a d (write_span (start (bspan (blocks w ! b))) 0 xs s) ?w)"
    using for_enum_write [OF ring_block_mark [OF rb m]] cw(2) len b mark_block_fields [OF m]
    by simp
  then have "store T b (Items_list xs) acc w =
      (Inr (), update_dfb a d (write_span (start (bspan (blocks w ! b))) 0 xs s) ?w)"
    using b len cw(1) mk first by (simp add: store_def store_input_def Let_def sbind_def)
  with m show ?thesis by (simp add: update_dfb_blocks)
qed

text \<open>A later accumulating store adds slot by slot.\<close>

lemma accumulate_slot_ring:
  assumes rb: "ring_block w b a d s" and st: "access_state (blocks w ! b) = A"
    and i: "i < span_length (bspan (blocks w ! b))"
    and old: "buf s ! ((start (bspan (blocks w ! b)) + i) mod cap s) = Some x"
    and add: "t_add T x v = Inr y"
  shows "accumulate_slot T b i v w =
    (Inr (), update_dfb a d (write_ring (start (bspan (blocks w ! b))) i y s) w)"
proof -
  have c: "check_can_read (blocks w ! b) = Inr ()" "check_can_write (blocks w ! b) = Inr ()"
    using st by (simp_all add: check_can_read_def check_can_write_def)
  have "get_item w (blocks w ! b) i = Inr x"
    using rb i old c(1)
    by (simp add: get_item_def ring_block_def slot_index_def ring_index_def buf_of_def)
  with write_slot_ring [OF rb c(2) i, of y] rb add show ?thesis
    by (simp add: accumulate_slot_def ring_block_def)
qed

lemma accumulate_loop_ring:
  assumes "ring_block w b a d s" and "access_state (blocks w ! b) = A"
    and "span_length (bspan (blocks w ! b)) = n" and "n = i + length vs" and "n \<le> cap s"
    and "length xs = length vs" and "length ys = length vs"
    and "\<forall>j<length vs. buf s ! ((start (bspan (blocks w ! b)) + (i + j)) mod cap s) = Some (xs ! j)"
    and "\<forall>j<length vs. t_add T (xs ! j) (vs ! j) = Inr (ys ! j)"
  shows "sfor (\<lambda>(i, v). accumulate_slot T b i v) (zip [i..<n] vs) w =
    (Inr (), update_dfb a d (write_span (start (bspan (blocks w ! b))) i ys s) w)"
  using assms
proof (induction vs arbitrary: i w s xs ys)
  case Nil
  then show ?case by (simp add: ring_block_def)
next
  case (Cons v vs)
  let ?st = "start (bspan (blocks w ! b))"
  from Cons.prems(6,7) obtain x xs' y ys' where e: "xs = x # xs'" "ys = y # ys'"
    "length xs' = length vs" "length ys' = length vs"
    by (metis length_Suc_conv)
  let ?w = "update_dfb a d (write_ring ?st i y s) w"
  have l: "lookup_dfb w a d = Some s" and len: "length (buf s) = cap s" and c0: "0 < cap s"
    using Cons.prems(1) by (simp_all add: ring_block_def)
  have rb: "ring_block ?w b a d (write_ring ?st i y s)"
    using Cons.prems(1) len by (intro ring_block_update) simp_all
  have one: "accumulate_slot T b i v w = (Inr (), ?w)"
    using Cons.prems(3,4) spec [OF Cons.prems(8), of 0] spec [OF Cons.prems(9), of 0]
    by (intro accumulate_slot_ring [OF Cons.prems(1,2)]) (simp_all add: e)
  have keep: "buf (write_ring ?st i y s) ! ((?st + (Suc i + j)) mod cap s) = Some (xs' ! j)"
    if j: "j < length vs" for j
  proof -
    have "(?st + (Suc i + j)) mod cap s \<noteq> (?st + i) mod cap s"
    proof
      assume "(?st + (Suc i + j)) mod cap s = (?st + i) mod cap s"
      from mod_shift_inj [OF this] Cons.prems(4,5) j show False by simp
    qed
    moreover have "buf s ! ((?st + (i + Suc j)) mod cap s) = Some (xs ! Suc j)"
      using spec [OF Cons.prems(8), of "Suc j"] j by simp
    ultimately show ?thesis by (simp add: write_ring_def e)
  qed
  have "sfor (\<lambda>(i, v). accumulate_slot T b i v) (zip [Suc i..<n] vs) ?w =
      (Inr (), update_dfb a d (write_span (start (bspan (blocks ?w ! b))) (Suc i) ys'
        (write_ring ?st i y s)) ?w)"
  proof (rule Cons.IH [OF rb])
    show "\<forall>j<length vs. t_add T (xs' ! j) (vs ! j) = Inr (ys' ! j)"
      using Cons.prems(9) e by (metis Suc_less_eq length_Cons nth_Cons_Suc)
    show "\<forall>j<length vs. buf (write_ring ?st i y s) !
        ((start (bspan (blocks ?w ! b)) + (Suc i + j)) mod cap (write_ring ?st i y s)) = Some (xs' ! j)"
      using keep by simp
  qed (use Cons.prems e in simp_all)
  moreover have ws: "update_dfb a d s' ?w = update_dfb a d s' w" for s' using l by simp
  ultimately show ?case
    unfolding zip_upt_Cons [OF Cons.prems(4)]
    by (subst sfor_Cons_ok [where t = ?w]) (simp_all only: prod.case one e ws write_span.simps update_dfb_frame)
qed

section \<open>Matrix products\<close>

text \<open>The partial products of one tile of the result, in the order of \<open>k\<close>, added from the left.\<close>

definition tile_products ::
    "'t torch \<Rightarrow> 't list \<Rightarrow> 't list \<Rightarrow> nat \<Rightarrow> nat \<Rightarrow> nat \<Rightarrow> nat \<Rightarrow> 't result list" where
  "tile_products T as bs K N i j = map (\<lambda>k. t_matmul T (as ! (i * K + k)) (bs ! (k * N + j))) [0..<K]"

fun sum_from :: "'t torch \<Rightarrow> 't \<Rightarrow> 't list \<Rightarrow> 't result" where
  "sum_from T s [] = Inr s"
| "sum_from T s (p # ps) = rbind (t_add T s p) (\<lambda>s'. sum_from T s' ps)"

lemma matmul_tile_sum:
  assumes "\<forall>k\<in>set ks. i * K + k < length as \<and> k * N + j < length bs \<and>
      t_matmul T (as ! (i * K + k)) (bs ! (k * N + j)) = Inr (p k)"
  shows "matmul_tile T as bs K N i j ks (Some s) = sum_from T s (map p ks)"
  using assms
  by (induction ks arbitrary: s) (simp_all add: rbind_def split: sum.splits)

lemma grid_index_less: "(i::nat) < M \<Longrightarrow> k < K \<Longrightarrow> i * K + k < M * K"
proof -
  assume "i < M" "k < K"
  then have "i * K + k < Suc i * K" by simp
  also have "\<dots> \<le> M * K" using \<open>i < M\<close> by (intro mult_le_mono1) simp
  finally show ?thesis .
qed

lemma matmul_tile_first:
  assumes "length as = M * K" and "length bs = K * N" and "i < M" and "j < N"
    and "\<forall>k<K. t_matmul T (as ! (i * K + k)) (bs ! (k * N + j)) = Inr (p k)" and "0 < K"
  shows "matmul_tile T as bs K N i j [0..<K] None = sum_from T (p 0) (map p [1..<K])"
proof -
  have k: "\<forall>k\<in>set [1..<K]. i * K + k < length as \<and> k * N + j < length bs \<and>
      t_matmul T (as ! (i * K + k)) (bs ! (k * N + j)) = Inr (p k)"
    using assms by (simp add: grid_index_less)
  have "[0..<K] = 0 # [1..<K]" using assms(6) by (simp add: upt_conv_Cons)
  moreover have "i * K < length as" "j < length bs"
    using grid_index_less [OF assms(3,6)] grid_index_less [OF assms(6,4)] assms(1,2) by simp_all
  ultimately show ?thesis
    using matmul_tile_sum [OF k] spec [OF assms(5), of 0] assms(6) by simp
qed

lemma length_grid_pairs:
  "length (concat (map (\<lambda>i. map (\<lambda>j. (i, j)) [0..<N]) [0..<M])) = M * N"
  by (simp add: length_concat comp_def sum_list_triv)

lemma grid_pairs_nth:
  assumes "i < M" and "j < (N::nat)"
  shows "concat (map (\<lambda>i. map (\<lambda>j. f i j) [0..<N]) [0..<M]) ! (i * N + j) = f i j"
  using assms
proof (induction M)
  case (Suc M)
  let ?l = "concat (map (\<lambda>i. map (f i) [0..<N]) [0..<M])"
  have len: "length ?l = M * N"
    by (simp add: length_concat comp_def sum_list_triv)
  show ?case
  proof (cases "i < M")
    case True
    have "i * N + j < M * N" using grid_index_less [OF True Suc.prems(2)] .
    with Suc True len show ?thesis by (simp add: nth_append)
  next
    case False
    then have "i = M" using Suc.prems by simp
    with len Suc.prems(2) show ?thesis by (simp add: nth_append)
  qed
qed simp

section \<open>Properties\<close>

text \<open>
  A store of a list of tiles through a block of a ring puts exactly these tiles
  into the block: it succeeds when the state machine expects it, reading the block returns the
  list, and every slot of the ring outside the block keeps its value. The first accumulating
  store does the same.
\<close>

lemma store_then_read:
  assumes "ring_block w b a d s" and "legal (blocks w ! b)"
    and "op_expected (Op_store acc) \<in> expected_ops (blocks w ! b)"
    and "acc \<Longrightarrow> access_state (blocks w ! b) = MW"
    and "bspan (blocks w ! b) = \<lparr>start = st, span_length = length xs\<rparr>" and "length xs \<le> cap s"
  shows "\<exists>w' s'. store T b (Items_list xs) acc w = (Inr (), w') \<and>
    to_list w' (blocks w' ! b) = Inr xs \<and> lookup_dfb w' a d = Some s' \<and>
    (\<forall>j. length xs \<le> j \<and> j < cap s \<longrightarrow> buf s' ! ((st + j) mod cap s) = buf s ! ((st + j) mod cap s))"
proof -
  obtain bl where mk: "mark (Op_store acc) (blocks w ! b) = Inr bl"
    and st: "store T b (Items_list xs) acc w =
      (Inr (), (update_dfb a d (write_span st 0 xs s) w)\<lparr>blocks := (blocks w)[b := bl]\<rparr>)"
    using store_assigns [OF assms(1-3) _ assms(4), of xs T] assms(5) by auto
  let ?s = "write_span st 0 xs s"
  let ?w = "(update_dfb a d ?s w)\<lparr>blocks := (blocks w)[b := bl]\<rparr>"
  have b: "b < length (blocks w)" and l: "length (buf s) = cap s"
    using assms(1) by (simp_all add: ring_block_def)
  have rb: "ring_block ?w b a d ?s"
    using ring_block_mark [OF ring_block_update [OF assms(1), of ?s], of "Op_store acc" bl] mk l
    by (simp del: mark.simps)
  have "check_can_read bl = Inr ()"
    using mk by (cases acc; cases "thread_type (blocks w ! b)"; cases "acquisition (blocks w ! b)")
      (auto simp: mark_transition_eq_Inr transition_tables check_can_read_def simp del: mark.simps
        split: if_splits)
  moreover have "bspan bl = \<lparr>start = st, span_length = length xs\<rparr>"
    using mark_block_fields(3) [OF mk] assms(5) by simp
  ultimately have "to_list ?w (blocks ?w ! b) = Inr xs"
    using to_list_ring [OF rb] b read_write_span [OF l assms(6)] by simp
  moreover have "lookup_dfb ?w a d = Some ?s" using rb by (simp add: ring_block_def)
  moreover have "buf ?s ! ((st + j) mod cap s) = buf s ! ((st + j) mod cap s)"
    if "length xs \<le> j" "j < cap s" for j
    using buf_write_span [OF l, of 0 xs j st] that assms(6) by simp
  ultimately show ?thesis using st by blast
qed

text \<open>A heap with one ring of four slots and one reserved block of two of them.\<close>

definition demo_ring :: "nat dfb_state" where
  "demo_ring = \<lparr>cap = 4, buf = [None, None, Some 8, Some 9], head = 2, visible = 2, reserved = 2,
     step = None, last_wait_target = 0, last_reserve_target = 2, configured = True,
     consumer_waiting = None, producer_reserving = Some 0, dfb_shape = [1, 2]\<rparr>"

definition demo_heap :: "access_state \<Rightarrow> expected_op set \<Rightarrow> nat option list \<Rightarrow> nat heap" where
  "demo_heap acc ops xs = \<lparr>current_thread_type = Some COMPUTE,
     apis = [\<lparr>api_pool = [Some (demo_ring\<lparr>buf := xs\<rparr>)], next_dfb_id = 1\<rparr>],
     blocks = [\<lparr>acquisition = RESERVE, thread_type = COMPUTE, access_state = acc, expected_ops = ops,
        bbuf = Ring 0 0, bcapacity = 4, bspan = \<lparr>start = 0, span_length = 2\<rparr>, bshape = [1, 2],
        is_temporary = False, source_blocks = [], bdfb = Some 0\<rparr>],
     stats = init_stats\<rparr>"

definition nat_torch :: "nat torch" where
  "nat_torch = \<lparr>shape_of = (\<lambda>_. [32, 32]), t_zeros = (\<lambda>_ _. 0), t_add = (\<lambda>x y. Inr (x + y)),
     t_mul = (\<lambda>x y. Inr (x * y)), t_maximum = (\<lambda>x y. Inr (max x y)),
     t_matmul = (\<lambda>x y. Inr (x * y)), t_transpose = Inr, t_stack = (\<lambda>xs. Inr (sum_list xs)),
     t_reshape = (\<lambda>x _. Inr x), t_index = (\<lambda>x _. Inr x), t_index2 = (\<lambda>x _ _. Inr x),
     t_assign2 = (\<lambda>x _ _ v. Inr v), t_slice = (\<lambda>x _ _. Inr x), t_assign = (\<lambda>x _ _ v. Inr v),
     t_expand_first = (\<lambda>_ x. Inr x)\<rparr>"

lemma demo_heap_block:
  "length xs = 4 \<Longrightarrow> ring_block (demo_heap acc ops xs) 0 0 0 (demo_ring\<lparr>buf := xs\<rparr>)"
  by (simp add: ring_block_def demo_heap_def lookup_dfb_def demo_ring_def)

lemma store_then_read_witness:
  "\<exists>w'. store nat_torch 0 (Items_list [5, 6]) False
      (demo_heap MW {STORE, STORE_ACC} [None, None, Some 8, Some 9]) = (Inr (), w') \<and>
     to_list w' (blocks w' ! 0) = Inr [5, 6]"
proof -
  let ?xs = "[None, None, Some 8, Some 9]"
  have l: "length ?xs = 4" by simp
  from store_then_read [OF demo_heap_block [OF l], of MW "{STORE, STORE_ACC}" False 0 "[5, 6]" nat_torch]
  show ?thesis
    by (auto simp: demo_heap_def demo_ring_def legal_def legal_states_def)
qed

text \<open>
  A later accumulating store adds: when the block is in the accumulating state and
  holds the tiles \<open>xs\<close>, storing \<open>vs\<close> with \<open>acc\<close> leaves the elementwise sums in it.
\<close>

lemma accumulate_adds:
  assumes rb: "ring_block w b a d s" and "legal (blocks w ! b)"
    and "STORE_ACC \<in> expected_ops (blocks w ! b)" and st: "access_state (blocks w ! b) = A"
    and sp: "bspan (blocks w ! b) = \<lparr>start = st, span_length = length xs\<rparr>" and le: "length xs \<le> cap s"
    and old: "to_list w (blocks w ! b) = Inr xs" and len: "length vs = length xs"
    and add: "\<forall>j<length xs. t_add T (xs ! j) (vs ! j) = Inr (ys ! j)" "length ys = length xs"
  shows "\<exists>w'. store T b (Items_list vs) True w = (Inr (), w') \<and> to_list w' (blocks w' ! b) = Inr ys"
proof -
  obtain bl where mk: "mark (Op_store True) (blocks w ! b) = Inr bl"
    and cw: "check_can_write (blocks w ! b) = Inr ()"
    using mark_store_ok [of "blocks w ! b" True] assms(2,3) by auto
  have A: "access_state bl = A"
    using mk st by (cases "thread_type (blocks w ! b)"; cases "acquisition (blocks w ! b)")
      (auto simp: mark_transition_eq_Inr transition_tables simp del: mark.simps split: if_splits)
  have b: "b < length (blocks w)" and l: "length (buf s) = cap s"
    using rb by (simp_all add: ring_block_def)
  let ?w = "w\<lparr>blocks := (blocks w)[b := bl]\<rparr>"
  have rb1: "ring_block ?w b a d s" by (rule ring_block_mark [OF rb mk])
  have sp1: "bspan (blocks ?w ! b) = \<lparr>start = st, span_length = length xs\<rparr>"
    using mark_block_fields(3) [OF mk] sp b by simp
  have "check_can_read (blocks w ! b) = Inr ()" using st by (simp add: check_can_read_def)
  with to_list_ring [OF rb] old sp have "read_span \<lparr>start = st, span_length = length xs\<rparr> s = Inr xs"
    by simp
  then have slots: "\<forall>j<length vs. buf s ! ((start (bspan (blocks ?w ! b)) + (0 + j)) mod cap s) = Some (xs ! j)"
    unfolding sp1 using len by (auto simp: read_span_def rmap_Inr_iff split: option.splits)
  have loop: "for_enum (accumulate_slot T b) vs ?w =
      (Inr (), update_dfb a d (write_span st 0 ys s) ?w)"
  proof -
    have 1: "access_state (blocks ?w ! b) = A" "span_length (bspan (blocks ?w ! b)) = length vs"
      "length vs = 0 + length vs" "length vs \<le> cap s" "length xs = length vs" "length ys = length vs"
      using A b sp1 len le add(2) by simp_all
    have 2: "\<forall>j<length vs. t_add T (xs ! j) (vs ! j) = Inr (ys ! j)" using add(1) len by simp
    show ?thesis
      using accumulate_loop_ring [OF rb1 1 slots 2] unfolding for_enum_def sp1 by simp
  qed
  let ?w2 = "update_dfb a d (write_span st 0 ys s) ?w"
  have "store T b (Items_list vs) True w = (Inr (), ?w2)"
  proof -
    have "mark_block b (Op_store True) w = (Inr (), ?w)"
      using mark_block_eq [OF b, of "Op_store True"] mk by (simp del: mark.simps)
    then show ?thesis
      using b sp len cw st loop by (simp add: store_def store_input_def Let_def sbind_def)
  qed
  moreover have rb2: "ring_block ?w2 b a d (write_span st 0 ys s)"
    using ring_block_update [OF rb1] l by simp
  moreover have "check_can_read bl = Inr ()" using A by (simp add: check_can_read_def)
  ultimately show ?thesis
    using to_list_ring [OF rb2] b sp1 read_write_span [OF l, of ys st] le add(2) by simp
qed

lemma accumulate_adds_witness:
  "\<exists>w'. store nat_torch 0 (Items_list [1, 2]) True
      (demo_heap A {STORE_SRC, STORE_ACC, PUSH} [Some 5, Some 6, None, None]) = (Inr (), w') \<and>
     to_list w' (blocks w' ! 0) = Inr [6, 8]"
proof -
  let ?xs = "[Some 5, Some 6, None, None]"
  have l: "length ?xs = 4" by simp
  have t: "to_list (demo_heap A {STORE_SRC, STORE_ACC, PUSH} ?xs)
      (blocks (demo_heap A {STORE_SRC, STORE_ACC, PUSH} ?xs) ! 0) = Inr [5, 6]"
    by code_simp
  from accumulate_adds [OF demo_heap_block [OF l] _ _ _ _ _ t, of 0 "[1, 2]" nat_torch "[6, 8]"]
  show ?thesis
    by (auto simp: demo_heap_def demo_ring_def legal_def legal_states_def transition_tables
        nat_torch_def less_Suc_eq)
qed

text \<open>
  Property C22: \<open>matmul\<close> multiplies matrices of tiles: tile \<open>(i, j)\<close> of the result is the sum,
  in the order of \<open>k\<close>, of the products of tile \<open>(i, k)\<close> of the left and tile \<open>(k, j)\<close> of the
  right operand.
\<close>

theorem matmul_tensors_correct:
  assumes "length as = M * K" and "length bs = K * N" and "0 < K"
    and "\<forall>i<M. \<forall>k<K. \<forall>j<N. t_matmul T (as ! (i * K + k)) (bs ! (k * N + j)) = Inr (p i k j)"
    and "matmul_tensors T as bs M K N = Inr cs"
  shows "length cs = M * N \<and>
    (\<forall>i<M. \<forall>j<N. sum_from T (p i 0 j) (map (\<lambda>k. p i k j) [1..<K]) = Inr (cs ! (i * N + j)))"
proof (intro conjI allI impI)
  let ?ps = "concat (map (\<lambda>i. map (\<lambda>j. (i, j)) [0..<N]) [0..<M])"
  have r: "rmap (\<lambda>(i, j). matmul_tile T as bs K N i j [0..<K] None) ?ps = Inr cs"
    using assms(5) by (simp add: matmul_tensors_def)
  then have len: "length cs = length ?ps" by (rule rmap_length)
  then show l: "length cs = M * N" by (simp add: length_grid_pairs)
  fix i j assume i: "i < M" and j: "j < N"
  have k: "i * N + j < length ?ps" using grid_index_less [OF i j] len l by simp
  have "matmul_tile T as bs K N i j [0..<K] None = Inr (cs ! (i * N + j))"
    using r k grid_pairs_nth [OF i j, of Pair] by (auto simp: rmap_Inr_iff)
  with matmul_tile_first [OF assms(1,2) i j, of T "\<lambda>k. p i k j"] assms(3,4) i j
  show "sum_from T (p i 0 j) (map (\<lambda>k. p i k j) [1..<K]) = Inr (cs ! (i * N + j))" by simp
qed

theorem matmul_tensors_correct_witness:
  "matmul_tensors nat_torch [1, 2, 3, 4] [5, 6, 7, 8] 2 2 2 = Inr [19, 22, 43, 50] \<and>
   sum_from nat_torch 5 [14] = Inr 19"
proof -
  have m: "matmul_tensors nat_torch [1, 2, 3, 4] [5, 6, 7, 8] 2 2 2 = Inr [19, 22, 43, 50]"
    by code_simp
  from matmul_tensors_correct [OF _ _ _ _ m,
      of "\<lambda>i k j. [1, 2, 3, 4] ! (i * 2 + k) * [5, 6, 7, 8] ! (k * 2 + j)"] m
  show ?thesis by (simp add: nat_torch_def)
qed

end
