(* ===== verification/Dfb.thy ===== *)
theory Dfb
  imports Block
begin

text \<open>
  \<open>class DFBAPI\<close> and \<open>class DataflowBuffer\<close> of \<open>python/sim/dfb.py\<close> on the heap of
  theory Block. \<open>wait\<close> and \<open>reserve\<close> are cut in two at their call of
  \<open>block_if_needed\<close>, where the thread may switch out: what comes before it and what comes
  after it. All greenlets run in the operating system thread 0.

  The lemmas: the invariant of one buffer, kept by every operation; an operation that
  \<open>can_wait\<close>/\<open>can_reserve\<close> announced does not time out; a pending window stays where it
  is while the other side works; and a whole producer or consumer cycle refines \<open>put\<close> or
  \<open>get\<close> of the bounded channel of theory Fifo.
\<close>

section \<open>DFBAPI\<close>

definition MAX_DFBS :: nat where
  "MAX_DFBS = 32"

definition new_api :: "'t api" where
  "new_api = \<lparr>api_pool = replicate MAX_DFBS None, next_dfb_id = 0\<rparr>"

definition alloc_api :: "(('t, 'z) heap_scheme, nat) state_op" where
  "alloc_api w = (Inr (length (apis w)), w\<lparr>apis := apis w @ [new_api]\<rparr>)"

definition allocate_dfb_id :: "nat \<Rightarrow> (('t, 'z) heap_scheme, nat) state_op" where
  "allocate_dfb_id a w =
     (let i = next_dfb_id (apis w ! a);
          w' = w\<lparr>apis := (apis w)[a := (apis w ! a)\<lparr>next_dfb_id := i + 1\<rparr>]\<rparr> in
      if i + 1 > MAX_DFBS
      then (Inl (RuntimeError ''Maximum number of circular buffers exceeded''), w')
      else (Inr i, w'))"

text \<open>The annotations \<open>validate_call\<close> checks.\<close>

definition valid_dfb_id :: "nat \<Rightarrow> unit result" where
  "valid_dfb_id d = guard (d < MAX_DFBS) (ValidationError ''dfb_id'')"

definition valid_size :: "nat \<Rightarrow> unit result" where
  "valid_size n = guard (0 < n) (ValidationError ''num_tiles'')"

text \<open>A method that works on one state of the pool; the slot is \<open>None\<close> until configured.\<close>

definition on_dfb ::
    "nat \<Rightarrow> nat \<Rightarrow> unit result \<Rightarrow> ('t dfb_state, 'r) state_op \<Rightarrow> (('t, 'z) heap_scheme, 'r) state_op" where
  "on_dfb a d args f w =
     (case rbind (valid_dfb_id d) (\<lambda>_. args) of
        Inl e \<Rightarrow> (Inl e, w)
      | Inr _ \<Rightarrow>
          (case lookup_dfb w a d of
             None \<Rightarrow> (Inl (AttributeError ''NoneType''), w)
           | Some s \<Rightarrow> (case f s of (r, s') \<Rightarrow> (r, update_dfb a d s' w))))"

definition host_configure_dfb ::
    "nat \<Rightarrow> nat \<Rightarrow> nat \<Rightarrow> nat list \<Rightarrow> (('t, 'z) heap_scheme, unit) state_op" where
  "host_configure_dfb a d capacity shp w =
     (case rbind (valid_dfb_id d) (\<lambda>_. rbind (valid_size capacity) (\<lambda>_.
             guard (\<forall>x\<in>set shp. 0 < x) (ValidationError ''shape''))) of
        Inl e \<Rightarrow> (Inl e, w)
      | Inr _ \<Rightarrow>
          let s = (case lookup_dfb w a d of None \<Rightarrow> init_dfb_state | Some s \<Rightarrow> s) in
          (Inr (), update_dfb a d (configure_state capacity shp s) w))"

definition host_reset_dfb :: "nat \<Rightarrow> nat \<Rightarrow> (('t, 'z) heap_scheme, unit) state_op" where
  "host_reset_dfb a d = on_dfb a d (Inr ()) host_reset"

definition dfb_stats :: "nat \<Rightarrow> nat \<Rightarrow> (('t, 'z) heap_scheme, 't dfb_stats) state_op" where
  "dfb_stats a d = on_dfb a d (Inr ()) (slift state_stats)"

definition dfb_pages_available_at_front ::
    "nat \<Rightarrow> nat \<Rightarrow> nat \<Rightarrow> (('t, 'z) heap_scheme, bool) state_op" where
  "dfb_pages_available_at_front a d n = on_dfb a d (valid_size n) (slift (pages_available_at_front n))"

definition dfb_pages_reservable_at_back ::
    "nat \<Rightarrow> nat \<Rightarrow> nat \<Rightarrow> (('t, 'z) heap_scheme, bool) state_op" where
  "dfb_pages_reservable_at_back a d n = on_dfb a d (valid_size n) (slift (pages_reservable_at_back n))"

definition dfb_wait_front :: "nat \<Rightarrow> nat \<Rightarrow> nat \<Rightarrow> (('t, 'z) heap_scheme, unit) state_op" where
  "dfb_wait_front a d n = on_dfb a d (valid_size n) (wait_front 0 n)"

definition dfb_reserve_back :: "nat \<Rightarrow> nat \<Rightarrow> nat \<Rightarrow> (('t, 'z) heap_scheme, unit) state_op" where
  "dfb_reserve_back a d n = on_dfb a d (valid_size n) (reserve_back 0 n)"

definition dfb_push_back :: "nat \<Rightarrow> nat \<Rightarrow> nat \<Rightarrow> (('t, 'z) heap_scheme, unit) state_op" where
  "dfb_push_back a d n = on_dfb a d (valid_size n) (push_back n)"

definition dfb_pop_front :: "nat \<Rightarrow> nat \<Rightarrow> nat \<Rightarrow> (('t, 'z) heap_scheme, unit) state_op" where
  "dfb_pop_front a d n w =
     on_dfb a d (valid_size n) (pop_front (current_thread_type w) n) w"

text \<open>A new block over the ring, for the thread type of the running thread.\<close>

definition ring_view ::
    "nat \<Rightarrow> nat \<Rightarrow> ('t dfb_state \<Rightarrow> span result) \<Rightarrow> block_acquisition \<Rightarrow> (('t, 'z) heap_scheme, nat) state_op" where
  "ring_view a d window_of acq =
     sbind (on_dfb a d (Inr ()) (slift (\<lambda>s. rbind (window_of s) (\<lambda>sp. Inr (sp, cap s, dfb_shape s)))))
       (\<lambda>(sp, capacity, shp).
     sbind (slift get_current_thread_type) (\<lambda>tt.
       alloc_block (new_block (Ring a d) capacity sp shp acq tt False None)))"

definition get_read_ptr :: "nat \<Rightarrow> nat \<Rightarrow> (('t, 'z) heap_scheme, nat) state_op" where
  "get_read_ptr a d = ring_view a d read_window WAIT"

definition get_write_ptr :: "nat \<Rightarrow> nat \<Rightarrow> (('t, 'z) heap_scheme, nat) state_op" where
  "get_write_ptr a d = ring_view a d write_window RESERVE"

section \<open>DataflowBuffer\<close>

record 't dfb_obj =
  element :: 't
  df_shape :: "nat list"
  buffer_factor :: nat
  df_api :: "nat option"
  df_id :: "nat option"
  pending_reserved_block :: "nat option"
  pending_waited_block :: "nat option"
  tiles_per_operation :: nat
  capacity_tiles :: nat
  df_stats_name :: "string option"
  df_name :: "string option"

record 't sim = "'t heap" +
  dfbs :: "'t dfb_obj list"

definition alloc_dfb :: "'t dfb_obj \<Rightarrow> (('t, 'z) sim_scheme, nat) state_op" where
  "alloc_dfb df w = (Inr (length (dfbs w)), w\<lparr>dfbs := dfbs w @ [df]\<rparr>)"

definition the_dfb :: "nat \<Rightarrow> (('t, 'z) sim_scheme, 't dfb_obj) state_op" where
  "the_dfb f = slift (\<lambda>w. py_nth (dfbs w) f)"

definition update_dfb_obj ::
    "nat \<Rightarrow> ('t dfb_obj \<Rightarrow> 't dfb_obj) \<Rightarrow> (('t, 'z) sim_scheme, unit) state_op" where
  "update_dfb_obj f g = smodify (\<lambda>w. w\<lparr>dfbs := (dfbs w)[f := g (dfbs w ! f)]\<rparr>)"

text \<open>\<open>DataflowBuffer.__init__\<close>; the object exists once it returns.\<close>

definition new_dataflow_buffer ::
    "'t \<Rightarrow> nat list \<Rightarrow> nat \<Rightarrow> nat option \<Rightarrow> string option \<Rightarrow> (('t, 'z) sim_scheme, nat) state_op" where
  "new_dataflow_buffer elem shp factor api name =
     (if length shp \<noteq> 2 then sraise (ValueError ''Shape must be a 2-tuple'')
      else
        let tiles = shp ! 0 * shp ! 1;
            df = \<lparr>element = elem, df_shape = shp, buffer_factor = factor, df_api = api, df_id = None,
                  pending_reserved_block = None, pending_waited_block = None,
                  tiles_per_operation = tiles, capacity_tiles = tiles * factor,
                  df_stats_name = None, df_name = name\<rparr> in
        (case api of
           None \<Rightarrow> alloc_dfb df
         | Some a \<Rightarrow>
             sbind (allocate_dfb_id a) (\<lambda>d.
             sbind (host_configure_dfb a d (tiles * factor) shp) (\<lambda>_.
             sbind (host_reset_dfb a d) (\<lambda>_.
               alloc_dfb (df\<lparr>df_id := Some d\<rparr>))))))"

definition ensure_initialized :: "'t dfb_obj \<Rightarrow> (nat \<times> nat) result" where
  "ensure_initialized df =
     (case (df_api df, df_id df) of
        (Some a, Some d) \<Rightarrow> Inr (a, d)
      | _ \<Rightarrow> Inl (RuntimeError ''DataflowBuffer was not properly initialized with a DFBAPI instance''))"

definition buffer_of :: "nat \<Rightarrow> (('t, 'z) sim_scheme, 't dfb_obj \<times> nat \<times> nat) state_op" where
  "buffer_of f = sbind (the_dfb f) (\<lambda>df. slift (\<lambda>_. rbind (ensure_initialized df) (\<lambda>p. Inr (df, p))))"

definition set_block_dfb :: "nat \<Rightarrow> nat \<Rightarrow> (('t, 'z) heap_scheme, unit) state_op" where
  "set_block_dfb b f =
     smodify (\<lambda>w. w\<lparr>blocks := (blocks w)[b := (blocks w ! b)\<lparr>bdfb := Some f\<rparr>]\<rparr>)"

text \<open>\<open>wait\<close> up to \<open>block_if_needed\<close>, and from there.\<close>

definition wait_begin :: "nat \<Rightarrow> (('t, 'z) sim_scheme, unit) state_op" where
  "wait_begin f =
     sbind (buffer_of f) (\<lambda>(df, a, d).
     if pending_waited_block df \<noteq> None
     then sraise (RuntimeError ''Cannot call wait() again before pop()'')
     else sreturn ())"

definition wait_finish :: "nat \<Rightarrow> (('t, 'z) sim_scheme, nat) state_op" where
  "wait_finish f =
     sbind (buffer_of f) (\<lambda>(df, a, d).
     sbind (dfb_wait_front a d (tiles_per_operation df)) (\<lambda>_.
     sbind (get_read_ptr a d) (\<lambda>b.
     sbind (set_block_dfb b f) (\<lambda>_.
     sbind (update_dfb_obj f (\<lambda>df. df\<lparr>pending_waited_block := Some b\<rparr>)) (\<lambda>_.
     sbind (smodify (\<lambda>w. w\<lparr>stats :=
        record_dfb_wait (df_stats_name df) (df_id df) (tiles_per_operation df) (stats w)\<rparr>)) (\<lambda>_.
       sreturn b))))))"

definition can_wait :: "nat \<Rightarrow> (('t, 'z) sim_scheme, bool) state_op" where
  "can_wait f =
     sbind (buffer_of f) (\<lambda>(df, a, d).
     sbind (dfb_stats a d) (\<lambda>st. sreturn (stat_visible st \<ge> tiles_per_operation df)))"

definition reserve_begin :: "nat \<Rightarrow> (('t, 'z) sim_scheme, unit) state_op" where
  "reserve_begin f =
     sbind (buffer_of f) (\<lambda>(df, a, d).
     if pending_reserved_block df \<noteq> None
     then sraise (RuntimeError ''Cannot call reserve() again before push()'')
     else sreturn ())"

definition reserve_finish :: "'t torch \<Rightarrow> nat \<Rightarrow> (('t, 'z) sim_scheme, nat) state_op" where
  "reserve_finish T f =
     sbind (buffer_of f) (\<lambda>(df, a, d).
     sbind (dfb_reserve_back a d (tiles_per_operation df)) (\<lambda>_.
     sbind (get_write_ptr a d) (\<lambda>b.
     sbind (set_block_dfb b f) (\<lambda>_.
     sbind (the_block b) (\<lambda>bl.
     sbind (for_enum (write_slot b)
        (replicate (span_length (bspan bl)) (t_zeros T TILE_SHAPE (element df)))) (\<lambda>_.
     sbind (update_dfb_obj f (\<lambda>df. df\<lparr>pending_reserved_block := Some b\<rparr>)) (\<lambda>_.
     sbind (smodify (\<lambda>w. w\<lparr>stats :=
        record_dfb_reserve (df_stats_name df) (df_id df) (tiles_per_operation df) (stats w)\<rparr>)) (\<lambda>_.
       sreturn b))))))))"

definition can_reserve :: "nat \<Rightarrow> (('t, 'z) sim_scheme, bool) state_op" where
  "can_reserve f =
     sbind (buffer_of f) (\<lambda>(df, a, d).
     sbind (dfb_stats a d) (\<lambda>st. sreturn (stat_free st \<ge> int (tiles_per_operation df))))"

definition push_block :: "nat \<Rightarrow> (('t, 'z) sim_scheme, unit) state_op" where
  "push_block f =
     sbind (the_dfb f) (\<lambda>df.
     sbind (case pending_reserved_block df of
              None \<Rightarrow> sreturn ()
            | Some b \<Rightarrow>
                sbind (mark_block b Op_push) (\<lambda>_.
                  update_dfb_obj f (\<lambda>df. df\<lparr>pending_reserved_block := None\<rparr>))) (\<lambda>_.
     sbind (slift (\<lambda>_. ensure_initialized df)) (\<lambda>(a, d).
       dfb_push_back a d (tiles_per_operation df))))"

definition pop_block :: "nat \<Rightarrow> (('t, 'z) sim_scheme, unit) state_op" where
  "pop_block f =
     sbind (the_dfb f) (\<lambda>df.
     sbind (case pending_waited_block df of
              None \<Rightarrow> sreturn ()
            | Some b \<Rightarrow>
                sbind (mark_block b Op_pop) (\<lambda>_.
                  update_dfb_obj f (\<lambda>df. df\<lparr>pending_waited_block := None\<rparr>))) (\<lambda>_.
     sbind (slift (\<lambda>_. ensure_initialized df)) (\<lambda>(a, d).
       dfb_pop_front a d (tiles_per_operation df))))"

definition buffer_stats :: "nat \<Rightarrow> (('t, 'z) sim_scheme, 't dfb_stats) state_op" where
  "buffer_stats f = sbind (buffer_of f) (\<lambda>(df, a, d). dfb_stats a d)"

definition buffer_reset :: "nat \<Rightarrow> (('t, 'z) sim_scheme, unit) state_op" where
  "buffer_reset f = sbind (buffer_of f) (\<lambda>(df, a, d). host_reset_dfb a d)"

definition validate_no_pending_blocks :: "nat \<Rightarrow> (('t, 'z) sim_scheme, unit) state_op" where
  "validate_no_pending_blocks f =
     sbind (the_dfb f) (\<lambda>df.
     if pending_reserved_block df \<noteq> None \<or> pending_waited_block df \<noteq> None
     then sraise (RuntimeError ''DataflowBuffer has incomplete blocks at end of execution'')
     else sreturn ())"

text \<open>\<open>Block.push\<close>, \<open>Block.pop\<close> and \<open>Block.__exit__\<close> (\<open>failed\<close>: the body raised).\<close>

definition block_push :: "nat \<Rightarrow> (('t, 'z) sim_scheme, unit) state_op" where
  "block_push b =
     sbind (the_block b) (\<lambda>bl.
     case bdfb bl of
       None \<Rightarrow> sraise (RuntimeError ''Block.push() is only valid for blocks acquired from a DataflowBuffer.'')
     | Some f \<Rightarrow> push_block f)"

definition block_pop :: "nat \<Rightarrow> (('t, 'z) sim_scheme, unit) state_op" where
  "block_pop b =
     sbind (the_block b) (\<lambda>bl.
     case bdfb bl of
       None \<Rightarrow> sraise (RuntimeError ''Block.pop() is only valid for blocks acquired from a DataflowBuffer.'')
     | Some f \<Rightarrow> pop_block f)"

definition block_exit :: "bool \<Rightarrow> nat \<Rightarrow> (('t, 'z) sim_scheme, unit) state_op" where
  "block_exit failed b =
     sbind (the_block b) (\<lambda>bl.
     if \<not> failed \<and> bdfb bl \<noteq> None
     then (case acquisition bl of RESERVE \<Rightarrow> block_push b | WAIT \<Rightarrow> block_pop b)
     else sreturn ())"

definition make_dataflow_buffer_like ::
    "'t \<Rightarrow> nat list \<Rightarrow> nat \<Rightarrow> (('t, 'z) sim_scheme, nat) state_op" where
  "make_dataflow_buffer_like elem shp factor = new_dataflow_buffer elem shp factor None None"

section \<open>The invariant of a buffer\<close>

text \<open>The object \<open>df\<close> of buffer \<open>f\<close>, its API object, its id and its ring.\<close>

definition buffer_at ::
    "nat \<Rightarrow> ('t, 'z) sim_scheme \<Rightarrow> 't dfb_obj \<Rightarrow> nat \<Rightarrow> nat \<Rightarrow> 't dfb_state \<Rightarrow> bool" where
  "buffer_at f w df a d s \<longleftrightarrow>
     f < length (dfbs w) \<and> dfbs w ! f = df \<and> df_api df = Some a \<and> df_id df = Some d \<and>
     d < MAX_DFBS \<and> lookup_dfb w a d = Some s"

text \<open>A block that is the reserved (waited) window of the ring.\<close>

definition window_block ::
    "('t, 'z) heap_scheme \<Rightarrow> nat \<Rightarrow> nat \<Rightarrow> nat \<Rightarrow> 't dfb_state \<Rightarrow> block_acquisition \<Rightarrow> span \<Rightarrow> bool" where
  "window_block w b a d s acq sp \<longleftrightarrow>
     ring_block w b a d s \<and> bspan (blocks w ! b) = sp \<and> acquisition (blocks w ! b) = acq \<and>
     legal (blocks w ! b)"

definition ring_ok :: "nat \<Rightarrow> 't dfb_state \<Rightarrow> bool" where
  "ring_ok n s \<longleftrightarrow> ring_inv s \<and> 0 < n \<and> n \<le> cap s \<and> cap s mod n = 0 \<and> step s \<in> {None, Some n} \<and>
     consumer_waiting s \<in> {None, Some 0} \<and> producer_reserving s \<in> {None, Some 0} \<and>
     None \<notin> set (items s)"

definition pending_ok ::
    "('t, 'z) heap_scheme \<Rightarrow> 't dfb_obj \<Rightarrow> nat \<Rightarrow> nat \<Rightarrow> 't dfb_state \<Rightarrow> bool" where
  "pending_ok w df a d s \<longleftrightarrow>
     (case pending_waited_block df of
        None \<Rightarrow> last_wait_target s = 0
      | Some b \<Rightarrow> last_wait_target s = tiles_per_operation df \<and>
          window_block w b a d s WAIT (front_span (tiles_per_operation df) s)) \<and>
     (case pending_reserved_block df of
        None \<Rightarrow> reserved s = 0
      | Some b \<Rightarrow> reserved s = tiles_per_operation df \<and> None \<notin> set (pending s) \<and>
          window_block w b a d s RESERVE (back_span (tiles_per_operation df) s))"

definition buffer_inv :: "nat \<Rightarrow> ('t, 'z) sim_scheme \<Rightarrow> bool" where
  "buffer_inv f w \<longleftrightarrow>
     (\<exists>df a d s. buffer_at f w df a d s \<and> ring_ok (tiles_per_operation df) s \<and> pending_ok w df a d s)"

definition ring_of :: "nat \<Rightarrow> ('t, 'z) sim_scheme \<Rightarrow> 't dfb_state" where
  "ring_of f w = the (lookup_dfb w (the (df_api (dfbs w ! f))) (the (df_id (dfbs w ! f))))"

definition buffer_contents :: "nat \<Rightarrow> ('t, 'z) sim_scheme \<Rightarrow> 't list" where
  "buffer_contents f w = contents (ring_of f w)"

definition buffer_capacity :: "nat \<Rightarrow> ('t, 'z) sim_scheme \<Rightarrow> nat" where
  "buffer_capacity f w = cap (ring_of f w)"

definition tiles_of_op :: "nat \<Rightarrow> ('t, 'z) sim_scheme \<Rightarrow> nat" where
  "tiles_of_op f w = tiles_per_operation (dfbs w ! f)"

lemma ring_of_at [simp]: "buffer_at f w df a d s \<Longrightarrow> ring_of f w = s"
  by (auto simp: buffer_at_def ring_of_def)

lemma buffer_at_facts:
  assumes "buffer_at f w df a d s"
  shows "f < length (dfbs w)" "dfbs w ! f = df" "df_api df = Some a" "df_id df = Some d"
    "d < MAX_DFBS" "lookup_dfb w a d = Some s"
  using assms by (simp_all add: buffer_at_def)

lemma sim_frame [simp]:
  "dfbs (update_dfb a d s w) = dfbs w"
  "lookup_dfb (w\<lparr>dfbs := x\<rparr>) a d = lookup_dfb w a d"
  "lookup_dfb (w\<lparr>stats := st\<rparr>) a d = lookup_dfb w a d"
  "lookup_dfb (set_current_thread_type tt w) a d = lookup_dfb w a d"
  by (simp_all add: update_dfb_def lookup_dfb_def set_current_thread_type_def)

lemma buffer_of_ok: "buffer_at f w df a d s \<Longrightarrow> buffer_of f w = (Inr (df, a, d), w)"
  by (auto simp: buffer_at_def buffer_of_def the_dfb_def ensure_initialized_def sbind_def slift_def)

lemma on_dfb_ok:
  assumes "lookup_dfb w a d = Some s" and "d < MAX_DFBS" and "args = Inr ()" and "g s = (r, s')"
  shows "on_dfb a d args g w = (r, update_dfb a d s' w)"
  using assms by (simp add: on_dfb_def valid_dfb_id_def)

lemma valid_size_ok [simp]: "0 < n \<Longrightarrow> valid_size n = Inr ()"
  by (simp add: valid_size_def)

lemma ring_ok_check: "ring_ok n s \<Longrightarrow> rbind (require_configured s) (\<lambda>_. check_num_tiles n s) = Inr ()"
  by (auto simp: ring_ok_def ring_inv_def require_configured_def check_num_tiles_def)

lemma can_wait_eq:
  assumes "buffer_at f w df a d s" and "configured s"
  shows "can_wait f w = (Inr (tiles_per_operation df \<le> visible s), w)"
proof -
  note B = buffer_at_facts [OF assms(1)]
  have "slift state_stats s = (state_stats s, s)" by simp
  then show ?thesis
    using buffer_of_ok [OF assms(1)] B assms(2)
    by (simp add: can_wait_def dfb_stats_def on_dfb_ok [OF B(6,5)] state_stats_def
        require_configured_def)
qed

lemma can_reserve_eq:
  assumes "buffer_at f w df a d s" and "configured s"
  shows "can_reserve f w = (Inr (int (tiles_per_operation df) \<le> free s), w)"
proof -
  note B = buffer_at_facts [OF assms(1)]
  show ?thesis
    using buffer_of_ok [OF assms(1)] B assms(2)
    by (simp add: can_reserve_def dfb_stats_def on_dfb_ok [OF B(6,5)] state_stats_def
        require_configured_def)
qed

text \<open>The window of a pending block does not move while the other side works.\<close>

lemma back_span_after_pop:
  assumes "head s' = (head s + n) mod cap s" and "cap s' = cap s"
    and "visible s' = visible s - n" and "n \<le> visible s"
  shows "back_span m s' = back_span m s"
proof -
  have "((head s + n) mod cap s + (visible s - n)) mod cap s = (head s + n + (visible s - n)) mod cap s"
    by (rule mod_add_left_eq)
  also have "head s + n + (visible s - n) = head s + visible s" using assms(4) by simp
  finally show ?thesis using assms(1-3) by (simp add: back_span_def)
qed

lemma new_block_fields [simp]:
  "bbuf (new_block ref c sp shp acq tt tmp df) = ref"
  "bcapacity (new_block ref c sp shp acq tt tmp df) = c"
  "bspan (new_block ref c sp shp acq tt tmp df) = sp"
  "bshape (new_block ref c sp shp acq tt tmp df) = shp"
  "acquisition (new_block ref c sp shp acq tt tmp df) = acq"
  "thread_type (new_block ref c sp shp acq tt tmp df) = tt"
  "is_temporary (new_block ref c sp shp acq tt tmp df) = tmp"
  "source_blocks (new_block ref c sp shp acq tt tmp df) = []"
  by (simp_all add: new_block_def Let_def initialize_state_def)

lemma new_block_state:
  "(access_state (new_block ref c sp shp acq tt False df), expected_ops (new_block ref c sp shp acq tt False df))
     = initial_state acq tt"
  by (simp add: new_block_def Let_def initialize_state_def)

lemma legal_new_block: "legal (new_block ref c sp shp acq tt False df)"
  using new_block_state [of ref c sp shp acq tt df] by (simp add: legal_def legal_states_def)

lemma window_block_append:
  assumes "window_block w b a d s acq sp"
  shows "window_block (w\<lparr>blocks := blocks w @ bs\<rparr>) b a d s acq sp"
  using assms by (auto simp: window_block_def ring_block_def nth_append)

lemma window_block_update:
  assumes "window_block w b a d s acq sp" and "cap s' = cap s" and "length (buf s') = cap s"
  shows "window_block (update_dfb a d s' w) b a d s' acq sp"
  using assms ring_block_update [of w b a d s s'] by (simp add: window_block_def)

lemma window_block_transfer:
  assumes "window_block w b a d s acq sp" and "b < length (blocks w')"
    and "blocks w' ! b = blocks w ! b" and "lookup_dfb w' a d = Some s'" and "cap s' = cap s"
    and "length (buf s') = cap s"
  shows "window_block w' b a d s' acq sp"
  using assms by (simp add: window_block_def ring_block_def)

lemma window_block_bound: "window_block w b a d s acq sp \<Longrightarrow> b < length (blocks w)"
  by (simp add: window_block_def ring_block_def)

section \<open>The operations of a buffer\<close>

lemma ring_view_ok:
  assumes "lookup_dfb w a d = Some s" and "d < MAX_DFBS" and "window_of s = Inr sp"
    and "current_thread_type w = Some tt"
  shows "ring_view a d window_of acq w =
    (Inr (length (blocks w)),
     w\<lparr>blocks := blocks w @ [new_block (Ring a d) (cap s) sp (dfb_shape s) acq tt False None]\<rparr>)"
  using assms
  by (simp add: ring_view_def on_dfb_ok [OF assms(1,2)] get_current_thread_type_def alloc_block_def)

text \<open>The ring after a wait, and the block it returns.\<close>

definition waited_ring :: "nat \<Rightarrow> 't dfb_state \<Rightarrow> 't dfb_state" where
  "waited_ring n s = s\<lparr>consumer_waiting := Some 0, step := Some n, last_wait_target := n\<rparr>"

definition view_block ::
    "nat \<Rightarrow> nat \<Rightarrow> nat \<Rightarrow> 't dfb_state \<Rightarrow> span \<Rightarrow> block_acquisition \<Rightarrow> thread_type \<Rightarrow> 't block" where
  "view_block f a d s sp acq tt =
     (new_block (Ring a d) (cap s) sp (dfb_shape s) acq tt False None)\<lparr>bdfb := Some f\<rparr>"

lemma view_block_fields [simp]:
  "bbuf (view_block f a d s sp acq tt) = Ring a d" "bcapacity (view_block f a d s sp acq tt) = cap s"
  "bspan (view_block f a d s sp acq tt) = sp" "acquisition (view_block f a d s sp acq tt) = acq"
  "thread_type (view_block f a d s sp acq tt) = tt" "bdfb (view_block f a d s sp acq tt) = Some f"
  "is_temporary (view_block f a d s sp acq tt) = False"
  "bshape (view_block f a d s sp acq tt) = dfb_shape s"
  by (simp_all add: view_block_def)

lemma view_block_state:
  "(access_state (view_block f a d s sp acq tt), expected_ops (view_block f a d s sp acq tt))
     = initial_state acq tt"
  using new_block_state by (simp add: view_block_def)

lemma legal_view_block [simp]: "legal (view_block f a d s sp acq tt)"
  using view_block_state [of f a d s sp acq tt] by (simp add: legal_def legal_states_def)

lemma view_can_read: "check_can_read (view_block f a d s sp WAIT tt) = Inr ()"
  using view_block_state [of f a d s sp WAIT tt] by (cases tt) (simp_all add: check_can_read_def)

lemma view_can_write: "check_can_write (view_block f a d s sp RESERVE tt) = Inr ()"
  using view_block_state [of f a d s sp RESERVE tt] by (cases tt) (simp_all add: check_can_write_def)

lemma wait_finish_eq:
  assumes at: "buffer_at f w df a d s" and ok: "ring_ok (tiles_per_operation df) s"
    and pend: "last_wait_target s = 0" and tt: "current_thread_type w = Some tt"
    and enough: "tiles_per_operation df \<le> visible s"
  defines "n \<equiv> tiles_per_operation df"
  shows "wait_finish f w =
    (Inr (length (blocks w)),
     (update_dfb a d (waited_ring n s) w)
       \<lparr>blocks := blocks w @ [view_block f a d s (front_span n s) WAIT tt],
        dfbs := (dfbs w)[f := df\<lparr>pending_waited_block := Some (length (blocks w))\<rparr>],
        stats := record_dfb_wait (df_stats_name df) (df_id df) n (stats w)\<rparr>)"
proof -
  note B = buffer_at_facts [OF at]
  let ?s1 = "waited_ring n s"
  let ?w1 = "update_dfb a d ?s1 w"
  have n: "0 < n" using ok by (simp add: ring_ok_def n_def)
  have "wait_front 0 n s = (Inr (), ?s1)"
    using ok enough pend ring_ok_check [OF ok]
    by (auto simp: wait_front_def Let_def n_def ring_ok_def waited_ring_def)
  then have 1: "dfb_wait_front a d n w = (Inr (), ?w1)"
    by (simp add: dfb_wait_front_def on_dfb_ok [OF B(6,5)] n)
  have l1: "lookup_dfb ?w1 a d = Some ?s1" using B(6) by simp
  have win: "read_window ?s1 = Inr (front_span n s)"
    using ok enough n by (simp add: read_window_def waited_ring_def require_configured_def ring_ok_def
        ring_inv_def front_span_def n_def)
  have 2: "get_read_ptr a d ?w1 = (Inr (length (blocks w)), ?w1\<lparr>blocks := blocks w @
      [new_block (Ring a d) (cap s) (front_span n s) (dfb_shape s) WAIT tt False None]\<rparr>)"
    using ring_view_ok [OF l1 B(5), of read_window "front_span n s" tt WAIT] win tt
    by (simp add: get_read_ptr_def waited_ring_def)
  show ?thesis
    using buffer_of_ok [OF at] 1 2 B(1,2)
    by (simp add: wait_finish_def set_block_dfb_def update_dfb_obj_def view_block_def n_def [symmetric])
qed

definition reserved_ring :: "'t \<Rightarrow> nat \<Rightarrow> 't dfb_state \<Rightarrow> 't dfb_state" where
  "reserved_ring z n s =
     write_span ((head s + visible s) mod cap s) 0 (replicate n z)
       (s\<lparr>producer_reserving := Some 0, reserved := n, last_reserve_target := n\<rparr>)"

lemma reserve_finish_eq:
  assumes at: "buffer_at f w df a d s" and ok: "ring_ok (tiles_per_operation df) s"
    and pend: "reserved s = 0" and tt: "current_thread_type w = Some tt"
    and room: "visible s + tiles_per_operation df \<le> cap s"
  defines "n \<equiv> tiles_per_operation df"
  shows "reserve_finish T f w =
    (Inr (length (blocks w)),
     (update_dfb a d (reserved_ring (t_zeros T TILE_SHAPE (element df)) n s) w)
       \<lparr>blocks := blocks w @ [view_block f a d s (back_span n s) RESERVE tt],
        dfbs := (dfbs w)[f := df\<lparr>pending_reserved_block := Some (length (blocks w))\<rparr>],
        stats := record_dfb_reserve (df_stats_name df) (df_id df) n (stats w)\<rparr>)"
proof -
  note B = buffer_at_facts [OF at]
  let ?s1 = "s\<lparr>producer_reserving := Some 0, reserved := n, last_reserve_target := n\<rparr>"
  let ?w1 = "update_dfb a d ?s1 w"
  let ?b = "length (blocks w)"
  let ?zs = "replicate n (t_zeros T TILE_SHAPE (element df))"
  let ?vb = "view_block f a d s (back_span n s) RESERVE tt"
  have n: "0 < n" using ok by (simp add: ring_ok_def n_def)
  have "reserve_back 0 n s = (Inr (), ?s1)"
    using ok room pend ring_ok_check [OF ok]
    by (auto simp: reserve_back_def Let_def n_def ring_ok_def free_def)
  then have 1: "dfb_reserve_back a d n w = (Inr (), ?w1)"
    by (simp add: dfb_reserve_back_def on_dfb_ok [OF B(6,5)] n)
  have l1: "lookup_dfb ?w1 a d = Some ?s1" using B(6) by simp
  have win: "write_window ?s1 = Inr (back_span n s)"
    using ok n by (simp add: write_window_def require_configured_def ring_ok_def ring_inv_def
        back_span_def)
  have 2: "get_write_ptr a d ?w1 = (Inr ?b, ?w1\<lparr>blocks := blocks w @
      [new_block (Ring a d) (cap s) (back_span n s) (dfb_shape s) RESERVE tt False None]\<rparr>)"
    using ring_view_ok [OF l1 B(5), of write_window "back_span n s" tt RESERVE] win tt
    by (simp add: get_write_ptr_def)
  let ?w2 = "?w1\<lparr>blocks := blocks w @ [?vb]\<rparr>"
  have len: "length (buf s) = cap s" "0 < cap s" using ok by (simp_all add: ring_ok_def ring_inv_def)
  have "ring_block ?w2 ?b a d ?s1"
    using l1 len by (simp add: ring_block_def)
  from for_enum_write [OF this, of ?zs] have
    3: "for_enum (write_slot ?b) ?zs ?w2 =
      (Inr (), (update_dfb a d (reserved_ring (t_zeros T TILE_SHAPE (element df)) n s) w)
         \<lparr>blocks := blocks w @ [?vb]\<rparr>)"
    using B(6) by (simp add: view_can_write back_span_def reserved_ring_def update_dfb_blocks)
  have bl: "the_block ?b ?w2 = (Inr ?vb, ?w2)" by (simp add: nth_append)
  show ?thesis
    using buffer_of_ok [OF at] 1 2 3 bl B(1,2)
    by (simp add: reserve_finish_def set_block_dfb_def update_dfb_obj_def n_def [symmetric]
        view_block_def back_span_def)
qed

lemma push_block_eq:
  assumes at: "buffer_at f w df a d s" and ok: "ring_ok (tiles_per_operation df) s"
    and pend: "pending_reserved_block df = Some b" "b < length (blocks w)"
    and res: "reserved s = tiles_per_operation df"
    and mk: "mark Op_push (blocks w ! b) = Inr bl"
  shows "push_block f w =
    (Inr (), (update_dfb a d (s\<lparr>reserved := 0, visible := visible s + tiles_per_operation df,
        producer_reserving := None\<rparr>) w)
       \<lparr>blocks := (blocks w)[b := bl],
        dfbs := (dfbs w)[f := df\<lparr>pending_reserved_block := None\<rparr>]\<rparr>)"
proof -
  note B = buffer_at_facts [OF at]
  let ?n = "tiles_per_operation df"
  let ?w1 = "w\<lparr>blocks := (blocks w)[b := bl], dfbs := (dfbs w)[f := df\<lparr>pending_reserved_block := None\<rparr>]\<rparr>"
  have n: "0 < ?n" using ok by (simp add: ring_ok_def)
  have "mark_block b Op_push w = (Inr (), w\<lparr>blocks := (blocks w)[b := bl]\<rparr>)"
    using mark_block_eq [OF pend(2), of Op_push] mk by simp
  moreover have "push_back ?n s = (Inr (), s\<lparr>reserved := 0, visible := visible s + ?n,
      producer_reserving := None\<rparr>)"
    using ring_ok_check [OF ok] res by (simp add: push_back_def)
  then have "dfb_push_back a d ?n ?w1 = (Inr (), update_dfb a d (s\<lparr>reserved := 0,
      visible := visible s + ?n, producer_reserving := None\<rparr>) ?w1)"
    using B(5,6) n by (simp add: dfb_push_back_def on_dfb_ok)
  moreover have "the_dfb f w = (Inr df, w)" using B(1,2) by (simp add: the_dfb_def)
  ultimately show ?thesis
    using B pend by (simp add: push_block_def update_dfb_obj_def ensure_initialized_def
        update_dfb_def)
qed

lemma pop_block_eq:
  assumes at: "buffer_at f w df a d s" and ok: "ring_ok (tiles_per_operation df) s"
    and pend: "pending_waited_block df = Some b" "b < length (blocks w)"
    and mk: "mark Op_pop (blocks w ! b) = Inr bl"
    and pop: "pop_front (current_thread_type w) (tiles_per_operation df) s = (Inr (), s')"
  shows "pop_block f w =
    (Inr (), (update_dfb a d s' w)
       \<lparr>blocks := (blocks w)[b := bl],
        dfbs := (dfbs w)[f := df\<lparr>pending_waited_block := None\<rparr>]\<rparr>)"
proof -
  note B = buffer_at_facts [OF at]
  let ?n = "tiles_per_operation df"
  let ?w1 = "w\<lparr>blocks := (blocks w)[b := bl], dfbs := (dfbs w)[f := df\<lparr>pending_waited_block := None\<rparr>]\<rparr>"
  have n: "0 < ?n" using ok by (simp add: ring_ok_def)
  have "mark_block b Op_pop w = (Inr (), w\<lparr>blocks := (blocks w)[b := bl]\<rparr>)"
    using mark_block_eq [OF pend(2), of Op_pop] mk by simp
  moreover have "dfb_pop_front a d ?n ?w1 = (Inr (), update_dfb a d s' ?w1)"
    using B(5,6) n pop by (simp add: dfb_pop_front_def on_dfb_ok)
  moreover have "the_dfb f w = (Inr df, w)" using B(1,2) by (simp add: the_dfb_def)
  ultimately show ?thesis
    using B pend by (simp add: pop_block_def update_dfb_obj_def ensure_initialized_def
        update_dfb_def)
qed

section \<open>The operations keep the invariant\<close>

lemma buffer_invE:
  assumes "buffer_inv f w"
  obtains df a d s where "buffer_at f w df a d s" "ring_ok (tiles_per_operation df) s"
    "pending_ok w df a d s" "ring_of f w = s" "tiles_of_op f w = tiles_per_operation df"
    "dfbs w ! f = df"
  using assms by (auto simp: buffer_inv_def tiles_of_op_def buffer_at_def ring_of_def)

lemma buffer_invI:
  assumes "buffer_at f w df a d s" "ring_ok (tiles_per_operation df) s" "pending_ok w df a d s"
  shows "buffer_inv f w" "ring_of f w = s" "tiles_of_op f w = tiles_per_operation df" "dfbs w ! f = df"
  using assms by (auto simp: buffer_inv_def tiles_of_op_def buffer_at_def ring_of_def)

lemma ring_frame_items:
  assumes "head s' = head s" and "cap s' = cap s" and "buf s' = buf s"
  shows "visible s' = visible s \<Longrightarrow> items s' = items s"
    and "visible s' = visible s \<Longrightarrow> reserved s' = reserved s \<Longrightarrow> pending s' = pending s"
  using assms by (simp_all add: items_def pending_def window_def)

lemma waited_ring_frame [simp]:
  "head (waited_ring n s) = head s" "cap (waited_ring n s) = cap s" "buf (waited_ring n s) = buf s"
  "visible (waited_ring n s) = visible s" "reserved (waited_ring n s) = reserved s"
  "last_wait_target (waited_ring n s) = n" "configured (waited_ring n s) = configured s"
  "step (waited_ring n s) = Some n" "consumer_waiting (waited_ring n s) = Some 0"
  "producer_reserving (waited_ring n s) = producer_reserving s"
  by (simp_all add: waited_ring_def)

lemma waited_ring_items [simp]:
  "items (waited_ring n s) = items s" "pending (waited_ring n s) = pending s"
  "contents (waited_ring n s) = contents s" "back_span m (waited_ring n s) = back_span m s"
  "front_span m (waited_ring n s) = front_span m s"
  by (simp_all add: items_def pending_def window_def contents_def back_span_def front_span_def)

lemma wait_finish_inv:
  assumes inv: "buffer_inv f w" and none: "pending_waited_block (dfbs w ! f) = None"
    and tt: "current_thread_type w = Some tt"
    and enough: "tiles_of_op f w \<le> length (buffer_contents f w)"
  shows "\<exists>w' b. wait_finish f w = (Inr b, w') \<and> buffer_inv f w' \<and> b = length (blocks w) \<and>
    blocks w' = blocks w @ [blocks w' ! b] \<and> acquisition (blocks w' ! b) = WAIT \<and>
    bdfb (blocks w' ! b) = Some f \<and>
    (access_state (blocks w' ! b), expected_ops (blocks w' ! b)) = initial_state WAIT tt \<and>
    thread_type (blocks w' ! b) = tt \<and>
    dfbs w' ! f = (dfbs w ! f)\<lparr>pending_waited_block := Some b\<rparr> \<and>
    buffer_contents f w' = buffer_contents f w \<and> buffer_capacity f w' = buffer_capacity f w \<and>
    current_thread_type w' = Some tt \<and>
    to_list w' (blocks w' ! b) = Inr (take (tiles_of_op f w) (buffer_contents f w))"
proof -
  obtain df a d s where at: "buffer_at f w df a d s" and ok: "ring_ok (tiles_per_operation df) s"
    and pok: "pending_ok w df a d s" and e: "ring_of f w = s" "tiles_of_op f w = tiles_per_operation df"
    "dfbs w ! f = df" using buffer_invE [OF inv] .
  note B = buffer_at_facts [OF at]
  let ?n = "tiles_per_operation df" and ?b = "length (blocks w)"
  have vis: "?n \<le> visible s" using enough e by (simp add: buffer_contents_def)
  have lw: "last_wait_target s = 0" using pok none e by (simp add: pending_ok_def)
  let ?vb = "view_block f a d s (front_span ?n s) WAIT tt"
  define w' where "w' = (update_dfb a d (waited_ring ?n s) w)
       \<lparr>blocks := blocks w @ [?vb], dfbs := (dfbs w)[f := df\<lparr>pending_waited_block := Some ?b\<rparr>],
        stats := record_dfb_wait (df_stats_name df) (df_id df) ?n (stats w)\<rparr>"
  have run: "wait_finish f w = (Inr ?b, w')"
    using wait_finish_eq [OF at ok lw tt vis] by (simp add: w'_def)
  have l: "lookup_dfb w' a d = Some (waited_ring ?n s)" using B(6) by (simp add: w'_def)
  have len: "length (buf s) = cap s" "0 < cap s" using ok by (simp_all add: ring_ok_def ring_inv_def)
  have at': "buffer_at f w' (df\<lparr>pending_waited_block := Some ?b\<rparr>) a d (waited_ring ?n s)"
    using B l by (simp add: buffer_at_def w'_def)
  have ok': "ring_ok ?n (waited_ring ?n s)"
    using ok vis by (simp add: ring_ok_def ring_inv_def)
  have rb: "ring_block w' ?b a d (waited_ring ?n s)"
    using l len by (simp add: ring_block_def w'_def)
  have old: "window_block w' b' a d (waited_ring ?n s) acq sp"
    if "window_block w b' a d s acq sp" for b' acq sp
    using window_block_bound [OF that] l len
    by (intro window_block_transfer [OF that]) (simp_all add: w'_def nth_append)
  have pok': "pending_ok w' (df\<lparr>pending_waited_block := Some ?b\<rparr>) a d (waited_ring ?n s)"
    using pok none e rb old
    by (auto simp: pending_ok_def window_block_def w'_def split: option.splits)
  note I = buffer_invI [OF at'] 
  have inv': "buffer_inv f w'" "ring_of f w' = waited_ring ?n s"
    using I ok' pok' by simp_all
  have rd: "to_list w' (blocks w' ! ?b) = Inr (take ?n (contents s))"
  proof -
    have "to_list w' (blocks w' ! ?b) = read_span (front_span ?n s) (waited_ring ?n s)"
      using to_list_ring [OF rb] by (simp add: w'_def view_can_read)
    also have "\<dots> = Inr (take ?n (contents s))"
      using read_span_items [of "waited_ring ?n s" ?n] ok vis by (simp add: front_span_def ring_ok_def)
    finally show ?thesis .
  qed
  have st: "(access_state (blocks w' ! ?b), expected_ops (blocks w' ! ?b)) = initial_state WAIT tt"
    using view_block_state [of f a d s "front_span ?n s" WAIT tt] by (simp add: w'_def)
  show ?thesis
    using run inv' rd st e B(1,2) tt
    by (intro exI [of _ w'] exI [of _ ?b]) (simp add: w'_def buffer_contents_def buffer_capacity_def)
qed

lemma reserved_ring_facts:
  assumes "ring_ok n s" and "reserved s = 0" and "visible s + n \<le> cap s"
  shows "ring_ok n (reserved_ring z n s)" "reserved (reserved_ring z n s) = n"
    "last_wait_target (reserved_ring z n s) = last_wait_target s"
    "visible (reserved_ring z n s) = visible s" "cap (reserved_ring z n s) = cap s"
    "head (reserved_ring z n s) = head s" "items (reserved_ring z n s) = items s"
    "pending (reserved_ring z n s) = replicate n (Some z)"
    "length (buf (reserved_ring z n s)) = cap s"
proof -
  let ?s1 = "s\<lparr>producer_reserving := Some 0, reserved := n, last_reserve_target := n\<rparr>"
  have i1: "ring_inv ?s1" using assms by (simp add: ring_ok_def ring_inv_def)
  have "head ?s1 = head s" "visible ?s1 = visible s" "cap ?s1 = cap s" by simp_all
  then have p: "items (reserved_ring z n s) = items ?s1"
    "pending (reserved_ring z n s) = replicate n (Some z)"
    using write_span_pending [OF i1, of 0 "replicate n z"] by (simp_all add: reserved_ring_def)
  show it: "items (reserved_ring z n s) = items s"
    using p(1) by (simp add: items_def window_def)
  show "pending (reserved_ring z n s) = replicate n (Some z)" by (rule p(2))
  have ri: "ring_inv (reserved_ring z n s)"
    unfolding reserved_ring_def by (rule write_span_ring_inv [OF i1])
  then show "length (buf (reserved_ring z n s)) = cap s"
    by (simp add: ring_inv_def reserved_ring_def)
  show "ring_ok n (reserved_ring z n s)"
    using assms(1) ri it by (simp add: ring_ok_def) (simp add: reserved_ring_def)
qed (simp_all add: reserved_ring_def)

lemma reserve_finish_inv:
  assumes inv: "buffer_inv f w" and none: "pending_reserved_block (dfbs w ! f) = None"
    and tt: "current_thread_type w = Some tt"
    and room: "length (buffer_contents f w) + tiles_of_op f w \<le> buffer_capacity f w"
  shows "\<exists>w' b. reserve_finish T f w = (Inr b, w') \<and> buffer_inv f w' \<and> b = length (blocks w) \<and>
    blocks w' = blocks w @ [blocks w' ! b] \<and> acquisition (blocks w' ! b) = RESERVE \<and>
    bdfb (blocks w' ! b) = Some f \<and>
    (access_state (blocks w' ! b), expected_ops (blocks w' ! b)) = initial_state RESERVE tt \<and>
    thread_type (blocks w' ! b) = tt \<and>
    dfbs w' ! f = (dfbs w ! f)\<lparr>pending_reserved_block := Some b\<rparr> \<and>
    buffer_contents f w' = buffer_contents f w \<and> buffer_capacity f w' = buffer_capacity f w \<and>
    current_thread_type w' = Some tt"
proof -
  obtain df a d s where at: "buffer_at f w df a d s" and ok: "ring_ok (tiles_per_operation df) s"
    and pok: "pending_ok w df a d s" and e: "ring_of f w = s" "tiles_of_op f w = tiles_per_operation df"
    "dfbs w ! f = df" using buffer_invE [OF inv] .
  note B = buffer_at_facts [OF at]
  let ?n = "tiles_per_operation df" and ?b = "length (blocks w)"
  let ?z = "t_zeros T TILE_SHAPE (element df)"
  let ?s' = "reserved_ring ?z ?n s"
  have vis: "visible s + ?n \<le> cap s"
    using room e by (simp add: buffer_contents_def buffer_capacity_def)
  have r0: "reserved s = 0" using pok none e by (simp add: pending_ok_def)
  note R = reserved_ring_facts [OF ok r0 vis, of ?z]
  let ?vb = "view_block f a d s (back_span ?n s) RESERVE tt"
  define w' where "w' = (update_dfb a d ?s' w)
       \<lparr>blocks := blocks w @ [?vb], dfbs := (dfbs w)[f := df\<lparr>pending_reserved_block := Some ?b\<rparr>],
        stats := record_dfb_reserve (df_stats_name df) (df_id df) ?n (stats w)\<rparr>"
  have run: "reserve_finish T f w = (Inr ?b, w')"
    using reserve_finish_eq [OF at ok r0 tt vis, of T] by (simp add: w'_def)
  have l: "lookup_dfb w' a d = Some ?s'" using B(6) by (simp add: w'_def)
  have len: "length (buf s) = cap s" "0 < cap s" using ok by (simp_all add: ring_ok_def ring_inv_def)
  have at': "buffer_at f w' (df\<lparr>pending_reserved_block := Some ?b\<rparr>) a d ?s'"
    using B l by (simp add: buffer_at_def w'_def)
  have rb: "ring_block w' ?b a d ?s'"
    using l len R by (simp add: ring_block_def w'_def)
  have old: "window_block w' b' a d ?s' acq sp" if "window_block w b' a d s acq sp" for b' acq sp
    using window_block_bound [OF that] l len R
    by (intro window_block_transfer [OF that]) (simp_all add: w'_def nth_append)
  have sp: "front_span m ?s' = front_span m s" "back_span m ?s' = back_span m s" for m
    using R by (simp_all add: front_span_def back_span_def)
  have pok': "pending_ok w' (df\<lparr>pending_reserved_block := Some ?b\<rparr>) a d ?s'"
    using pok none e rb old R
    by (auto simp: pending_ok_def window_block_def w'_def sp split: option.splits)
  note I = buffer_invI [OF at']
  have inv': "buffer_inv f w'" "ring_of f w' = ?s'" using I R(1) pok' by simp_all
  have st: "(access_state (blocks w' ! ?b), expected_ops (blocks w' ! ?b)) = initial_state RESERVE tt"
    using view_block_state [of f a d s "back_span ?n s" RESERVE tt] by (simp add: w'_def)
  show ?thesis
    using run inv' st e B(1,2) tt R
    by (intro exI [of _ w'] exI [of _ ?b])
      (simp add: w'_def buffer_contents_def buffer_capacity_def contents_def)
qed

text \<open>The facts of \<open>pending_ok\<close> for the two sides.\<close>

lemma pending_okD:
  assumes "pending_ok w df a d s"
  shows "pending_waited_block df = Some b \<Longrightarrow> last_wait_target s = tiles_per_operation df \<and>
      window_block w b a d s WAIT (front_span (tiles_per_operation df) s)"
    and "pending_reserved_block df = Some b \<Longrightarrow> reserved s = tiles_per_operation df \<and>
      None \<notin> set (pending s) \<and> window_block w b a d s RESERVE (back_span (tiles_per_operation df) s)"
    and "pending_waited_block df = None \<Longrightarrow> last_wait_target s = 0"
    and "pending_reserved_block df = None \<Longrightarrow> reserved s = 0"
  using assms by (simp_all add: pending_ok_def)

text \<open>A transition of any block keeps the windows.\<close>

lemma window_block_mark:
  assumes "window_block w b a d s acq sp" and "mark op (blocks w ! k) = Inr bl"
    and "k < length (blocks w)" and "blocks w' = (blocks w)[k := bl]"
    and "lookup_dfb w' a d = Some s'" and "cap s' = cap s" and "length (buf s') = cap s"
  shows "window_block w' b a d s' acq sp"
proof (cases "b = k")
  case True
  with assms mark_block_fields [OF assms(2)] mark_keeps [OF assms(2)] mark_legal [OF assms(2)]
  show ?thesis by (simp add: window_block_def ring_block_def)
next
  case False
  with window_block_bound [OF assms(1)] assms show ?thesis
    by (intro window_block_transfer [OF assms(1)]) simp_all
qed

lemma mark_block_inv:
  assumes inv: "buffer_inv f w" and k: "k < length (blocks w)"
    and mk: "mark op (blocks w ! k) = Inr bl"
  shows "buffer_inv f (w\<lparr>blocks := (blocks w)[k := bl]\<rparr>)"
proof -
  obtain df a d s where at: "buffer_at f w df a d s" and ok: "ring_ok (tiles_per_operation df) s"
    and pok: "pending_ok w df a d s" using buffer_invE [OF inv] .
  note B = buffer_at_facts [OF at]
  let ?w = "w\<lparr>blocks := (blocks w)[k := bl]\<rparr>"
  have len: "length (buf s) = cap s" using ok by (simp add: ring_ok_def ring_inv_def)
  have "buffer_at f ?w df a d s" using B by (simp add: buffer_at_def)
  moreover have old: "window_block ?w b' a d s acq sp" if "window_block w b' a d s acq sp" for b' acq sp
    using window_block_mark [OF that mk k, of ?w s] B(6) len by simp
  then have "pending_ok ?w df a d s" using pok by (auto simp: pending_ok_def split: option.splits)
  ultimately show ?thesis using ok buffer_invI(1) by blast
qed

lemma store_pending_inv:
  assumes inv: "buffer_inv f w" and pend: "pending_reserved_block (dfbs w ! f) = Some b"
    and ex: "op_expected (Op_store acc) \<in> expected_ops (blocks w ! b)"
    and first: "acc \<Longrightarrow> access_state (blocks w ! b) = MW"
    and len: "length xs = tiles_of_op f w"
  shows "\<exists>w' bl. store T b (Items_list xs) acc w = (Inr (), w') \<and> buffer_inv f w' \<and>
    mark (Op_store acc) (blocks w ! b) = Inr bl \<and> blocks w' = (blocks w)[b := bl] \<and>
    dfbs w' = dfbs w \<and> buffer_contents f w' = buffer_contents f w \<and>
    buffer_capacity f w' = buffer_capacity f w \<and> pending (ring_of f w') = map Some xs \<and>
    current_thread_type w' = current_thread_type w"
proof -
  obtain df a d s where at: "buffer_at f w df a d s" and ok: "ring_ok (tiles_per_operation df) s"
    and pok: "pending_ok w df a d s" and e: "ring_of f w = s" "tiles_of_op f w = tiles_per_operation df"
    "dfbs w ! f = df" using buffer_invE [OF inv] .
  note B = buffer_at_facts [OF at]
  let ?n = "tiles_per_operation df"
  have wb: "window_block w b a d s RESERVE (back_span ?n s)" and r: "reserved s = ?n"
    using pending_okD(2) [OF pok] pend e by simp_all
  then have rb: "ring_block w b a d s" and leg: "legal (blocks w ! b)" and b: "b < length (blocks w)"
    and sp: "bspan (blocks w ! b) = back_span ?n s"
    by (simp_all add: window_block_def ring_block_def)
  have l: "length xs = ?n" using len e by simp
  let ?s' = "write_span (start (back_span ?n s)) 0 xs s"
  obtain bl where mk: "mark (Op_store acc) (blocks w ! b) = Inr bl"
    and run: "store T b (Items_list xs) acc w =
      (Inr (), (update_dfb a d ?s' w)\<lparr>blocks := (blocks w)[b := bl]\<rparr>)"
    using store_assigns [OF rb leg ex _ first, of xs T] l sp by (auto simp: back_span_def)
  let ?w' = "(update_dfb a d ?s' w)\<lparr>blocks := (blocks w)[b := bl]\<rparr>"
  have ri: "ring_inv s" using ok by (simp add: ring_ok_def)
  have P: "items ?s' = items s" "pending ?s' = map Some xs"
    using write_span_pending [OF ri, of 0 xs] l r by (simp_all add: back_span_def)
  have ri': "ring_inv ?s'" by (rule write_span_ring_inv [OF ri])
  have ln: "length (buf ?s') = cap s" using ri' by (simp add: ring_inv_def)
  have lk: "lookup_dfb ?w' a d = Some ?s'" using B(6) by simp
  have at': "buffer_at f ?w' df a d ?s'" using B lk by (simp add: buffer_at_def)
  have ok': "ring_ok ?n ?s'" using ok ri' P by (simp add: ring_ok_def)
  have old: "window_block ?w' b' a d ?s' acq sp" if "window_block w b' a d s acq sp" for b' acq sp
    using window_block_mark [OF that mk b, of ?w' ?s'] lk ln by simp
  have sp: "front_span m ?s' = front_span m s" "back_span m ?s' = back_span m s" for m
    by (simp_all add: front_span_def back_span_def)
  have pok': "pending_ok ?w' df a d ?s'"
    using pok old P by (auto simp: pending_ok_def sp split: option.splits)
  show ?thesis
    using run mk buffer_invI [OF at' ok' pok'] e P
    by (intro exI [of _ ?w'] exI [of _ bl]) (simp add: buffer_contents_def buffer_capacity_def contents_def)
qed

lemma push_block_inv:
  assumes inv: "buffer_inv f w" and pend: "pending_reserved_block (dfbs w ! f) = Some b"
    and ex: "PUSH \<in> expected_ops (blocks w ! b)"
  shows "\<exists>w'. push_block f w = (Inr (), w') \<and> buffer_inv f w' \<and>
    dfbs w' ! f = (dfbs w ! f)\<lparr>pending_reserved_block := None\<rparr> \<and>
    buffer_contents f w' = buffer_contents f w @ map the (pending (ring_of f w)) \<and>
    buffer_capacity f w' = buffer_capacity f w \<and> current_thread_type w' = current_thread_type w \<and>
    access_state (blocks w' ! b) = OS \<and> expected_ops (blocks w' ! b) = {}"
proof -
  obtain df a d s where at: "buffer_at f w df a d s" and ok: "ring_ok (tiles_per_operation df) s"
    and pok: "pending_ok w df a d s" and e: "ring_of f w = s" "tiles_of_op f w = tiles_per_operation df"
    "dfbs w ! f = df" using buffer_invE [OF inv] .
  note B = buffer_at_facts [OF at]
  let ?n = "tiles_per_operation df"
  have p: "pending_reserved_block df = Some b" using pend e by simp
  have wb: "window_block w b a d s RESERVE (back_span ?n s)" and r: "reserved s = ?n"
    and full: "None \<notin> set (pending s)"
    using pending_okD(2) [OF pok p] by simp_all
  then have leg: "legal (blocks w ! b)" and b: "b < length (blocks w)"
    by (simp_all add: window_block_def ring_block_def)
  obtain bl where mk: "mark Op_push (blocks w ! b) = Inr bl"
    using legal_expected_succeeds [OF leg, of Op_push] ex by auto
  let ?s' = "s\<lparr>reserved := 0, visible := visible s + ?n, producer_reserving := None\<rparr>"
  define w' where "w' = (update_dfb a d ?s' w)
       \<lparr>blocks := (blocks w)[b := bl], dfbs := (dfbs w)[f := df\<lparr>pending_reserved_block := None\<rparr>]\<rparr>"
  have run: "push_block f w = (Inr (), w')"
    using push_block_eq [OF at ok p b r mk] by (simp add: w'_def)
  have pb: "push_back ?n s = (Inr (), ?s')"
    using ring_ok_check [OF ok] r by (simp add: push_back_def)
  have it: "items ?s' = items s @ pending s"
    using push_back_items(1) [OF pb] r by simp
  have ri': "ring_inv ?s'" using preservesD [OF preserves_push_back _ pb] ok by (simp add: ring_ok_def)
  have lk: "lookup_dfb w' a d = Some ?s'" using B(6) by (simp add: w'_def)
  have ln: "length (buf ?s') = cap s" using ri' by (simp add: ring_inv_def)
  have at': "buffer_at f w' (df\<lparr>pending_reserved_block := None\<rparr>) a d ?s'"
    using B lk by (simp add: buffer_at_def w'_def)
  have ok': "ring_ok ?n ?s'" using ok ri' it full by (simp add: ring_ok_def)
  have old: "window_block w' b' a d ?s' acq sp" if "window_block w b' a d s acq sp" for b' acq sp
    using window_block_mark [OF that mk b, of w' ?s'] lk ln by (simp add: w'_def)
  have fs: "front_span m ?s' = front_span m s" for m by (simp add: front_span_def)
  have pok': "pending_ok w' (df\<lparr>pending_reserved_block := None\<rparr>) a d ?s'"
    using pok old by (auto simp: pending_ok_def fs split: option.splits)
  have fin: "access_state bl = OS \<and> expected_ops bl = {}"
    using push_pop_done [OF mk] by simp
  show ?thesis
    using run buffer_invI [OF at'] ok' pok' e it B(1,2) b fin
    by (intro exI [of _ w']) (simp add: buffer_contents_def buffer_capacity_def contents_def w'_def)
qed

lemma pop_block_inv:
  assumes inv: "buffer_inv f w" and pend: "pending_waited_block (dfbs w ! f) = Some b"
    and ex: "POP \<in> expected_ops (blocks w ! b)" and tt: "current_thread_type w = Some tt"
  shows "\<exists>w'. pop_block f w = (Inr (), w') \<and> buffer_inv f w' \<and>
    dfbs w' ! f = (dfbs w ! f)\<lparr>pending_waited_block := None\<rparr> \<and>
    buffer_contents f w' = drop (tiles_of_op f w) (buffer_contents f w) \<and>
    buffer_capacity f w' = buffer_capacity f w \<and> current_thread_type w' = current_thread_type w \<and>
    pending (ring_of f w') = pending (ring_of f w) \<and>
    access_state (blocks w' ! b) = OS \<and> expected_ops (blocks w' ! b) = {}"
proof -
  obtain df a d s where at: "buffer_at f w df a d s" and ok: "ring_ok (tiles_per_operation df) s"
    and pok: "pending_ok w df a d s" and e: "ring_of f w = s" "tiles_of_op f w = tiles_per_operation df"
    "dfbs w ! f = df" using buffer_invE [OF inv] .
  note B = buffer_at_facts [OF at]
  let ?n = "tiles_per_operation df"
  have p: "pending_waited_block df = Some b" using pend e by simp
  have wb: "window_block w b a d s WAIT (front_span ?n s)" and lw: "last_wait_target s = ?n"
    using pending_okD(1) [OF pok p] by simp_all
  then have leg: "legal (blocks w ! b)" and b: "b < length (blocks w)"
    by (simp_all add: window_block_def ring_block_def)
  obtain bl where mk: "mark Op_pop (blocks w ! b) = Inr bl"
    using legal_expected_succeeds [OF leg, of Op_pop] ex by auto
  have ri: "ring_inv s" and vis: "?n \<le> visible s" and n0: "0 < ?n" "cap s mod ?n = 0"
    and full: "None \<notin> set (items s)"
    using ok lw by (simp_all add: ring_ok_def ring_inv_def)
  have "\<forall>x\<in>set (take ?n (items s)). x \<noteq> None" using full by (metis in_set_takeD)
  from pop_front_ok [OF ri vis n0, of "Some tt", OF _ this] obtain s' where
    pop: "pop_front (Some tt) ?n s = (Inr (), s')" and
    s': "items s' = drop ?n (items s)" "pending s' = pending s" "cap s' = cap s"
      "visible s' = visible s - ?n" "reserved s' = reserved s" "last_wait_target s' = 0"
      "step s' = step s" "producer_reserving s' = producer_reserving s"
      "consumer_waiting s' = (if visible s = ?n then None else consumer_waiting s)" by auto
  have ri': "ring_inv s'" using preservesD [OF preserves_pop_front ri pop] .
  have hd: "head s' = (head s + ?n) mod cap s"
    using pop vis n0(1) ring_ok_check [OF ok]
    by (auto simp: pop_front_def Let_def split: sum.splits prod.splits if_splits)
  define w' where "w' = (update_dfb a d s' w)
       \<lparr>blocks := (blocks w)[b := bl], dfbs := (dfbs w)[f := df\<lparr>pending_waited_block := None\<rparr>]\<rparr>"
  have run: "pop_block f w = (Inr (), w')"
    using pop_block_eq [OF at ok p b mk, of s'] pop tt by (simp add: w'_def)
  have lk: "lookup_dfb w' a d = Some s'" using B(6) by (simp add: w'_def)
  have ln: "length (buf s') = cap s" using ri' s' by (simp add: ring_inv_def)
  have at': "buffer_at f w' (df\<lparr>pending_waited_block := None\<rparr>) a d s'"
    using B lk by (simp add: buffer_at_def w'_def)
  have ok': "ring_ok ?n s'" using ok ri' s' by (auto simp: ring_ok_def dest: in_set_dropD)
  have old: "window_block w' b' a d s' acq sp" if "window_block w b' a d s acq sp" for b' acq sp
    using window_block_mark [OF that mk b, of w' s'] lk ln s' by (simp add: w'_def)
  have bs: "back_span m s' = back_span m s" for m
    by (rule back_span_after_pop [OF hd s'(3,4) vis])
  have pok': "pending_ok w' (df\<lparr>pending_waited_block := None\<rparr>) a d s'"
    using pok old s' by (auto simp: pending_ok_def bs split: option.splits)
  have fin: "access_state bl = OS \<and> expected_ops bl = {}"
    using push_pop_done [OF mk] by simp
  show ?thesis
    using run buffer_invI [OF at'] ok' pok' e s' B(1,2) b fin
    by (intro exI [of _ w']) (simp add: buffer_contents_def buffer_capacity_def contents_def
        drop_map w'_def)
qed

end
