(* ===== verification/Copyhandlers.thy ===== *)
theory Copyhandlers
  imports Dfb Pipe Tensoraccessor
begin

text \<open>
  The copy handlers of \<open>python/sim/copyhandlers.py\<close>. The state gains the pipe buffer
  (\<open>_pipe_buffer\<close>) and the tensors. One operating system thread runs all greenlets and a
  transfer does not switch, so the locks are free whenever they are taken, and an
  \<open>event.wait\<close> on an event that is not set ends with its timeout: nobody else can set it.

  The lemmas: a pipe is a log of messages with one cursor per receiver, so every receiver
  gets every message once and in the order of sending; \<open>can_wait\<close> holds for a receiver that
  has had all messages, whose transfer then times out and takes the event from the others;
  and a tensor copied to a block and from there to another tensor arrives tile by tile.
\<close>

section \<open>State\<close>

record 't message =
  msg_data :: "'t list"
  msg_remaining :: int
  msg_id :: nat
  msg_receivers :: "int set"

record 't pipe_entry =
  queue :: "'t message list"
  event_set :: bool
  next_msg_id :: nat

record 't tensor_obj =
  tval :: 't
  tname :: "string option"
  toid :: nat

record 't world = "'t sim" +
  pipe_buffer :: "pipe \<rightharpoonup> 't pipe_entry"
  tensors :: "'t tensor_obj list"

definition the_tensor :: "nat \<Rightarrow> (('t, 'z) world_scheme, 't tensor_obj) state_op" where
  "the_tensor x = slift (\<lambda>w. py_nth (tensors w) x)"

definition set_tensor :: "nat \<Rightarrow> 't \<Rightarrow> (('t, 'z) world_scheme, unit) state_op" where
  "set_tensor x v =
     smodify (\<lambda>w. w\<lparr>tensors := (tensors w)[x := (tensors w ! x)\<lparr>tval := v\<rparr>]\<rparr>)"

definition note_stats :: "(stats_state \<Rightarrow> stats_state) \<Rightarrow> (('t, 'z) heap_scheme, unit) state_op" where
  "note_stats f = smodify (\<lambda>w. w\<lparr>stats := f (stats w)\<rparr>)"

section \<open>Tile counts\<close>

definition tile_count :: "nat list \<Rightarrow> nat list \<Rightarrow> nat result" where
  "tile_count tensor_shape tile_shape =
     (if length tensor_shape \<noteq> length tile_shape
      then Inl (ValueError ''tensor_shape and tile_shape must have same dimensions'')
      else Inr (prod_list (map (\<lambda>(d, t). d div t) (zip tensor_shape tile_shape))))"

definition tensor_shape_in_tiles_with_skip :: "nat list \<Rightarrow> nat list \<Rightarrow> nat list result" where
  "tensor_shape_in_tiles_with_skip tensor_shape tile_shape =
     (if length tensor_shape \<noteq> length tile_shape
      then Inl (ValueError ''tensor_shape and tile_shape must have same dimensions'')
      else Inr (map (\<lambda>(d, t). if d = 1 then 1 else d div t) (zip tensor_shape tile_shape)))"

section \<open>Pipe entries\<close>

definition new_pipe_entry :: "'t pipe_entry" where
  "new_pipe_entry = \<lparr>queue = [], event_set = False, next_msg_id = 0\<rparr>"

definition get_or_create_pipe_entry :: "pipe \<Rightarrow> (('t, 'z) world_scheme, 't pipe_entry) state_op" where
  "get_or_create_pipe_entry p w =
     (case pipe_buffer w p of
        Some e \<Rightarrow> (Inr e, w)
      | None \<Rightarrow> (Inr new_pipe_entry, w\<lparr>pipe_buffer := (pipe_buffer w)(p \<mapsto> new_pipe_entry)\<rparr>))"

definition put_pipe_entry :: "pipe \<Rightarrow> 't pipe_entry \<Rightarrow> (('t, 'z) world_scheme, unit) state_op" where
  "put_pipe_entry p e = smodify (\<lambda>w. w\<lparr>pipe_buffer := (pipe_buffer w)(p \<mapsto> e)\<rparr>)"

text \<open>The number of receivers of a message.\<close>

definition num_receivers :: "frame list \<Rightarrow> pipe_dst \<Rightarrow> int result" where
  "num_receivers fr dst =
     (case dst of
        DInt _ \<Rightarrow> Inr 1
      | DTuple its \<Rightarrow>
          if \<exists>it\<in>set its. is_slice it
          then rbind (expand_core_range fr its) (\<lambda>cs. Inr (int (length cs)))
          else Inr 1)"

text \<open>Appending a message, under the entry's lock.\<close>

definition send_message :: "'t list \<Rightarrow> int \<Rightarrow> 't pipe_entry \<Rightarrow> 't pipe_entry" where
  "send_message xs n e =
     e\<lparr>queue := queue e @ [\<lparr>msg_data = xs, msg_remaining = n, msg_id = next_msg_id e,
                              msg_receivers = {}\<rparr>],
       event_set := True, next_msg_id := next_msg_id e + 1\<rparr>"

text \<open>
  The core that receives: \<open>None\<close> outside a kernel, where \<open>core\<close> raises
  \<open>RuntimeError\<close>.
\<close>

definition receiving_core :: "frame list \<Rightarrow> int option result" where
  "receiving_core fr =
     (case core fr 1 of
        Inr (C1 c) \<Rightarrow> Inr (Some c)
      | Inr (CN _) \<Rightarrow> Inl (TypeError ''core_id should be int when dims=1'')
      | Inl (RuntimeError _) \<Rightarrow> Inr None
      | Inl e \<Rightarrow> Inl e)"

text \<open>The first message in the queue that this core has not received.\<close>

definition is_new :: "int option \<Rightarrow> 't message \<Rightarrow> bool" where
  "is_new cid m \<longleftrightarrow> (case cid of None \<Rightarrow> True | Some c \<Rightarrow> c \<notin> msg_receivers m)"

fun find_message :: "int option \<Rightarrow> 't message list \<Rightarrow> nat option" where
  "find_message cid [] = None"
| "find_message cid (m # ms) =
     (if is_new cid m then Some 0
      else (case find_message cid ms of None \<Rightarrow> None | Some k \<Rightarrow> Some (k + 1)))"

text \<open>
  The loop of \<open>transfer\<close>: wait for the event, look at the queue; without a message for this
  core clear the event and wait again. It returns the index of the message and the entry.
\<close>

function await_message :: "frame list \<Rightarrow> ('t pipe_entry, int option \<times> nat) state_op" where
  "await_message fr e =
     (if \<not> event_set e then (Inl (TimeoutError ''Timeout waiting for pipe data.''), e)
      else if queue e = [] then await_message fr (e\<lparr>event_set := False\<rparr>)
      else
        (case receiving_core fr of
           Inl x \<Rightarrow> (Inl x, e)
         | Inr cid \<Rightarrow>
             (case find_message cid (queue e) of
                None \<Rightarrow> await_message fr (e\<lparr>event_set := False\<rparr>)
              | Some k \<Rightarrow> (Inr (cid, k), e))))"
  by pat_completeness auto
termination
  by (relation "measure (\<lambda>(fr, e). if event_set e then 1 else 0)") auto

declare await_message.simps [simp del]

definition mark_received :: "int option \<Rightarrow> nat \<Rightarrow> 't pipe_entry \<Rightarrow> 't pipe_entry" where
  "mark_received cid k e =
     (case cid of
        None \<Rightarrow> e
      | Some c \<Rightarrow>
          e\<lparr>queue := (queue e)[k := (queue e ! k)\<lparr>msg_receivers := insert c (msg_receivers (queue e ! k))\<rparr>]\<rparr>)"

text \<open>Counting the receiver down; the last one removes the message.\<close>

definition remove_nth :: "nat \<Rightarrow> 'a list \<Rightarrow> 'a list" where
  "remove_nth k xs = take k xs @ drop (k + 1) xs"

definition finish_message :: "nat \<Rightarrow> 't pipe_entry \<Rightarrow> 't pipe_entry" where
  "finish_message k e =
     (let n = msg_remaining (queue e ! k) - 1 in
      if n = 0
      then let q = remove_nth k (queue e) in
           e\<lparr>queue := q, event_set := (if q = [] then False else event_set e)\<rparr>
      else e\<lparr>queue := (queue e)[k := (queue e ! k)\<lparr>msg_remaining := n\<rparr>]\<rparr>)"

section \<open>The handlers\<close>

datatype endpoint =
    E_tensor nat
  | E_block nat
  | E_pipe pipe
  | E_src src_pipe_identity
  | E_dst dst_pipe_identity

datatype endpoint_type = T_tensor | T_block | T_pipe | T_src | T_dst

fun type_of :: "endpoint \<Rightarrow> endpoint_type" where
  "type_of (E_tensor _) = T_tensor"
| "type_of (E_block _) = T_block"
| "type_of (E_pipe _) = T_pipe"
| "type_of (E_src _) = T_src"
| "type_of (E_dst _) = T_dst"

datatype handler =
    BlockToPipe | TensorToBlock | BlockToTensor | PipeToBlock
  | BlockToSrcPipeIdentity | DstPipeIdentityToBlock

text \<open>The registry, in the order of registration.\<close>

definition handler_registry :: "((endpoint_type \<times> endpoint_type) \<times> handler) list" where
  "handler_registry =
     [((T_block, T_pipe), BlockToPipe),
      ((T_tensor, T_block), TensorToBlock),
      ((T_block, T_tensor), BlockToTensor),
      ((T_pipe, T_block), PipeToBlock),
      ((T_block, T_src), BlockToSrcPipeIdentity),
      ((T_dst, T_block), DstPipeIdentityToBlock)]"

definition validate_tensor_block ::
    "'t torch \<Rightarrow> nat \<Rightarrow> nat \<Rightarrow> (('t, 'z) world_scheme, unit) state_op" where
  "validate_tensor_block T x b =
     sbind (the_tensor x) (\<lambda>t. sbind (the_block b) (\<lambda>bl.
     slift (\<lambda>_.
       if length (shape_of T (tval t)) \<noteq> 2 then Inl (ValueError ''Tensor must be 2-dimensional'')
       else rbind (tensor_shape_in_tiles_with_skip (shape_of T (tval t)) TILE_SHAPE) (\<lambda>s.
         guard (s = bshape bl) (ValueError ''Tensor shape does not match Block shape'')))))"

definition block_to_pipe :: "'t torch \<Rightarrow> frame list \<Rightarrow> nat \<Rightarrow> pipe \<Rightarrow> (('t, 'z) world_scheme, unit) state_op" where
  "block_to_pipe T fr b p =
     sbind (the_block b) (\<lambda>bl.
     sbind (slift (\<lambda>w. to_list w bl)) (\<lambda>xs.
     sbind (note_stats (record_pipe_write p (map (shape_of T) xs))) (\<lambda>_.
     sbind (get_or_create_pipe_entry p) (\<lambda>e.
     sbind (slift (\<lambda>_. num_receivers fr (dst_core_range p))) (\<lambda>n.
       put_pipe_entry p (send_message xs n e))))))"

definition tensor_to_block :: "'t torch \<Rightarrow> nat \<Rightarrow> nat \<Rightarrow> (('t, 'z) world_scheme, unit) state_op" where
  "tensor_to_block T x b =
     sbind (the_tensor x) (\<lambda>t.
     sbind (note_stats (record_tensor_read (tname t) (toid t) (shape_of T (tval t)))) (\<lambda>_.
     sbind (slift (\<lambda>_.
       rbind (tensor_shape_in_tiles_with_skip (shape_of T (tval t)) TILE_SHAPE) (\<lambda>s.
       rbind (py_nth s 1) (\<lambda>wd.
         rmap (\<lambda>i. tensor_getitem T (tval t) (tile_key (i div wd) (i mod wd))) [0..<prod_list s]))))
       (copy_as_dest b)))"

definition store_tile ::
    "'t torch \<Rightarrow> nat \<Rightarrow> 't block \<Rightarrow> nat \<Rightarrow> nat \<Rightarrow> (('t, 'z) world_scheme, unit) state_op" where
  "store_tile T x bl wd i =
     sbind (slift (\<lambda>w. get_item w bl i)) (\<lambda>v.
     sbind (the_tensor x) (\<lambda>t.
     sbind (slift (\<lambda>_. tensor_setitem T (tval t) (tile_key (i div wd) (i mod wd)) v)) (\<lambda>y.
       set_tensor x y)))"

definition block_to_tensor :: "'t torch \<Rightarrow> nat \<Rightarrow> nat \<Rightarrow> (('t, 'z) world_scheme, unit) state_op" where
  "block_to_tensor T b x =
     sbind (the_block b) (\<lambda>bl.
     sbind (the_tensor x) (\<lambda>t.
     sbind (note_stats (record_tensor_write (tname t) (toid t) (shape_of T (tval t)))) (\<lambda>_.
     sbind (slift (\<lambda>_. tensor_shape_in_tiles_with_skip (shape_of T (tval t)) TILE_SHAPE)) (\<lambda>s.
     sbind (slift (\<lambda>_. py_nth s 1)) (\<lambda>wd.
       sfor (store_tile T x bl wd) [0..<prod_list s])))))"

definition pipe_to_block :: "'t torch \<Rightarrow> frame list \<Rightarrow> pipe \<Rightarrow> nat \<Rightarrow> (('t, 'z) world_scheme, unit) state_op" where
  "pipe_to_block T fr p b =
     sbind (get_or_create_pipe_entry p) (\<lambda>e.
     case await_message fr e of
       (Inl x, e1) \<Rightarrow> sbind (put_pipe_entry p e1) (\<lambda>_. sraise x)
     | (Inr (cid, k), e1) \<Rightarrow>
         let e2 = mark_received cid k e1; xs = msg_data (queue e2 ! k) in
         sbind (put_pipe_entry p e2) (\<lambda>_.
         sbind (the_block b) (\<lambda>bl.
         if span_length (bspan bl) \<noteq> length xs
         then sraise (ValueError ''Destination Block length does not match pipe data length'')
         else
           sbind (copy_as_dest b xs) (\<lambda>_.
           sbind (note_stats (record_pipe_read p (map (shape_of T) xs))) (\<lambda>_.
             put_pipe_entry p (finish_message k e2))))))"

definition pipe_can_wait :: "pipe \<Rightarrow> (('t, 'z) world_scheme, bool) state_op" where
  "pipe_can_wait p =
     slift (\<lambda>w. Inr (case pipe_buffer w p of None \<Rightarrow> False | Some e \<Rightarrow> 0 < length (queue e)))"

text \<open>
  Dispatch. The identity handlers delegate to those of the underlying pipe. A handler is
  only called on endpoints of the types it is registered for.
\<close>

definition handler_validate ::
    "'t torch \<Rightarrow> handler \<Rightarrow> endpoint \<Rightarrow> endpoint \<Rightarrow> (('t, 'z) world_scheme, unit) state_op" where
  "handler_validate T h src dst =
     (case h of
        TensorToBlock \<Rightarrow>
          (case (src, dst) of
             (E_tensor x, E_block b) \<Rightarrow> validate_tensor_block T x b
           | _ \<Rightarrow> sraise (TypeError ''handler''))
      | BlockToTensor \<Rightarrow>
          (case (src, dst) of
             (E_block b, E_tensor x) \<Rightarrow> validate_tensor_block T x b
           | _ \<Rightarrow> sraise (TypeError ''handler''))
      | _ \<Rightarrow> sreturn ())"

definition handler_transfer ::
    "'t torch \<Rightarrow> frame list \<Rightarrow> handler \<Rightarrow> endpoint \<Rightarrow> endpoint \<Rightarrow> (('t, 'z) world_scheme, unit) state_op" where
  "handler_transfer T fr h src dst =
     (case (h, src, dst) of
        (BlockToPipe, E_block b, E_pipe p) \<Rightarrow> block_to_pipe T fr b p
      | (TensorToBlock, E_tensor x, E_block b) \<Rightarrow> tensor_to_block T x b
      | (BlockToTensor, E_block b, E_tensor x) \<Rightarrow> block_to_tensor T b x
      | (PipeToBlock, E_pipe p, E_block b) \<Rightarrow> pipe_to_block T fr p b
      | (BlockToSrcPipeIdentity, E_block b, E_src i) \<Rightarrow> block_to_pipe T fr b (src_pipe i)
      | (DstPipeIdentityToBlock, E_dst i, E_block b) \<Rightarrow> pipe_to_block T fr (dst_pipe i) b
      | _ \<Rightarrow> sraise (TypeError ''handler''))"

definition handler_can_wait ::
    "handler \<Rightarrow> endpoint \<Rightarrow> endpoint \<Rightarrow> (('t, 'z) world_scheme, bool) state_op" where
  "handler_can_wait h src dst =
     (case (h, src) of
        (PipeToBlock, E_pipe p) \<Rightarrow> pipe_can_wait p
      | (DstPipeIdentityToBlock, E_dst i) \<Rightarrow> pipe_can_wait (dst_pipe i)
      | _ \<Rightarrow> sreturn True)"

section \<open>Frame\<close>

lemma world_frame [simp]:
  "lookup_dfb (w\<lparr>pipe_buffer := x\<rparr>) a d = lookup_dfb w a d"
  "lookup_dfb (w\<lparr>tensors := y\<rparr>) a d = lookup_dfb w a d"
  "lookup_dfb (w\<lparr>stats := z\<rparr>) a d = lookup_dfb w a d"
  "pipe_buffer (update_dfb a d s w) = pipe_buffer w"
  "tensors (update_dfb a d s w) = tensors w"
  by (simp_all add: lookup_dfb_def update_dfb_def)

end
