(* ===== verification/Multicast.thy ===== *)
theory Multicast
  imports Copyhandlers
begin

text \<open>
  A pipe as a log. The abstract state of a pipe with receivers \<open>R\<close> is the list of all
  messages ever sent and a cursor per receiver; the entry of the code keeps the window from
  the slowest cursor on. Sending refines appending to the log, and receiving refines reading
  at one's cursor and moving it.
\<close>

section \<open>The abstraction\<close>

definition lowest :: "int set \<Rightarrow> (int \<Rightarrow> nat) \<Rightarrow> nat" where
  "lowest R cur = Min (cur ` R)"

definition had :: "int set \<Rightarrow> (int \<Rightarrow> nat) \<Rightarrow> nat \<Rightarrow> int set" where
  "had R cur k = {c\<in>R. k < cur c}"

definition log_message :: "int set \<Rightarrow> 't list list \<Rightarrow> (int \<Rightarrow> nat) \<Rightarrow> nat \<Rightarrow> 't message" where
  "log_message R sent cur k =
     \<lparr>msg_data = sent ! k, msg_remaining = int (card R) - int (card (had R cur k)), msg_id = k,
      msg_receivers = had R cur k\<rparr>"

definition pipe_log :: "int set \<Rightarrow> 't list list \<Rightarrow> (int \<Rightarrow> nat) \<Rightarrow> 't pipe_entry \<Rightarrow> bool" where
  "pipe_log R sent cur e \<longleftrightarrow>
     finite R \<and> R \<noteq> {} \<and> (\<forall>c\<in>R. cur c \<le> length sent) \<and> next_msg_id e = length sent \<and>
     queue e = map (log_message R sent cur) [lowest R cur..<length sent] \<and>
     (event_set e \<longleftrightarrow> queue e \<noteq> [])"

text \<open>What a transfer does to the entry when the length and the copy are fine.\<close>

definition receive_entry :: "frame list \<Rightarrow> ('t pipe_entry, 't list) state_op" where
  "receive_entry fr e =
     (case await_message fr e of
        (Inl x, e1) \<Rightarrow> (Inl x, e1)
      | (Inr (cid, k), e1) \<Rightarrow>
          let e2 = mark_received cid k e1 in
          (Inr (msg_data (queue e2 ! k)), finish_message k e2))"

section \<open>Searching the queue\<close>

lemma find_message_Some:
  "k < length q \<Longrightarrow> is_new cid (q ! k) \<Longrightarrow> (\<forall>j<k. \<not> is_new cid (q ! j)) \<Longrightarrow> find_message cid q = Some k"
proof (induction q arbitrary: k)
  case (Cons m ms)
  show ?case
  proof (cases k)
    case 0
    with Cons.prems show ?thesis by simp
  next
    case (Suc j)
    with Cons.prems have "find_message cid ms = Some j"
      by (intro Cons.IH) auto
    moreover have "\<not> is_new cid m" using Cons.prems(3) Suc by force
    ultimately show ?thesis using Suc by simp
  qed
qed simp

lemma find_message_None: "\<forall>m\<in>set q. \<not> is_new cid m \<Longrightarrow> find_message cid q = None"
  by (induction q) auto

lemma receiving_core_kernel:
  assumes "valid_core grid c"
  shows "receiving_core (core_frames grid c) = Inr (Some c)"
proof -
  have ne: "grid \<noteq> []" using assms by (simp add: valid_core_def positive_grid_def)
  have "coords_of grid 1 c = [c]"
    using assms ne by (cases grid) (auto simp: coords_of_def valid_core_def Suc_leI)
  then show ?thesis
    by (simp add: receiving_core_def core_eq [OF assms] to_coord_def)
qed

section \<open>Cursors\<close>

lemma lowest_le: "finite R \<Longrightarrow> c \<in> R \<Longrightarrow> lowest R cur \<le> cur c"
  by (simp add: lowest_def)

lemma lowest_less_iff:
  "finite R \<Longrightarrow> R \<noteq> {} \<Longrightarrow> n < lowest R cur \<longleftrightarrow> (\<forall>c\<in>R. n < cur c)"
  by (simp add: lowest_def)

lemma had_all_iff:
  assumes "finite R" "R \<noteq> {}"
  shows "card (had R cur k) = card R \<longleftrightarrow> k < lowest R cur"
proof -
  have "had R cur k \<subseteq> R" by (auto simp: had_def)
  then have "card (had R cur k) = card R \<longleftrightarrow> had R cur k = R"
    using assms(1) by (metis card_subset_eq)
  also have "\<dots> \<longleftrightarrow> (\<forall>c\<in>R. k < cur c)" by (auto simp: had_def)
  finally show ?thesis using lowest_less_iff [OF assms] by simp
qed

lemma had_step:
  assumes "c \<in> R"
  shows "had R (cur(c := cur c + 1)) k = (if k = cur c then insert c (had R cur k) else had R cur k)"
  using assms by (auto simp: had_def)

lemma lowest_step:
  assumes R: "finite R" "c \<in> R"
  shows "lowest R (cur(c := cur c + 1)) =
    (if card (had R (cur(c := cur c + 1)) (cur c)) = card R then cur c + 1 else lowest R cur)"
proof -
  let ?cur = "cur(c := cur c + 1)"
  have ne: "R \<noteq> {}" using R(2) by auto
  have all: "card (had R ?cur (cur c)) = card R \<longleftrightarrow> (\<forall>d\<in>R. d \<noteq> c \<longrightarrow> cur c < cur d)"
    unfolding had_all_iff [OF R(1) ne] lowest_less_iff [OF R(1) ne] by auto
  show ?thesis
  proof (cases "card (had R ?cur (cur c)) = card R")
    case True
    then have "lowest R ?cur = cur c + 1"
      using all R by (intro antisym) (force simp: lowest_def intro: Min_le, force simp: lowest_def ne)
    with True show ?thesis by simp
  next
    case False
    with all obtain d where d: "d \<in> R" "d \<noteq> c" "cur d \<le> cur c" by (auto simp: not_less)
    have "lowest R ?cur = lowest R cur"
    proof (rule antisym)
      have "lowest R ?cur \<le> cur x" if "x \<in> R" for x
        using lowest_le [OF R(1), of x ?cur] lowest_le [OF R(1) d(1), of ?cur] d(2,3) that
        by (cases "x = c") auto
      then show "lowest R ?cur \<le> lowest R cur"
        using R(1) ne by (simp add: lowest_def [of R cur])
      show "lowest R cur \<le> lowest R ?cur"
        unfolding lowest_def using R ne
        by (intro Min.boundedI) (auto intro: Min_le le_SucI)
    qed
    with False show ?thesis by simp
  qed
qed

section \<open>Refinement\<close>

lemma pipe_log_new:
  assumes "finite R" "R \<noteq> {}"
  shows "pipe_log R [] (\<lambda>_. 0) new_pipe_entry"
  using assms by (simp add: pipe_log_def new_pipe_entry_def lowest_def)

lemma pipe_log_send:
  assumes "pipe_log R sent cur e"
  shows "pipe_log R (sent @ [xs]) cur (send_message xs (int (card R)) e)"
proof -
  let ?L = "length sent"
  from assms have R: "finite R" "R \<noteq> {}" and cur: "\<forall>c\<in>R. cur c \<le> ?L" by (auto simp: pipe_log_def)
  then have low: "lowest R cur \<le> ?L" using lowest_le [OF R(1)] by (meson ex_in_conv order_trans)
  have "had R cur ?L = {}" using cur by (force simp: had_def)
  moreover have "map (log_message R sent cur) [lowest R cur..<?L] =
      map (log_message R (sent @ [xs]) cur) [lowest R cur..<?L]"
    by (simp add: log_message_def nth_append)
  ultimately show ?thesis
    using assms low by (auto simp: pipe_log_def send_message_def log_message_def)
qed

lemma pipe_log_receive:
  assumes e: "pipe_log R sent cur e" and c: "c \<in> R" "cur c < length sent" and v: "valid_core grid c"
  shows "\<exists>e'. receive_entry (core_frames grid c) e = (Inr (sent ! cur c), e') \<and>
    pipe_log R sent (cur(c := cur c + 1)) e'"
proof -
  let ?L = "length sent" and ?m = "lowest R cur" and ?cur = "cur(c := cur c + 1)"
  let ?k = "cur c - ?m"
  from e have R: "finite R" "R \<noteq> {}" and cur: "\<forall>c\<in>R. cur c \<le> ?L"
    and q: "queue e = map (log_message R sent cur) [?m..<?L]" by (auto simp: pipe_log_def)
  have m: "?m \<le> cur c" by (rule lowest_le [OF R(1) c(1)])
  have k: "?k < length (queue e)" using c m q by simp
  have nth: "queue e ! j = log_message R sent cur (?m + j)" if "j < length (queue e)" for j
    using that q by simp
  have "find_message (Some c) (queue e) = Some ?k"
  proof (rule find_message_Some [OF k])
    show "is_new (Some c) (queue e ! ?k)"
      using nth [OF k] m by (simp add: is_new_def log_message_def had_def)
    show "\<forall>j<?k. \<not> is_new (Some c) (queue e ! j)"
      using k c(1) by (auto simp: nth is_new_def log_message_def had_def)
  qed
  then have aw: "await_message (core_frames grid c) e = (Inr (Some c, ?k), e)"
    using e k by (subst await_message.simps) (auto simp: pipe_log_def receiving_core_kernel [OF v])
  let ?e2 = "mark_received (Some c) ?k e"
  have q2: "queue ?e2 = (queue e)[?k := (queue e ! ?k)\<lparr>msg_receivers := insert c (msg_receivers (queue e ! ?k))\<rparr>]"
    by (simp add: mark_received_def)
  have cardins: "card (had R ?cur (cur c)) = card (had R cur (cur c)) + 1"
    using had_step [OF c(1), of cur "cur c"] R(1) by (simp add: had_def)
  have le: "card (had R ?cur (cur c)) \<le> card R"
    by (rule card_mono [OF R(1)]) (auto simp: had_def)
  have at2: "queue ?e2 ! ?k = (log_message R sent cur (cur c))\<lparr>msg_receivers := had R ?cur (cur c)\<rparr>"
    using k m nth [OF k] had_step [OF c(1), of cur "cur c"] by (simp add: q2 log_message_def)
  have rem: "msg_remaining (queue ?e2 ! ?k) - 1 = int (card R) - int (card (had R ?cur (cur c)))"
    unfolding at2 using cardins by (simp add: log_message_def)
  have other: "log_message R sent ?cur j = log_message R sent cur j" if "j \<noteq> cur c" for j
    using that had_step [OF c(1), of cur j] by (simp add: log_message_def)
  have "pipe_log R sent ?cur (finish_message ?k ?e2)"
  proof (cases "card (had R ?cur (cur c)) = card R")
    case True
    have low: "lowest R ?cur = cur c + 1" using lowest_step [OF R(1) c(1), of cur] True by simp
    have "?m = cur c"
    proof (rule antisym [OF m])
      have "\<forall>d\<in>R. cur c < ?cur d"
        using True had_all_iff [OF R, of ?cur] lowest_less_iff [OF R, of "cur c" ?cur] by simp
      then have "\<forall>d\<in>R. cur c \<le> cur d" by (metis fun_upd_other less_imp_le order_refl)
      then show "cur c \<le> ?m" using R by (simp add: lowest_def)
    qed
    then have k0: "?k = 0" by simp
    have "remove_nth ?k (queue ?e2) = tl (queue e)"
      using k k0 q2 by (cases "queue e") (auto simp: remove_nth_def)
    also have "\<dots> = map (log_message R sent ?cur) [cur c + 1..<?L]"
      using q \<open>?m = cur c\<close> c(2) other by (simp add: upt_conv_Cons)
    finally show ?thesis
      using e rem True low c(2) k
      by (auto simp: finish_message_def Let_def pipe_log_def mark_received_def)
  next
    case False
    have low: "lowest R ?cur = ?m" using lowest_step [OF R(1) c(1), of cur] False by simp
    have "(queue ?e2)[?k := (queue ?e2 ! ?k)\<lparr>msg_remaining := msg_remaining (queue ?e2 ! ?k) - 1\<rparr>]
        = map (log_message R sent ?cur) [?m..<?L]"
    proof (rule nth_equalityI)
      fix j assume "j < length ((queue ?e2)[?k := (queue ?e2 ! ?k)
          \<lparr>msg_remaining := msg_remaining (queue ?e2 ! ?k) - 1\<rparr>])"
      then have j: "j < length (queue e)" by (simp add: q2)
      show "(queue ?e2)[?k := (queue ?e2 ! ?k)\<lparr>msg_remaining := msg_remaining (queue ?e2 ! ?k) - 1\<rparr>] ! j
          = map (log_message R sent ?cur) [?m..<?L] ! j"
      proof (cases "j = ?k")
        case True
        then show ?thesis
          using j k m rem q unfolding at2 by (simp add: q2 log_message_def)
      next
        case ne: False
        then have "?m + j \<noteq> cur c" using m by auto
        then show ?thesis using j ne q other by (simp add: q2)
      qed
    qed (simp add: q2 q)
    moreover have "queue ?e2 \<noteq> []" using k by (auto simp: q2)
    ultimately show ?thesis
      using e rem False low c(2) k le
      by (auto simp: finish_message_def Let_def pipe_log_def mark_received_def)
  qed
  moreover have "receive_entry (core_frames grid c) e = (Inr (sent ! cur c), finish_message ?k ?e2)"
    using aw at2 by (simp add: receive_entry_def Let_def log_message_def)
  ultimately show ?thesis by blast
qed

text \<open>A receiver that has had every message gets none, and clears the event.\<close>

lemma pipe_log_caught_up:
  assumes e: "pipe_log R sent cur e" and c: "c \<in> R" "cur c = length sent" and v: "valid_core grid c"
  shows "receive_entry (core_frames grid c) e =
    (Inl (TimeoutError ''Timeout waiting for pipe data.''), e\<lparr>event_set := False\<rparr>)"
proof -
  have "\<forall>m\<in>set (queue e). \<not> is_new (Some c) m"
    using e c by (auto simp: pipe_log_def is_new_def log_message_def had_def)
  then have n: "find_message (Some c) (queue e) = None" by (rule find_message_None)
  have "await_message fr (e\<lparr>event_set := False\<rparr>)
      = (Inl (TimeoutError ''Timeout waiting for pipe data.''), e\<lparr>event_set := False\<rparr>)" for fr
    by (subst await_message.simps) simp
  then have "await_message (core_frames grid c) e
      = (Inl (TimeoutError ''Timeout waiting for pipe data.''), e\<lparr>event_set := False\<rparr>)"
    using n by (subst await_message.simps) (auto simp: receiving_core_kernel [OF v])
  then show ?thesis by (simp add: receive_entry_def)
qed

section \<open>Runs\<close>

datatype 't pipe_ev = Send "'t list" | Recv int

text \<open>
  A sequence of transfers on one pipe with \<open>n\<close> receivers in a grid; \<open>got c\<close> collects what
  core \<open>c\<close> received.
\<close>

fun pipe_run ::
    "int list \<Rightarrow> int \<Rightarrow> 't pipe_ev list \<Rightarrow> 't pipe_entry \<Rightarrow> (int \<Rightarrow> 't list list) \<Rightarrow>
     ('t pipe_entry \<times> (int \<Rightarrow> 't list list)) result" where
  "pipe_run grid n [] e got = Inr (e, got)"
| "pipe_run grid n (Send xs # evs) e got = pipe_run grid n evs (send_message xs n e) got"
| "pipe_run grid n (Recv c # evs) e got =
     (case receive_entry (core_frames grid c) e of
        (Inl x, _) \<Rightarrow> Inl x
      | (Inr xs, e') \<Rightarrow> pipe_run grid n evs e' (got(c := got c @ [xs])))"

fun sends :: "'t pipe_ev list \<Rightarrow> 't list list" where
  "sends [] = []"
| "sends (Send xs # evs) = xs # sends evs"
| "sends (Recv c # evs) = sends evs"

fun recvs :: "int \<Rightarrow> 't pipe_ev list \<Rightarrow> nat" where
  "recvs c [] = 0"
| "recvs c (Send xs # evs) = recvs c evs"
| "recvs c (Recv d # evs) = (if d = c then 1 else 0) + recvs c evs"

text \<open>No receiver asks for more messages than were sent before.\<close>

fun enabled :: "nat \<Rightarrow> (int \<Rightarrow> nat) \<Rightarrow> 't pipe_ev list \<Rightarrow> bool" where
  "enabled n cur [] = True"
| "enabled n cur (Send xs # evs) = enabled (n + 1) cur evs"
| "enabled n cur (Recv c # evs) = (cur c < n \<and> enabled n (cur(c := cur c + 1)) evs)"

lemma pipe_run_log:
  assumes "pipe_log R sent cur e" and "\<forall>c\<in>R. valid_core grid c"
    and "\<forall>c. Recv c \<in> set evs \<longrightarrow> c \<in> R" and "enabled (length sent) cur evs"
    and "\<forall>c\<in>R. got c = take (cur c) sent"
  shows "\<exists>e' got' cur'. pipe_run grid (int (card R)) evs e got = Inr (e', got') \<and>
    pipe_log R (sent @ sends evs) cur' e' \<and>
    (\<forall>c\<in>R. cur' c = cur c + recvs c evs \<and> got' c = take (cur' c) (sent @ sends evs))"
  using assms
proof (induction evs arbitrary: sent cur e got)
  case Nil
  then show ?case by (intro exI [of _ e] exI [of _ got] exI [of _ cur]) simp
next
  case (Cons ev evs)
  show ?case
  proof (cases ev)
    case (Send xs)
    have cur: "\<forall>c\<in>R. cur c \<le> length sent" using Cons.prems(1) by (simp add: pipe_log_def)
    have "\<forall>c\<in>R. got c = take (cur c) (sent @ [xs])"
      using Cons.prems(5) cur by simp
    with Cons.IH [OF pipe_log_send [OF Cons.prems(1), of xs]] Cons.prems show ?thesis
      by (simp add: Send)
  next
    case (Recv c)
    with Cons.prems have c: "c \<in> R" "cur c < length sent" by auto
    obtain e1 where e1: "receive_entry (core_frames grid c) e = (Inr (sent ! cur c), e1)"
      "pipe_log R sent (cur(c := cur c + 1)) e1"
      using pipe_log_receive [OF Cons.prems(1) c] Cons.prems(2) c(1) by blast
    have g: "\<forall>d\<in>R. (got(c := got c @ [sent ! cur c])) d = take ((cur(c := cur c + 1)) d) sent"
      using Cons.prems(5) c by (simp add: take_Suc_conv_app_nth)
    show ?thesis
      using Cons.IH [OF e1(2) Cons.prems(2) _ _ g] Cons.prems(3,4) e1(1)
      by (auto simp: Recv simp del: fun_upd_apply) (auto simp: fun_upd_apply)
  qed
qed

lemma pipe_log_empty_iff:
  assumes "pipe_log R sent cur e"
  shows "queue e = [] \<longleftrightarrow> (\<forall>c\<in>R. cur c = length sent)"
proof -
  from assms have R: "finite R" "R \<noteq> {}" and le: "\<forall>c\<in>R. cur c \<le> length sent"
    and q: "queue e = map (log_message R sent cur) [lowest R cur..<length sent]"
    by (simp_all add: pipe_log_def)
  have "queue e = [] \<longleftrightarrow> length sent \<le> lowest R cur" using q by auto
  also have "\<dots> \<longleftrightarrow> (\<forall>c\<in>R. length sent \<le> cur c)" using R by (simp add: lowest_def)
  finally show ?thesis using le by (auto simp: antisym)
qed

section \<open>Properties\<close>



text \<open>
  \<open>can_wait\<close> of a pipe receive does not keep its promise. It looks only at whether
  the queue is empty; when core \<open>c\<close> has had every message and core \<open>d\<close> lags behind, it says
  yes to \<open>c\<close>, the transfer of \<open>c\<close> then times out, and since it has cleared the event, the
  transfer of \<open>d\<close>, for which a message is there, times out as well.
\<close>

lemma pipe_can_wait_misleads:
  assumes "pipe_buffer w p = Some e" and "pipe_log R sent cur e"
    and "c \<in> R" and "cur c = length sent" and "d \<in> R" and "cur d < length sent"
    and "valid_core grid c" and "valid_core grid d"
  shows "pipe_can_wait p w = (Inr True, w) \<and>
    (\<exists>w1. pipe_to_block T (core_frames grid c) p b w
        = (Inl (TimeoutError ''Timeout waiting for pipe data.''), w1) \<and>
      pipe_can_wait p w1 = (Inr True, w1) \<and>
      (\<exists>w2. pipe_to_block T (core_frames grid d) p b' w1
        = (Inl (TimeoutError ''Timeout waiting for pipe data.''), w2)))"
proof -
  let ?x = "TimeoutError ''Timeout waiting for pipe data.''" and ?e = "e\<lparr>event_set := False\<rparr>"
  let ?w = "w\<lparr>pipe_buffer := (pipe_buffer w)(p \<mapsto> ?e)\<rparr>"
  have ne: "queue e \<noteq> []" using pipe_log_empty_iff [OF assms(2)] assms(5,6) by auto
  have "receive_entry (core_frames grid c) e = (Inl ?x, ?e)"
    by (rule pipe_log_caught_up [OF assms(2,3,4,7)])
  then have aw: "await_message (core_frames grid c) e = (Inl ?x, ?e)"
    by (auto simp: receive_entry_def Let_def split: prod.splits sum.splits)
  have 1: "pipe_to_block T (core_frames grid c) p b w = (Inl ?x, ?w)"
    using assms(1) aw by (simp add: pipe_to_block_def get_or_create_pipe_entry_def put_pipe_entry_def)
  have "await_message (core_frames grid d) ?e = (Inl ?x, ?e)"
    by (subst await_message.simps) simp
  then have 2: "\<exists>w2. pipe_to_block T (core_frames grid d) p b' ?w = (Inl ?x, w2)"
    by (simp add: pipe_to_block_def get_or_create_pipe_entry_def put_pipe_entry_def)
  show ?thesis
    using 1 2 assms(1) ne by (simp add: pipe_can_wait_def)
qed

definition demo_pipe :: pipe where
  "demo_pipe = \<lparr>src_core = C1 0, dst_core_range = DTuple [Slice (Some 1) (Some 3) None]\<rparr>"

definition demo_entry :: "nat pipe_entry" where
  "demo_entry = \<lparr>queue = [\<lparr>msg_data = [7], msg_remaining = 1, msg_id = 0, msg_receivers = {1}\<rparr>],
     event_set = True, next_msg_id = 1\<rparr>"

lemma demo_entry_log: "pipe_log {1, 2} [[7]] ((\<lambda>_. 0)(1 := 1)) demo_entry"
proof -
  have "had {1, 2} ((\<lambda>_. 0)(1 := 1)) 0 = {1}" by (auto simp: had_def)
  then show ?thesis
    by (simp add: pipe_log_def demo_entry_def log_message_def lowest_def)
qed

definition demo_world :: "nat world" where
  "demo_world = \<lparr>current_thread_type = Some DM, apis = [], blocks = [], stats = init_stats, dfbs = [],
     pipe_buffer = [demo_pipe \<mapsto> demo_entry], tensors = []\<rparr>"

lemma pipe_can_wait_misleads_witness:
  "pipe_can_wait demo_pipe demo_world = (Inr True, demo_world) \<and>
   (\<exists>w1. pipe_to_block nat_torch (core_frames [3] 1) demo_pipe 0 demo_world
      = (Inl (TimeoutError ''Timeout waiting for pipe data.''), w1))"
proof -
  have "pipe_buffer demo_world demo_pipe = Some demo_entry" by (simp add: demo_world_def)
  from pipe_can_wait_misleads [OF this demo_entry_log, of 1 2 "[3]" nat_torch 0] show ?thesis
    by (auto simp: valid_core_def positive_grid_def)
qed

text \<open>
  One receive at the level of blocks: when a message of the right length is waiting
  for core \<open>c\<close>, the transfer succeeds, the destination block then shows exactly the tiles that
  were sent, and the pipe moves this receiver's cursor and nobody else's.
\<close>

lemma pipe_receive_fills_block:
  assumes "pipe_buffer w p = Some e" and "pipe_log R sent cur e"
    and "c \<in> R" and "cur c < length sent" and "valid_core grid c"
    and "ring_block w b a d s"
    and "bspan (blocks w ! b) = \<lparr>start = st, span_length = length (sent ! cur c)\<rparr>"
    and "length (sent ! cur c) \<le> cap s"
  shows "\<exists>w' e' s'. pipe_to_block T (core_frames grid c) p b w = (Inr (), w') \<and>
    pipe_buffer w' p = Some e' \<and> pipe_log R sent (cur(c := cur c + 1)) e' \<and>
    lookup_dfb w' a d = Some s' \<and>
    read_span (bspan (blocks w ! b)) s' = Inr (sent ! cur c)"
proof -
  let ?xs = "sent ! cur c"
  obtain e' where r: "receive_entry (core_frames grid c) e = (Inr ?xs, e')"
    and l: "pipe_log R sent (cur(c := cur c + 1)) e'"
    using pipe_log_receive [OF assms(2,3,4,5)] by blast
  from r obtain cid k e1 where aw: "await_message (core_frames grid c) e = (Inr (cid, k), e1)"
    and xs: "msg_data (queue (mark_received cid k e1) ! k) = ?xs"
    and e': "e' = finish_message k (mark_received cid k e1)"
    by (auto simp: receive_entry_def Let_def split: prod.splits sum.splits)
  let ?e2 = "mark_received cid k e1"
  let ?w1 = "w\<lparr>pipe_buffer := (pipe_buffer w)(p \<mapsto> ?e2)\<rparr>" and ?s = "write_span st 0 ?xs s"
  have rb: "ring_block ?w1 b a d s"
    using assms(6) by (simp add: ring_block_def lookup_dfb_def split: if_splits)
  have b: "b < length (blocks w)" and len: "length (buf s) = cap s"
    using assms(6) by (simp_all add: ring_block_def)
  have cp: "copy_as_dest b ?xs ?w1 = (Inr (), update_dfb a d ?s ?w1)"
    using copy_as_dest_ring [OF rb, of ?xs] assms(7) by simp
  let ?w = "(update_dfb a d ?s ?w1)\<lparr>stats := record_pipe_read p (map (shape_of T) ?xs) (stats w),
      pipe_buffer := (pipe_buffer ?w1)(p \<mapsto> e')\<rparr>"
  have "pipe_to_block T (core_frames grid c) p b w = (Inr (), ?w)"
    using assms(1,7) aw xs cp b
    by (simp add: pipe_to_block_def get_or_create_pipe_entry_def put_pipe_entry_def note_stats_def
        Let_def e')
  moreover have "lookup_dfb ?w a d = Some ?s"
    using rb by (simp add: ring_block_def)
  moreover have "read_span (bspan (blocks w ! b)) ?s = Inr ?xs"
    using read_write_span [OF len assms(8)] assms(7) by simp
  ultimately show ?thesis using l by (intro exI [of _ ?w] exI [of _ e'] exI [of _ ?s]) simp
qed

lemma pipe_receive_fills_block_witness:
  "\<exists>w'. pipe_to_block nat_torch (core_frames [3] 2) demo_pipe 0
      (demo_world\<lparr>apis := apis (demo_heap NAW {TX_WAIT} (replicate 4 None)),
         blocks := map (\<lambda>bl. bl\<lparr>bspan := \<lparr>start = 0, span_length = 1\<rparr>\<rparr>)
           (blocks (demo_heap NAW {TX_WAIT} (replicate 4 None)))\<rparr>) = (Inr (), w')"
proof -
  let ?w = "demo_world\<lparr>apis := apis (demo_heap NAW {TX_WAIT} (replicate 4 None)),
         blocks := map (\<lambda>bl. bl\<lparr>bspan := \<lparr>start = 0, span_length = 1\<rparr>\<rparr>)
           (blocks (demo_heap NAW {TX_WAIT} (replicate 4 None)))\<rparr>"
  have p: "pipe_buffer ?w demo_pipe = Some demo_entry" by (simp add: demo_world_def)
  have rb: "ring_block ?w 0 0 0 (demo_ring\<lparr>buf := replicate 4 None\<rparr>)"
    by (simp add: ring_block_def demo_heap_def lookup_dfb_def demo_ring_def)
  have v: "valid_core [3] 2" by (simp add: valid_core_def positive_grid_def)
  from pipe_receive_fills_block [OF p demo_entry_log _ _ v rb, of 0 nat_torch] show ?thesis
    by (auto simp: demo_heap_def demo_ring_def)
qed

end
