(* ===== verification/Copy.thy ===== *)
theory Copy
  imports Copyhandlers
begin

text \<open>
  \<open>class CopyTransaction\<close> and \<open>copy\<close> of \<open>python/sim/copy.py\<close>. \<open>wait\<close> is
  cut in two at its call of \<open>block_if_needed\<close>: \<open>tx_begin\<close> says whether the call returns
  at once, \<open>tx_finish\<close> is what follows once the thread may go on.

  The lemmas: what the two tensor handlers do to the tiles, and the round trip of a tensor
  through a reserved block by two transactions.
\<close>

record tx =
  tx_src :: endpoint
  tx_dst :: endpoint
  tx_completed :: bool
  tx_handler :: handler

record 't cworld = "'t world" +
  txs :: "tx list"

definition lookup_handler :: "endpoint_type \<Rightarrow> endpoint_type \<Rightarrow> handler result" where
  "lookup_handler s d =
     (case map_of handler_registry (s, d) of
        None \<Rightarrow> Inl (ValueError ''No copy handler registered'')
      | Some h \<Rightarrow> Inr h)"

text \<open>\<open>match e: case Block(): e.mark_...()\<close>\<close>

definition mark_endpoint :: "endpoint \<Rightarrow> bop \<Rightarrow> (('t, 'z) heap_scheme, unit) state_op" where
  "mark_endpoint e op = (case e of E_block b \<Rightarrow> mark_block b op | _ \<Rightarrow> sreturn ())"

definition alloc_tx :: "tx \<Rightarrow> (('t, 'z) cworld_scheme, nat) state_op" where
  "alloc_tx t w = (Inr (length (txs w)), w\<lparr>txs := txs w @ [t]\<rparr>)"

definition the_tx :: "nat \<Rightarrow> (('t, 'z) cworld_scheme, tx) state_op" where
  "the_tx t = slift (\<lambda>w. py_nth (txs w) t)"

definition copy :: "'t torch \<Rightarrow> endpoint \<Rightarrow> endpoint \<Rightarrow> (('t, 'z) cworld_scheme, nat) state_op" where
  "copy T src dst =
     sbind (slift (\<lambda>_. lookup_handler (type_of src) (type_of dst))) (\<lambda>h.
     sbind (mark_endpoint src Op_copy_src) (\<lambda>_.
     sbind (mark_endpoint dst Op_copy_dst) (\<lambda>_.
     sbind (handler_validate T h src dst) (\<lambda>_.
       alloc_tx \<lparr>tx_src = src, tx_dst = dst, tx_completed = False, tx_handler = h\<rparr>))))"

definition tx_begin :: "nat \<Rightarrow> (('t, 'z) cworld_scheme, bool) state_op" where
  "tx_begin t = sbind (the_tx t) (\<lambda>x. sreturn (tx_completed x))"

definition tx_finish :: "'t torch \<Rightarrow> frame list \<Rightarrow> nat \<Rightarrow> (('t, 'z) cworld_scheme, unit) state_op" where
  "tx_finish T fr t =
     sbind (the_tx t) (\<lambda>x.
     sbind (handler_transfer T fr (tx_handler x) (tx_src x) (tx_dst x)) (\<lambda>_.
     sbind (smodify (\<lambda>w. w\<lparr>txs := (txs w)[t := (txs w ! t)\<lparr>tx_completed := True\<rparr>]\<rparr>)) (\<lambda>_.
     sbind (mark_endpoint (tx_src x) Op_tx_wait) (\<lambda>_.
       mark_endpoint (tx_dst x) Op_tx_wait))))"

definition tx_can_wait :: "nat \<Rightarrow> (('t, 'z) cworld_scheme, bool) state_op" where
  "tx_can_wait t =
     sbind (the_tx t) (\<lambda>x. handler_can_wait (tx_handler x) (tx_src x) (tx_dst x))"

section \<open>From a tensor to a block\<close>

text \<open>Tile \<open>i\<close> of a tensor that is \<open>wd\<close> tiles wide, as an element block.\<close>

definition read_tile :: "'t torch \<Rightarrow> 't \<Rightarrow> nat \<Rightarrow> nat \<Rightarrow> 't result" where
  "read_tile T v wd i = t_slice T v (tile_range (i div wd)) (tile_range (i mod wd))"

definition write_tile :: "'t torch \<Rightarrow> 't \<Rightarrow> nat \<Rightarrow> nat \<Rightarrow> 't \<Rightarrow> 't result" where
  "write_tile T v wd i t = t_assign T v (tile_range (i div wd)) (tile_range (i mod wd)) t"

text \<open>A tensor of \<open>m\<close> by \<open>n\<close> elements, tile-aligned, and its shape in tiles.\<close>

definition tiled :: "'t torch \<Rightarrow> 't \<Rightarrow> nat \<Rightarrow> nat \<Rightarrow> bool" where
  "tiled T v m n \<longleftrightarrow> shape_of T v = [m, n] \<and> aligned [m, n]"

lemma tiled_facts:
  assumes "tiled T v m n"
  shows "is_tile_indexable T v" "length (shape_of T v) = 2"
    "tensor_shape_in_tiles_with_skip (shape_of T v) TILE_SHAPE = Inr [tiles_of m 32, tiles_of n 32]"
  using assms
  by (simp_all add: tiled_def is_tile_indexable_def tensor_shape_in_tiles_with_skip_def
      TILE_SHAPE_def tiles_of_def)

lemma tensor_to_block_eq:
  assumes x: "x < length (tensors w)" and t: "tiled T (tval (tensors w ! x)) m n"
    and tiles: "rmap (read_tile T (tval (tensors w ! x)) (tiles_of n 32)) [0..<tiles_of m 32 * tiles_of n 32] = Inr ts"
    and rb: "ring_block w b a d s" and len: "span_length (bspan (blocks w ! b)) = length ts"
  shows "\<exists>st. tensor_to_block T x b w =
    (Inr (), (update_dfb a d (write_span (start (bspan (blocks w ! b))) 0 ts s) w)\<lparr>stats := st\<rparr>)"
proof -
  note F = tiled_facts [OF t]
  let ?f = "record_tensor_read (tname (tensors w ! x)) (toid (tensors w ! x))
      (shape_of T (tval (tensors w ! x)))"
  let ?w = "w\<lparr>stats := ?f (stats w)\<rparr>"
  have "lookup_dfb ?w a d = lookup_dfb w a d" by (simp add: lookup_dfb_def)
  then have rb': "ring_block ?w b a d s" using rb by (simp add: ring_block_def)
  have "tensor_to_block T x b w = copy_as_dest b ts ?w"
    using x F tiles
    by (simp add: tensor_to_block_def the_tensor_def note_stats_def tensor_getitem_tile
        read_tile_def [abs_def])
  also have "\<dots> = (Inr (), update_dfb a d (write_span (start (bspan (blocks w ! b))) 0 ts s) ?w)"
    using copy_as_dest_ring [OF rb', of ts] len by simp
  finally show ?thesis
    by (intro exI [of _ "?f (stats w)"]) (simp add: update_dfb_def)
qed

section \<open>From a block to a tensor\<close>

lemma tile_index:
  assumes "i < (h::nat) * wd" and "j < h * wd" and "i \<noteq> j"
  shows "i div wd < h" "i mod wd < wd" "i div wd \<noteq> j div wd \<or> i mod wd \<noteq> j mod wd"
proof -
  have "0 < wd" using assms(1) by (cases wd) auto
  then show "i div wd < h" "i mod wd < wd"
    using assms(1) by (simp_all add: less_mult_imp_div_less)
  show "i div wd \<noteq> j div wd \<or> i mod wd \<noteq> j mod wd"
    using assms(3) by (metis div_mult_mod_eq)
qed

lemma read_write_tile_other:
  assumes "assign_laws T" and "tiled T v m n" and "write_tile T v (tiles_of n 32) i t = Inr v'"
    and "i < tiles_of m 32 * tiles_of n 32" and "j < tiles_of m 32 * tiles_of n 32" and "i \<noteq> j"
  shows "read_tile T v' (tiles_of n 32) j = read_tile T v (tiles_of n 32) j"
proof -
  let ?wd = "tiles_of n 32"
  note I = tile_index [OF assms(4-6)] and J = tile_index [OF assms(5,4) assms(6) [symmetric]]
  have al: "m = 1 \<or> m mod 32 = 0" "n = 1 \<or> n mod 32 = 0" and sh: "shape_of T v = [m, n]"
    using assms(2) by (simp_all add: tiled_def aligned_pair)
  have "set (slice_indices m (tile_range (i div ?wd))) \<inter> set (slice_indices m (tile_range (j div ?wd))) = {} \<or>
      set (slice_indices n (tile_range (i mod ?wd))) \<inter> set (slice_indices n (tile_range (j mod ?wd))) = {}"
    using I(3) tile_ranges_disjoint [OF al(1) I(1) J(1)] tile_ranges_disjoint [OF al(2) I(2) J(2)]
    by blast
  then show ?thesis
    unfolding read_tile_def
    by (rule assign_other [OF assms(1) sh assms(3) [unfolded write_tile_def]])
qed

text \<open>The shape of the tile at an index, in elements.\<close>

definition tile_dims :: "nat \<Rightarrow> nat \<Rightarrow> nat \<Rightarrow> nat list" where
  "tile_dims m n i =
     slice_shape m n (tile_range (i div tiles_of n 32)) (tile_range (i mod tiles_of n 32))"

lemma write_tile_shape:
  assumes "assign_laws T" and "tiled T v m n" and "write_tile T v wd i t = Inr v'"
  shows "tiled T v' m n"
  using assms assign_shape [OF assms(1)] by (simp add: tiled_def write_tile_def)

lemma read_tile_shape:
  assumes "assign_laws T" and "tiled T v m n" and "read_tile T v (tiles_of n 32) i = Inr t"
  shows "shape_of T t = tile_dims m n i"
  using assms(2,3) unfolding tiled_def tile_dims_def read_tile_def
  by (intro slice_shape [OF assms(1)]) auto

lemma read_write_tile_same:
  assumes "assign_laws T" and "tiled T v m n" and "write_tile T v (tiles_of n 32) i t = Inr v'"
    and "shape_of T t = tile_dims m n i"
  shows "read_tile T v' (tiles_of n 32) i = Inr t"
  using assms(2-4) unfolding tiled_def write_tile_def read_tile_def tile_dims_def
  by (intro assign_same [OF assms(1)]) auto

text \<open>Assigning the tiles \<open>is\<close> one after the other, as a function on the tensor.\<close>

definition put_tiles :: "'t torch \<Rightarrow> nat \<Rightarrow> 't list \<Rightarrow> nat list \<Rightarrow> 't \<Rightarrow> 't result" where
  "put_tiles T wd ts is v = rfold (\<lambda>i v. write_tile T v wd i (ts ! i)) is v"

lemma put_tiles_reads:
  assumes "assign_laws T" and "tiled T v m n" and "put_tiles T (tiles_of n 32) ts is v = Inr v'"
    and "\<forall>i\<in>set is. i < tiles_of m 32 * tiles_of n 32" and "distinct is"
    and "\<forall>i\<in>set is. shape_of T (ts ! i) = tile_dims m n i"
  shows "tiled T v' m n \<and> (\<forall>j < tiles_of m 32 * tiles_of n 32.
    read_tile T v' (tiles_of n 32) j =
      (if j \<in> set is then Inr (ts ! j) else read_tile T v (tiles_of n 32) j))"
  using assms(2-)
proof (induction "is" arbitrary: v)
  case Nil
  then show ?case by (simp add: put_tiles_def)
next
  case (Cons i "is")
  let ?wd = "tiles_of n 32"
  from Cons.prems obtain v1 where v1: "write_tile T v ?wd i (ts ! i) = Inr v1"
    "put_tiles T ?wd ts is v1 = Inr v'"
    by (auto simp: put_tiles_def rbind_eq_Inr)
  note IH = Cons.IH [OF write_tile_shape [OF assms(1) Cons.prems(1) v1(1)] v1(2)]
  show ?case
    using IH Cons.prems(3-5) read_write_tile_same [OF assms(1) Cons.prems(1) v1(1)] read_write_tile_other [OF assms(1) Cons.prems(1) v1(1)]
    by auto
qed

lemma get_item_tensors [simp]: "get_item (w\<lparr>tensors := y\<rparr>) = get_item w"
  by (intro ext) (simp add: get_item_def buf_of_def lookup_dfb_def split: bufref.splits)

lemma store_tiles_eq:
  assumes "x < length (tensors w)" and "\<forall>i\<in>set is. get_item w bl i = Inr (ts ! i)"
    and "tiled T (tval (tensors w ! x)) m n" and "assign_laws T"
    and "put_tiles T (tiles_of n 32) ts is (tval (tensors w ! x)) = Inr v"
  shows "sfor (store_tile T x bl (tiles_of n 32)) is w =
    (Inr (), w\<lparr>tensors := (tensors w)[x := (tensors w ! x)\<lparr>tval := v\<rparr>]\<rparr>)"
  using assms
proof (induction "is" arbitrary: w)
  case Nil
  then have "v = tval (tensors w ! x)" by (simp add: put_tiles_def)
  then have "(tensors w ! x)\<lparr>tval := v\<rparr> = tensors w ! x" by simp
  then show ?case by simp
next
  case (Cons i "is")
  let ?wd = "tiles_of n 32" and ?v = "tval (tensors w ! x)"
  from Cons.prems(5) obtain v1 where v1: "write_tile T ?v ?wd i (ts ! i) = Inr v1"
    "put_tiles T ?wd ts is v1 = Inr v"
    by (auto simp: put_tiles_def rbind_eq_Inr)
  note S = write_tile_shape [OF Cons.prems(4,3) v1(1)]
  let ?w = "w\<lparr>tensors := (tensors w)[x := (tensors w ! x)\<lparr>tval := v1\<rparr>]\<rparr>"
  have "store_tile T x bl ?wd i w = (Inr (), ?w)"
    using Cons.prems(1,2) v1(1) tiled_facts(1) [OF Cons.prems(3)]
    by (simp add: store_tile_def the_tensor_def set_tensor_def tensor_setitem_tile write_tile_def)
  moreover have "sfor (store_tile T x bl ?wd) is ?w =
      (Inr (), ?w\<lparr>tensors := (tensors ?w)[x := (tensors ?w ! x)\<lparr>tval := v\<rparr>]\<rparr>)"
    by (rule Cons.IH) (use Cons.prems(1,2,4) S v1(2) in simp_all)
  ultimately show ?case using Cons.prems(1) by simp
qed

section \<open>A whole transaction\<close>

text \<open>\<open>copy(src, dst).wait()\<close> when nothing has to be waited for.\<close>

definition transact :: "'t torch \<Rightarrow> frame list \<Rightarrow> endpoint \<Rightarrow> endpoint \<Rightarrow> (('t, 'z) cworld_scheme, unit) state_op" where
  "transact T fr src dst = sbind (copy T src dst) (tx_finish T fr)"

lemma cworld_frame [simp]:
  "lookup_dfb (w\<lparr>txs := x\<rparr>) a d = lookup_dfb w a d" "txs (update_dfb a d s w) = txs w"
  by (simp_all add: lookup_dfb_def update_dfb_def)

lemma ring_block_blocks:
  assumes "ring_block w b a d s" and "lookup_dfb w' a d = Some s'" and "blocks w' = (blocks w)[b := bl]"
    and "bl = (blocks w ! b)\<lparr>access_state := x, expected_ops := y\<rparr>"
    and "cap s' = cap s" and "length (buf s') = cap s"
  shows "ring_block w' b a d s'"
  using assms by (simp add: ring_block_def)

text \<open>A reserved block of a data movement thread, in a given state.\<close>

definition dm_block :: "('t, 'z) heap_scheme \<Rightarrow> nat \<Rightarrow> access_state \<Rightarrow> expected_op set \<Rightarrow> bool" where
  "dm_block w b acc ops \<longleftrightarrow> b < length (blocks w) \<and> acquisition (blocks w ! b) = RESERVE \<and>
     thread_type (blocks w ! b) = DM \<and> access_state (blocks w ! b) = acc \<and>
     expected_ops (blocks w ! b) = ops"

lemma mark_dm:
  assumes "dm_block w b acc ops" and "op_expected op \<in> ops" and "op \<noteq> Op_push" "op \<noteq> Op_pop"
    and "map_of reserve_dm_transitions (op_key_of op, acc) = Some (acc', ops')"
  shows "mark_block b op w = (Inr (), w\<lparr>blocks := (blocks w)
    [b := (blocks w ! b)\<lparr>access_state := acc', expected_ops := ops'\<rparr>]\<rparr>)"
proof -
  have "mark op (blocks w ! b) = Inr ((blocks w ! b)\<lparr>access_state := acc', expected_ops := ops'\<rparr>)"
    using assms by (simp add: mark_transition_eq_Inr dm_block_def del: mark.simps)
  then show ?thesis using assms(1) mark_block_eq [of b w op] by (simp add: dm_block_def del: mark.simps)
qed

lemma validate_ok:
  assumes "x < length (tensors w)" and "b < length (blocks w)" and "tiled T (tval (tensors w ! x)) m n"
    and "bshape (blocks w ! b) = [tiles_of m 32, tiles_of n 32]"
  shows "validate_tensor_block T x b w = (Inr (), w)"
  using assms tiled_facts [OF assms(3)] by (simp add: validate_tensor_block_def the_tensor_def)

lemma copy_in:
  assumes x: "x < length (tensors w)" and t: "tiled T (tval (tensors w ! x)) m n"
    and rd: "rmap (read_tile T (tval (tensors w ! x)) (tiles_of n 32)) [0..<tiles_of m 32 * tiles_of n 32] = Inr ts"
    and rb: "ring_block w b a d s" and dm: "dm_block w b MW {COPY_DST}"
    and sp: "bspan (blocks w ! b) = \<lparr>start = st, span_length = length ts\<rparr>"
    and shp: "bshape (blocks w ! b) = [tiles_of m 32, tiles_of n 32]"
  shows "\<exists>w1. transact T fr (E_tensor x) (E_block b) w = (Inr (), w1) \<and> tensors w1 = tensors w \<and>
    ring_block w1 b a d (write_span st 0 ts s) \<and>
    blocks w1 ! b = (blocks w ! b)\<lparr>access_state := MR, expected_ops := {PUSH, COPY_SRC}\<rparr>"
proof -
  let ?bl = "(blocks w ! b)\<lparr>access_state := NAW, expected_ops := {TX_WAIT}\<rparr>"
  let ?w1 = "w\<lparr>blocks := (blocks w)[b := ?bl]\<rparr>"
  let ?t = "\<lparr>tx_src = E_tensor x, tx_dst = E_block b, tx_completed = False, tx_handler = TensorToBlock\<rparr>"
  let ?w2 = "?w1\<lparr>txs := txs w @ [?t]\<rparr>" and ?k = "length (txs w)"
  let ?s = "write_span st 0 ts s"
  have b: "b < length (blocks w)" and len: "length (buf s) = cap s"
    using rb by (simp_all add: ring_block_def)
  have m1: "mark_block b Op_copy_dst w = (Inr (), ?w1)"
    by (rule mark_dm [OF dm]) (simp_all add: reserve_dm_transitions_def)
  have v: "validate_tensor_block T x b ?w1 = (Inr (), ?w1)"
    using validate_ok [of x ?w1 b T m n] x b t shp by simp
  have c: "copy T (E_tensor x) (E_block b) w = (Inr ?k, ?w2)"
    using m1 v by (simp add: copy_def lookup_handler_def handler_registry_def mark_endpoint_def
        handler_validate_def alloc_tx_def)
  have rb2: "ring_block ?w2 b a d s"
    using rb by (simp add: ring_block_def)
  obtain sta where tr: "tensor_to_block T x b ?w2 = (Inr (), (update_dfb a d ?s ?w2)\<lparr>stats := sta\<rparr>)"
    using tensor_to_block_eq [OF _ _ _ rb2, of x T m n ts] x t rd sp b by auto
  let ?w3 = "(update_dfb a d ?s ?w2)\<lparr>stats := sta,
      txs := (txs ?w2)[?k := ?t\<lparr>tx_completed := True\<rparr>]\<rparr>"
  have "dm_block ?w3 b NAW {TX_WAIT}" using dm by (simp add: dm_block_def)
  from mark_dm [OF this, of Op_tx_wait MR "{PUSH, COPY_SRC}"]
  have m2: "mark_block b Op_tx_wait ?w3 = (Inr (), ?w3\<lparr>blocks := (blocks ?w3)
      [b := (blocks ?w3 ! b)\<lparr>access_state := MR, expected_ops := {PUSH, COPY_SRC}\<rparr>]\<rparr>)"
    by (simp add: reserve_dm_transitions_def)
  let ?w4 = "?w3\<lparr>blocks := (blocks ?w3)
      [b := (blocks ?w3 ! b)\<lparr>access_state := MR, expected_ops := {PUSH, COPY_SRC}\<rparr>]\<rparr>"
  have "tx_finish T fr ?k ?w2 = (Inr (), ?w4)"
    using tr m2 by (simp add: tx_finish_def the_tx_def handler_transfer_def mark_endpoint_def)
  then have "transact T fr (E_tensor x) (E_block b) w = (Inr (), ?w4)"
    using c by (simp add: transact_def)
  moreover have "ring_block ?w4 b a d ?s"
    using rb len by (simp add: ring_block_def)
  ultimately show ?thesis
    using b by (intro exI [of _ ?w4]) simp
qed

lemma copy_out:
  assumes y: "y < length (tensors w)" and t: "tiled T (tval (tensors w ! y)) m n" and laws: "assign_laws T"
    and rb: "ring_block w b a d s" and dm: "dm_block w b MR ops" and ops: "COPY_SRC \<in> ops"
    and sp: "bspan (blocks w ! b) = \<lparr>start = st, span_length = length ts\<rparr>"
    and rd: "read_span \<lparr>start = st, span_length = length ts\<rparr> s = Inr ts"
    and shp: "bshape (blocks w ! b) = [tiles_of m 32, tiles_of n 32]"
    and len: "length ts = tiles_of m 32 * tiles_of n 32"
    and wr: "put_tiles T (tiles_of n 32) ts [0..<length ts] (tval (tensors w ! y)) = Inr v"
  shows "\<exists>w1. transact T fr (E_block b) (E_tensor y) w = (Inr (), w1) \<and>
    tensors w1 = (tensors w)[y := (tensors w ! y)\<lparr>tval := v\<rparr>] \<and>
    access_state (blocks w1 ! b) = RW"
proof -
  let ?bl = "(blocks w ! b)\<lparr>access_state := NAR, expected_ops := {TX_WAIT}\<rparr>"
  let ?w1 = "w\<lparr>blocks := (blocks w)[b := ?bl]\<rparr>"
  let ?t = "\<lparr>tx_src = E_block b, tx_dst = E_tensor y, tx_completed = False, tx_handler = BlockToTensor\<rparr>"
  let ?w2 = "?w1\<lparr>txs := txs w @ [?t]\<rparr>" and ?k = "length (txs w)" and ?wd = "tiles_of n 32"
  let ?f = "record_tensor_write (tname (tensors w ! y)) (toid (tensors w ! y)) (shape_of T (tval (tensors w ! y)))"
  let ?w3 = "?w2\<lparr>stats := ?f (stats w)\<rparr>"
  let ?w4 = "?w3\<lparr>tensors := (tensors w)[y := (tensors w ! y)\<lparr>tval := v\<rparr>]\<rparr>"
  have b: "b < length (blocks w)" using rb by (simp add: ring_block_def)
  have m1: "mark_block b Op_copy_src w = (Inr (), ?w1)"
    by (rule mark_dm [OF dm]) (simp_all add: reserve_dm_transitions_def ops)
  have v: "validate_tensor_block T y b ?w1 = (Inr (), ?w1)"
    using validate_ok [of y ?w1 b T m n] y b t shp by simp
  have c: "copy T (E_block b) (E_tensor y) w = (Inr ?k, ?w2)"
    using m1 v by (simp add: copy_def lookup_handler_def handler_registry_def mark_endpoint_def
        handler_validate_def alloc_tx_def)
  have rb3: "ring_block ?w3 b a d s" using rb by (simp add: ring_block_def)
  have "check_can_read ?bl = Inr ()" by (simp add: check_can_read_def)
  then have "to_list ?w3 ?bl = Inr ts"
    using to_list_ring [OF rb3] b sp rd by simp
  then have gi: "\<forall>i\<in>set [0..<length ts]. get_item ?w3 ?bl i = Inr (ts ! i)"
    using sp by (auto simp: to_list_def rmap_Inr_iff)
  have loop: "sfor (store_tile T y ?bl ?wd) [0..<length ts] ?w3 = (Inr (), ?w4)"
    using store_tiles_eq [of y ?w3 "[0..<length ts]" ?bl ts T m n v] y gi t laws wr by simp
  have tr: "block_to_tensor T b y ?w2 = (Inr (), ?w4)"
    using b y tiled_facts [OF t] loop len
    by (simp add: block_to_tensor_def the_tensor_def note_stats_def)
  let ?w5 = "?w4\<lparr>txs := (txs ?w4)[?k := ?t\<lparr>tx_completed := True\<rparr>]\<rparr>"
  have "dm_block ?w5 b NAR {TX_WAIT}" using dm by (simp add: dm_block_def)
  from mark_dm [OF this, of Op_tx_wait RW "{COPY_DST, COPY_SRC, PUSH}"]
  have m2: "mark_block b Op_tx_wait ?w5 = (Inr (), ?w5\<lparr>blocks := (blocks ?w5)
      [b := (blocks ?w5 ! b)\<lparr>access_state := RW, expected_ops := {COPY_DST, COPY_SRC, PUSH}\<rparr>]\<rparr>)"
    by (simp add: reserve_dm_transitions_def)
  let ?w6 = "?w5\<lparr>blocks := (blocks ?w5)
      [b := (blocks ?w5 ! b)\<lparr>access_state := RW, expected_ops := {COPY_DST, COPY_SRC, PUSH}\<rparr>]\<rparr>"
  have "tx_finish T fr ?k ?w2 = (Inr (), ?w6)"
    using tr m2 by (simp add: tx_finish_def the_tx_def handler_transfer_def mark_endpoint_def)
  then have "transact T fr (E_block b) (E_tensor y) w = (Inr (), ?w6)"
    using c by (simp add: transact_def)
  then show ?thesis using b by (intro exI [of _ ?w6]) simp
qed


text \<open>
  For the witness: a library of tensors of one element, of shape \<open>(1, 1)\<close>, whose slices select
  the element or are empty, and are then refused.
\<close>

definition scalar_hit :: "int \<times> int \<Rightarrow> int \<times> int \<Rightarrow> bool" where
  "scalar_hit r c \<longleftrightarrow> 0 \<in> set (slice_indices 1 r) \<and> 0 \<in> set (slice_indices 1 c)"

definition scalar_torch :: "nat torch" where
  "scalar_torch = nat_torch\<lparr>shape_of := \<lambda>_. [1, 1],
     t_slice := \<lambda>x r c. if scalar_hit r c then Inr x else Inl (IndexError ''empty''),
     t_assign := \<lambda>x r c v. if scalar_hit r c then Inr v else Inl (IndexError ''empty'')\<rparr>"

lemma scalar_slice: "0 \<in> set (slice_indices 1 r) \<Longrightarrow> length (slice_indices 1 r) = 1"
  by (auto simp: slice_indices_def clip_index_def split: if_splits)

lemma scalar_laws: "assign_laws scalar_torch"
  by (auto simp: assign_laws_def scalar_torch_def scalar_hit_def slice_shape_def
      scalar_slice [unfolded One_nat_def])

definition copy_world :: "nat cworld" where
  "copy_world = \<lparr>current_thread_type = Some DM, apis = apis (demo_heap MW {COPY_DST} (replicate 4 None)),
     blocks = map (\<lambda>bl. bl\<lparr>thread_type := DM, bspan := \<lparr>start = 0, span_length = 1\<rparr>, bshape := [1, 1]\<rparr>)
       (blocks (demo_heap MW {COPY_DST} (replicate 4 None))),
     stats = init_stats, dfbs = [], pipe_buffer = Map.empty,
     tensors = [\<lparr>tval = 7, tname = None, toid = 0\<rparr>, \<lparr>tval = 0, tname = None, toid = 1\<rparr>], txs = []\<rparr>"


end
