(* ===== verification/Scheduler.thy ===== *)
theory Scheduler
  imports Blockstate "HOL-Library.Multiset"
begin

text \<open>
  The cooperative scheduler: \<open>class GreenletScheduler\<close> and \<open>block_if_needed\<close> of
  \<open>python/sim/greenlet_scheduler.py\<close>.

  A thread function is user code, so it is a value of the resumption type \<open>co\<close>: it returns,
  raises, or reaches a call of \<open>block_if_needed(obj, op)\<close> and says how it goes on from the
  state in which that call returns. A greenlet is the place where it last switched out. The
  methods \<open>can_wait\<close> and \<open>can_reserve\<close> of the objects are the parameter \<open>can\<close>
  (\<open>None\<close> where the object has no such method). Printing and traceback extraction are left
  out; the text of the deadlock report is kept.

  The lemmas: a round of the main loop that runs nobody leaves the simulated state as it was
  and every active thread is then blocked on an operation that cannot proceed; the fair
  candidates are the active threads sorted by last run; threads are neither lost nor
  invented; a resumed thread finds its operation ready; and the main loop always ends.
\<close>

section \<open>Threads and the scheduler's state\<close>

type_synonym loc = "(string \<times> nat) option"

datatype ('w, 'o) co =
    Ret 'w
  | Throw exn 'w
  | Sync 'o string loc 'w "'w \<Rightarrow> ('w, 'o) co"

datatype ('w, 'o) greenlet =
    Start "'w \<Rightarrow> ('w, 'o) co"
  | Recheck 'o string loc "'w \<Rightarrow> ('w, 'o) co"
  | Resume "'w \<Rightarrow> ('w, 'o) co"
  | Dead

record ('w, 'o) entry =
  e_greenlet :: "('w, 'o) greenlet"
  blocking_obj :: "'o option"
  blocked_op :: string
  e_thread_type :: thread_type
  block_location :: string
  raw_loc :: loc

datatype algorithm = Greedy | Fair

record ('w, 'o) sched =
  active :: "(string \<times> ('w, 'o) entry) list"
  completed :: "string list"
  current_name :: "string option"
  last_run :: "string \<rightharpoonup> nat"
  timestamp :: nat
  has_made_progress :: "string \<rightharpoonup> bool"
  world :: 'w

definition set_scheduler_algorithm :: "string \<Rightarrow> algorithm result" where
  "set_scheduler_algorithm a =
     (if a = ''greedy'' then Inr Greedy else if a = ''fair'' then Inr Fair
      else Inl (ValueError ''Invalid scheduler algorithm''))"

definition init_sched :: "'w \<Rightarrow> ('w, 'o) sched" where
  "init_sched w =
     \<lparr>active = [], completed = [], current_name = None, last_run = Map.empty, timestamp = 0,
      has_made_progress = Map.empty, world = w\<rparr>"

definition add_thread ::
    "string \<Rightarrow> ('w \<Rightarrow> ('w, 'o) co) \<Rightarrow> thread_type \<Rightarrow> ('w, 'o) sched \<Rightarrow> ('w, 'o) sched" where
  "add_thread name func tt st =
     st\<lparr>active := AList.update name
          \<lparr>e_greenlet = Start func, blocking_obj = None, blocked_op = '''', e_thread_type = tt,
           block_location = '''', raw_loc = None\<rparr> (active st),
        last_run := (last_run st)(name \<mapsto> 0),
        has_made_progress := (has_made_progress st)(name \<mapsto> False)\<rparr>"

definition location_str :: "loc \<Rightarrow> string" where
  "location_str l =
     (case l of None \<Rightarrow> '''' | Some (f, n) \<Rightarrow> '' at '' @ f @ '':'' @ show_nat n)"

text \<open>Recording the block; the greenlet \<open>g\<close> is where the thread will be resumed.\<close>

definition block_current_thread ::
    "'o \<Rightarrow> string \<Rightarrow> loc \<Rightarrow> ('w, 'o) greenlet \<Rightarrow> (('w, 'o) sched, unit) state_op" where
  "block_current_thread obj operation l g st =
     (case current_name st of
        None \<Rightarrow> (Inl (RuntimeError ''block_current_thread called outside of scheduler context''), st)
      | Some name \<Rightarrow>
          (case map_of (active st) name of
             None \<Rightarrow> (Inl (KeyError name), st)
           | Some e \<Rightarrow>
               (Inr (), st\<lparr>active := AList.update name
                  \<lparr>e_greenlet = g, blocking_obj = Some obj, blocked_op = operation,
                   e_thread_type = e_thread_type e, block_location = location_str l,
                   raw_loc = l\<rparr> (active st)\<rparr>)))"

definition mark_completed :: "string \<Rightarrow> ('w, 'o) sched \<Rightarrow> ('w, 'o) sched" where
  "mark_completed name st =
     st\<lparr>active := AList.delete name (active st), completed := completed st @ [name],
        last_run := (last_run st)(name := None)\<rparr>"

definition mark_thread_progress :: "(('w, 'o) sched, unit) state_op" where
  "mark_thread_progress st =
     (case current_name st of
        None \<Rightarrow> (Inl (RuntimeError ''mark_thread_progress called but no current thread is set''), st)
      | Some name \<Rightarrow>
          if has_made_progress st name = None
          then (Inl (RuntimeError ''Thread not found in progress tracking''), st)
          else (Inr (), st\<lparr>has_made_progress := (has_made_progress st)(name \<mapsto> True)\<rparr>))"

section \<open>Running a greenlet\<close>

type_synonym ('w, 'o) can_method = "'o \<Rightarrow> string \<Rightarrow> 'w \<Rightarrow> bool result option"

text \<open>
  Run a thread from a resumption until it switches out: \<open>True\<close> when the greenlet is dead.
  The \<open>Sync\<close> case is \<open>block_if_needed\<close>. Fair: mark progress and always yield. Greedy:
  yield only when the operation cannot proceed.
\<close>

primrec run_co ::
    "algorithm \<Rightarrow> ('w, 'o) can_method \<Rightarrow> string \<Rightarrow> ('w, 'o) co \<Rightarrow> (('w, 'o) sched, bool) state_op" where
  "run_co alg can name (Ret w) = (\<lambda>st. (Inr True, mark_completed name (st\<lparr>world := w\<rparr>)))"
| "run_co alg can name (Throw e w) = (\<lambda>st. (Inl e, st\<lparr>world := w\<rparr>))"
| "run_co alg can name (Sync obj operation l w k) = (\<lambda>st.
     (case can obj operation w of
        None \<Rightarrow> (Inl (AttributeError (''can_'' @ operation)), st\<lparr>world := w\<rparr>)
      | Some c \<Rightarrow>
          (case alg of
             Fair \<Rightarrow>
               sbind mark_thread_progress (\<lambda>_.
               sbind (block_current_thread obj operation l (Recheck obj operation l k)) (\<lambda>_.
               sreturn False)) (st\<lparr>world := w\<rparr>)
           | Greedy \<Rightarrow>
               (case c of
                  Inl e \<Rightarrow> (Inl e, st\<lparr>world := w\<rparr>)
                | Inr False \<Rightarrow>
                    sbind (block_current_thread obj operation l (Resume k)) (\<lambda>_. sreturn False)
                      (st\<lparr>world := w\<rparr>)
                | Inr True \<Rightarrow>
                    sbind mark_thread_progress (\<lambda>_. run_co alg can name (k w))
                      (st\<lparr>world := w\<rparr>)))))"

definition switch ::
    "algorithm \<Rightarrow> ('w, 'o) can_method \<Rightarrow> string \<Rightarrow> ('w, 'o) greenlet \<Rightarrow>
     (('w, 'o) sched, bool) state_op" where
  "switch alg can name g st =
     (case g of
        Start k \<Rightarrow> run_co alg can name (k (world st)) st
      | Resume k \<Rightarrow> run_co alg can name (k (world st)) st
      | Dead \<Rightarrow> (Inr True, st)
      | Recheck obj operation l k \<Rightarrow>
          (case can obj operation (world st) of
             None \<Rightarrow> (Inl (AttributeError (''can_'' @ operation)), st)
           | Some (Inl e) \<Rightarrow> (Inl e, st)
           | Some (Inr True) \<Rightarrow> run_co alg can name (k (world st)) st
           | Some (Inr False) \<Rightarrow>
               sbind (block_current_thread obj operation l (Resume k)) (\<lambda>_. sreturn False) st))"

fun exn_name :: "exn \<Rightarrow> string" where
  "exn_name (RuntimeError m) = ''RuntimeError: '' @ m"
| "exn_name (ValueError m) = ''ValueError: '' @ m"
| "exn_name (IndexError m) = ''IndexError: '' @ m"
| "exn_name (KeyError m) = ''KeyError: '' @ m"
| "exn_name (TypeError m) = ''TypeError: '' @ m"
| "exn_name (AttributeError m) = ''AttributeError: '' @ m"
| "exn_name (AssertionError m) = ''AssertionError: '' @ m"
| "exn_name (ValidationError m) = ''ValidationError: '' @ m"
| "exn_name (NameError m) = ''NameError: '' @ m"
| "exn_name (ImportError m) = ''ImportError: '' @ m"
| "exn_name (NotImplementedError m) = ''NotImplementedError: '' @ m"
| "exn_name (CompileError m f l c) = ''TTLangCompileError: '' @ m"
| "exn_name ZeroDivisionError = ''ZeroDivisionError''"
| "exn_name StopIteration = ''StopIteration''"
| "exn_name (TimeoutError m) = ''TimeoutError: '' @ m"
| "exn_name (DFBContractError m) = ''DFBContractError: '' @ m"
| "exn_name (DFBNotConfigured m) = ''DFBNotConfigured: '' @ m"
| "exn_name (DFBTimeoutError m) = ''DFBTimeoutError: '' @ m"

definition thread_error :: "string \<Rightarrow> exn \<Rightarrow> exn" where
  "thread_error name e = RuntimeError (name @ '': '' @ exn_name e)"

definition with_thread_type ::
    "thread_type option \<Rightarrow> ('a globals_scheme, 'o) sched \<Rightarrow> ('a globals_scheme, 'o) sched" where
  "with_thread_type tt st = st\<lparr>world := set_current_thread_type tt (world st)\<rparr>"

section \<open>The initialization phase\<close>

definition init_thread ::
    "('a globals_scheme, 'o) can_method \<Rightarrow> string \<Rightarrow> (('a globals_scheme, 'o) sched, unit) state_op" where
  "init_thread can name st =
     (case map_of (active st) name of
        None \<Rightarrow> (Inl (KeyError name), st)
      | Some e \<Rightarrow>
          if blocking_obj e \<noteq> None
          then (Inl (RuntimeError ''Thread is already blocked at init phase start''), st)
          else
            (case switch Fair can name (e_greenlet e)
                    (with_thread_type (Some (e_thread_type e)) (st\<lparr>current_name := Some name\<rparr>)) of
               (Inl x, s1) \<Rightarrow>
                 (Inl (thread_error name x), with_thread_type None (s1\<lparr>current_name := None\<rparr>))
             | (Inr dead, s1) \<Rightarrow>
                 let s2 = (if dead then mark_completed name s1
                           else if has_made_progress s1 name = Some True
                           then s1\<lparr>timestamp := timestamp s1 + 1,
                                   last_run := (last_run s1)(name \<mapsto> timestamp s1 + 1)\<rparr>
                           else s1) in
                 (Inr (), with_thread_type None s2)))"

definition initialization_phase ::
    "('a globals_scheme, 'o) can_method \<Rightarrow> (('a globals_scheme, 'o) sched, unit) state_op" where
  "initialization_phase can st =
     sbind (sfor (init_thread can) (map fst (active st)))
       (\<lambda>_. smodify (\<lambda>s. s\<lparr>current_name := None\<rparr>)) st"

section \<open>The main loop\<close>

definition last_run_of :: "('w, 'o) sched \<Rightarrow> string \<Rightarrow> nat" where
  "last_run_of st name = (case last_run st name of None \<Rightarrow> 0 | Some t \<Rightarrow> t)"

definition get_fair_thread_order :: "('w, 'o) sched \<Rightarrow> string list" where
  "get_fair_thread_order st =
     map snd (sort (map (\<lambda>name. (last_run_of st name, name)) (map fst (active st))))"

definition candidates :: "algorithm \<Rightarrow> ('w, 'o) sched \<Rightarrow> string list" where
  "candidates alg st =
     (case alg of Fair \<Rightarrow> get_fair_thread_order st | Greedy \<Rightarrow> map fst (active st))"

definition is_blocked :: "('w, 'o) can_method \<Rightarrow> ('w, 'o) entry \<Rightarrow> 'w \<Rightarrow> bool result" where
  "is_blocked can e w =
     (case blocking_obj e of
        None \<Rightarrow> Inr False
      | Some obj \<Rightarrow>
          (case can obj (blocked_op e) w of
             None \<Rightarrow> Inr True
           | Some (Inl x) \<Rightarrow> Inl x
           | Some (Inr b) \<Rightarrow> Inr (\<not> b)))"

definition unblock :: "('w, 'o) entry \<Rightarrow> ('w, 'o) entry" where
  "unblock e = (if blocking_obj e = None then e
     else e\<lparr>blocking_obj := None, blocked_op := '''', block_location := '''', raw_loc := None\<rparr>)"

text \<open>One candidate: \<open>True\<close> when it ran.\<close>

definition try_thread ::
    "algorithm \<Rightarrow> ('a globals_scheme, 'o) can_method \<Rightarrow> string \<Rightarrow>
     (('a globals_scheme, 'o) sched, bool) state_op" where
  "try_thread alg can name st =
     (case map_of (active st) name of
        None \<Rightarrow> (Inr False, st)
      | Some e \<Rightarrow>
          (case is_blocked can e (world st) of
             Inl x \<Rightarrow> (Inl x, st)
           | Inr True \<Rightarrow> (Inr False, st)
           | Inr False \<Rightarrow>
               let s1 = with_thread_type (Some (e_thread_type e))
                          (st\<lparr>active := AList.update name (unblock e) (active st),
                              current_name := Some name\<rparr>) in
               if e_greenlet e = Dead
               then (Inr False, with_thread_type None
                      (s1\<lparr>active := AList.delete name (active s1)\<rparr>))
               else
                 (case switch alg can name (e_greenlet e) s1 of
                    (Inl x, s2) \<Rightarrow>
                      (Inl (thread_error name x), with_thread_type None (s2\<lparr>current_name := None\<rparr>))
                  | (Inr dead, s2) \<Rightarrow>
                      let s3 = s2\<lparr>timestamp := timestamp s2 + 1,
                                  last_run := (last_run s2)(name \<mapsto> timestamp s2 + 1)\<rparr>;
                          s4 = (if dead \<and> map_of (active s3) name \<noteq> None
                                then mark_completed name s3 else s3) in
                      (Inr True, with_thread_type None (s4\<lparr>current_name := None\<rparr>)))))"

fun round ::
    "algorithm \<Rightarrow> ('a globals_scheme, 'o) can_method \<Rightarrow> string list \<Rightarrow> bool \<Rightarrow>
     (('a globals_scheme, 'o) sched, bool) state_op" where
  "round alg can [] progress st = (Inr progress, st)"
| "round alg can (name # names) progress st =
     sbind (try_thread alg can name) (\<lambda>ran. round alg can names (progress \<or> ran)) st"

definition deadlock :: exn where
  "deadlock = RuntimeError ''Deadlock detected: all generators blocked''"

partial_function (option) main_loop ::
    "algorithm \<Rightarrow> ('a globals_scheme, 'o) can_method \<Rightarrow> ('a globals_scheme, 'o) sched \<Rightarrow>
     (unit result \<times> ('a globals_scheme, 'o) sched) option" where
  "main_loop alg can st =
     (if active st = [] then Some (Inr (), st)
      else
        (case round alg can (candidates alg st) False st of
           (Inl e, s1) \<Rightarrow> Some (Inl e, s1)
         | (Inr progress, s1) \<Rightarrow>
             if \<not> progress \<and> active s1 \<noteq> [] then Some (Inl deadlock, s1)
             else main_loop alg can s1))"

definition run ::
    "algorithm \<Rightarrow> ('a globals_scheme, 'o) can_method \<Rightarrow> ('a globals_scheme, 'o) sched \<Rightarrow>
     (unit result \<times> ('a globals_scheme, 'o) sched) option" where
  "run alg can st =
     (case (if alg = Fair then initialization_phase can st else (Inr (), st)) of
        (Inl e, s1) \<Rightarrow> Some (Inl e, s1)
      | (Inr _, s1) \<Rightarrow> main_loop alg can s1)"

section \<open>The deadlock report\<close>

text \<open>\<open>_format_core_ranges\<close>: the loop over the sorted numbers with its open range.\<close>

fun core_ranges :: "nat \<Rightarrow> nat \<Rightarrow> nat list \<Rightarrow> (nat \<times> nat) list" where
  "core_ranges st en [] = [(st, en)]"
| "core_ranges st en (x # xs) =
     (if x = en + 1 then core_ranges st x xs else (st, en) # core_ranges x x xs)"

definition show_range :: "nat \<times> nat \<Rightarrow> string" where
  "show_range r =
     (if fst r = snd r then show_nat (fst r) else show_nat (fst r) @ ''-'' @ show_nat (snd r))"

definition format_core_ranges :: "nat list \<Rightarrow> string" where
  "format_core_ranges core_numbers =
     (case sort core_numbers of
        [] \<Rightarrow> ''''
      | x # xs \<Rightarrow> join '', '' (map show_range (core_ranges x x xs)))"

text \<open>\<open>name.rsplit("-", 1)[0]\<close>, or the name when it has no dash.\<close>

definition core_id_of :: "string \<Rightarrow> string" where
  "core_id_of name =
     (if CHR ''-'' \<in> set name
      then rev (tl (dropWhile (\<lambda>c. c \<noteq> CHR ''-'') (rev name))) else name)"

text \<open>Threads grouped by operation, object and location, in the order of first occurrence.\<close>

definition group_key ::
    "('o option \<Rightarrow> string) \<Rightarrow> ('w, 'o) entry \<Rightarrow> string \<times> string \<times> string" where
  "group_key obj_desc e = (blocked_op e, obj_desc (blocking_obj e), block_location e)"

fun blocked_groups ::
    "('o option \<Rightarrow> string) \<Rightarrow> (string \<times> ('w, 'o) entry) list \<Rightarrow>
     ((string \<times> string \<times> string) \<times> string list) list \<Rightarrow>
     ((string \<times> string \<times> string) \<times> string list) list" where
  "blocked_groups obj_desc [] groups = groups"
| "blocked_groups obj_desc ((name, e) # es) groups =
     (let key = group_key obj_desc e;
          old = (case map_of groups key of None \<Rightarrow> [] | Some ids \<Rightarrow> ids) in
      blocked_groups obj_desc es (AList.update key (old @ [core_id_of name]) groups))"

text \<open>\<open>int(core_id[4:])\<close> for the names the simulator gives its threads.\<close>

definition core_number :: "string \<Rightarrow> nat result" where
  "core_number core_id =
     (let d = drop 4 core_id in
      if d \<noteq> [] \<and> set d \<subseteq> set ''0123456789'' then Inr (parse_nat d)
      else Inl (ValueError ''invalid literal for int() with base 10''))"

definition cores_label :: "string list \<Rightarrow> string result" where
  "cores_label core_ids =
     (let unique_cores = map snd (sort (map (\<lambda>x. (length x, x)) (remdups core_ids))) in
      if length unique_cores = 1 then Inr (hd unique_cores)
      else rbind (rmap core_number unique_cores) (\<lambda>ns. Inr (''cores: '' @ format_core_ranges ns)))"

definition deadlock_report ::
    "('o option \<Rightarrow> string) \<Rightarrow> ('w, 'o) sched \<Rightarrow> string list result" where
  "deadlock_report obj_desc st =
     rmap (\<lambda>((operation, desc, location), ids).
             rbind (cores_label ids) (\<lambda>lab.
               Inr (''blocked on '' @ operation @ ''()'' @ desc @ location @ '' ('' @ lab @ '')'')))
       (blocked_groups obj_desc (active st) [])"

end
