(* ===== verification/Schedfacts.thy ===== *)
theory Schedfacts
  imports Scheduler
begin

text \<open>
  Facts about the scheduler of theory Scheduler: what one switch to a greenlet does to the
  bookkeeping, the invariant of the scheduler's tables, that a round without progress is a
  genuine deadlock, that the main loop always ends (the multiset of greenlets decreases),
  that no thread is lost or invented, and the fair order.
\<close>

section \<open>Where a thread can switch out\<close>

inductive reaches :: "('w, 'o) co \<Rightarrow> ('w, 'o) greenlet \<Rightarrow> bool" where
  resume: "reaches (Sync obj operation l w k) (Resume k)"
| recheck: "reaches (Sync obj operation l w k) (Recheck obj operation l k)"
| later: "reaches (k w) g \<Longrightarrow> reaches (Sync obj operation l w' k) g"

inductive_cases reaches_RetE [elim!]: "reaches (Ret w) g"
inductive_cases reaches_ThrowE [elim!]: "reaches (Throw e w) g"
inductive_cases reaches_SyncE [elim!]: "reaches (Sync obj operation l w k) g"

fun after :: "('w, 'o) greenlet \<Rightarrow> ('w, 'o) greenlet \<Rightarrow> bool" where
  "after (Start k) g \<longleftrightarrow> (\<exists>w. reaches (k w) g)"
| "after (Resume k) g \<longleftrightarrow> (\<exists>w. reaches (k w) g)"
| "after (Recheck obj operation l k) g \<longleftrightarrow> g = Resume k \<or> (\<exists>w. reaches (k w) g)"
| "after Dead g \<longleftrightarrow> False"

definition greenlet_order :: "(('w, 'o) greenlet \<times> ('w, 'o) greenlet) set" where
  "greenlet_order = {(g', g). after g g'}"

lemma greenlet_order_iff [simp]: "(g', g) \<in> greenlet_order \<longleftrightarrow> after g g'"
  by (simp add: greenlet_order_def)

lemma reaches_acc: "reaches c g \<Longrightarrow> g \<in> Wellfounded.acc greenlet_order"
proof (induction c arbitrary: g)
  case (Sync obj operation l w k)
  have k: "g' \<in> Wellfounded.acc greenlet_order" if "reaches (k w') g'" for w' g'
    using Sync.IH that by blast
  have r: "Resume k \<in> Wellfounded.acc greenlet_order"
    by (rule accI) (auto intro: k)
  have "Recheck obj operation l k \<in> Wellfounded.acc greenlet_order"
    by (rule accI) (auto intro: k r)
  with r k Sync.prems show ?case by auto
qed auto

lemma after_acc: "after g g' \<Longrightarrow> g' \<in> Wellfounded.acc greenlet_order"
proof (cases g)
  case (Recheck obj operation l k)
  assume "after g g'"
  moreover have "Resume k \<in> Wellfounded.acc greenlet_order"
    by (rule accI) (auto intro: reaches_acc)
  ultimately show ?thesis using Recheck by (auto intro: reaches_acc)
qed (auto intro: reaches_acc)

lemma wf_greenlet_order: "wf greenlet_order"
proof (rule acc_wfI, rule allI)
  fix g :: "('w, 'o) greenlet"
  show "g \<in> Wellfounded.acc greenlet_order"
    by (rule accI) (simp add: after_acc)
qed

section \<open>The invariant of the tables\<close>

text \<open>
  What a greenlet waits for is what its entry records, so that the check before the switch
  and the check after it ask the same object.
\<close>

fun entry_ok :: "('w, 'o) entry \<Rightarrow> bool" where
  "entry_ok e =
     (case e_greenlet e of
        Start k \<Rightarrow> blocking_obj e = None
      | Recheck obj operation l k \<Rightarrow> blocking_obj e = Some obj \<and> blocked_op e = operation
      | Resume k \<Rightarrow> blocking_obj e \<noteq> None
      | Dead \<Rightarrow> False)"

declare entry_ok.simps [simp del]

definition sched_inv :: "('w, 'o) sched \<Rightarrow> bool" where
  "sched_inv st \<longleftrightarrow> distinct (map fst (active st)) \<and>
     (\<forall>e\<in>snd ` set (active st). entry_ok e) \<and>
     (\<forall>name\<in>fst ` set (active st). has_made_progress st name \<noteq> None) \<and>
     (\<forall>name t. last_run st name = Some t \<longrightarrow> t \<le> timestamp st)"

lemma sched_inv_init [simp]: "sched_inv (init_sched w)"
  by (simp add: sched_inv_def init_sched_def)

lemma set_update_le: "set (AList.update k v al) \<subseteq> insert (k, v) (set al)"
  by (induction al) auto

lemma entries_update:
  assumes "\<forall>e\<in>snd ` set al. Q e" and "Q v"
  shows "\<forall>e\<in>snd ` set (AList.update k v al). Q e"
proof
  fix e assume "e \<in> snd ` set (AList.update k v al)"
  then obtain n where "(n, e) \<in> set (AList.update k v al)" by auto
  with set_update_le [of k v al] have "e = v \<or> e \<in> snd ` set al" by (force simp: image_iff)
  with assms show "Q e" by blast
qed

lemma set_delete_le: "set (AList.delete k al) \<subseteq> set al"
  by (auto simp: AList.delete_eq)

lemma sched_inv_add_thread:
  assumes "sched_inv st"
  shows "sched_inv (add_thread name func tt st)"
proof -
  let ?e = "\<lparr>e_greenlet = Start func, blocking_obj = None, blocked_op = '''', e_thread_type = tt,
           block_location = '''', raw_loc = None\<rparr>"
  have "\<forall>e\<in>snd ` set (AList.update name ?e (active st)). entry_ok e"
    using assms by (intro entries_update) (simp_all add: sched_inv_def entry_ok.simps)
  moreover have "\<forall>n\<in>fst ` set (AList.update name ?e (active st)).
      ((has_made_progress st)(name \<mapsto> False)) n \<noteq> None"
    using assms by (auto simp: sched_inv_def dom_update)
  ultimately show ?thesis
    using assms by (simp add: sched_inv_def add_thread_def distinct_update)
qed

section \<open>One switch\<close>

text \<open>
  The outcome of running thread \<open>name\<close>: it completed and left the table; or it switched out
  blocked, at one of the places \<open>P\<close>; or it raised.
\<close>

definition ran ::
    "(('w, 'o) greenlet \<Rightarrow> bool) \<Rightarrow> string \<Rightarrow> ('w, 'o) sched \<Rightarrow> bool result \<Rightarrow> ('w, 'o) sched \<Rightarrow> bool" where
  "ran P name st r s' \<longleftrightarrow>
     timestamp s' = timestamp st \<and> current_name s' = current_name st \<and>
     dom (has_made_progress s') = dom (has_made_progress st) \<and>
     (case r of
        Inl e \<Rightarrow> active s' = active st \<and> completed s' = completed st \<and> last_run s' = last_run st
      | Inr True \<Rightarrow> active s' = AList.delete name (active st) \<and>
          completed s' = completed st @ [name] \<and> last_run s' = (last_run st)(name := None)
      | Inr False \<Rightarrow> completed s' = completed st \<and> last_run s' = last_run st \<and>
          (\<exists>e e'. map_of (active st) name = Some e \<and>
             active s' = AList.update name e' (active st) \<and> P (e_greenlet e') \<and>
             entry_ok e' \<and> blocking_obj e' \<noteq> None \<and> e_thread_type e' = e_thread_type e))"

lemma ran_mono: "ran P name st r s' \<Longrightarrow> (\<And>g. P g \<Longrightarrow> Q g) \<Longrightarrow> ran Q name st r s'"
  unfolding ran_def by (cases r) (simp, simp split: bool.splits, blast)

lemma block_ran:
  assumes "current_name st = Some name" and "map_of (active st) name = Some e"
    and "P g" and "(\<exists>k. g = Resume k) \<or> (\<exists>k. g = Recheck obj operation l k)"
  shows "\<exists>s'. sbind (block_current_thread obj operation l g) (\<lambda>_. sreturn False) st = (Inr False, s')
           \<and> ran P name st (Inr False) s' \<and> world s' = world st
           \<and> has_made_progress s' = has_made_progress st"
  using assms
  by (auto simp: block_current_thread_def sbind_def sreturn_def ran_def entry_ok.simps)

lemma mark_progress_ok:
  assumes "current_name st = Some name" and "has_made_progress st name \<noteq> None"
  shows "mark_thread_progress st =
     (Inr (), st\<lparr>has_made_progress := (has_made_progress st)(name \<mapsto> True)\<rparr>)"
  using assms by (simp add: mark_thread_progress_def)

lemma run_co_ran:
  assumes "current_name st = Some name" and "map_of (active st) name = Some e"
    and "has_made_progress st name \<noteq> None" and "run_co alg can name c st = (r, s')"
  shows "ran (reaches c) name st r s'"
  using assms
proof (induction c arbitrary: st)
  case (Ret w)
  then show ?case by (auto simp: ran_def mark_completed_def)
next
  case (Throw x w)
  then show ?case by (auto simp: ran_def)
next
  case (Sync obj operation l w k)
  let ?st1 = "st\<lparr>world := w\<rparr>"
  let ?st2 = "?st1\<lparr>has_made_progress := (has_made_progress st)(name \<mapsto> True)\<rparr>"
  have prog: "mark_thread_progress ?st1 = (Inr (), ?st2)"
    using Sync.prems(1,3) by (simp add: mark_thread_progress_def)
  have lift: "ran P name ?st1 q s' \<Longrightarrow> ran P name st q s'" for P q
    by (cases q) (auto simp: ran_def split: bool.splits)
  have lift2: "ran P name ?st2 q s' \<Longrightarrow> ran P name st q s'" for P q
    using Sync.prems(3) by (cases q) (auto simp: ran_def insert_absorb domIff split: bool.splits)
  have blk1: "\<exists>s'. sbind (block_current_thread obj operation l (Resume k)) (\<lambda>_. sreturn False) ?st1
      = (Inr False, s') \<and> ran (reaches (Sync obj operation l w k)) name ?st1 (Inr False) s'"
    using block_ran [of ?st1 name e "reaches (Sync obj operation l w k)" "Resume k" obj operation l]
      Sync.prems(1,2) by (auto intro: reaches.resume)
  have blk2: "\<exists>s'. sbind (block_current_thread obj operation l (Recheck obj operation l k))
      (\<lambda>_. sreturn False) ?st2 = (Inr False, s') \<and>
      ran (reaches (Sync obj operation l w k)) name ?st2 (Inr False) s'"
    using block_ran [of ?st2 name e "reaches (Sync obj operation l w k)"
        "Recheck obj operation l k" obj operation l]
      Sync.prems(1,2) by (auto intro: reaches.recheck)
  show ?case
  proof (cases "can obj operation w")
    case None
    with Sync.prems(4) show ?thesis by (auto simp: ran_def)
  next
    case (Some c)
    show ?thesis
    proof (cases alg)
      case Fair
      with Some Sync.prems(4) blk2 prog show ?thesis by (auto intro: lift2)
    next
      case Greedy
      show ?thesis
      proof (cases c)
        case (Inl x)
        with Some Greedy Sync.prems(4) show ?thesis by (auto simp: ran_def)
      next
        case (Inr b)
        show ?thesis
        proof (cases b)
          case True
          with Some Greedy Inr Sync.prems(4) prog
          have "run_co alg can name (k w) ?st2 = (r, s')" by simp
          then have "ran (reaches (k w)) name ?st2 r s'"
            using Sync.prems(1,2) Sync.IH [of "k w" ?st2] by simp
          then show ?thesis by (intro lift2) (erule ran_mono, erule reaches.later)
        next
          case False
          with Some Greedy Inr Sync.prems(4) blk1 show ?thesis by (auto intro: lift)
        qed
      qed
    qed
  qed
qed

lemma switch_ran:
  assumes "current_name st = Some name" and "map_of (active st) name = Some e"
    and "has_made_progress st name \<noteq> None" and "g \<noteq> Dead"
    and "switch alg can name g st = (r, s')"
  shows "ran (after g) name st r s'"
proof (cases g)
  case (Recheck obj operation l k)
  have blk: "\<exists>s'. sbind (block_current_thread obj operation l (Resume k)) (\<lambda>_. sreturn False) st
      = (Inr False, s') \<and> ran (after g) name st (Inr False) s'"
    using block_ran [of st name e "after g" "Resume k" obj operation l] assms(1,2)
    by (auto simp: Recheck)
  have run: "run_co alg can name (k (world st)) st = (r, s') \<Longrightarrow> ran (after g) name st r s'"
    by (rule ran_mono [OF run_co_ran [OF assms(1,2,3)]]) (auto simp: Recheck)
  have err: "ran (after g) name st (Inl x) st" for x by (simp add: ran_def)
  show ?thesis
    using assms(5) blk run err
    by (auto simp: switch_def Recheck split: option.splits sum.splits bool.splits)
next
  case (Start k)
  then show ?thesis
    using assms by (auto simp: switch_def intro!: ran_mono [OF run_co_ran [OF assms(1,2,3)]])
next
  case (Resume k)
  then show ?thesis
    using assms by (auto simp: switch_def intro!: ran_mono [OF run_co_ran [OF assms(1,2,3)]])
qed (use assms in simp)

section \<open>One candidate, one round\<close>

text \<open>The state after a thread of the table ran and switched out or completed.\<close>

definition stepped ::
    "('a globals_scheme, 'o) can_method \<Rightarrow> string \<Rightarrow> ('a globals_scheme, 'o) sched \<Rightarrow>
     ('a globals_scheme, 'o) sched \<Rightarrow> bool" where
  "stepped can name st s' \<longleftrightarrow>
     (\<exists>e. map_of (active st) name = Some e \<and> is_blocked can e (world st) = Inr False \<and>
        current_name s' = None \<and> current_thread_type (world s') = None \<and>
        timestamp s' = Suc (timestamp st) \<and>
        dom (has_made_progress s') = dom (has_made_progress st) \<and>
        last_run s' = (last_run st)(name \<mapsto> Suc (timestamp st)) \<and>
        (active s' = AList.delete name (active st) \<and> completed s' = completed st @ [name] \<or>
         completed s' = completed st \<and>
         (\<exists>e'. active s' = AList.update name e' (active st) \<and> entry_ok e' \<and>
            after (e_greenlet e) (e_greenlet e') \<and> blocking_obj e' \<noteq> None \<and>
            e_thread_type e' = e_thread_type e)))"

lemma unblock_simps [simp]:
  "e_greenlet (unblock e) = e_greenlet e" "e_thread_type (unblock e) = e_thread_type e"
  by (simp_all add: unblock_def)

lemma with_thread_type_simps [simp]:
  "active (with_thread_type t st) = active st" "completed (with_thread_type t st) = completed st"
  "current_name (with_thread_type t st) = current_name st"
  "last_run (with_thread_type t st) = last_run st"
  "timestamp (with_thread_type t st) = timestamp st"
  "has_made_progress (with_thread_type t st) = has_made_progress st"
  "world (with_thread_type t st) = set_current_thread_type t (world st)"
  by (simp_all add: with_thread_type_def)

lemma current_thread_type_set [simp]:
  "current_thread_type (set_current_thread_type t w) = t"
  by (simp add: set_current_thread_type_def)

lemma inv_entry:
  assumes "sched_inv st" and "map_of (active st) name = Some e"
  shows "entry_ok e" and "e_greenlet e \<noteq> Dead" and "has_made_progress st name \<noteq> None"
proof -
  from assms(2) have m: "(name, e) \<in> set (active st)" by (rule map_of_SomeD)
  with assms(1) show ok: "entry_ok e" by (force simp: sched_inv_def)
  then show "e_greenlet e \<noteq> Dead" by (auto simp: entry_ok.simps)
  from m assms(1) show "has_made_progress st name \<noteq> None" by (force simp: sched_inv_def)
qed

lemma delete_not_active [simp]: "map_of (AList.delete name al) name = None"
  by (simp add: AList.delete_conv')

lemma try_thread_cases:
  assumes inv: "sched_inv st" and run: "try_thread alg can name st = (r, s')"
  obtains
    (absent) "map_of (active st) name = None" "r = Inr False" "s' = st"
  | (blocked) e where "map_of (active st) name = Some e" "is_blocked can e (world st) = Inr True"
      "r = Inr False" "s' = st"
  | (check_raised) e x where "map_of (active st) name = Some e"
      "is_blocked can e (world st) = Inl x" "r = Inl x" "s' = st"
  | (raised) e x where "map_of (active st) name = Some e"
      "is_blocked can e (world st) = Inr False" "r = Inl (thread_error name x)"
      "current_name s' = None" "current_thread_type (world s') = None"
      "completed s' = completed st" "map fst (active s') = map fst (active st)"
  | (stepped) "r = Inr True" "stepped can name st s'"
proof (cases "map_of (active st) name")
  case None
  with run have "r = Inr False \<and> s' = st" by (simp add: try_thread_def)
  with None show ?thesis by (intro that(1)) simp_all
next
  case (Some e)
  note ent = inv_entry [OF inv Some]
  show ?thesis
  proof (cases "is_blocked can e (world st)")
    case (Inl x)
    with Some run have "r = Inl x \<and> s' = st" by (simp add: try_thread_def)
    with Some Inl show ?thesis by (intro that(3)) simp_all
  next
    case (Inr b)
    show ?thesis
    proof (cases b)
      case True
      with Inr Some run have "r = Inr False \<and> s' = st" by (simp add: try_thread_def)
      with Some Inr True show ?thesis by (intro that(2)) simp_all
    next
      case False
      define s1 where "s1 = with_thread_type (Some (e_thread_type e))
        (st\<lparr>active := AList.update name (unblock e) (active st), current_name := Some name\<rparr>)"
      obtain q s2 where sw: "switch alg can name (e_greenlet e) s1 = (q, s2)"
        by (cases "switch alg can name (e_greenlet e) s1")
      have "ran (after (e_greenlet e)) name s1 q s2"
        by (rule switch_ran [OF _ _ _ ent(2) sw, where e = "unblock e"])
          (use ent(3) in \<open>simp_all add: s1_def AList.update_conv'\<close>)
      note R = this [unfolded ran_def]
      have keys: "map fst (AList.update name (unblock e) (active st)) = map fst (active st)"
        using Some by (force simp: AList.update_keys dest: map_of_SomeD)
      show ?thesis
      proof (cases q)
        case (Inl x)
        with run Some Inr False sw ent(2)
        have "r = Inl (thread_error name x)" "s' = with_thread_type None (s2\<lparr>current_name := None\<rparr>)"
          by (auto simp: try_thread_def Let_def s1_def)
        moreover have "completed s2 = completed st" "map fst (active s2) = map fst (active st)"
          using R Inl keys by (simp_all add: s1_def)
        ultimately show ?thesis
          using Some Inr False by (intro that(4) [of e x]) simp_all
      next
        case q: (Inr dead)
        with run Some Inr False sw ent(2)
        have r: "r = Inr True" and s': "s' = with_thread_type None
          ((if dead \<and> map_of (active s2) name \<noteq> None
            then mark_completed name (s2\<lparr>timestamp := timestamp s2 + 1,
              last_run := (last_run s2)(name \<mapsto> timestamp s2 + 1)\<rparr>)
            else s2\<lparr>timestamp := timestamp s2 + 1,
              last_run := (last_run s2)(name \<mapsto> timestamp s2 + 1)\<rparr>)\<lparr>current_name := None\<rparr>)"
          by (auto simp: try_thread_def Let_def s1_def)
        have "stepped can name st s'"
          using R q Some Inr False
          by (cases dead) (auto simp: stepped_def s' s1_def AList.delete_update_same AList.update_conv')
        with r that(5) show ?thesis by simp
      qed
    qed
  qed
qed

lemma stepped_inv:
  assumes "sched_inv st" and "stepped can name st s'"
  shows "sched_inv s'"
proof -
  from assms(2) obtain e where e: "map_of (active st) name = Some e"
    and s': "timestamp s' = Suc (timestamp st)"
      "dom (has_made_progress s') = dom (has_made_progress st)"
      "last_run s' = (last_run st)(name \<mapsto> Suc (timestamp st))"
    and act: "active s' = AList.delete name (active st) \<or>
        (\<exists>e'. active s' = AList.update name e' (active st) \<and> entry_ok e')"
    by (auto simp: stepped_def)
  have lr: "\<forall>n t. last_run s' n = Some t \<longrightarrow> t \<le> timestamp s'"
    using assms(1) by (auto simp: sched_inv_def s' intro: le_SucI)
  have d: "distinct (map fst (active st))" and o: "\<forall>e\<in>snd ` set (active st). entry_ok e"
    using assms(1) by (simp_all add: sched_inv_def)
  have n: "name \<in> fst ` set (active st)" using e by (force dest: map_of_SomeD)
  have ents: "distinct (map fst (active s')) \<and> (\<forall>e\<in>snd ` set (active s'). entry_ok e) \<and>
      fst ` set (active s') \<subseteq> fst ` set (active st)"
    using act
  proof (elim disjE exE conjE)
    assume a: "active s' = AList.delete name (active st)"
    show ?thesis
      unfolding a using d o set_delete_le [of name "active st"]
      by (meson AList.distinct_delete image_mono subset_iff)
  next
    fix e' assume a: "active s' = AList.update name e' (active st)" "entry_ok e'"
    have "fst ` set (AList.update name e' (active st)) \<subseteq> fst ` set (active st)"
      using n by (simp add: AList.dom_update)
    then show ?thesis
      unfolding a(1) using AList.distinct_update [OF d] entries_update [OF o a(2)] by blast
  qed
  have "\<forall>n\<in>fst ` set (active s'). has_made_progress s' n \<noteq> None"
  proof
    fix n assume "n \<in> fst ` set (active s')"
    with ents have "n \<in> fst ` set (active st)" by blast
    with assms(1) have "n \<in> dom (has_made_progress st)" by (auto simp: sched_inv_def)
    with s'(2) show "has_made_progress s' n \<noteq> None" by blast
  qed
  with ents lr show ?thesis by (simp add: sched_inv_def)
qed

lemma try_thread_inv:
  assumes "sched_inv st" and "try_thread alg can name st = (Inr c, s')"
  shows "sched_inv s'"
  using assms(1) by (cases rule: try_thread_cases [OF assms]) (auto intro: stepped_inv)

text \<open>A predicate that every candidate keeps is kept by the round, whatever its outcome.\<close>

lemma round_keeps:
  assumes "sched_inv st" and "P st" and "round alg can names p st = (r, s')"
    and step: "\<And>name s b s1. sched_inv s \<Longrightarrow> P s \<Longrightarrow> name \<in> set names \<Longrightarrow>
        try_thread alg can name s = (b, s1) \<Longrightarrow> P s1"
  shows "P s'"
  using assms
proof (induction names arbitrary: p st)
  case (Cons name names)
  obtain b s1 where t: "try_thread alg can name st = (b, s1)"
    by (cases "try_thread alg can name st")
  have P1: "P s1" using Cons.prems(4) [OF Cons.prems(1,2) _ t] by simp
  show ?case
  proof (cases b)
    case (Inl x)
    with Cons.prems(3) t P1 show ?thesis by simp
  next
    case (Inr c)
    have rd: "round alg can names (p \<or> c) s1 = (r, s')"
      using Cons.prems(3) t Inr by simp
    show ?thesis
      by (rule Cons.IH [OF _ P1 rd])
        (use Cons.prems t Inr in \<open>auto intro: try_thread_inv\<close>)
  qed
qed simp

lemma round_inv:
  assumes "sched_inv st" and "round alg can names p st = (Inr q, s')"
  shows "sched_inv s'"
  using assms
proof (induction names arbitrary: p st)
  case (Cons name names)
  then obtain c s1 where "try_thread alg can name st = (Inr c, s1)"
      "round alg can names (p \<or> c) s1 = (Inr q, s')"
    by (auto simp: sbind_eq_Inr)
  with Cons show ?case by (blast intro: try_thread_inv)
qed simp

section \<open>Rounds without progress\<close>

text \<open>A thread that cannot run: its object has no such check, or the check says no.\<close>

definition stuck :: "('w, 'o) can_method \<Rightarrow> 'w \<Rightarrow> ('w, 'o) entry \<Rightarrow> bool" where
  "stuck can w e \<longleftrightarrow>
     (\<exists>obj. blocking_obj e = Some obj \<and>
        (can obj (blocked_op e) w = None \<or> can obj (blocked_op e) w = Some (Inr False)))"

lemma stuck_iff: "stuck can w e \<longleftrightarrow> is_blocked can e w = Inr True"
  by (auto simp: stuck_def is_blocked_def split: option.splits sum.splits)

lemma round_progress_mono:
  "sched_inv st \<Longrightarrow> round alg can names True st = (Inr q, s') \<Longrightarrow> q"
proof (induction names arbitrary: st)
  case (Cons name names)
  then show ?case by (auto simp: sbind_eq_Inr dest: try_thread_inv)
qed simp

lemma round_idle:
  assumes "sched_inv st" and "round alg can names False st = (Inr False, s')"
  shows "s' = st \<and> (\<forall>name\<in>set names. \<forall>e. map_of (active st) name = Some e \<longrightarrow> stuck can (world st) e)"
  using assms
proof (induction names arbitrary: st)
  case (Cons name names)
  then obtain c s1 where t: "try_thread alg can name st = (Inr c, s1)"
    and r: "round alg can names c s1 = (Inr False, s')"
    by (auto simp: sbind_eq_Inr)
  have "\<not> c"
  proof
    assume c
    with r have "round alg can names True s1 = (Inr False, s')" by simp
    from round_progress_mono [OF try_thread_inv [OF Cons.prems(1) t] this] show False .
  qed
  with t have "try_thread alg can name st = (Inr False, s1)" by simp
  then have "s1 = st \<and> (\<forall>e. map_of (active st) name = Some e \<longrightarrow> stuck can (world st) e)"
    by (cases rule: try_thread_cases [OF Cons.prems(1)]) (auto simp: stuck_iff)
  with Cons.IH [of st] Cons.prems(1) r \<open>\<not> c\<close> show ?case by auto
qed simp

lemma round_stuck:
  assumes "\<forall>name\<in>set names. \<forall>e. map_of (active st) name = Some e \<longrightarrow> stuck can (world st) e"
  shows "round alg can names p st = (Inr p, st)"
  using assms
proof (induction names)
  case (Cons name names)
  have "try_thread alg can name st = (Inr False, st)"
    using Cons.prems by (auto simp: try_thread_def stuck_iff split: option.splits)
  with Cons.IH Cons.prems show ?case by (simp add: sbind_def)
qed simp

lemma fair_order_mset: "mset (get_fair_thread_order st) = mset (map fst (active st))"
proof -
  have "mset (get_fair_thread_order st) =
      image_mset snd (mset (map (\<lambda>name. (last_run_of st name, name)) (map fst (active st))))"
    by (simp only: get_fair_thread_order_def mset_map mset_sort)
  then show ?thesis by (simp add: multiset.map_comp comp_def)
qed

lemma set_fair_order [simp]: "set (get_fair_thread_order st) = fst ` set (active st)"
  by (metis fair_order_mset list.set_map set_mset_mset)

lemma set_candidates [simp]: "set (candidates alg st) = fst ` set (active st)"
  by (cases alg) (simp_all add: candidates_def)

lemma all_stuck_iff:
  assumes "sched_inv st"
  shows "(\<forall>name\<in>fst ` set (active st). \<forall>e. map_of (active st) name = Some e \<longrightarrow> stuck can w e)
     \<longleftrightarrow> (\<forall>e\<in>snd ` set (active st). stuck can w e)"
proof -
  have "map_of (active st) name = Some e \<longleftrightarrow> (name, e) \<in> set (active st)" for name e
    using assms by (simp add: sched_inv_def)
  then show ?thesis by force
qed

text \<open>The deadlock test is exact.\<close>

lemma round_idle_iff:
  assumes "sched_inv st"
  shows "(\<exists>s'. round alg can (candidates alg st) False st = (Inr False, s'))
     \<longleftrightarrow> (\<forall>e\<in>snd ` set (active st). stuck can (world st) e)"
proof
  assume "\<exists>s'. round alg can (candidates alg st) False st = (Inr False, s')"
  then obtain s' where "round alg can (candidates alg st) False st = (Inr False, s')" ..
  from conjunct2 [OF round_idle [OF assms this]]
  show "\<forall>e\<in>snd ` set (active st). stuck can (world st) e"
    by (simp only: set_candidates all_stuck_iff [OF assms])
next
  assume "\<forall>e\<in>snd ` set (active st). stuck can (world st) e"
  then have "\<forall>name\<in>set (candidates alg st). \<forall>e. map_of (active st) name = Some e \<longrightarrow>
      stuck can (world st) e"
    by (simp only: set_candidates all_stuck_iff [OF assms])
  from round_stuck [OF this]
  show "\<exists>s'. round alg can (candidates alg st) False st = (Inr False, s')" ..
qed

section \<open>The main loop ends\<close>

definition greenlets :: "('w, 'o) sched \<Rightarrow> ('w, 'o) greenlet multiset" where
  "greenlets st = mset (map (\<lambda>p. e_greenlet (snd p)) (active st))"

lemma mset_delete_split:
  assumes "distinct (map fst al)" and "map_of al k = Some v"
  shows "mset al = add_mset (k, v) (mset (AList.delete k al))"
  using assms
proof (induction al)
  case (Cons p al)
  show ?case
  proof (cases "fst p = k")
    case True
    with Cons.prems have "p = (k, v)" "AList.delete k al = al"
      by (cases p; force)+
    with True show ?thesis by (simp add: AList.delete_eq)
  next
    case False
    with Cons show ?thesis by (cases p) (auto simp: AList.delete_eq)
  qed
qed simp

lemma mset_update_split:
  assumes "distinct (map fst al)" and "map_of al k = Some v"
  shows "mset (AList.update k v' al) = add_mset (k, v') (mset (AList.delete k al))"
proof -
  have "mset (AList.update k v' al) = add_mset (k, v') (mset (AList.delete k (AList.update k v' al)))"
    by (rule mset_delete_split) (simp_all add: AList.distinct_update assms AList.update_conv')
  then show ?thesis by (simp add: AList.delete_update_same)
qed

lemma stepped_decreases:
  assumes inv: "sched_inv st" and "stepped can name st s'"
  shows "(greenlets s', greenlets st) \<in> mult greenlet_order"
proof -
  from inv have d: "distinct (map fst (active st))" by (simp add: sched_inv_def)
  from assms(2) obtain e where e: "map_of (active st) name = Some e"
    and act: "active s' = AList.delete name (active st) \<or>
        (\<exists>e'. active s' = AList.update name e' (active st) \<and> after (e_greenlet e) (e_greenlet e'))"
    by (auto simp: stepped_def)
  let ?rest = "image_mset (\<lambda>p. e_greenlet (snd p)) (mset (AList.delete name (active st)))"
  have st: "greenlets st = ?rest + {#e_greenlet e#}"
    using mset_delete_split [OF d e] by (simp add: greenlets_def)
  show ?thesis
    using act
  proof
    assume "active s' = AList.delete name (active st)"
    then have "greenlets s' = ?rest + {#}" by (simp add: greenlets_def)
    then show ?thesis unfolding st by (simp only:) (rule one_step_implies_mult; simp)
  next
    assume "\<exists>e'. active s' = AList.update name e' (active st) \<and> after (e_greenlet e) (e_greenlet e')"
    then obtain e' where "active s' = AList.update name e' (active st)"
      and a: "after (e_greenlet e) (e_greenlet e')" by blast
    then have "greenlets s' = ?rest + {#e_greenlet e'#}"
      using mset_update_split [OF d e, of e'] by (simp add: greenlets_def)
    then show ?thesis unfolding st by (simp only:) (rule one_step_implies_mult; simp add: a)
  qed
qed

lemma round_decreases:
  assumes "sched_inv st" and "round alg can names False st = (Inr True, s')"
  shows "(greenlets s', greenlets st) \<in> mult greenlet_order"
proof -
  have gen: "(greenlets s', greenlets st) \<in> (mult greenlet_order)\<^sup>= \<and>
      (q \<and> \<not> p \<longrightarrow> (greenlets s', greenlets st) \<in> mult greenlet_order)"
    if "sched_inv st" "round alg can names p st = (Inr q, s')" for names p q st s'
    using that
  proof (induction names arbitrary: p st)
    case (Cons name names)
    then obtain c s1 where t: "try_thread alg can name st = (Inr c, s1)"
      and r: "round alg can names (p \<or> c) s1 = (Inr q, s')"
      by (auto simp: sbind_eq_Inr)
    note IH = Cons.IH [OF try_thread_inv [OF Cons.prems(1) t] r]
    show ?case
    proof (cases rule: try_thread_cases [OF Cons.prems(1) t])
      case 5
      from 5(2) have dec: "(greenlets s1, greenlets st) \<in> mult greenlet_order"
        by (rule stepped_decreases [OF Cons.prems(1)])
      have tr: "trans (mult greenlet_order)" by (simp add: mult_def)
      have "(greenlets s', greenlets st) \<in> mult greenlet_order"
      proof (cases "greenlets s' = greenlets s1")
        case False
        with conjunct1 [OF IH] have "(greenlets s', greenlets s1) \<in> mult greenlet_order" by blast
        from transD [OF tr this dec] show ?thesis .
      qed (simp add: dec)
      then show ?thesis by blast
    qed (use IH in auto)
  qed simp
  from gen [OF assms] show ?thesis by simp
qed

lemma main_loop_ends:
  assumes "sched_inv st"
  shows "\<exists>r s'. main_loop alg can st = Some (r, s')"
  using assms
proof (induction "greenlets st" arbitrary: st rule: wf_induct_rule [OF wf_mult [OF wf_greenlet_order]])
  case 1
  obtain q s1 where r: "round alg can (candidates alg st) False st = (q, s1)"
    by (cases "round alg can (candidates alg st) False st")
  show ?case
  proof (cases q)
    case (Inl x)
    with r show ?thesis by (subst main_loop.simps) auto
  next
    case (Inr progress)
    with r have r: "round alg can (candidates alg st) False st = (Inr progress, s1)" by simp
    show ?thesis
    proof (cases progress)
      case True
      with r have "(greenlets s1, greenlets st) \<in> mult greenlet_order"
        using round_decreases [OF 1(2)] by simp
      then obtain r' s' where "main_loop alg can s1 = Some (r', s')"
        using 1(1) round_inv [OF 1(2) r] by blast
      with r True show ?thesis by (subst main_loop.simps) auto
    next
      case False
      with r round_idle [OF 1(2)] have "s1 = st" by simp
      with r False show ?thesis by (subst main_loop.simps) auto
    qed
  qed
qed

section \<open>Outcomes of the main loop\<close>

lemma round_error:
  assumes "sched_inv st" and "round alg can names p st = (Inl x, s')"
  shows "(\<exists>name\<in>set names. \<exists>y. x = thread_error name y) \<or> (\<exists>obj operation w. can obj operation w = Some (Inl x))"
  using assms
proof (induction names arbitrary: p st)
  case (Cons name names)
  obtain b s1 where t: "try_thread alg can name st = (b, s1)"
    by (cases "try_thread alg can name st")
  show ?case
  proof (cases rule: try_thread_cases [OF Cons.prems(1) t])
    case (3 e y)
    with Cons.prems(2) t have "is_blocked can e (world st) = Inl x" by simp
    then show ?thesis by (auto simp: is_blocked_def split: option.splits sum.splits)
  next
    case (4 e y)
    with Cons.prems(2) t show ?thesis by auto
  next
    case 1
    with Cons t show ?thesis by (auto dest!: Cons.IH [OF Cons.prems(1)])
  next
    case (2 e)
    with Cons t show ?thesis by (auto dest!: Cons.IH [OF Cons.prems(1)])
  next
    case 5
    with Cons.prems(2) t have r: "round alg can names (p \<or> True) s1 = (Inl x, s')" by simp
    from 5(1) t have "try_thread alg can name st = (Inr True, s1)" by simp
    from Cons.IH [OF try_thread_inv [OF Cons.prems(1) this] r] show ?thesis by auto
  qed
qed simp

definition loop_end ::
    "('a globals_scheme, 'o) can_method \<Rightarrow> unit result \<Rightarrow> ('a globals_scheme, 'o) sched \<Rightarrow> bool" where
  "loop_end can r s' \<longleftrightarrow>
     (case r of
        Inr _ \<Rightarrow> active s' = []
      | Inl x \<Rightarrow>
          (x = deadlock \<and> active s' \<noteq> [] \<and> (\<forall>e\<in>snd ` set (active s'). stuck can (world s') e)) \<or>
          (\<exists>name y. x = thread_error name y) \<or> (\<exists>obj operation w. can obj operation w = Some (Inl x)))"

lemma main_loop_outcome:
  assumes "sched_inv st" and "P st" and "main_loop alg can st = Some (r, s')"
    and step: "\<And>name s b s1. sched_inv s \<Longrightarrow> P s \<Longrightarrow>
        try_thread alg can name s = (b, s1) \<Longrightarrow> P s1"
  shows "P s' \<and> loop_end can r s'"
  using assms(1-3)
proof (induction "greenlets st" arbitrary: st rule: wf_induct_rule [OF wf_mult [OF wf_greenlet_order]])
  case 1
  obtain q s1 where r: "round alg can (candidates alg st) False st = (q, s1)"
    by (cases "round alg can (candidates alg st) False st")
  have P1: "P s1"
    using 1(2,3) r by (rule round_keeps) (rule step, simp_all)
  show ?case
  proof (cases "active st = []")
    case True
    with 1(4) have "r = Inr () \<and> s' = st" by (subst (asm) main_loop.simps) simp
    with True 1(3) show ?thesis by (simp add: loop_end_def)
  next
    case act: False
    show ?thesis
    proof (cases q)
      case (Inl x)
      with act r 1(4) have "r = Inl x \<and> s' = s1" by (subst (asm) main_loop.simps) simp
      with round_error [OF 1(2) r [unfolded Inl]] P1 show ?thesis by (auto simp: loop_end_def)
    next
      case (Inr progress)
      with r have r: "round alg can (candidates alg st) False st = (Inr progress, s1)" by simp
      show ?thesis
      proof (cases progress)
        case True
        with r have "(greenlets s1, greenlets st) \<in> mult greenlet_order"
          using round_decreases [OF 1(2)] by simp
        moreover have "main_loop alg can s1 = Some (r, s')"
          using act r True 1(4) by (subst (asm) main_loop.simps) simp
        ultimately show ?thesis using 1(1) round_inv [OF 1(2) r] P1 by blast
      next
        case False
        with r have idle: "round alg can (candidates alg st) False st = (Inr False, s1)" by simp
        from round_idle [OF 1(2) idle] have s1: "s1 = st" by simp
        have "r = Inl deadlock \<and> s' = st"
          using act r False 1(4) s1 by (subst (asm) main_loop.simps) simp
        moreover have "\<forall>e\<in>snd ` set (active st). stuck can (world st) e"
          using round_idle_iff [OF 1(2), of alg can] idle by blast
        ultimately show ?thesis using act 1(3) by (simp add: loop_end_def)
      qed
    qed
  qed
qed

section \<open>Threads are neither lost nor invented\<close>

definition all_names :: "('w, 'o) sched \<Rightarrow> string multiset" where
  "all_names st = mset (map fst (active st)) + mset (completed st)"

lemma stepped_names:
  assumes "sched_inv st" and "stepped can name st s'"
  shows "all_names s' = all_names st"
proof -
  from assms(1) have d: "distinct (map fst (active st))" by (simp add: sched_inv_def)
  from assms(2) obtain e where e: "map_of (active st) name = Some e"
    and act: "active s' = AList.delete name (active st) \<and> completed s' = completed st @ [name] \<or>
        (\<exists>e'. active s' = AList.update name e' (active st)) \<and> completed s' = completed st"
    by (auto simp: stepped_def)
  have a: "mset (map fst (active st)) = add_mset name (image_mset fst (mset (AList.delete name (active st))))"
    using mset_delete_split [OF d e] by simp
  show ?thesis
    using act
  proof
    assume "active s' = AList.delete name (active st) \<and> completed s' = completed st @ [name]"
    with a show ?thesis by (simp add: all_names_def)
  next
    assume "(\<exists>e'. active s' = AList.update name e' (active st)) \<and> completed s' = completed st"
    then obtain e' where "active s' = AList.update name e' (active st)"
      and "completed s' = completed st" by blast
    with a mset_update_split [OF d e, of e'] show ?thesis by (simp add: all_names_def)
  qed
qed

lemma try_thread_names:
  assumes "sched_inv s" and "try_thread alg can name s = (b, s1)"
  shows "all_names s1 = all_names s"
proof (cases rule: try_thread_cases [OF assms])
  case 5
  then show ?thesis by (intro stepped_names [OF assms(1)])
qed (simp_all add: all_names_def)

lemma try_thread_context:
  assumes "sched_inv s" and "current_thread_type (world s) = None \<and> current_name s = None"
    and "try_thread alg can name s = (b, s1)"
  shows "current_thread_type (world s1) = None \<and> current_name s1 = None"
  using assms(2) by (cases rule: try_thread_cases [OF assms(1,3)]) (auto simp: stepped_def)

section \<open>The initialization phase\<close>

text \<open>A thread that ran in the initialization phase.\<close>

lemma init_thread_cases:
  assumes inv: "sched_inv st" and run: "init_thread can name st = (r, s')"
  obtains
    (absent) "map_of (active st) name = None" "r = Inl (KeyError name)" "s' = st"
  | (blocked) e where "map_of (active st) name = Some e" "blocking_obj e \<noteq> None"
      "r = Inl (RuntimeError ''Thread is already blocked at init phase start'')" "s' = st"
  | (raised) e x where "map_of (active st) name = Some e" "r = Inl (thread_error name x)"
      "current_name s' = None" "current_thread_type (world s') = None" "all_names s' = all_names st"
  | (finished) e where "map_of (active st) name = Some e" "blocking_obj e = None" "r = Inr ()"
      "sched_inv s'" "current_thread_type (world s') = None"
      "active s' = AList.delete name (active st)" "completed s' = completed st @ [name, name]"
  | (switched) e e' where "map_of (active st) name = Some e" "blocking_obj e = None" "r = Inr ()"
      "sched_inv s'" "current_thread_type (world s') = None"
      "active s' = AList.update name e' (active st)" "completed s' = completed st"
      "blocking_obj e' \<noteq> None"
proof (cases "map_of (active st) name")
  case None
  with run have "r = Inl (KeyError name) \<and> s' = st" by (simp add: init_thread_def)
  with None show ?thesis by (intro that(1)) simp_all
next
  case (Some e)
  note ent = inv_entry [OF inv Some]
  show ?thesis
  proof (cases "blocking_obj e = None")
    case False
    with Some run
    have "r = Inl (RuntimeError ''Thread is already blocked at init phase start'') \<and> s' = st"
      by (auto simp: init_thread_def)
    with Some False show ?thesis by (intro that(2)) simp_all
  next
    case free: True
    define s0 where "s0 = with_thread_type (Some (e_thread_type e)) (st\<lparr>current_name := Some name\<rparr>)"
    obtain q s1 where sw: "switch Fair can name (e_greenlet e) s0 = (q, s1)"
      by (cases "switch Fair can name (e_greenlet e) s0")
    have "ran (after (e_greenlet e)) name s0 q s1"
      by (rule switch_ran [OF _ _ _ ent(2) sw, where e = e]) (use ent(3) Some in \<open>simp_all add: s0_def\<close>)
    note R = this [unfolded ran_def]
    have d: "distinct (map fst (active st))" using inv by (simp add: sched_inv_def)
    show ?thesis
    proof (cases q)
      case (Inl x)
      with run Some free sw
      have "r = Inl (thread_error name x)" "s' = with_thread_type None (s1\<lparr>current_name := None\<rparr>)"
        by (simp_all add: init_thread_def s0_def)
      moreover have "all_names s1 = all_names st"
        using R Inl by (simp add: all_names_def s0_def)
      ultimately show ?thesis
        using Some by (intro that(3) [of e x]) (simp_all add: all_names_def)
    next
      case q: (Inr dead)
      define s2 where "s2 = (if dead then mark_completed name s1
                           else if has_made_progress s1 name = Some True
                           then s1\<lparr>timestamp := timestamp s1 + 1,
                                   last_run := (last_run s1)(name \<mapsto> timestamp s1 + 1)\<rparr>
                           else s1)"
      with q run Some free sw have r: "r = Inr ()" and s': "s' = with_thread_type None s2"
        by (simp_all add: init_thread_def s0_def Let_def)
      have mp: "dom (has_made_progress s') = dom (has_made_progress st)"
        using R by (simp add: s' s2_def mark_completed_def s0_def)
      have lr: "\<forall>n t. last_run s' n = Some t \<longrightarrow> t \<le> timestamp s'"
        using R inv q by (cases dead) (auto simp: s' s2_def mark_completed_def s0_def sched_inv_def
            intro: le_SucI split: if_splits)
      have prog: "\<And>n. n \<in> fst ` set (active st) \<Longrightarrow> has_made_progress s' n \<noteq> None"
        using inv mp by (fastforce simp: sched_inv_def)
      have ok: "\<forall>e\<in>snd ` set (active st). entry_ok e" using inv by (simp add: sched_inv_def)
      show ?thesis
      proof (cases dead)
        case True
        with R q have a: "active s' = AList.delete name (active st)"
          and c: "completed s' = completed st @ [name, name]"
          by (simp_all add: s' s2_def mark_completed_def s0_def AList.delete_idem)
        have "sched_inv s'"
          using lr ok d set_delete_le [of name "active st"] prog AList.distinct_delete [OF d, of name]
          unfolding sched_inv_def a by (meson image_mono subset_iff)
        with r a c Some free show ?thesis by (intro that(4) [of e]) (simp_all add: s')
      next
        case False
        with R q obtain e' where a: "active s' = AList.update name e' (active st)"
          and c: "completed s' = completed st" and e': "entry_ok e'" "blocking_obj e' \<noteq> None"
          by (auto simp: s' s2_def s0_def)
        have "fst ` set (AList.update name e' (active st)) = fst ` set (active st)"
          using Some by (force simp: AList.dom_update dest: map_of_SomeD)
        then have "sched_inv s'"
          using lr entries_update [OF ok e'(1)] prog AList.distinct_update [OF d]
          unfolding sched_inv_def a by simp
        with r a c e' Some free show ?thesis by (intro that(5) [of e e']) (simp_all add: s')
      qed
    qed
  qed
qed

text \<open>What the phase keeps: the invariant, and the threads as a set.\<close>

definition name_set :: "('w, 'o) sched \<Rightarrow> string set" where
  "name_set st = fst ` set (active st) \<union> set (completed st)"

lemma name_set_eq: "name_set st = set_mset (all_names st)"
  by (simp add: name_set_def all_names_def)

lemma init_thread_keeps:
  assumes "sched_inv st" and "init_thread can name st = (r, s')"
  shows "name_set s' = name_set st"
    and "current_thread_type (world st) = None \<Longrightarrow> current_thread_type (world s') = None"
    and "r = Inr () \<Longrightarrow> sched_inv s'"
proof -
  have mem: "name \<in> fst ` set (active st)" if "map_of (active st) name = Some e" for e
    using that by (force dest: map_of_SomeD)
  have del: "fst ` set (AList.delete n al) = fst ` set al - {n}" for n and al :: "(string \<times> 'x) list"
    by (auto simp: AList.delete_eq)
  show "name_set s' = name_set st"
  proof (cases rule: init_thread_cases [OF assms])
    case (3 e x)
    then show ?thesis by (simp add: name_set_eq)
  next
    case (4 e)
    with mem [OF 4(1)] show ?thesis
      by (simp only: name_set_def AList.delete_keys [THEN arg_cong [where f = set], simplified]
          set_append) (auto simp: AList.delete_eq)
  next
    case (5 e e')
    with mem [OF 5(1)] show ?thesis
      by (simp add: name_set_def AList.dom_update insert_absorb)
  qed simp_all
  show "current_thread_type (world st) = None \<Longrightarrow> current_thread_type (world s') = None"
    by (cases rule: init_thread_cases [OF assms]) simp_all
  show "r = Inr () \<Longrightarrow> sched_inv s'"
    by (cases rule: init_thread_cases [OF assms]) simp_all
qed

lemma init_threads_keep:
  assumes "sched_inv st" and "sfor (init_thread can) names st = (r, s')"
  shows "name_set s' = name_set st \<and>
    (current_thread_type (world st) = None \<longrightarrow> current_thread_type (world s') = None) \<and>
    (r = Inr () \<longrightarrow> sched_inv s')"
  using assms
proof (induction names arbitrary: st)
  case (Cons name names)
  obtain b s1 where t: "init_thread can name st = (b, s1)"
    by (cases "init_thread can name st")
  note K = init_thread_keeps [OF Cons.prems(1) t]
  show ?case
  proof (cases b)
    case (Inl x)
    with Cons.prems(2) t K show ?thesis by (simp add: sbind_def)
  next
    case (Inr u)
    with Cons.prems(2) t have "sfor (init_thread can) names s1 = (r, s')"
      by (simp add: sbind_def)
    from Cons.IH [OF K(3) this] Inr K show ?thesis by simp
  qed
qed simp

lemma initialization_phase_keeps:
  assumes "sched_inv st" and "initialization_phase can st = (r, s')"
  shows "name_set s' = name_set st \<and>
    (current_thread_type (world st) = None \<longrightarrow> current_thread_type (world s') = None) \<and>
    (r = Inr () \<longrightarrow> sched_inv s' \<and> current_name s' = None)"
proof -
  obtain b s1 where t: "sfor (init_thread can) (map fst (active st)) st = (b, s1)"
    by (cases "sfor (init_thread can) (map fst (active st)) st")
  note K = init_threads_keep [OF assms(1) t]
  show ?thesis
  proof (cases b)
    case (Inl x)
    with assms(2) t have "r = Inl x" "s' = s1" by (simp_all add: initialization_phase_def sbind_def)
    with K show ?thesis by simp
  next
    case (Inr u)
    with assms(2) t have "r = Inr ()" "s' = s1\<lparr>current_name := None\<rparr>"
      by (simp_all add: initialization_phase_def sbind_def smodify_def)
    with K Inr show ?thesis by (simp add: name_set_def sched_inv_def)
  qed
qed

lemma run_cases:
  assumes "sched_inv st" and "run alg can st = Some (r, s')"
  obtains (init_raised) x where "alg = Fair" "r = Inl x" "initialization_phase can st = (Inl x, s')"
  | (looped) s1 where "sched_inv s1" "main_loop alg can s1 = Some (r, s')"
      "name_set s1 = name_set st"
      "current_thread_type (world st) = None \<and> current_name st = None \<Longrightarrow>
       current_thread_type (world s1) = None \<and> current_name s1 = None"
      "alg = Greedy \<Longrightarrow> s1 = st"
proof (cases alg)
  case Greedy
  with assms show ?thesis by (intro that(2) [of st]) (simp_all add: run_def)
next
  case Fair
  obtain b s1 where i: "initialization_phase can st = (b, s1)"
    by (cases "initialization_phase can st")
  note K = initialization_phase_keeps [OF assms(1) i]
  show ?thesis
  proof (cases b)
    case (Inl x)
    with Fair assms(2) i show ?thesis by (intro that(1) [of x]) (simp_all add: run_def)
  next
    case (Inr u)
    with Fair assms(2) i K show ?thesis by (intro that(2) [of s1]) (simp_all add: run_def)
  qed
qed

lemma main_loop_names:
  assumes "sched_inv st" and "main_loop alg can st = Some (r, s')"
  shows "all_names s' = all_names st"
proof -
  have "all_names s' = all_names st \<and> loop_end can r s'"
    using assms(1) refl assms(2)
    by (rule main_loop_outcome [where P = "\<lambda>s. all_names s = all_names st"])
      (simp add: try_thread_names)
  then show ?thesis ..
qed

section \<open>A resumed thread finds its operation ready\<close>

text \<open>
  The objects threads synchronize on: whether an operation can proceed does not depend on
  which thread asks. This is what makes the check of the scheduler before the switch and the
  check of \<open>block_if_needed\<close> after it agree.
\<close>

locale sync_objects =
  fixes can :: "('a globals_scheme, 'o) can_method"
  assumes can_thread_type: "can obj operation (set_current_thread_type t w) = can obj operation w"
begin

lemma recheck_passes:
  assumes "map_of (active st) name = Some e" and "sched_inv st"
    and "is_blocked can e (world st) = Inr False"
    and "e_greenlet e = Recheck obj operation l k"
    and "world s1 = set_current_thread_type t (world st)"
  shows "switch alg can name (e_greenlet e) s1 = run_co alg can name (k (world s1)) s1"
proof -
  have "blocking_obj e = Some obj \<and> blocked_op e = operation"
    using inv_entry(1) [OF assms(2,1)] assms(4) by (simp add: entry_ok.simps)
  with assms(3) have "can obj operation (world st) = Some (Inr True)"
    by (auto simp: is_blocked_def split: option.splits sum.splits)
  then show ?thesis using assms(4,5) by (simp add: switch_def can_thread_type)
qed

end

definition no_resume :: "('w, 'o) sched \<Rightarrow> bool" where
  "no_resume st \<longleftrightarrow> (\<forall>e\<in>snd ` set (active st). \<forall>k. e_greenlet e \<noteq> Resume k)"

lemma no_resume_update:
  "no_resume st \<Longrightarrow> \<forall>k. e_greenlet e \<noteq> Resume k \<Longrightarrow> active s' = AList.update name e (active st) \<Longrightarrow> no_resume s'"
  unfolding no_resume_def by (simp only:) (rule entries_update)

lemma no_resume_delete: "no_resume st \<Longrightarrow> active s' = AList.delete name (active st) \<Longrightarrow> no_resume s'"
  unfolding no_resume_def using set_delete_le [of name "active st"] by fastforce

text \<open>Under the fair algorithm a thread always stops in front of its next check.\<close>

lemma run_co_fair:
  assumes "current_name st = Some name" and "no_resume st"
    and "run_co Fair can name c st = (r, s')"
  shows "no_resume s'"
proof (cases c)
  case (Ret w)
  with assms show ?thesis
    by (intro no_resume_delete [OF assms(2)]) (auto simp: mark_completed_def)
next
  case (Throw x w)
  with assms show ?thesis by (auto simp: no_resume_def)
next
  case (Sync obj operation l w k)
  define s1 where "s1 = st\<lparr>world := w\<rparr>"
  have nr: "no_resume s1" and cn: "current_name s1 = Some name"
    using assms(1,2) by (simp_all add: s1_def no_resume_def)
  have run: "(r, s') = (case can obj operation w of
        None \<Rightarrow> (Inl (AttributeError (''can_'' @ operation)), s1)
      | Some c \<Rightarrow> sbind mark_thread_progress (\<lambda>_.
               sbind (block_current_thread obj operation l (Recheck obj operation l k)) (\<lambda>_.
               sreturn False)) s1)"
    using assms(3) by (auto simp: Sync s1_def split: option.splits)
  have "preserves no_resume (sbind (block_current_thread obj operation l (Recheck obj operation l k))
      (\<lambda>_. sreturn False) :: (('a, 'b) sched, bool) state_op)"
    by (intro preserves_sbind preserves_basic)
      (auto simp: preserves_def block_current_thread_def split: option.splits
        intro!: no_resume_update [where s' = "s\<lparr>active := al\<rparr>" for s al])
  then have A: "\<And>_ :: unit. preserves no_resume (sbind (block_current_thread obj operation l
      (Recheck obj operation l k)) (\<lambda>_. sreturn False) :: (('a, 'b) sched, bool) state_op)" .
  have B: "preserves no_resume (mark_thread_progress :: (('a, 'b) sched, unit) state_op)"
    by (auto simp: preserves_def mark_thread_progress_def no_resume_def split: option.splits)
  have "preserves no_resume (sbind mark_thread_progress (\<lambda>_.
               sbind (block_current_thread obj operation l (Recheck obj operation l k)) (\<lambda>_.
               sreturn False)) :: (('a, 'b) sched, bool) state_op)"
    by (rule preserves_sbind [OF B A])
  note P = preservesD [OF this nr]
  show ?thesis
  proof (cases "can obj operation w")
    case None
    with run nr show ?thesis by simp
  next
    case (Some c)
    with run show ?thesis by (intro P [of r]) simp
  qed
qed

text \<open>In the main loop the second \<open>block_current_thread\<close> of \<open>block_if_needed\<close> is never reached.\<close>

context sync_objects
begin

lemma try_thread_no_resume:
  assumes "sched_inv st" and "no_resume st" and "try_thread Fair can name st = (r, s')"
  shows "no_resume s'"
proof (cases "map_of (active st) name")
  case None
  with assms show ?thesis by (simp add: try_thread_def)
next
  case (Some e)
  note ent = inv_entry [OF assms(1) Some]
  show ?thesis
  proof (cases "is_blocked can e (world st) = Inr False")
    case False
    with Some assms(2,3) show ?thesis
      by (auto simp: try_thread_def split: sum.splits bool.splits)
  next
    case free: True
    define s1 where "s1 = with_thread_type (Some (e_thread_type e))
        (st\<lparr>active := AList.update name (unblock e) (active st), current_name := Some name\<rparr>)"
    obtain q s2 where sw: "switch Fair can name (e_greenlet e) s1 = (q, s2)"
      by (cases "switch Fair can name (e_greenlet e) s1")
    have e_mem: "e \<in> snd ` set (active st)" using Some by (force dest: map_of_SomeD)
    have nr: "no_resume s1"
      by (rule no_resume_update [OF assms(2), of "unblock e"])
        (use assms(2) e_mem in \<open>auto simp: s1_def no_resume_def\<close>)
    have cn: "current_name s1 = Some name" by (simp add: s1_def)
    have "\<exists>c. run_co Fair can name c s1 = (q, s2)"
    proof (cases "e_greenlet e")
      case (Recheck obj operation l k)
      have "switch Fair can name (e_greenlet e) s1 = run_co Fair can name (k (world s1)) s1"
        by (rule recheck_passes [OF Some assms(1) free Recheck]) (simp add: s1_def)
      with sw show ?thesis by auto
    qed (use sw ent(2) assms(2) e_mem in \<open>auto simp: switch_def no_resume_def\<close>)
    then have "no_resume s2" using run_co_fair [OF cn nr] by blast
    then have nr2: "no_resume (with_thread_type None (s2\<lparr>current_name := None\<rparr>))"
      and nr3: "no_resume (mark_completed name (s2\<lparr>timestamp := t, last_run := l\<rparr>))"
      and nr4: "no_resume (s2\<lparr>timestamp := t, last_run := l\<rparr>)" for t l
      by (auto simp: no_resume_def mark_completed_def dest: subsetD [OF set_delete_le])
    show ?thesis
    proof (cases q)
      case (Inl x)
      with assms(3) Some free sw ent(2) have "s' = with_thread_type None (s2\<lparr>current_name := None\<rparr>)"
        by (simp add: try_thread_def s1_def Let_def)
      then show ?thesis by (simp only: nr2)
    next
      case (Inr dead)
      let ?s3 = "s2\<lparr>timestamp := timestamp s2 + 1, last_run := (last_run s2)(name \<mapsto> timestamp s2 + 1)\<rparr>"
      have keep: "no_resume (with_thread_type None (s\<lparr>current_name := None\<rparr>))" if "no_resume s"
        for s :: "('a globals_scheme, 'b) sched"
        using that by (simp add: no_resume_def)
      show ?thesis
      proof (cases "dead \<and> map_of (active s2) name \<noteq> None")
        case True
        with Inr assms(3) Some free sw ent(2)
        have "s' = with_thread_type None ((mark_completed name ?s3)\<lparr>current_name := None\<rparr>)"
          by (auto simp: try_thread_def s1_def Let_def)
        then show ?thesis by (simp only:) (intro keep nr3)
      next
        case False
        with Inr assms(3) Some free sw ent(2)
        have "s' = with_thread_type None (?s3\<lparr>current_name := None\<rparr>)"
          by (auto simp: try_thread_def s1_def Let_def)
        then show ?thesis by (simp only:) (intro keep nr4)
      qed
    qed
  qed
qed

end

section \<open>The fair order\<close>

lemma fair_order_sorted:
  "sorted (map (\<lambda>name. (last_run_of st name, name)) (get_fair_thread_order st))"
proof -
  let ?ps = "sort (map (\<lambda>name. (last_run_of st name, name)) (map fst (active st)))"
  have "map (\<lambda>name. (last_run_of st name, name)) (map snd ?ps) = ?ps"
    unfolding map_map by (rule map_idI) auto
  then show ?thesis by (simp add: get_fair_thread_order_def)
qed

lemma sorted_last_max:
  assumes "sorted xs" and "x \<in> set xs" and "\<forall>y\<in>set xs. y \<le> x"
  shows "last xs = x"
proof -
  have "xs \<noteq> []" using assms(2) by auto
  have "x \<le> last xs" using assms(1,2) by (induction xs) (auto split: if_splits)
  moreover have "last xs \<le> x" using assms(3) last_in_set [OF \<open>xs \<noteq> []\<close>] by blast
  ultimately show ?thesis by simp
qed

lemma stepped_goes_last:
  assumes "sched_inv st" and "stepped can name st s'" and "name \<in> fst ` set (active s')"
  shows "last (get_fair_thread_order s') = name"
proof -
  let ?f = "\<lambda>n. (last_run_of s' n, n)"
  from assms(2) have lr: "last_run s' = (last_run st)(name \<mapsto> Suc (timestamp st))"
    by (auto simp: stepped_def)
  have mx: "last_run_of s' n < last_run_of s' name" if "n \<noteq> name" for n
  proof -
    have "last_run_of s' n \<le> timestamp st"
      using assms(1) that by (auto simp: last_run_of_def lr sched_inv_def split: option.splits)
    then show ?thesis by (simp add: last_run_of_def lr)
  qed
  have "last (map ?f (get_fair_thread_order s')) = ?f name"
  proof (rule sorted_last_max [OF fair_order_sorted])
    show "?f name \<in> set (map ?f (get_fair_thread_order s'))" using assms(3) by simp
    show "\<forall>y\<in>set (map ?f (get_fair_thread_order s')). y \<le> ?f name"
      using mx by (fastforce simp: less_eq_prod_def)
  qed
  moreover have "get_fair_thread_order s' \<noteq> []"
    using assms(3) by (metis empty_iff list.set(1) set_fair_order)
  ultimately show ?thesis by (simp add: last_map)
qed

section \<open>The deadlock report\<close>

lemma core_ranges_cover:
  assumes "a \<le> b" and "sorted_wrt (<) (b # xs)"
  shows "concat (map (\<lambda>(x, y). [x..<Suc y]) (core_ranges a b xs)) = [a..<Suc b] @ xs"
  using assms
proof (induction a b xs rule: core_ranges.induct)
  case (2 a b x xs)
  then show ?case by (cases "x = b + 1") auto
qed simp

lemma core_ranges_hd: "a \<le> b \<Longrightarrow> core_ranges a b xs \<noteq> [] \<and> fst (hd (core_ranges a b xs)) = a"
  by (induction a b xs rule: core_ranges.induct) auto

lemma core_ranges_maximal:
  assumes "a \<le> b" and "sorted_wrt (<) (b # xs)"
  shows "successively (\<lambda>p q. Suc (snd p) < fst q) (core_ranges a b xs)"
  using assms
proof (induction a b xs rule: core_ranges.induct)
  case (2 a b x xs)
  show ?case
  proof (cases "x = b + 1")
    case True
    with 2 show ?thesis by simp
  next
    case False
    with 2 core_ranges_hd [of x x xs] show ?thesis
      by (cases "core_ranges x x xs") (auto simp: successively_Cons)
  qed
qed simp

text \<open>The names \<open>Program\<close> gives its threads.\<close>

definition core_thread_name :: "string \<Rightarrow> bool" where
  "core_thread_name name \<longleftrightarrow>
     (\<exists>n suffix. name = ''core'' @ show_nat n @ ''-'' @ suffix \<and> CHR ''-'' \<notin> set suffix)"

lemma core_id_of_dash:
  assumes "CHR ''-'' \<notin> set s"
  shows "core_id_of (p @ CHR ''-'' # s) = p"
proof -
  have "dropWhile (\<lambda>c. c \<noteq> CHR ''-'') (rev s @ CHR ''-'' # rev p) = CHR ''-'' # rev p"
    using assms by (subst dropWhile_append3) (auto simp: in_set_conv_nth intro: ccontr)
  then show ?thesis by (simp add: core_id_of_def)
qed

lemma core_id_of_thread:
  "core_thread_name name \<Longrightarrow> \<exists>n. core_id_of name = ''core'' @ show_nat n"
  using core_id_of_dash [of _ "''core'' @ show_nat n" for n] by (fastforce simp: core_thread_name_def)

lemma core_number_show: "core_number (''core'' @ show_nat n) = Inr n"
  using show_nat_digits [of n] show_nat_not_Nil [of n] by (simp add: core_number_def)

lemma cores_label_total:
  assumes "\<forall>x\<in>set ids. \<exists>n. x = ''core'' @ show_nat n"
  shows "\<exists>lab. cores_label ids = Inr lab"
proof -
  let ?u = "map snd (sort (map (\<lambda>x. (length x, x)) (remdups ids)))"
  have "set ?u = set ids" by (force simp: image_iff)
  then have "\<forall>x\<in>set ?u. \<exists>n. core_number x = Inr n"
    using assms core_number_show by metis
  then obtain g where "\<And>x. x \<in> set ?u \<Longrightarrow> core_number x = Inr (g x)" by metis
  then have "rmap core_number ?u = Inr (map g ?u)" by (rule rmap_all_Inr)
  then show ?thesis by (simp add: cores_label_def Let_def)
qed

lemma blocked_groups_ids:
  assumes "\<forall>(k, ids)\<in>set groups. \<forall>x\<in>set ids. Q x" and "\<forall>(n, e)\<in>set es. Q (core_id_of n)"
  shows "\<forall>(k, ids)\<in>set (blocked_groups d es groups). \<forall>x\<in>set ids. Q x"
  using assms
proof (induction d es groups rule: blocked_groups.induct)
  case (2 d name e es groups)
  define old where "old = (case map_of groups (group_key d e) of None \<Rightarrow> [] | Some ids \<Rightarrow> ids)"
  have "\<forall>x\<in>set (old @ [core_id_of name]). Q x"
    using 2 by (fastforce simp: old_def split: option.splits dest: map_of_SomeD)
  then have "\<forall>(k, ids)\<in>set (AList.update (group_key d e) (old @ [core_id_of name]) groups).
      \<forall>x\<in>set ids. Q x"
    using 2(2) set_update_le [of "group_key d e" "old @ [core_id_of name]" groups] by fastforce
  with 2 show ?case by (simp add: Let_def old_def)
qed simp

lemma deadlock_report_total:
  assumes "\<forall>name\<in>fst ` set (active st). core_thread_name name"
  shows "\<exists>ls. deadlock_report d st = Inr ls"
proof -
  have "\<forall>(k, ids)\<in>set (blocked_groups d (active st) []). \<forall>x\<in>set ids. \<exists>n. x = ''core'' @ show_nat n"
    using assms core_id_of_thread by (intro blocked_groups_ids) (simp, fastforce simp del: append.simps)
  then have "\<forall>g\<in>set (blocked_groups d (active st) []). \<exists>lab. cores_label (snd g) = Inr lab"
    using cores_label_total by fastforce
  then obtain lab where "\<And>g. g \<in> set (blocked_groups d (active st) []) \<Longrightarrow> cores_label (snd g) = Inr (lab g)"
    by metis
  then have "rmap (\<lambda>((operation, desc, location), ids).
             rbind (cores_label ids) (\<lambda>lab.
               Inr (''blocked on '' @ operation @ ''()'' @ desc @ location @ '' ('' @ lab @ '')'')))
       (blocked_groups d (active st) []) =
     Inr (map (\<lambda>g. ''blocked on '' @ fst (fst g) @ ''()'' @ fst (snd (fst g)) @
        snd (snd (fst g)) @ '' ('' @ lab g @ '')'') (blocked_groups d (active st) []))"
    by (intro rmap_all_Inr) (simp add: split_beta)
  then show ?thesis by (simp add: deadlock_report_def)
qed

end
