(* ===== verification/Schedprops.thy ===== *)
theory Schedprops
  imports Schedfacts
begin

text \<open>
  The properties of the scheduler, for schedulers built by \<open>add_thread\<close> from an empty one,
  from the facts of theory Schedfacts.
\<close>

definition with_threads ::
    "(string \<times> ('w \<Rightarrow> ('w, 'o) co) \<times> thread_type) list \<Rightarrow> 'w \<Rightarrow> ('w, 'o) sched" where
  "with_threads ts w = fold (\<lambda>(n, f, t). add_thread n f t) ts (init_sched w)"

lemma add_thread_frame [simp]:
  "completed (add_thread n f t st) = completed st" "world (add_thread n f t st) = world st"
  "current_name (add_thread n f t st) = current_name st"
  "fst ` set (active (add_thread n f t st)) = insert n (fst ` set (active st))"
  by (simp_all add: add_thread_def dom_update)

lemma with_threads_fold:
  "sched_inv st \<Longrightarrow> sched_inv (fold (\<lambda>(n, f, t). add_thread n f t) ts st)"
  "completed (fold (\<lambda>(n, f, t). add_thread n f t) ts st) = completed st"
  "world (fold (\<lambda>(n, f, t). add_thread n f t) ts st) = world st"
  "current_name (fold (\<lambda>(n, f, t). add_thread n f t) ts st) = current_name st"
  "fst ` set (active (fold (\<lambda>(n, f, t). add_thread n f t) ts st)) = fst ` set ts \<union> fst ` set (active st)"
  by (induction ts arbitrary: st) (simp_all add: sched_inv_add_thread split_def)

lemma with_threads_inv: "sched_inv (with_threads ts w)"
  by (simp add: with_threads_def with_threads_fold)

lemma with_threads_frame [simp]:
  "completed (with_threads ts w) = []" "world (with_threads ts w) = w"
  "current_name (with_threads ts w) = None"
  "name_set (with_threads ts w) = fst ` set ts"
  by (simp_all add: with_threads_def with_threads_fold init_sched_def name_set_def)

text \<open>The objects of the witnesses: a boolean that says whether the operation may proceed.\<close>

definition ready_can :: "bool \<Rightarrow> string \<Rightarrow> 'w \<Rightarrow> bool result option" where
  "ready_can b operation w = Some (Inr b)"

text \<open>A thread that synchronises once on such an object and returns.\<close>

definition sync_once :: "bool \<Rightarrow> 'w \<Rightarrow> ('w, bool) co" where
  "sync_once b w = Sync b ''wait'' None w Ret"

definition no_context :: globals where
  "no_context = \<lparr>current_thread_type = None\<rparr>"

section \<open>Termination and outcome\<close>

lemma run_outcome_from:
  assumes "sched_inv st" and "run alg can st = Some (r, s')" and "current_thread_type (world st) = None"
    and "current_name st = None"
  shows "(r = Inr () \<longrightarrow> active s' = [] \<and> set (completed s') = name_set st) \<and>
    (alg = Fair \<and> (\<exists>x. initialization_phase can st = (Inl x, s') \<and> r = Inl x) \<or> loop_end can r s') \<and>
    name_set s' = name_set st \<and> current_thread_type (world s') = None"
  using assms(1,2)
proof (cases rule: run_cases)
  case (init_raised x)
  with initialization_phase_keeps [OF assms(1) init_raised(3)] assms(3,4) show ?thesis by simp
next
  case (looped s1)
  have c: "current_thread_type (world s1) = None \<and> current_name s1 = None"
    using looped(4) assms(3,4) by simp
  note out = main_loop_outcome [where P = "\<lambda>s. current_thread_type (world s) = None \<and> current_name s = None",
      OF looped(1) c looped(2)]
  have "(current_thread_type (world s') = None \<and> current_name s' = None) \<and> loop_end can r s'"
    by (rule out) (rule try_thread_context)
  moreover have "name_set s' = name_set s1"
    using main_loop_names [OF looped(1,2)] by (simp add: name_set_eq)
  moreover have "active s' = []" if "loop_end can (Inr ()) s'" using that by (simp add: loop_end_def)
  ultimately show ?thesis using looped(3) by (auto simp: name_set_def)
qed

lemma run_ends:
  assumes "sched_inv st"
  shows "\<exists>r s'. run alg can st = Some (r, s')"
proof (cases "if alg = Fair then initialization_phase can st else (Inr (), st)")
  case (Pair r s1)
  show ?thesis
  proof (cases r)
    case (Inl e)
    with Pair show ?thesis by (simp add: run_def)
  next
    case (Inr u)
    have "sched_inv s1"
      using Pair Inr initialization_phase_keeps [OF assms, of can r s1] assms by (cases alg) auto
    from main_loop_ends [OF this] Pair Inr show ?thesis by (simp add: run_def)
  qed
qed

text \<open>
  The scheduler always comes to an end: whatever the thread functions are (each
  reaches finitely many synchronisation points on every path) and whatever their objects
  answer, \<open>run\<close> returns or raises, with either algorithm; it never spins.
\<close>

lemma run_always_ends: "\<exists>r s'. run alg can (with_threads ts w) = Some (r, s')"
  by (rule run_ends) (rule with_threads_inv)

text \<open>
  Property C2: what the end of a run means. A run that returns has no active thread left and
  every thread of the program is listed as completed. A run that raises raised in a thread
  (the error carries the thread's name), in a \<open>can_\<close> method, in the initialization phase, or
  reports a deadlock, and then every remaining thread is blocked on an operation that cannot
  proceed. Every thread is accounted for, and no thread context is left behind.
\<close>

theorem run_outcome:
  assumes "run alg can (with_threads ts w) = Some (r, s')" and "current_thread_type w = None"
  shows "(r = Inr () \<longrightarrow> active s' = [] \<and> set (completed s') = fst ` set ts) \<and>
    (alg = Fair \<and> (\<exists>x. initialization_phase can (with_threads ts w) = (Inl x, s') \<and> r = Inl x) \<or>
      loop_end can r s') \<and>
    fst ` set (active s') \<union> set (completed s') = fst ` set ts \<and>
    current_thread_type (world s') = None"
  using run_outcome_from [OF with_threads_inv assms(1)] assms(2)
  by (simp add: name_set_def [of s'])

theorem run_outcome_witness:
  "\<exists>s'. run Greedy ready_can (with_threads [(''core0-dm0'', sync_once True, DM)] no_context)
      = Some (Inr (), s') \<and> active s' = [] \<and> set (completed s') = {''core0-dm0''}"
proof -
  have "\<exists>s'. run Greedy ready_can (with_threads [(''core0-dm0'', sync_once True, DM)] no_context)
      = Some (Inr (), s')"
    by (simp add: run_def with_threads_def add_thread_def init_sched_def candidates_def
        main_loop.simps try_thread_def is_blocked_def switch_def sync_once_def ready_can_def
        mark_thread_progress_def with_thread_type_def mark_completed_def sbind_def Let_def)
  then obtain s' where "run Greedy ready_can (with_threads [(''core0-dm0'', sync_once True, DM)] no_context)
      = Some (Inr (), s')" ..
  with run_outcome [OF this] show ?thesis by (auto simp: no_context_def)
qed

text \<open>
  Property C18: the deadlock test is exact: a round of the main loop in which nobody ran happens
  exactly if every active thread is blocked on an operation whose \<open>can_\<close> method is missing or
  says no; such a round leaves the simulated state untouched, and the main loop then reports
  the deadlock at once.
\<close>

theorem deadlock_exact:
  assumes "sched_inv st" and "active st \<noteq> []"
  shows "((\<exists>s'. round alg can (candidates alg st) False st = (Inr False, s')) \<longleftrightarrow>
      (\<forall>e\<in>snd ` set (active st). stuck can (world st) e)) \<and>
    ((\<forall>e\<in>snd ` set (active st). stuck can (world st) e) \<longrightarrow>
      main_loop alg can st = Some (Inl deadlock, st))"
proof -
  note iff = round_idle_iff [OF assms(1), of alg can]
  have "main_loop alg can st = Some (Inl deadlock, st)"
    if "\<forall>e\<in>snd ` set (active st). stuck can (world st) e"
  proof -
    from that iff obtain s' where r: "round alg can (candidates alg st) False st = (Inr False, s')"
      by blast
    with round_idle [OF assms(1) r] assms(2) show ?thesis
      by (subst main_loop.simps) simp
  qed
  with iff show ?thesis by blast
qed

definition blocked_st :: "(globals, bool) sched" where
  "blocked_st = \<lparr>active = [(''core0-dm0'', \<lparr>e_greenlet = Resume Ret, blocking_obj = Some False,
       blocked_op = ''wait'', e_thread_type = DM, block_location = '''', raw_loc = None\<rparr>)],
     completed = [], current_name = None, last_run = [''core0-dm0'' \<mapsto> 0], timestamp = 0,
     has_made_progress = [''core0-dm0'' \<mapsto> False], world = no_context\<rparr>"

lemma blocked_st_inv: "sched_inv blocked_st"
  by (simp add: sched_inv_def blocked_st_def entry_ok.simps)

theorem deadlock_exact_witness:
  "main_loop Greedy ready_can blocked_st = Some (Inl deadlock, blocked_st)"
proof -
  have "active blocked_st \<noteq> []" and "\<forall>e\<in>snd ` set (active blocked_st). stuck ready_can (world blocked_st) e"
    by (auto simp: stuck_def blocked_st_def ready_can_def)
  with deadlock_exact [OF blocked_st_inv, of Greedy ready_can] show ?thesis by blast
qed

text \<open>
  With the greedy algorithm every thread of a program whose names are distinct
  completes exactly once in a run that returns.
\<close>

lemma greedy_completes_each_once:
  assumes "run Greedy can (with_threads ts w) = Some (Inr (), s')" and "distinct (map fst ts)"
  shows "mset (completed s') = mset (map fst ts)"
proof -
  have m: "main_loop Greedy can (with_threads ts w) = Some (Inr (), s')"
    using assms(1) by (simp add: run_def)
  have "loop_end can (Inr ()) s'"
    using main_loop_outcome [where P = "\<lambda>_. True", OF with_threads_inv TrueI m] by blast
  then have "active s' = []" by (simp add: loop_end_def)
  then have e: "mset (completed s') = mset (map fst (active (with_threads ts w)))"
    using main_loop_names [OF with_threads_inv m] by (simp add: all_names_def)
  have d: "distinct (map fst (active (with_threads ts w)))"
    using with_threads_inv [of ts w] by (simp add: sched_inv_def)
  have "set (map fst (active (with_threads ts w))) = set (map fst ts)"
    using with_threads_frame(4) [of ts w] by (simp add: name_set_def)
  with d assms(2) have "mset (map fst (active (with_threads ts w))) = mset (map fst ts)"
    by (metis set_eq_iff_mset_eq_distinct)
  with e show ?thesis by simp
qed

lemma greedy_completes_each_once_witness:
  "\<exists>s'. run Greedy ready_can (with_threads [(''b'', sync_once True, DM), (''a'', Ret, COMPUTE)] no_context)
      = Some (Inr (), s') \<and> mset (completed s') = {#''a'', ''b''#}"
proof -
  have "\<exists>s'. run Greedy ready_can
      (with_threads [(''b'', sync_once True, DM), (''a'', Ret, COMPUTE)] no_context) = Some (Inr (), s')"
    by (simp add: run_def with_threads_def add_thread_def init_sched_def candidates_def
        main_loop.simps try_thread_def is_blocked_def switch_def sync_once_def ready_can_def
        mark_thread_progress_def with_thread_type_def mark_completed_def sbind_def Let_def)
  then obtain s' where s: "run Greedy ready_can
      (with_threads [(''b'', sync_once True, DM), (''a'', Ret, COMPUTE)] no_context) = Some (Inr (), s')" ..
  from greedy_completes_each_once [OF s] s show ?thesis by (simp add: add_mset_commute)
qed

text \<open>
  In the initialization phase of the fair algorithm a thread that returns before
  its first synchronisation is recorded as completed twice: \<open>_mark_completed\<close> runs once in
  the greenlet's wrapper and once in the phase itself.
\<close>

lemma init_completes_twice:
  assumes "map_of (active st) name = Some e" and "e_greenlet e = Start k" and "blocking_obj e = None"
    and "\<And>w. k w = Ret w"
  shows "\<exists>s'. init_thread can name st = (Inr (), s') \<and> completed s' = completed st @ [name, name]"
  using assms
  by (simp add: init_thread_def switch_def mark_completed_def with_thread_type_def)

lemma init_completes_twice_witness:
  "\<exists>s'. init_thread ready_can ''a'' (with_threads [(''a'', Ret, DM)] no_context) = (Inr (), s') \<and>
     completed s' = [''a'', ''a'']"
proof -
  let ?st = "with_threads [(''a'', Ret, DM)] no_context :: (globals, bool) sched"
  have "map_of (active ?st) ''a'' = Some \<lparr>e_greenlet = Start Ret, blocking_obj = None,
      blocked_op = '''', e_thread_type = DM, block_location = '''', raw_loc = None\<rparr>"
    by (simp add: with_threads_def add_thread_def init_sched_def)
  from init_completes_twice [OF this, of Ret ready_can] show ?thesis by simp
qed

section \<open>Fairness\<close>

text \<open>
  Property C27: the fair order is a rotation: it lists every active thread once, by the time it
  last ran, and a thread that has just run and is still active goes to the end of it, so no
  other active thread is overtaken twice.
\<close>

theorem fair_rotation:
  assumes "sched_inv st" and "try_thread Fair can name st = (Inr True, s')"
    and "name \<in> fst ` set (active s')"
  shows "mset (get_fair_thread_order s') = mset (map fst (active s')) \<and>
    sorted (map (last_run_of s') (get_fair_thread_order s')) \<and>
    last (get_fair_thread_order s') = name"
proof -
  have "stepped can name st s'"
    using assms(1,2) by (cases rule: try_thread_cases) auto
  moreover have "sorted (map (last_run_of s') (get_fair_thread_order s'))"
    using fair_order_sorted [of s']
    by (auto simp: sorted_iff_nth_mono less_eq_prod_def) (metis less_imp_le)
  ultimately show ?thesis
    using fair_order_mset stepped_goes_last [OF assms(1) _ assms(3)] by blast
qed

theorem fair_rotation_witness:
  "\<exists>s'. try_thread Fair ready_can ''a''
      (with_threads [(''a'', sync_once False, DM), (''b'', sync_once False, DM)] no_context) = (Inr True, s') \<and>
     last (get_fair_thread_order s') = ''a''"
proof -
  let ?st = "with_threads [(''a'', sync_once False, DM), (''b'', sync_once False, DM)] no_context"
  have "\<exists>s'. try_thread Fair ready_can ''a'' ?st = (Inr True, s') \<and> ''a'' \<in> fst ` set (active s')"
    by (simp add: with_threads_def add_thread_def init_sched_def try_thread_def is_blocked_def
        switch_def sync_once_def ready_can_def mark_thread_progress_def with_thread_type_def
        block_current_thread_def sbind_def Let_def unblock_def)
  then obtain s' where s: "try_thread Fair ready_can ''a'' ?st = (Inr True, s')"
    "''a'' \<in> fst ` set (active s')" by blast
  from fair_rotation [OF with_threads_inv s] s(1) show ?thesis by blast
qed

section \<open>The deadlock report\<close>

text \<open>
  The core ranges of the deadlock report are exact and as short as possible: the
  printed ranges list the given core numbers in order, each once, and no two neighbouring
  ranges could be joined.
\<close>

lemma core_ranges_exact:
  assumes "ns \<noteq> []" and "distinct ns"
  shows "\<exists>rs. format_core_ranges ns = join '', '' (map show_range rs) \<and>
    concat (map (\<lambda>(x, y). [x..<Suc y]) rs) = sort ns \<and>
    successively (\<lambda>p q. Suc (snd p) < fst q) rs"
proof -
  have "sort ns \<noteq> []" using assms(1) by (metis length_0_conv length_sort)
  then obtain x xs where s: "sort ns = x # xs" by (cases "sort ns") auto
  have "sorted_wrt (<) (x # xs)"
    using assms(2) unfolding s [symmetric] by (simp add: strict_sorted_iff)
  from core_ranges_cover [OF order_refl this] core_ranges_maximal [OF order_refl this] s
  show ?thesis by (auto simp: format_core_ranges_def intro!: exI [of _ "core_ranges x x xs"])
qed

lemma core_ranges_exact_witness:
  "\<exists>rs. format_core_ranges [3, 1, 2, 7] = join '', '' (map show_range rs) \<and>
     concat (map (\<lambda>(x, y). [x..<Suc y]) rs) = [1, 2, 3, 7]"
  using core_ranges_exact [of "[3, 1, 2, 7]"] by (auto simp: eval_nat_numeral)

end
