(* ===== verification/Dfbchannel.thy ===== *)
theory Dfbchannel
  imports Dfb Fifo
begin

text \<open>
  The cycles in which the threads of a program use a dataflow buffer: reserve, store, push on
  the producer's side; wait, read, pop on the consumer's side. A buffer used in such cycles
  satisfies the contract of a bounded channel, and what a run over it delivers follows from
  that contract.
\<close>

section \<open>A buffer is a bounded channel\<close>

text \<open>
  The cycles of a compute thread: reserve a block, store the tiles, push it; wait for a block,
  read its tiles, use it as the source of a store (its mark), pop it.
\<close>

definition produce :: "'t torch \<Rightarrow> nat \<Rightarrow> 't list \<Rightarrow> (('t, 'z) sim_scheme, unit) state_op" where
  "produce T f xs =
     sbind (reserve_begin f) (\<lambda>_.
     sbind (reserve_finish T f) (\<lambda>b.
     sbind (store T b (Items_list xs) False) (\<lambda>_. block_push b)))"

definition consume :: "nat \<Rightarrow> (('t, 'z) sim_scheme, 't list) state_op" where
  "consume f =
     sbind (wait_begin f) (\<lambda>_.
     sbind (wait_finish f) (\<lambda>b.
     sbind (the_block b) (\<lambda>bl.
     sbind (slift (\<lambda>w. to_list w bl)) (\<lambda>xs.
     sbind (mark_block b Op_store_src) (\<lambda>_.
     sbind (block_pop b) (\<lambda>_. sreturn xs))))))"

definition idle_inv :: "nat \<Rightarrow> nat \<Rightarrow> ('t, 'z) sim_scheme \<Rightarrow> bool" where
  "idle_inv f n w \<longleftrightarrow>
     buffer_inv f w \<and> pending_reserved_block (dfbs w ! f) = None \<and>
     pending_waited_block (dfbs w ! f) = None \<and> current_thread_type w = Some COMPUTE \<and>
     tiles_of_op f w = n"

lemma buffer_inv_length: "buffer_inv f w \<Longrightarrow> f < length (dfbs w)"
  by (auto simp: buffer_inv_def buffer_at_def)

lemma begin_ok:
  assumes "buffer_inv f w"
  shows "pending_reserved_block (dfbs w ! f) = None \<Longrightarrow> reserve_begin f w = (Inr (), w)"
    and "pending_waited_block (dfbs w ! f) = None \<Longrightarrow> wait_begin f w = (Inr (), w)"
proof -
  obtain df a d s where "buffer_at f w df a d s" "dfbs w ! f = df"
    using buffer_invE [OF assms] by metis
  then show "pending_reserved_block (dfbs w ! f) = None \<Longrightarrow> reserve_begin f w = (Inr (), w)"
    "pending_waited_block (dfbs w ! f) = None \<Longrightarrow> wait_begin f w = (Inr (), w)"
    by (simp_all add: buffer_of_ok reserve_begin_def wait_begin_def)
qed

lemma buffer_bounded: "buffer_inv f w \<Longrightarrow> length (buffer_contents f w) \<le> buffer_capacity f w"
  by (erule buffer_invE) (auto simp: buffer_contents_def buffer_capacity_def ring_ok_def ring_inv_def)

lemma produce_ok:
  assumes inv: "idle_inv f n w" and len: "length xs = n"
    and room: "length (buffer_contents f w) + n \<le> buffer_capacity f w"
  shows "\<exists>w'. produce T f xs w = (Inr (), w') \<and> idle_inv f n w' \<and>
    buffer_contents f w' = buffer_contents f w @ xs \<and> buffer_capacity f w' = buffer_capacity f w"
proof -
  from inv have I: "buffer_inv f w" "pending_reserved_block (dfbs w ! f) = None"
    "pending_waited_block (dfbs w ! f) = None" "current_thread_type w = Some COMPUTE"
    "tiles_of_op f w = n" by (simp_all add: idle_inv_def)
  from reserve_finish_inv [OF I(1,2,4), of T] room I(5) obtain w1 b where
    w1: "reserve_finish T f w = (Inr b, w1)" "buffer_inv f w1" "b = length (blocks w)"
      "blocks w1 = blocks w @ [blocks w1 ! b]" "bdfb (blocks w1 ! b) = Some f"
      "(access_state (blocks w1 ! b), expected_ops (blocks w1 ! b)) = initial_state RESERVE COMPUTE"
      "dfbs w1 ! f = (dfbs w ! f)\<lparr>pending_reserved_block := Some b\<rparr>"
      "buffer_contents f w1 = buffer_contents f w" "buffer_capacity f w1 = buffer_capacity f w"
      "current_thread_type w1 = Some COMPUTE" by auto
  have b: "b < length (blocks w1)" using w1(3,4) by (metis length_append_singleton lessI)
  have n1: "tiles_of_op f w1 = n" using w1(7) I(5) by (simp add: tiles_of_op_def)
  have ex: "op_expected (Op_store False) \<in> expected_ops (blocks w1 ! b)" using w1(6) by simp
  from store_pending_inv [OF w1(2) _ ex, of xs T] w1(7) len n1 obtain w2 bl where
    w2: "store T b (Items_list xs) False w1 = (Inr (), w2)" "buffer_inv f w2"
      "mark (Op_store False) (blocks w1 ! b) = Inr bl" "blocks w2 = (blocks w1)[b := bl]"
      "dfbs w2 = dfbs w1" "buffer_contents f w2 = buffer_contents f w1"
      "buffer_capacity f w2 = buffer_capacity f w1" "pending (ring_of f w2) = map Some xs"
      "current_thread_type w2 = current_thread_type w1" by auto
  have ac: "acquisition (blocks w1 ! b) = RESERVE" "thread_type (blocks w1 ! b) = COMPUTE"
    using reserve_finish_inv [OF I(1,2,4), of T] room I(5) w1(1) by auto
  have "PUSH \<in> expected_ops bl"
    using w2(3) w1(6) ac by (auto simp: mark_transition_eq_Inr transition_tables simp del: mark.simps)
  with push_block_inv [OF w2(2), of b] w2(4,5) w1(7) b obtain w3 where
    w3: "push_block f w2 = (Inr (), w3)" "buffer_inv f w3"
      "dfbs w3 ! f = (dfbs w2 ! f)\<lparr>pending_reserved_block := None\<rparr>"
      "buffer_contents f w3 = buffer_contents f w2 @ map the (pending (ring_of f w2))"
      "buffer_capacity f w3 = buffer_capacity f w2"
      "current_thread_type w3 = current_thread_type w2" by auto
  have "bdfb bl = Some f" using mark_block_fields(7) [OF w2(3)] w1(5) by simp
  then have bp: "block_push b w2 = (Inr (), w3)"
    using w2(4) b w3(1) by (simp add: block_push_def)
  have "idle_inv f n w3"
    using w3 w2 w1 I by (simp add: idle_inv_def tiles_of_op_def)
  moreover have "produce T f xs w = (Inr (), w3)"
    using begin_ok(1) [OF I(1,2)] w1(1) w2(1) bp by (simp add: produce_def)
  ultimately show ?thesis using w3 w2 w1 by (simp add: comp_def)
qed

lemma produce_full:
  assumes inv: "idle_inv f n w" and full: "length (buffer_contents f w) + n > buffer_capacity f w"
  shows "\<exists>e w'. produce T f xs w = (Inl e, w') \<and> idle_inv f n w' \<and>
    buffer_contents f w' = buffer_contents f w \<and> buffer_capacity f w' = buffer_capacity f w"
proof -
  from inv have I: "buffer_inv f w" "pending_reserved_block (dfbs w ! f) = None"
    "pending_waited_block (dfbs w ! f) = None" "current_thread_type w = Some COMPUTE"
    "tiles_of_op f w = n" by (simp_all add: idle_inv_def)
  obtain df a d s where at: "buffer_at f w df a d s" and ok: "ring_ok (tiles_per_operation df) s"
    and pok: "pending_ok w df a d s" and e: "ring_of f w = s" "tiles_of_op f w = tiles_per_operation df"
    "dfbs w ! f = df" using buffer_invE [OF I(1)] .
  note B = buffer_at_facts [OF at]
  let ?s = "s\<lparr>producer_reserving := Some 0\<rparr>"
  let ?w = "update_dfb a d ?s w"
  have P: "reserved s = 0" "last_wait_target s = 0" using pok I(2,3) e by (simp_all add: pending_ok_def)
  have "reserve_back 0 n s = (Inl (DFBTimeoutError ''dfb_reserve_back timed out''), ?s)"
    using ring_ok_check [OF ok] ok full P e I(5)
    by (auto simp: reserve_back_def Let_def ring_ok_def free_def buffer_contents_def buffer_capacity_def)
  then have "dfb_reserve_back a d n w = (Inl (DFBTimeoutError ''dfb_reserve_back timed out''), ?w)"
    using ok e I(5) by (simp add: dfb_reserve_back_def on_dfb_ok [OF B(6,5)] ring_ok_def)
  then have "produce T f xs w = (Inl (DFBTimeoutError ''dfb_reserve_back timed out''), ?w)"
    using begin_ok(1) [OF I(1,2)] buffer_of_ok [OF at] e I(5)
    by (simp add: produce_def reserve_finish_def)
  moreover have at': "buffer_at f ?w df a d ?s" using B by (simp add: buffer_at_def)
  moreover have "items ?s = items s" by (simp add: items_def window_def)
  then have "ring_ok (tiles_per_operation df) ?s" "contents ?s = contents s"
    using ok by (simp_all add: ring_ok_def ring_inv_def contents_def)
  moreover have "pending_ok ?w df a d ?s"
    using P I(2,3) e by (simp add: pending_ok_def)
  ultimately show ?thesis
    using buffer_invI [of f ?w df a d ?s] I e
    by (auto simp: idle_inv_def buffer_contents_def buffer_capacity_def)
qed

lemma consume_ok:
  assumes inv: "idle_inv f n w" and enough: "n \<le> length (buffer_contents f w)"
  shows "\<exists>w'. consume f w = (Inr (take n (buffer_contents f w)), w') \<and> idle_inv f n w' \<and>
    buffer_contents f w' = drop n (buffer_contents f w) \<and> buffer_capacity f w' = buffer_capacity f w"
proof -
  from inv have I: "buffer_inv f w" "pending_reserved_block (dfbs w ! f) = None"
    "pending_waited_block (dfbs w ! f) = None" "current_thread_type w = Some COMPUTE"
    "tiles_of_op f w = n" by (simp_all add: idle_inv_def)
  from wait_finish_inv [OF I(1,3,4)] enough I(5) obtain w1 b where
    w1: "wait_finish f w = (Inr b, w1)" "buffer_inv f w1" "b = length (blocks w)"
      "blocks w1 = blocks w @ [blocks w1 ! b]" "acquisition (blocks w1 ! b) = WAIT"
      "bdfb (blocks w1 ! b) = Some f"
      "(access_state (blocks w1 ! b), expected_ops (blocks w1 ! b)) = initial_state WAIT COMPUTE"
      "thread_type (blocks w1 ! b) = COMPUTE"
      "dfbs w1 ! f = (dfbs w ! f)\<lparr>pending_waited_block := Some b\<rparr>"
      "buffer_contents f w1 = buffer_contents f w" "buffer_capacity f w1 = buffer_capacity f w"
      "current_thread_type w1 = Some COMPUTE"
      "to_list w1 (blocks w1 ! b) = Inr (take n (buffer_contents f w))" by auto
  have b: "b < length (blocks w1)" using w1(3,4) by (metis length_append_singleton lessI)
  obtain bl where mk: "mark Op_store_src (blocks w1 ! b) = Inr bl" and pop: "POP \<in> expected_ops bl"
    using w1(5,7,8) by (auto simp: mark_transition_eq_Inr transition_tables simp del: mark.simps)
  let ?w2 = "w1\<lparr>blocks := (blocks w1)[b := bl]\<rparr>"
  have m2: "mark_block b Op_store_src w1 = (Inr (), ?w2)"
    using mark_block_eq [OF b, of Op_store_src] mk by simp
  have i2: "buffer_inv f ?w2" by (rule mark_block_inv [OF w1(2) b mk])
  have r2: "ring_of f ?w2 = ring_of f w1" by (simp add: ring_of_def)
  from pop_block_inv [OF i2, of b COMPUTE] w1(9,12) b pop obtain w3 where
    w3: "pop_block f ?w2 = (Inr (), w3)" "buffer_inv f w3"
      "dfbs w3 ! f = (dfbs ?w2 ! f)\<lparr>pending_waited_block := None\<rparr>"
      "buffer_contents f w3 = drop (tiles_of_op f ?w2) (buffer_contents f ?w2)"
      "buffer_capacity f w3 = buffer_capacity f ?w2" "current_thread_type w3 = current_thread_type ?w2"
    by auto
  have "bdfb bl = Some f" using mark_block_fields(7) [OF mk] w1(6) by simp
  then have bp: "block_pop b ?w2 = (Inr (), w3)"
    using b w3(1) by (simp add: block_pop_def)
  have "tiles_of_op f ?w2 = n" using w1(9) I(5) by (simp add: tiles_of_op_def)
  then have c3: "buffer_contents f w3 = drop n (buffer_contents f w)"
    "buffer_capacity f w3 = buffer_capacity f w"
    using w3(4,5) w1(10,11) r2 by (simp_all add: buffer_contents_def buffer_capacity_def)
  have "idle_inv f n w3"
    using w3 w1 I by (simp add: idle_inv_def tiles_of_op_def)
  moreover have "consume f w = (Inr (take n (buffer_contents f w)), w3)"
    using begin_ok(2) [OF I(1,3)] w1(1,13) b m2 bp by (simp add: consume_def)
  ultimately show ?thesis using c3 by blast
qed

lemma consume_empty:
  assumes inv: "idle_inv f n w" and few: "length (buffer_contents f w) < n"
  shows "\<exists>e w'. consume f w = (Inl e, w') \<and> idle_inv f n w' \<and>
    buffer_contents f w' = buffer_contents f w \<and> buffer_capacity f w' = buffer_capacity f w"
proof -
  from inv have I: "buffer_inv f w" "pending_reserved_block (dfbs w ! f) = None"
    "pending_waited_block (dfbs w ! f) = None" "current_thread_type w = Some COMPUTE"
    "tiles_of_op f w = n" by (simp_all add: idle_inv_def)
  obtain df a d s where at: "buffer_at f w df a d s" and ok: "ring_ok (tiles_per_operation df) s"
    and pok: "pending_ok w df a d s" and e: "ring_of f w = s" "tiles_of_op f w = tiles_per_operation df"
    "dfbs w ! f = df" using buffer_invE [OF I(1)] .
  note B = buffer_at_facts [OF at]
  let ?s = "s\<lparr>consumer_waiting := Some 0, step := Some n\<rparr>"
  let ?w = "update_dfb a d ?s w"
  have P: "reserved s = 0" "last_wait_target s = 0" using pok I(2,3) e by (simp_all add: pending_ok_def)
  have "wait_front 0 n s = (Inl (DFBTimeoutError ''dfb_wait_front timed out''), ?s)"
    using ring_ok_check [OF ok] ok few P e I(5)
    by (auto simp: wait_front_def Let_def ring_ok_def buffer_contents_def)
  then have "dfb_wait_front a d n w = (Inl (DFBTimeoutError ''dfb_wait_front timed out''), ?w)"
    using ok e I(5) by (simp add: dfb_wait_front_def on_dfb_ok [OF B(6,5)] ring_ok_def)
  then have "consume f w = (Inl (DFBTimeoutError ''dfb_wait_front timed out''), ?w)"
    using begin_ok(2) [OF I(1,3)] buffer_of_ok [OF at] e I(5)
    by (simp add: consume_def wait_finish_def)
  moreover have at': "buffer_at f ?w df a d ?s" using B by (simp add: buffer_at_def)
  moreover have "items ?s = items s" by (simp add: items_def window_def)
  then have "ring_ok (tiles_per_operation df) ?s" "contents ?s = contents s"
    using ok e I(5) by (simp_all add: ring_ok_def ring_inv_def contents_def)
  moreover have "pending_ok ?w df a d ?s"
    using P I(2,3) e by (simp add: pending_ok_def)
  ultimately show ?thesis
    using buffer_invI [of f ?w df a d ?s] I e
    by (auto simp: idle_inv_def buffer_contents_def buffer_capacity_def)
qed

lemma idle_bounded: "idle_inv f n w \<Longrightarrow> length (buffer_contents f w) \<le> buffer_capacity f w"
  by (simp add: idle_inv_def buffer_bounded)

interpretation buffer: fifo "idle_inv f n" "buffer_contents f" "buffer_capacity f" n
  "produce T f" "consume f" for f n :: nat and T :: "'t torch"
  by unfold_locales (rule idle_bounded produce_ok produce_full consume_ok consume_empty; assumption)+

end
