(* ===== verification/Dfbprops.thy ===== *)
theory Dfbprops
  imports Dfbchannel
begin

text \<open>
  Properties of \<open>DataflowBuffer\<close>: what the \<open>can_\<close> methods the scheduler asks announce, the
  buffer as a channel between the threads of a core, and the allocation of buffer ids.
\<close>

section \<open>What \<open>can_wait\<close> and \<open>can_reserve\<close> announce\<close>

lemma wait_finish_times_out:
  assumes inv: "buffer_inv f w" and none: "pending_waited_block (dfbs w ! f) = None"
    and few: "length (buffer_contents f w) < tiles_of_op f w"
  shows "\<exists>w'. wait_finish f w = (Inl (DFBTimeoutError ''dfb_wait_front timed out''), w')"
proof -
  obtain df a d s where at: "buffer_at f w df a d s" and ok: "ring_ok (tiles_per_operation df) s"
    and pok: "pending_ok w df a d s" and e: "ring_of f w = s" "tiles_of_op f w = tiles_per_operation df"
    "dfbs w ! f = df" using buffer_invE [OF inv] .
  note B = buffer_at_facts [OF at]
  have P: "last_wait_target s = 0" using pok none e by (simp add: pending_ok_def)
  obtain s' where "wait_front 0 (tiles_per_operation df) s
      = (Inl (DFBTimeoutError ''dfb_wait_front timed out''), s')"
    using ring_ok_check [OF ok] ok few P e
    by (auto simp: wait_front_def Let_def ring_ok_def buffer_contents_def)
  then have "dfb_wait_front a d (tiles_per_operation df) w
      = (Inl (DFBTimeoutError ''dfb_wait_front timed out''), update_dfb a d s' w)"
    using ok by (simp add: dfb_wait_front_def on_dfb_ok [OF B(6,5)] ring_ok_def)
  then show ?thesis using buffer_of_ok [OF at] by (simp add: wait_finish_def)
qed

lemma reserve_finish_times_out:
  assumes inv: "buffer_inv f w" and none: "pending_reserved_block (dfbs w ! f) = None"
    and full: "length (buffer_contents f w) + tiles_of_op f w > buffer_capacity f w"
  shows "\<exists>w'. reserve_finish T f w = (Inl (DFBTimeoutError ''dfb_reserve_back timed out''), w')"
proof -
  obtain df a d s where at: "buffer_at f w df a d s" and ok: "ring_ok (tiles_per_operation df) s"
    and pok: "pending_ok w df a d s" and e: "ring_of f w = s" "tiles_of_op f w = tiles_per_operation df"
    "dfbs w ! f = df" using buffer_invE [OF inv] .
  note B = buffer_at_facts [OF at]
  have P: "reserved s = 0" using pok none e by (simp add: pending_ok_def)
  obtain s' where "reserve_back 0 (tiles_per_operation df) s
      = (Inl (DFBTimeoutError ''dfb_reserve_back timed out''), s')"
    using ring_ok_check [OF ok] ok full P e
    by (auto simp: reserve_back_def Let_def ring_ok_def free_def buffer_contents_def buffer_capacity_def)
  then have "dfb_reserve_back a d (tiles_per_operation df) w
      = (Inl (DFBTimeoutError ''dfb_reserve_back timed out''), update_dfb a d s' w)"
    using ok by (simp add: dfb_reserve_back_def on_dfb_ok [OF B(6,5)] ring_ok_def)
  then show ?thesis using buffer_of_ok [OF at] by (simp add: reserve_finish_def)
qed

lemma buffer_configured:
  assumes "buffer_inv f w"
  shows "\<exists>df a d s. buffer_at f w df a d s \<and> configured s \<and> tiles_of_op f w = tiles_per_operation df \<and>
    ring_of f w = s \<and> pending_ok w df a d s \<and> dfbs w ! f = df"
  using buffer_invE [OF assms] by (metis ring_ok_def ring_inv_def)

text \<open>
  \<open>can_wait\<close> tells the scheduler the truth: it changes nothing, and \<open>wait\<close> goes
  through exactly if it says yes. When it says yes, the block \<open>wait\<close> returns shows the
  oldest tiles of the buffer; when it says no, going on would end in a timeout.
\<close>

lemma can_wait_decides:
  assumes "buffer_inv f w" and "pending_waited_block (dfbs w ! f) = None"
    and "current_thread_type w = Some tt"
  shows "can_wait f w = (Inr (tiles_of_op f w \<le> length (buffer_contents f w)), w) \<and>
    (if tiles_of_op f w \<le> length (buffer_contents f w)
     then \<exists>b w'. wait_finish f w = (Inr b, w') \<and> buffer_inv f w' \<and>
        to_list w' (blocks w' ! b) = Inr (take (tiles_of_op f w) (buffer_contents f w))
     else \<exists>w'. wait_finish f w = (Inl (DFBTimeoutError ''dfb_wait_front timed out''), w'))"
proof -
  obtain df a d s where B: "buffer_at f w df a d s" "configured s"
    "tiles_of_op f w = tiles_per_operation df" "ring_of f w = s"
    using buffer_configured [OF assms(1)] by blast
  have c: "can_wait f w = (Inr (tiles_of_op f w \<le> length (buffer_contents f w)), w)"
    using can_wait_eq [OF B(1,2)] B(3,4) by (simp add: buffer_contents_def)
  show ?thesis
  proof (cases "tiles_of_op f w \<le> length (buffer_contents f w)")
    case True
    with wait_finish_inv [OF assms True] c show ?thesis by auto
  next
    case False
    with wait_finish_times_out [OF assms(1,2)] c show ?thesis by auto
  qed
qed

text \<open>
  \<open>can_reserve\<close> tells the scheduler the truth: \<open>reserve\<close> goes through exactly
  if it says yes, and gives a block in the initial state of its thread type while the visible
  tiles stay as they are; when it says no, going on would end in a timeout.
\<close>

lemma can_reserve_decides:
  assumes "buffer_inv f w" and "pending_reserved_block (dfbs w ! f) = None"
    and "current_thread_type w = Some tt"
  shows "can_reserve f w
      = (Inr (length (buffer_contents f w) + tiles_of_op f w \<le> buffer_capacity f w), w) \<and>
    (if length (buffer_contents f w) + tiles_of_op f w \<le> buffer_capacity f w
     then \<exists>b w'. reserve_finish T f w = (Inr b, w') \<and> buffer_inv f w' \<and>
        (access_state (blocks w' ! b), expected_ops (blocks w' ! b)) = initial_state RESERVE tt \<and>
        buffer_contents f w' = buffer_contents f w
     else \<exists>w'. reserve_finish T f w = (Inl (DFBTimeoutError ''dfb_reserve_back timed out''), w'))"
proof -
  obtain df a d s where B: "buffer_at f w df a d s" "configured s"
    "tiles_of_op f w = tiles_per_operation df" "ring_of f w = s" "pending_ok w df a d s" "dfbs w ! f = df"
    using buffer_configured [OF assms(1)] by blast
  have "reserved s = 0" using B(5,6) assms(2) by (simp add: pending_ok_def)
  then have c: "can_reserve f w
      = (Inr (length (buffer_contents f w) + tiles_of_op f w \<le> buffer_capacity f w), w)"
    using can_reserve_eq [OF B(1,2)] B(3,4)
    by (auto simp: buffer_contents_def buffer_capacity_def free_def)
  show ?thesis
  proof (cases "length (buffer_contents f w) + tiles_of_op f w \<le> buffer_capacity f w")
    case True
    with reserve_finish_inv [OF assms True, of T] c show ?thesis by auto
  next
    case False
    with reserve_finish_times_out [OF assms(1,2), of T] c show ?thesis by auto
  qed
qed

section \<open>Creating buffers\<close>

text \<open>An API object of the world whose ids are not used up.\<close>

definition api_ready :: "nat \<Rightarrow> ('t, 'z) heap_scheme \<Rightarrow> bool" where
  "api_ready a w \<longleftrightarrow> a < length (apis w) \<and> length (api_pool (apis w ! a)) = MAX_DFBS \<and>
     next_dfb_id (apis w ! a) < MAX_DFBS"

text \<open>Configuring creates the ring in a slot of the pool.\<close>

lemma lookup_update_new:
  assumes "a < length (apis w)" and "d < length (api_pool (apis w ! a))"
  shows "lookup_dfb (update_dfb a d s w) a d = Some s"
  using assms by (simp add: lookup_dfb_def update_dfb_def)

lemma update_twice:
  assumes "a < length (apis w)"
  shows "update_dfb a d s2 (update_dfb a d s1 w) = update_dfb a d s2 w"
  using assms by (simp add: update_dfb_def)

lemma host_reset_configured:
  "host_reset (configure_state n shp s) = (Inr (), configure_state n shp s)"
  by (simp add: host_reset_def configure_state_def reset_state_def)

definition fresh_dfb ::
    "'t \<Rightarrow> nat \<Rightarrow> nat \<Rightarrow> nat \<Rightarrow> nat \<Rightarrow> nat \<Rightarrow> string option \<Rightarrow> 't dfb_obj" where
  "fresh_dfb elem r c k a d name =
     \<lparr>element = elem, df_shape = [r, c], buffer_factor = k, df_api = Some a, df_id = Some d,
      pending_reserved_block = None, pending_waited_block = None, tiles_per_operation = r * c,
      capacity_tiles = r * c * k, df_stats_name = None, df_name = name\<rparr>"

definition with_new_dfb ::
    "nat \<Rightarrow> 't dfb_state \<Rightarrow> 't dfb_obj \<Rightarrow> ('t, 'z) sim_scheme \<Rightarrow> ('t, 'z) sim_scheme" where
  "with_new_dfb a s df w =
     (let d = next_dfb_id (apis w ! a) in
      (update_dfb a d s (w\<lparr>apis := (apis w)[a := (apis w ! a)\<lparr>next_dfb_id := d + 1\<rparr>]\<rparr>))
        \<lparr>dfbs := dfbs w @ [df]\<rparr>)"

lemma with_new_dfb_frame [simp]:
  "dfbs (with_new_dfb a s df w) = dfbs w @ [df]"
  "current_thread_type (with_new_dfb a s df w) = current_thread_type w"
  "length (apis (with_new_dfb a s df w)) = length (apis w)"
  "a < length (apis w) \<Longrightarrow>
    next_dfb_id (apis (with_new_dfb a s df w) ! a) = next_dfb_id (apis w ! a) + 1"
  "a < length (apis w) \<Longrightarrow>
    length (api_pool (apis (with_new_dfb a s df w) ! a)) = length (api_pool (apis w ! a))"
  by (simp_all add: with_new_dfb_def Let_def update_dfb_def)

lemma with_new_dfb_other:
  assumes "a' \<noteq> a \<or> d' \<noteq> next_dfb_id (apis w ! a)" and "a < length (apis w)"
  shows "lookup_dfb (with_new_dfb a s df w) a' d' = lookup_dfb w a' d'"
  using assms by (cases "a' = a") (simp_all add: with_new_dfb_def Let_def update_dfb_def lookup_dfb_def)

lemma with_new_dfb_new:
  assumes "api_ready a w"
  shows "lookup_dfb (with_new_dfb a s df w) a (next_dfb_id (apis w ! a)) = Some s"
  using assms by (simp add: with_new_dfb_def Let_def update_dfb_def lookup_dfb_def api_ready_def)

lemma new_dataflow_buffer_eq:
  assumes "api_ready a w" and "0 < r" "0 < c" "0 < k"
  shows "\<exists>s. new_dataflow_buffer elem [r, c] k (Some a) name w = (Inr (length (dfbs w)),
      with_new_dfb a s (fresh_dfb elem r c k a (next_dfb_id (apis w ! a)) name) w) \<and>
    chan_inv 0 (r * c) s \<and> contents s = [] \<and> cap s = r * c * k"
proof -
  let ?d = "next_dfb_id (apis w ! a)" and ?n = "r * c" and ?f = "length (dfbs w)"
  let ?w1 = "w\<lparr>apis := (apis w)[a := (apis w ! a)\<lparr>next_dfb_id := ?d + 1\<rparr>]\<rparr>"
  define s where "s = configure_state (?n * k) [r, c]
    (case lookup_dfb ?w1 a ?d of None \<Rightarrow> init_dfb_state | Some s \<Rightarrow> s)"
  let ?w2 = "update_dfb a ?d s ?w1"
  have a: "a < length (apis w)" "length (api_pool (apis w ! a)) = MAX_DFBS" "?d < MAX_DFBS"
    using assms(1) by (simp_all add: api_ready_def)
  have n: "0 < ?n" "0 < ?n * k" using assms(2-4) by simp_all
  have l: "lookup_dfb ?w2 a ?d = Some s"
    using a by (intro lookup_update_new) simp_all
  have 1: "allocate_dfb_id a w = (Inr ?d, ?w1)" using a(3) by (simp add: allocate_dfb_id_def Let_def)
  have 2: "host_configure_dfb a ?d (?n * k) [r, c] ?w1 = (Inr (), ?w2)"
    using a(3) n assms(2,3)
    by (simp add: host_configure_dfb_def valid_dfb_id_def Let_def s_def)
  have 3: "host_reset_dfb a ?d ?w2 = (Inr (), ?w2)"
  proof -
    have "host_reset s = (Inr (), s)" unfolding s_def by (rule host_reset_configured)
    then have "on_dfb a ?d (Inr ()) host_reset ?w2 = (Inr (), update_dfb a ?d s ?w2)"
      by (rule on_dfb_ok [OF l a(3) refl])
    moreover have "update_dfb a ?d s ?w2 = ?w2" by (rule update_dfb_id [OF l])
    ultimately show ?thesis unfolding host_reset_dfb_def by metis
  qed
  have "new_dataflow_buffer elem [r, c] k (Some a) name w =
      (Inr ?f, with_new_dfb a s (fresh_dfb elem r c k a ?d name) w)"
    using 1 2 3 by (simp add: new_dataflow_buffer_def Let_def alloc_dfb_def with_new_dfb_def fresh_dfb_def)
  moreover have "chan_inv 0 ?n s" unfolding s_def by (rule chan_inv_configure [OF n(1) assms(4)])
  moreover have "contents s = []" "cap s = ?n * k"
    by (simp_all add: s_def configure_state_def reset_state_def contents_def items_def window_def)
  ultimately show ?thesis by blast
qed

text \<open>The object of a buffer that nothing has used yet.\<close>

lemma fresh_buffer_inv:
  assumes "buffer_at f w (fresh_dfb elem r c k a d name) a d s" and "chan_inv 0 (r * c) s"
  shows "buffer_inv f w" "ring_of f w = s" "tiles_of_op f w = r * c"
    "pending_reserved_block (dfbs w ! f) = None" "pending_waited_block (dfbs w ! f) = None"
proof -
  have "ring_ok (r * c) s" using assms(2) by (simp add: ring_ok_def chan_inv_def)
  moreover have "pending_ok w (fresh_dfb elem r c k a d name) a d s"
    using assms(2) by (simp add: pending_ok_def fresh_dfb_def chan_inv_def)
  ultimately show "buffer_inv f w" "ring_of f w = s" "tiles_of_op f w = r * c"
    "pending_reserved_block (dfbs w ! f) = None" "pending_waited_block (dfbs w ! f) = None"
    using buffer_invI [OF assms(1)] by (simp_all add: fresh_dfb_def)
qed

lemma new_dataflow_buffer_idle:
  assumes "api_ready a w" and "current_thread_type w = Some COMPUTE" and "0 < r" "0 < c" "0 < k"
  shows "\<exists>w'. new_dataflow_buffer elem [r, c] k (Some a) name w = (Inr (length (dfbs w)), w') \<and>
    idle_inv (length (dfbs w)) (r * c) w' \<and> buffer_contents (length (dfbs w)) w' = [] \<and>
    buffer_capacity (length (dfbs w)) w' = r * c * k"
proof -
  let ?f = "length (dfbs w)" and ?d = "next_dfb_id (apis w ! a)"
  obtain s where n: "new_dataflow_buffer elem [r, c] k (Some a) name w =
      (Inr ?f, with_new_dfb a s (fresh_dfb elem r c k a ?d name) w)"
    and s: "chan_inv 0 (r * c) s" "contents s = []" "cap s = r * c * k"
    using new_dataflow_buffer_eq [OF assms(1,3-5)] by blast
  let ?w = "with_new_dfb a s (fresh_dfb elem r c k a ?d name) w"
  have "buffer_at ?f ?w (fresh_dfb elem r c k a ?d name) a ?d s"
    using with_new_dfb_new [OF assms(1)] assms(1)
    by (simp add: buffer_at_def fresh_dfb_def api_ready_def)
  note F = fresh_buffer_inv [OF this s(1)]
  have "idle_inv ?f (r * c) ?w" using F assms(2) by (simp add: idle_inv_def)
  with n F(2) s show ?thesis by (simp add: buffer_contents_def buffer_capacity_def)
qed

text \<open>
  Property C1: a dataflow buffer carries tiles from its producers to its consumers in order and
  without loss: over any interleaving of producer cycles (reserve, store, push) and consumer
  cycles (wait, read, pop) on a new buffer of block factor \<open>k\<close>, attempts that time out
  included, what was delivered followed by what is inside is what was accepted, and at most
  \<open>k\<close> blocks are inside.
\<close>

theorem buffer_conserves:
  assumes "api_ready a w" and "current_thread_type w = Some COMPUTE" and "0 < r" "0 < c" "0 < k"
    and "new_dataflow_buffer elem [r, c] k (Some a) name w = (Inr f, w1)"
    and "chunked (r * c) ops" and "run_chan (produce T f) (consume f) ops w1 = (acc, del, w2)"
  shows "acc = del @ buffer_contents f w2 \<and> length acc \<le> length del + r * c * k"
proof -
  have i: "idle_inv f (r * c) w1" "buffer_contents f w1 = []" "buffer_capacity f w1 = r * c * k"
    using new_dataflow_buffer_idle [OF assms(1-5), of elem name] assms(6) by auto
  from buffer.run_conserves [OF i(1) assms(7,8)] buffer.run_occupancy [OF i(1) assms(7,8)] i(2,3)
  show ?thesis by simp
qed

definition demo_sim :: "nat sim" where
  "demo_sim = \<lparr>current_thread_type = Some COMPUTE, apis = [new_api], blocks = [],
     stats = init_stats, dfbs = []\<rparr>"

lemma demo_sim_ready: "api_ready 0 demo_sim"
  by (simp add: api_ready_def demo_sim_def new_api_def MAX_DFBS_def)

theorem buffer_conserves_witness:
  "\<exists>f w1 acc del w2. new_dataflow_buffer (0::nat) [1, 2] 2 (Some 0) None demo_sim = (Inr f, w1) \<and>
     run_chan (produce nat_torch f) (consume f) [Put [1, 2], Get, Get, Put [3, 4]] w1 = (acc, del, w2) \<and>
     acc = del @ buffer_contents f w2"
proof -
  have t: "current_thread_type demo_sim = Some COMPUTE" by (simp add: demo_sim_def)
  obtain f w1 where n: "new_dataflow_buffer (0::nat) [1, 2] 2 (Some 0) None demo_sim = (Inr f, w1)"
    using new_dataflow_buffer_idle [OF demo_sim_ready t, of 1 2 2 0 None] by auto
  obtain acc del w2 where r: "run_chan (produce nat_torch f) (consume f)
      [Put [1, 2], Get, Get, Put [3, 4]] w1 = (acc, del, w2)" by (metis prod_cases3)
  have "chunked (1 * 2) [Put [1, 2], Get, Get, Put [3, 4::nat]]" by (simp add: chunked_def)
  from buffer_conserves [OF demo_sim_ready t _ _ _ n this r] n r show ?thesis by auto
qed

text \<open>The witnesses of the two decisions: a new buffer is empty, so one may reserve, not wait.\<close>

definition demo_buffer :: "nat sim" where
  "demo_buffer = snd (new_dataflow_buffer (0::nat) [1, 2] 2 (Some 0) None demo_sim)"

lemma demo_buffer_idle: "idle_inv 0 2 demo_buffer" "buffer_contents 0 demo_buffer = []"
    "buffer_capacity 0 demo_buffer = 4"
proof -
  have "current_thread_type demo_sim = Some COMPUTE" "length (dfbs demo_sim) = 0"
    by (simp_all add: demo_sim_def)
  with new_dataflow_buffer_idle [OF demo_sim_ready, of 1 2 2 0 None]
  show "idle_inv 0 2 demo_buffer" "buffer_contents 0 demo_buffer = []"
    "buffer_capacity 0 demo_buffer = 4"
    by (auto simp: demo_buffer_def)
qed

lemma demo_buffer_facts:
  "buffer_inv 0 demo_buffer" "pending_waited_block (dfbs demo_buffer ! 0) = None"
  "pending_reserved_block (dfbs demo_buffer ! 0) = None"
  "current_thread_type demo_buffer = Some COMPUTE"
  using demo_buffer_idle(1) by (simp_all add: idle_inv_def)

lemma can_wait_decides_witness:
  "can_wait 0 demo_buffer = (Inr False, demo_buffer) \<and>
   (\<exists>w'. wait_finish 0 demo_buffer = (Inl (DFBTimeoutError ''dfb_wait_front timed out''), w'))"
proof -
  have "tiles_of_op 0 demo_buffer = 2" using demo_buffer_idle(1) by (simp add: idle_inv_def)
  with can_wait_decides [OF demo_buffer_facts(1,2,4)] demo_buffer_idle(2) show ?thesis by simp
qed

lemma can_reserve_decides_witness:
  "can_reserve 0 demo_buffer = (Inr True, demo_buffer) \<and>
   (\<exists>b w'. reserve_finish nat_torch 0 demo_buffer = (Inr b, w') \<and> buffer_contents 0 w' = [])"
proof -
  have "tiles_of_op 0 demo_buffer = 2" using demo_buffer_idle(1) by (simp add: idle_inv_def)
  with can_reserve_decides [OF demo_buffer_facts(1,3,4), of nat_torch] demo_buffer_idle(2,3)
  show ?thesis by auto
qed

section \<open>Buffer ids\<close>

fun allocate_many :: "nat \<Rightarrow> nat \<Rightarrow> ('t, 'z) heap_scheme \<Rightarrow> nat result list" where
  "allocate_many 0 a w = []"
| "allocate_many (Suc n) a w =
     (case allocate_dfb_id a w of (r, w') \<Rightarrow> r # allocate_many n a w')"

lemma allocate_many_from:
  assumes "a < length (apis w)"
  shows "allocate_many n a w = map (\<lambda>i. if i < MAX_DFBS then Inr i
      else Inl (RuntimeError ''Maximum number of circular buffers exceeded''))
    [next_dfb_id (apis w ! a)..<next_dfb_id (apis w ! a) + n]"
  using assms
proof (induction n arbitrary: w)
  case (Suc n)
  let ?i = "next_dfb_id (apis w ! a)"
  let ?w = "w\<lparr>apis := (apis w)[a := (apis w ! a)\<lparr>next_dfb_id := ?i + 1\<rparr>]\<rparr>"
  have "allocate_dfb_id a w = (if ?i < MAX_DFBS then Inr ?i
      else Inl (RuntimeError ''Maximum number of circular buffers exceeded''), ?w)"
    by (simp add: allocate_dfb_id_def Let_def)
  moreover have "[?i..<?i + Suc n] = ?i # [Suc ?i..<Suc ?i + n]"
    by (simp add: upt_conv_Cons)
  ultimately show ?case using Suc.IH [of ?w] Suc.prems by (simp del: upt_Suc)
qed simp

text \<open>
  An API object hands out each of its 32 buffer ids once: the \<open>i\<close>-th allocation on
  a fresh object returns \<open>i\<close> for the first 32, and every later one raises.
\<close>

lemma ids_handed_out_once:
  assumes "a < length (apis w)" and "apis w ! a = new_api"
  shows "allocate_many n a w = map (\<lambda>i. if i < 32 then Inr i
      else Inl (RuntimeError ''Maximum number of circular buffers exceeded'')) [0..<n]"
  using allocate_many_from [OF assms(1), of n] assms(2) by (simp add: new_api_def MAX_DFBS_def)

lemma ids_handed_out_once_witness:
  "allocate_many 33 0 demo_sim = map Inr [0..<32] @
     [Inl (RuntimeError ''Maximum number of circular buffers exceeded'')]"
proof -
  have a: "0 < length (apis demo_sim)" "apis demo_sim ! 0 = new_api" by (simp_all add: demo_sim_def)
  have "map (\<lambda>i. if i < 32 then Inr i
      else Inl (RuntimeError ''Maximum number of circular buffers exceeded'')) [0..<33] =
    map Inr [0..<32] @ [Inl (RuntimeError ''Maximum number of circular buffers exceeded'')]"
    using upt_Suc_append [of 0 32] by simp
  with ids_handed_out_once [OF a, of 33] show ?thesis by simp
qed

end
