(* ===== verification/Program.thy ===== *)
theory Program
  imports Copy Schedprops Dfbprops
begin

text \<open>
  How a kernel becomes threads and runs: \<open>python/sim/decorators.py\<close>,
  \<open>python/sim/kernel.py\<close> and \<open>python/sim/program.py\<close>.

  A decorated function is a value of \<open>func\<close>: its closure cells and globals, and a body that
  gets both and runs as a thread of theory Scheduler. The values of a context are the ones
  \<open>_build_core_context\<close> tells apart (modules, tensors, dataflow buffers) and immutable
  ones, for which \<open>copy.deepcopy\<close> is the identity; containers are left out. The locals of
  the frame that calls the program are an argument.

  The lemmas: every core gets buffers of its own in an API object of its own, configured like
  the kernel's and empty; threads are created in the order the program expects; a program
  always ends, and a program that returns has completed all its threads and left no buffer
  with a block pending.
\<close>

section \<open>The objects threads wait for\<close>

datatype sync_obj = Dfb_obj nat | Tx_obj nat

definition sync_can :: "(('t, 'z) cworld_scheme, sync_obj) can_method" where
  "sync_can obj operation w =
     (case obj of
        Dfb_obj f \<Rightarrow>
          if operation = ''wait'' then Some (fst (can_wait f w))
          else if operation = ''reserve'' then Some (fst (can_reserve f w)) else None
      | Tx_obj t \<Rightarrow> if operation = ''wait'' then Some (fst (tx_can_wait t w)) else None)"

text \<open>How the deadlock report describes such an object.\<close>

definition obj_description :: "('t, 'z) cworld_scheme \<Rightarrow> sync_obj option \<Rightarrow> string" where
  "obj_description w obj =
     (case obj of
        None \<Rightarrow> ''''
      | Some (Dfb_obj f) \<Rightarrow>
          (case df_name (dfbs w ! f) of
             Some (c # cs) \<Rightarrow> '' on DataflowBuffer('' @ c # cs @ '')''
           | _ \<Rightarrow> '' on DataflowBuffer'')
      | Some (Tx_obj t) \<Rightarrow> '' on CopyTransaction'')"

section \<open>Contexts and bound functions\<close>

datatype ctx_val =
    Module_val string
  | Tensor_val nat
  | Dfb_val nat
  | Grid_val "int list"
  | Int_val int

type_synonym ctx_dict = "(string \<times> ctx_val) list"

text \<open>A free variable whose cell is empty has the contents \<open>None\<close>.\<close>

record ('w, 'o) func =
  cells :: "(string \<times> ctx_val option) list"
  func_globals :: "string \<rightharpoonup> ctx_val"
  code :: "(string \<rightharpoonup> ctx_val) \<Rightarrow> (string \<rightharpoonup> ctx_val) \<Rightarrow> 'w \<Rightarrow> ('w, 'o) co"

definition rebind_func_with_ctx :: "('w, 'o) func \<Rightarrow> ctx_dict \<Rightarrow> ('w, 'o) func" where
  "rebind_func_with_ctx f ctx =
     f\<lparr>cells := map (\<lambda>(n, c). (n, case map_of ctx n of Some v \<Rightarrow> Some v | None \<Rightarrow> c)) (cells f),
       func_globals := func_globals f ++ map_of ctx\<rparr>"

definition call_func :: "('w, 'o) func \<Rightarrow> 'w \<Rightarrow> ('w, 'o) co" where
  "call_func f =
     code f (\<lambda>n. case map_of (cells f) n of Some c \<Rightarrow> c | None \<Rightarrow> None) (func_globals f)"

record ('w, 'o) template =
  wrapped :: "('w, 'o) func"
  tmpl_thread_type :: "thread_type option"

text \<open>The registry of the threads a kernel body has defined.\<close>

type_synonym ('w, 'o) registry = "('w, 'o) template list"

definition register_thread :: "('w, 'o) template \<Rightarrow> ('w, 'o) registry \<Rightarrow> ('w, 'o) registry" where
  "register_thread t reg = reg @ [t]"

definition clear_thread_registry :: "('w, 'o) registry \<Rightarrow> ('w, 'o) registry" where
  "clear_thread_registry reg = []"

definition get_registered_threads ::
    "('w, 'o) registry \<Rightarrow> ('w, 'o) template list \<times> ('w, 'o) registry" where
  "get_registered_threads reg = (reg, [])"

definition compute ::
    "('w, 'o) func \<Rightarrow> ('w, 'o) registry \<Rightarrow> ('w, 'o) template \<times> ('w, 'o) registry" where
  "compute f reg =
     (let t = \<lparr>wrapped = f, tmpl_thread_type = Some COMPUTE\<rparr> in (t, register_thread t reg))"

definition datamovement ::
    "('w, 'o) func \<Rightarrow> ('w, 'o) registry \<Rightarrow> ('w, 'o) template \<times> ('w, 'o) registry" where
  "datamovement f reg =
     (let t = \<lparr>wrapped = f, tmpl_thread_type = Some DM\<rparr> in (t, register_thread t reg))"

section \<open>The program\<close>

definition add_cell :: "string \<times> ctx_val option \<Rightarrow> ctx_dict \<Rightarrow> ctx_dict" where
  "add_cell nc ctx =
     (case nc of
        (n, None) \<Rightarrow> ctx
      | (n, Some v) \<Rightarrow> if map_of ctx n = None then AList.update n v ctx else ctx)"

text \<open>\<open>__call__\<close>: the grid, the caller's locals over it, then what the closures add.\<close>

definition gather_context ::
    "int list \<Rightarrow> ctx_dict \<Rightarrow> ('w, 'o) template list \<Rightarrow> ctx_dict" where
  "gather_context grid caller_locals functions =
     fold add_cell (concat (map (\<lambda>t. cells (wrapped t)) functions))
       (fold (\<lambda>(n, v). AList.update n v) caller_locals [(''grid'', Grid_val grid)])"

definition context_grid :: "ctx_dict \<Rightarrow> int list result" where
  "context_grid ctx =
     (case map_of ctx ''grid'' of
        None \<Rightarrow> Inr [1, 1]
      | Some (Grid_val g) \<Rightarrow> Inr g
      | Some _ \<Rightarrow> Inl (TypeError ''object is not iterable''))"

fun smap :: "('a \<Rightarrow> ('s, 'b) state_op) \<Rightarrow> 'a list \<Rightarrow> ('s, 'b list) state_op" where
  "smap f [] = sreturn []"
| "smap f (x # xs) = sbind (f x) (\<lambda>y. sbind (smap f xs) (\<lambda>ys. sreturn (y # ys)))"

definition copy_value ::
    "nat \<Rightarrow> string \<times> ctx_val \<Rightarrow> (('t, 'z) sim_scheme, string \<times> ctx_val) state_op" where
  "copy_value api kv =
     (case kv of
        (key, Dfb_val f) \<Rightarrow>
          sbind (the_dfb f) (\<lambda>df.
          sbind (new_dataflow_buffer (element df) (df_shape df) (buffer_factor df) (Some api) None) (\<lambda>f'.
          sbind (update_dfb_obj f' (\<lambda>d. d\<lparr>df_name := Some key\<rparr>)) (\<lambda>_.
            sreturn (key, Dfb_val f'))))
      | _ \<Rightarrow> sreturn kv)"

definition build_core_context :: "ctx_dict \<Rightarrow> nat \<Rightarrow> (('t, 'z) sim_scheme, ctx_dict) state_op" where
  "build_core_context ctx core_num =
     sbind alloc_api (\<lambda>api.
     sbind (smap (copy_value api) ctx) (\<lambda>cc.
       sreturn (AList.update ''grid'' (case map_of ctx ''grid'' of None \<Rightarrow> Grid_val [1, 1] | Some v \<Rightarrow> v)
         (AList.update ''_core'' (Int_val (int core_num)) cc))))"

definition on_world :: "('w, 'a) state_op \<Rightarrow> (('w, 'o) sched, 'a) state_op" where
  "on_world m st = (case m (world st) of (r, w) \<Rightarrow> (r, st\<lparr>world := w\<rparr>))"

definition thread_name :: "nat \<Rightarrow> string \<Rightarrow> string" where
  "thread_name core_num name = ''core'' @ show_nat core_num @ ''-'' @ name"

definition add_template ::
    "nat \<Rightarrow> ctx_dict \<Rightarrow> string \<times> ('w, 'o) template \<Rightarrow> (('w, 'o) sched, unit) state_op" where
  "add_template core_num cc nt =
     (case tmpl_thread_type (snd nt) of
        None \<Rightarrow> sraise (RuntimeError ''Template has invalid thread_type'')
      | Some tt \<Rightarrow>
          smodify (add_thread (thread_name core_num (fst nt))
            (call_func (rebind_func_with_ctx (wrapped (snd nt)) cc)) tt))"

definition add_core ::
    "ctx_dict \<Rightarrow> (string \<times> (('t, 'z) cworld_scheme, 'o) template) list \<Rightarrow> nat \<Rightarrow>
     ((('t, 'z) cworld_scheme, 'o) sched, ctx_dict) state_op" where
  "add_core ctx tmpls core_num =
     sbind (on_world (build_core_context ctx core_num)) (\<lambda>cc.
     sbind (sfor (add_template core_num cc) tmpls) (\<lambda>_. sreturn cc))"

text \<open>One context entry at the end of the run: the error line of a buffer with a pending block.\<close>

definition pending_error ::
    "('t, 'z) sim_scheme \<Rightarrow> nat \<Rightarrow> string \<times> ctx_val \<Rightarrow> string list result" where
  "pending_error w core_num kv =
     (case snd kv of
        Dfb_val f \<Rightarrow>
          (case fst (validate_no_pending_blocks f w) of
             Inr _ \<Rightarrow> Inr []
           | Inl (RuntimeError e) \<Rightarrow> Inr [''core'' @ show_nat core_num @ ''.'' @ fst kv @ '': '' @ e]
           | Inl e \<Rightarrow> Inl e)
      | _ \<Rightarrow> Inr [])"

text \<open>The entries of all cores, with the number of the core.\<close>

definition indexed :: "ctx_dict list \<Rightarrow> (nat \<times> string \<times> ctx_val) list" where
  "indexed ccs = concat (map (\<lambda>(i, cc). map (Pair i) cc) (enumerate 0 ccs))"

definition incomplete_error :: "string list \<Rightarrow> exn" where
  "incomplete_error errors =
     RuntimeError (''Kernel execution completed with incomplete DataflowBuffer operations:'' @
       CHR 0x0A # join [CHR 0x0A] errors)"

definition validate_circular_buffers ::
    "ctx_dict list \<Rightarrow> ('t, 'z) sim_scheme \<Rightarrow> unit result" where
  "validate_circular_buffers ccs w =
     rbind (rmap (\<lambda>(i, kv). pending_error w i kv) (indexed ccs)) (\<lambda>ess.
       let errors = concat ess in
       guard (errors = []) (incomplete_error errors))"

definition run_cooperative ::
    "algorithm \<Rightarrow> nat \<Rightarrow> (string \<times> (('t, 'z) cworld_scheme, sync_obj) template) list \<Rightarrow> ctx_dict \<Rightarrow>
     ('t, 'z) cworld_scheme \<Rightarrow> (unit result \<times> ('t, 'z) cworld_scheme) option" where
  "run_cooperative alg total_cores tmpls ctx w =
     (case smap (add_core ctx tmpls) [0..<total_cores] (init_sched w) of
        (Inl e, st) \<Rightarrow> Some (Inl e, world st)
      | (Inr ccs, st) \<Rightarrow>
          (case run alg sync_can st of
             None \<Rightarrow> None
           | Some (Inl e, st') \<Rightarrow> Some (Inl e, world st')
           | Some (Inr _, st') \<Rightarrow> Some (validate_circular_buffers ccs (world st'), world st')))"

definition program_call ::
    "algorithm \<Rightarrow> int list \<Rightarrow> ctx_dict \<Rightarrow> (('t, 'z) cworld_scheme, sync_obj) template list \<Rightarrow>
     ('t, 'z) cworld_scheme \<Rightarrow> (unit result \<times> ('t, 'z) cworld_scheme) option" where
  "program_call alg grid caller_locals functions w =
     (let ctx = gather_context grid caller_locals functions in
      (case context_grid ctx of
         Inl e \<Rightarrow> Some (Inl e, w)
       | Inr g \<Rightarrow>
           (case functions of
              [compute_func_tmpl, dm0_tmpl, dm1_tmpl] \<Rightarrow>
                run_cooperative alg (nat (prod_list g))
                  [(''compute'', compute_func_tmpl), (''dm0'', dm0_tmpl), (''dm1'', dm1_tmpl)] ctx w
            | _ \<Rightarrow> Some (Inl (ValueError ''expected 3 values to unpack''), w))))"

section \<open>The kernel\<close>

datatype grid_spec = Auto | Grid "int list"

definition default_auto_grid :: "int list" where
  "default_auto_grid = [8, 8]"

definition actual_grid :: "int list \<Rightarrow> grid_spec \<Rightarrow> int list" where
  "actual_grid dflt spec = (case spec of Auto \<Rightarrow> dflt | Grid g \<Rightarrow> g)"

text \<open>Compute thread first, then the data movement threads in the order of their definition.\<close>

definition order_threads :: "('w, 'o) template list \<Rightarrow> ('w, 'o) template list result" where
  "order_threads threads =
     (let compute_threads = filter (\<lambda>t. tmpl_thread_type t = Some COMPUTE) threads;
          dm_threads = filter (\<lambda>t. tmpl_thread_type t = Some DM) threads in
      if length threads \<noteq> 3 then Inl (ValueError ''Kernel must define exactly 3 threads'')
      else if length compute_threads \<noteq> 1
      then Inl (ValueError ''Kernel must define exactly 1 compute thread'')
      else if length dm_threads \<noteq> 2
      then Inl (ValueError ''Kernel must define exactly 2 datamovement threads'')
      else Inr [compute_threads ! 0, dm_threads ! 0, dm_threads ! 1])"

definition register_tensor_name :: "nat \<Rightarrow> string \<Rightarrow> ('t, 'z) world_scheme \<Rightarrow> ('t, 'z) world_scheme" where
  "register_tensor_name x name w =
     w\<lparr>tensors := (tensors w)[x := (tensors w ! x)\<lparr>tname := Some name\<rparr>]\<rparr>"

definition register_args ::
    "string list \<Rightarrow> ctx_val list \<Rightarrow> ctx_dict \<Rightarrow> ('t, 'z) world_scheme \<Rightarrow> ('t, 'z) world_scheme" where
  "register_args params args kwargs w =
     (if \<not> stats_enabled (stats w) then w
      else fold (\<lambda>(n, v) w. case v of Tensor_val x \<Rightarrow> register_tensor_name x n w | _ \<Rightarrow> w)
             (zip params args @ kwargs) w)"

text \<open>
  The wrapper \<open>kernel\<close> returns. The kernel body is user code: it gets the grid and changes the
  registry and the world.
\<close>

definition kernel_call ::
    "algorithm \<Rightarrow> int list \<Rightarrow> grid_spec \<Rightarrow> string list \<Rightarrow> ctx_val list \<Rightarrow> ctx_dict \<Rightarrow> ctx_dict \<Rightarrow>
     (int list \<Rightarrow> ((('t, 'z) cworld_scheme, sync_obj) registry \<times> ('t, 'z) cworld_scheme, unit) state_op) \<Rightarrow>
     (('t, 'z) cworld_scheme, sync_obj) registry \<times> ('t, 'z) cworld_scheme \<Rightarrow>
     (unit result \<times> (('t, 'z) cworld_scheme, sync_obj) registry \<times> ('t, 'z) cworld_scheme) option" where
  "kernel_call alg dflt spec params args kwargs wrapper_locals kbody s =
     (let g = actual_grid dflt spec; w = register_args params args kwargs (snd s) in
      (case kbody g (clear_thread_registry (fst s), w) of
         (Inl e, s1) \<Rightarrow> Some (Inl e, s1)
       | (Inr _, reg1, w1) \<Rightarrow>
           (case get_registered_threads reg1 of (threads, reg2) \<Rightarrow>
             (case order_threads threads of
                Inl e \<Rightarrow> Some (Inl e, reg2, w1)
              | Inr ordered_threads \<Rightarrow>
                  (case program_call alg g wrapper_locals ordered_threads w1 of
                     None \<Rightarrow> None
                   | Some (r, w2) \<Rightarrow> Some (r, reg2, w2))))))"

section \<open>The check before a switch and the check after it agree\<close>

lemma lookup_set_thread [simp]: "lookup_dfb (set_current_thread_type t w) a d = lookup_dfb w a d"
  by (simp add: lookup_dfb_def set_current_thread_type_def)

lemma can_thread_independent:
  "fst (can_wait f (set_current_thread_type t w)) = fst (can_wait f w)"
  "fst (can_reserve f (set_current_thread_type t w)) = fst (can_reserve f w)"
  "fst (tx_can_wait x (set_current_thread_type t w)) = fst (tx_can_wait x w)"
proof -
  show "fst (can_wait f (set_current_thread_type t w)) = fst (can_wait f w)"
    "fst (can_reserve f (set_current_thread_type t w)) = fst (can_reserve f w)"
    by (simp_all add: can_wait_def can_reserve_def buffer_of_def the_dfb_def dfb_stats_def on_dfb_def
        sbind_def set_current_thread_type_def lookup_dfb_def split: sum.split option.split)
  show "fst (tx_can_wait x (set_current_thread_type t w)) = fst (tx_can_wait x w)"
    by (simp add: tx_can_wait_def the_tx_def handler_can_wait_def pipe_can_wait_def
        sbind_def set_current_thread_type_def split: sum.split handler.split endpoint.split)
qed

interpretation objects: sync_objects sync_can
  by unfold_locales (simp add: sync_can_def can_thread_independent split: sync_obj.split)

section \<open>The order of the threads\<close>

text \<open>
  The kernel hands the program its compute thread and its two data movement
  threads in that order, however the kernel body interleaves their definitions: it succeeds
  exactly for one compute and two data movement threads, the result is a rearrangement of what
  was registered, and the data movement threads keep their order.
\<close>

lemma kernel_orders_threads:
  "order_threads threads = Inr us \<longleftrightarrow>
     map tmpl_thread_type us = [Some COMPUTE, Some DM, Some DM] \<and> mset us = mset threads \<and>
     filter (\<lambda>t. tmpl_thread_type t = Some DM) us = filter (\<lambda>t. tmpl_thread_type t = Some DM) threads"
proof
  assume r: "order_threads threads = Inr us"
  then obtain a b c where "threads = [a, b, c]"
    by (auto simp: order_threads_def Let_def numeral_3_eq_3 length_Suc_conv split: if_splits)
  with r show "map tmpl_thread_type us = [Some COMPUTE, Some DM, Some DM] \<and> mset us = mset threads \<and>
     filter (\<lambda>t. tmpl_thread_type t = Some DM) us = filter (\<lambda>t. tmpl_thread_type t = Some DM) threads"
    by (auto simp: order_threads_def Let_def split: if_splits)
next
  assume u: "map tmpl_thread_type us = [Some COMPUTE, Some DM, Some DM] \<and> mset us = mset threads \<and>
     filter (\<lambda>t. tmpl_thread_type t = Some DM) us = filter (\<lambda>t. tmpl_thread_type t = Some DM) threads"
  then obtain a b c where us: "us = [a, b, c]" "tmpl_thread_type a = Some COMPUTE"
    "tmpl_thread_type b = Some DM" "tmpl_thread_type c = Some DM" by auto
  have "length threads = 3" using u us(1) by (metis length_Cons list.size(3) numeral_3_eq_3 size_mset)
  moreover have "mset (filter (\<lambda>t. tmpl_thread_type t = Some COMPUTE) threads) = mset [a]"
  proof -
    have "mset threads = mset us" using u by simp
    then have "mset (filter (\<lambda>t. tmpl_thread_type t = Some COMPUTE) threads) =
        mset (filter (\<lambda>t. tmpl_thread_type t = Some COMPUTE) us)" by (simp only: mset_filter)
    then show ?thesis using us by simp
  qed
  then have "filter (\<lambda>t. tmpl_thread_type t = Some COMPUTE) threads = [a]"
    by (simp only: mset_single_iff_right mset.simps mset_single_iff)
  moreover have "filter (\<lambda>t. tmpl_thread_type t = Some DM) threads = [b, c]" using u us by simp
  ultimately show "order_threads threads = Inr us" by (simp add: order_threads_def us(1) Let_def)
qed

section \<open>The context of a core\<close>

text \<open>Buffers a program can replicate, and the buffers of a context in order.\<close>

definition buffer_ok :: "('t, 'z) sim_scheme \<Rightarrow> nat \<Rightarrow> bool" where
  "buffer_ok w f \<longleftrightarrow> f < length (dfbs w) \<and> 0 < buffer_factor (dfbs w ! f) \<and>
     (\<exists>r c. df_shape (dfbs w ! f) = [r, c] \<and> 0 < r \<and> 0 < c)"

fun dfb_refs :: "ctx_dict \<Rightarrow> nat list" where
  "dfb_refs [] = []"
| "dfb_refs ((k, Dfb_val f) # ctx) = f # dfb_refs ctx"
| "dfb_refs ((k, v) # ctx) = dfb_refs ctx"

text \<open>Buffer \<open>f'\<close> of \<open>w'\<close> is a new, empty buffer of API object \<open>a\<close> made like \<open>f\<close> of \<open>w\<close>.\<close>

definition replica ::
    "nat \<Rightarrow> string \<Rightarrow> ('t, 'z) sim_scheme \<Rightarrow> nat \<Rightarrow> ('t, 'z) sim_scheme \<Rightarrow> nat \<Rightarrow> bool" where
  "replica a name w f w' f' \<longleftrightarrow>
     f' < length (dfbs w') \<and>
     df_api (dfbs w' ! f') = Some a \<and> df_name (dfbs w' ! f') = Some name \<and>
     element (dfbs w' ! f') = element (dfbs w ! f) \<and> df_shape (dfbs w' ! f') = df_shape (dfbs w ! f) \<and>
     buffer_factor (dfbs w' ! f') = buffer_factor (dfbs w ! f) \<and> df_stats_name (dfbs w' ! f') = None \<and>
     pending_reserved_block (dfbs w' ! f') = None \<and> pending_waited_block (dfbs w' ! f') = None \<and>
     buffer_inv f' w' \<and> buffer_contents f' w' = [] \<and>
     buffer_capacity f' w' = tiles_of_op f' w' * buffer_factor (dfbs w' ! f')"

lemma update_dfb_obj_last:
  "update_dfb_obj (length (dfbs w)) (\<lambda>d. d\<lparr>df_name := Some key\<rparr>)
     (with_new_dfb a s (fresh_dfb e r c k a d None) w) =
   (Inr (), with_new_dfb a s (fresh_dfb e r c k a d (Some key)) w)"
  by (simp add: update_dfb_obj_def with_new_dfb_def Let_def fresh_dfb_def nth_append list_update_append)

lemma copy_value_dfb:
  assumes "api_ready a w" and "buffer_ok w f"
  shows "\<exists>s r c. copy_value a (key, Dfb_val f) w = (Inr (key, Dfb_val (length (dfbs w))),
      with_new_dfb a s (fresh_dfb (element (dfbs w ! f)) r c (buffer_factor (dfbs w ! f)) a
        (next_dfb_id (apis w ! a)) (Some key)) w) \<and>
    chan_inv 0 (r * c) s \<and> contents s = [] \<and> cap s = r * c * buffer_factor (dfbs w ! f) \<and>
    df_shape (dfbs w ! f) = [r, c]"
proof -
  obtain r c where rc: "df_shape (dfbs w ! f) = [r, c]" "0 < r" "0 < c" and f: "f < length (dfbs w)"
    "0 < buffer_factor (dfbs w ! f)" using assms(2) by (auto simp: buffer_ok_def)
  from new_dataflow_buffer_eq [OF assms(1) rc(2,3) f(2)] obtain s where
    "new_dataflow_buffer (element (dfbs w ! f)) [r, c] (buffer_factor (dfbs w ! f)) (Some a) None w =
      (Inr (length (dfbs w)), with_new_dfb a s (fresh_dfb (element (dfbs w ! f)) r c
        (buffer_factor (dfbs w ! f)) a (next_dfb_id (apis w ! a)) None) w)"
    "chan_inv 0 (r * c) s" "contents s = []" "cap s = r * c * buffer_factor (dfbs w ! f)" by blast
  with rc f show ?thesis
    by (intro exI [of _ s] exI [of _ r] exI [of _ c])
      (simp add: copy_value_def the_dfb_def update_dfb_obj_last)
qed

text \<open>What making buffers in API object \<open>a\<close> keeps of a world.\<close>

definition extends :: "nat \<Rightarrow> ('t, 'z) sim_scheme \<Rightarrow> ('t, 'z) sim_scheme \<Rightarrow> bool" where
  "extends a w w' \<longleftrightarrow>
     (\<exists>ns. dfbs w' = dfbs w @ ns) \<and> length (apis w') = length (apis w) \<and>
     next_dfb_id (apis w ! a) \<le> next_dfb_id (apis w' ! a) \<and>
     length (api_pool (apis w' ! a)) = length (api_pool (apis w ! a)) \<and>
     current_thread_type w' = current_thread_type w \<and>
     (\<forall>a' d. a' \<noteq> a \<or> d < next_dfb_id (apis w ! a) \<longrightarrow> lookup_dfb w' a' d = lookup_dfb w a' d)"

lemma extends_refl [simp]: "extends a w w"
  by (simp add: extends_def)

lemma extends_trans:
  assumes "extends a w1 w2" and "extends a w2 w3"
  shows "extends a w1 w3"
proof -
  have "\<forall>a' d. a' \<noteq> a \<or> d < next_dfb_id (apis w1 ! a) \<longrightarrow> lookup_dfb w3 a' d = lookup_dfb w1 a' d"
    using assms unfolding extends_def by (metis order_less_le_trans)
  moreover have "\<exists>ns. dfbs w3 = dfbs w1 @ ns" using assms unfolding extends_def by auto
  ultimately show ?thesis using assms unfolding extends_def by simp
qed

lemma extends_with_new_dfb:
  "a < length (apis w) \<Longrightarrow> extends a w (with_new_dfb a s df w)"
  by (auto simp: extends_def intro: with_new_dfb_other)

definition made ::
    "nat \<Rightarrow> string \<Rightarrow> 't dfb_obj \<Rightarrow> ('t, 'z) sim_scheme \<Rightarrow> nat \<Rightarrow> bool" where
  "made a name df w' f' \<longleftrightarrow>
     (\<exists>s d r c. d < next_dfb_id (apis w' ! a) \<and> df_shape df = [r, c] \<and>
        buffer_at f' w' (fresh_dfb (element df) r c (buffer_factor df) a d (Some name)) a d s \<and>
        chan_inv 0 (r * c) s \<and> contents s = [] \<and> cap s = r * c * buffer_factor df)"

lemma made_extends:
  assumes "made a name df w f" and "extends a w w'"
  shows "made a name df w' f"
proof -
  from assms(1) obtain s d r c where d: "d < next_dfb_id (apis w ! a)" and sh: "df_shape df = [r, c]"
    and at: "buffer_at f w (fresh_dfb (element df) r c (buffer_factor df) a d (Some name)) a d s"
    and s: "chan_inv 0 (r * c) s" "contents s = []" "cap s = r * c * buffer_factor df"
    unfolding made_def by blast
  have "buffer_at f w' (fresh_dfb (element df) r c (buffer_factor df) a d (Some name)) a d s"
    using at d assms(2) by (auto simp: buffer_at_def extends_def nth_append)
  moreover have "d < next_dfb_id (apis w' ! a)" using d assms(2) by (simp add: extends_def)
  ultimately show ?thesis using sh s unfolding made_def by blast
qed

lemma made_replica:
  assumes "made a name (dfbs w ! f) w' f'"
  shows "replica a name w f w' f'"
proof -
  let ?df = "dfbs w ! f"
  from assms obtain s d r c where sh: "df_shape ?df = [r, c]"
    and at: "buffer_at f' w' (fresh_dfb (element ?df) r c (buffer_factor ?df) a d (Some name)) a d s"
    and s: "chan_inv 0 (r * c) s" "contents s = []" "cap s = r * c * buffer_factor ?df"
    unfolding made_def by blast
  have "f' < length (dfbs w')"
    "dfbs w' ! f' = fresh_dfb (element ?df) r c (buffer_factor ?df) a d (Some name)"
    using at by (simp_all add: buffer_at_def)
  with fresh_buffer_inv [OF at s(1)] s sh show ?thesis
    by (simp add: replica_def fresh_dfb_def buffer_contents_def buffer_capacity_def)
qed

definition copied ::
    "nat \<Rightarrow> ('t, 'z) sim_scheme \<Rightarrow> ('t, 'z) sim_scheme \<Rightarrow> string \<times> ctx_val \<Rightarrow> string \<times> ctx_val \<Rightarrow> bool" where
  "copied a w w' kv kv' \<longleftrightarrow>
     fst kv' = fst kv \<and>
     (case snd kv of
        Dfb_val f \<Rightarrow> (\<exists>f'. snd kv' = Dfb_val f' \<and> made a (fst kv) (dfbs w ! f) w' f')
      | v \<Rightarrow> snd kv' = v)"

lemma copied_extends: "copied a w w1 kv kv' \<Longrightarrow> extends a w1 w2 \<Longrightarrow> copied a w w2 kv kv'"
  by (auto simp: copied_def made_extends split: ctx_val.splits)

lemma copy_values:
  assumes "a < length (apis w)" and "length (api_pool (apis w ! a)) = MAX_DFBS"
    and "next_dfb_id (apis w ! a) + length (dfb_refs ctx) \<le> MAX_DFBS"
    and "\<forall>f\<in>set (dfb_refs ctx). buffer_ok w0 f" and "extends a w0 w"
  shows "\<exists>cc w'. smap (copy_value a) ctx w = (Inr cc, w') \<and> extends a w w' \<and>
    dfb_refs cc = [length (dfbs w)..<length (dfbs w')] \<and> list_all2 (copied a w0 w') ctx cc"
  using assms
proof (induction ctx arbitrary: w)
  case Nil
  then show ?case by simp
next
  case (Cons kv ctx)
  obtain k v where kv: "kv = (k, v)" by (cases kv)
  show ?case
  proof (cases "\<exists>f. v = Dfb_val f")
    case False
    then have c: "copy_value a kv w = (Inr kv, w)" "dfb_refs (kv # ctx) = dfb_refs ctx"
      "\<And>w'. copied a w0 w' kv kv"
      by (cases v; simp add: kv copy_value_def copied_def)+
    have r: "dfb_refs (kv # cc) = dfb_refs cc" for cc using False by (cases v) (simp_all add: kv)
    from Cons.IH [of w] Cons.prems c(2) obtain cc w' where
      "smap (copy_value a) ctx w = (Inr cc, w')" "extends a w w'"
      "dfb_refs cc = [length (dfbs w)..<length (dfbs w')]" "list_all2 (copied a w0 w') ctx cc" by auto
    with c r show ?thesis by (intro exI [of _ "kv # cc"] exI [of _ w']) simp
  next
    case True
    then obtain f where v: "v = Dfb_val f" ..
    let ?df = "dfbs w ! f"
    have f0: "buffer_ok w0 f" using Cons.prems(4) by (simp add: kv v)
    then have same: "?df = dfbs w0 ! f" and ok: "buffer_ok w f"
      using Cons.prems(5) by (auto simp: buffer_ok_def extends_def nth_append)
    have rdy: "api_ready a w" using Cons.prems(1-3) by (simp add: api_ready_def kv v)
    obtain s r c where n: "copy_value a (k, Dfb_val f) w = (Inr (k, Dfb_val (length (dfbs w))),
        with_new_dfb a s (fresh_dfb (element ?df) r c (buffer_factor ?df) a
          (next_dfb_id (apis w ! a)) (Some k)) w)"
      and s: "chan_inv 0 (r * c) s" "contents s = []" "cap s = r * c * buffer_factor ?df"
      "df_shape ?df = [r, c]"
      using copy_value_dfb [OF rdy ok] by blast
    let ?fd = "fresh_dfb (element ?df) r c (buffer_factor ?df) a (next_dfb_id (apis w ! a)) (Some k)"
    let ?w1 = "with_new_dfb a s ?fd w"
    have ext: "extends a w ?w1" using Cons.prems(1) by (rule extends_with_new_dfb)
    have "buffer_at (length (dfbs w)) ?w1 ?fd a (next_dfb_id (apis w ! a)) s"
      using with_new_dfb_new [OF rdy] rdy by (simp add: buffer_at_def fresh_dfb_def api_ready_def)
    then have md: "made a k ?df ?w1 (length (dfbs w))"
      using s Cons.prems(1) unfolding made_def by (metis less_add_one with_new_dfb_frame(4))
    have "\<exists>cc w'. smap (copy_value a) ctx ?w1 = (Inr cc, w') \<and> extends a ?w1 w' \<and>
        dfb_refs cc = [length (dfbs ?w1)..<length (dfbs w')] \<and> list_all2 (copied a w0 w') ctx cc"
      using Cons.prems ext by (intro Cons.IH) (auto simp: kv v intro: extends_trans)
    then obtain cc w' where IH: "smap (copy_value a) ctx ?w1 = (Inr cc, w')" "extends a ?w1 w'"
      "dfb_refs cc = [length (dfbs ?w1)..<length (dfbs w')]" "list_all2 (copied a w0 w') ctx cc" by blast
    have "length (dfbs ?w1) \<le> length (dfbs w')" using IH(2) by (auto simp: extends_def)
    then have refs: "length (dfbs w) # dfb_refs cc = [length (dfbs w)..<length (dfbs w')]"
      using IH(3) by (simp add: upt_conv_Cons)
    have cp: "copied a w0 w' (k, Dfb_val f) (k, Dfb_val (length (dfbs w)))"
      using made_extends [OF md IH(2)] by (simp add: copied_def same)
    show ?thesis
      using n IH refs cp extends_trans [OF ext IH(2)]
      by (intro exI [of _ "(k, Dfb_val (length (dfbs w))) # cc"] exI [of _ w']) (simp add: kv v)
  qed
qed

lemma alist_update_same: "map_of al k = Some v \<Longrightarrow> AList.update k v al = al"
  by (induction al) (auto split: if_splits)

lemma alist_update_new: "k \<notin> fst ` set al \<Longrightarrow> AList.update k v al = al @ [(k, v)]"
  by (induction al) auto

lemma dfb_refs_append [simp]: "dfb_refs (xs @ ys) = dfb_refs xs @ dfb_refs ys"
  by (induction xs rule: dfb_refs.induct) auto

lemma copied_map_of:
  assumes "list_all2 (copied a w w') ctx cc" and "map_of ctx k = Some v"
  shows "\<exists>v'. map_of cc k = Some v' \<and> copied a w w' (k, v) (k, v')"
  using assms
proof (induction rule: list_all2_induct)
  case (Cons x xs y ys)
  then show ?case by (cases x; cases y) (auto simp: copied_def split: if_splits)
qed simp

lemma alloc_api_facts:
  assumes "alloc_api w = (Inr a, w')"
  shows "a = length (apis w)" "a < length (apis w')" "apis w' ! a = new_api" "dfbs w' = dfbs w"
    "current_thread_type w' = current_thread_type w"
    "a' < length (apis w) \<Longrightarrow> lookup_dfb w' a' d = lookup_dfb w a' d"
  using assms by (auto simp: alloc_api_def lookup_dfb_def nth_append)

text \<open>
  Property C15: every core works on buffers of its own. The context of a core maps each name
  under which the kernel has a dataflow buffer to a new one with the same element, shape and
  block factor, empty and in order; the new buffers are all distinct, their rings lie in an
  API object that did not exist before, and nothing that existed is changed. Every other name
  keeps its value, and the core finds its own number. No registered statistics name survives.
\<close>

theorem core_context_isolated:
  assumes "\<forall>f\<in>set (dfb_refs ctx). buffer_ok w f" and "length (dfb_refs ctx) \<le> 32"
    and "map_of ctx ''grid'' = Some (Grid_val g)" and "''_core'' \<notin> fst ` set ctx"
  shows "\<exists>cc w'. build_core_context ctx n w = (Inr cc, w') \<and>
    map_of cc ''_core'' = Some (Int_val (int n)) \<and>
    dfb_refs cc = [length (dfbs w)..<length (dfbs w')] \<and> take (length (dfbs w)) (dfbs w') = dfbs w \<and>
    (\<forall>a d. a < length (apis w) \<longrightarrow> lookup_dfb w' a d = lookup_dfb w a d) \<and>
    (\<forall>k v. map_of ctx k = Some v \<longrightarrow>
      (case v of
         Dfb_val f \<Rightarrow> (\<exists>f'. map_of cc k = Some (Dfb_val f') \<and> replica (length (apis w)) k w f w' f')
       | _ \<Rightarrow> map_of cc k = Some v))"
proof -
  obtain a w1 where al: "alloc_api w = (Inr a, w1)" by (simp add: alloc_api_def)
  note A = alloc_api_facts [OF al]
  have ok: "\<forall>f\<in>set (dfb_refs ctx). buffer_ok w1 f" using assms(1) A(4) by (simp add: buffer_ok_def)
  have "\<exists>cc w'. smap (copy_value a) ctx w1 = (Inr cc, w') \<and> extends a w1 w' \<and>
      dfb_refs cc = [length (dfbs w1)..<length (dfbs w')] \<and> list_all2 (copied a w1 w') ctx cc"
    using A(2,3) ok assms(2) by (intro copy_values) (simp_all add: new_api_def MAX_DFBS_def)
  then obtain cc w' where c: "smap (copy_value a) ctx w1 = (Inr cc, w')" "extends a w1 w'"
    "dfb_refs cc = [length (dfbs w)..<length (dfbs w')]" "list_all2 (copied a w1 w') ctx cc"
    using A(4) by auto
  have keys: "map fst cc = map fst ctx"
    using c(4) by (induction rule: list_all2_induct) (auto simp: copied_def)
  have g: "map_of cc ''grid'' = Some (Grid_val g)"
    using copied_map_of [OF c(4) assms(3)] by (auto simp: copied_def)
  have nc: "''_core'' \<notin> fst ` set cc" using assms(4) keys by (metis list.set_map)
  let ?cc = "cc @ [(''_core'', Int_val (int n))]"
  have run: "build_core_context ctx n w = (Inr ?cc, w')"
    using al c(1) g assms(3) nc by (simp add: build_core_context_def alist_update_new alist_update_same)
  have look: "map_of ?cc k = map_of cc k" if "map_of cc k \<noteq> None" for k using that by (auto simp: map_add_def)
  have vals: "case v of Dfb_val f \<Rightarrow> (\<exists>f'. map_of ?cc k = Some (Dfb_val f') \<and> replica (length (apis w)) k w f w' f')
       | _ \<Rightarrow> map_of ?cc k = Some v" if "map_of ctx k = Some v" for k v
    using copied_map_of [OF c(4) that] look [of k] made_replica [of a k w _ w'] A(1,4)
    by (auto simp: copied_def split: ctx_val.splits)
  have frame: "lookup_dfb w' a' d = lookup_dfb w a' d" if "a' < length (apis w)" for a' d
    using c(2) A(1) A(6) [OF that] that by (simp add: extends_def)
  have tk: "take (length (dfbs w)) (dfbs w') = dfbs w" using c(2) A(4) by (auto simp: extends_def)
  have core: "map_of ?cc ''_core'' = Some (Int_val (int n))"
    using nc by (simp add: map_add_def map_of_eq_None_iff [THEN iffD2])
  have refs: "dfb_refs ?cc = [length (dfbs w)..<length (dfbs w')]" using c(3) by simp
  show ?thesis
    using run core refs tk frame vals by (intro exI [of _ ?cc] exI [of _ w']) blast
qed

definition demo_kernel_ctx :: ctx_dict where
  "demo_kernel_ctx = [(''grid'', Grid_val [2]), (''inp'', Dfb_val 0), (''t'', Tensor_val 0)]"

definition demo_kernel_sim :: "nat sim" where
  "demo_kernel_sim = demo_sim\<lparr>dfbs :=
     [\<lparr>element = 0, df_shape = [1, 2], buffer_factor = 2, df_api = None, df_id = None,
       pending_reserved_block = None, pending_waited_block = None, tiles_per_operation = 2,
       capacity_tiles = 4, df_stats_name = Some ''inp'', df_name = None\<rparr>]\<rparr>"

theorem core_context_isolated_witness:
  "\<exists>cc w' f'. build_core_context demo_kernel_ctx 1 demo_kernel_sim = (Inr cc, w') \<and>
     map_of cc ''inp'' = Some (Dfb_val f') \<and> replica 1 ''inp'' demo_kernel_sim 0 w' f' \<and>
     map_of cc ''_core'' = Some (Int_val 1)"
proof -
  have "\<forall>f\<in>set (dfb_refs demo_kernel_ctx). buffer_ok demo_kernel_sim f"
    "length (dfb_refs demo_kernel_ctx) \<le> 32"
    "map_of demo_kernel_ctx ''grid'' = Some (Grid_val [2])" "''_core'' \<notin> fst ` set demo_kernel_ctx"
    "map_of demo_kernel_ctx ''inp'' = Some (Dfb_val 0)" "length (apis demo_kernel_sim) = 1"
    by (simp_all add: demo_kernel_ctx_def demo_kernel_sim_def demo_sim_def buffer_ok_def)
  from core_context_isolated [OF this(1-4), of 1] this(5,6) show ?thesis by fastforce
qed

section \<open>Running a program\<close>

lemma sched_inv_world [simp]: "sched_inv (st\<lparr>world := w\<rparr>) \<longleftrightarrow> sched_inv st"
  by (simp add: sched_inv_def)

lemma add_template_keeps:
  assumes "add_template core_num cc nt st = (r, st')" and "sched_inv st"
  shows "sched_inv st'" "completed st' = completed st" "current_name st' = current_name st"
    "world st' = world st"
    "r = Inr () \<Longrightarrow> fst ` set (active st') = insert (thread_name core_num (fst nt)) (fst ` set (active st))"
proof -
  consider "tmpl_thread_type (snd nt) = None" "r \<noteq> Inr ()" "st' = st"
    | f tt where "r = Inr ()" "st' = add_thread (thread_name core_num (fst nt)) f tt st"
    using assms(1) by (cases "tmpl_thread_type (snd nt)") (auto simp: add_template_def)
  note C = this
  show "sched_inv st'" by (cases rule: C) (simp_all add: assms(2) sched_inv_add_thread)
  show "completed st' = completed st" "current_name st' = current_name st" "world st' = world st"
    by (cases rule: C; simp)+
  show "r = Inr () \<Longrightarrow>
      fst ` set (active st') = insert (thread_name core_num (fst nt)) (fst ` set (active st))"
    by (cases rule: C) (simp_all only: add_thread_frame simp_thms)
qed

lemma add_templates_keep:
  assumes "sfor (add_template core_num cc) tmpls st = (r, st')" and "sched_inv st"
  shows "sched_inv st' \<and> completed st' = completed st \<and> current_name st' = current_name st \<and>
    world st' = world st \<and> (r = Inr () \<longrightarrow>
      fst ` set (active st') = thread_name core_num ` fst ` set tmpls \<union> fst ` set (active st))"
  using assms
proof (induction tmpls arbitrary: st)
  case (Cons t ts)
  obtain q s1 where q: "add_template core_num cc t st = (q, s1)"
    by (cases "add_template core_num cc t st")
  note K = add_template_keeps [OF q Cons.prems(2)]
  show ?case
  proof (cases q)
    case (Inl e)
    with Cons.prems(1) q have "r = Inl e" "st' = s1" by simp_all
    with K show ?thesis by simp
  next
    case (Inr u)
    with Cons.prems(1) q have "sfor (add_template core_num cc) ts s1 = (r, st')" by simp
    from Cons.IH [OF this K(1)] K Inr show ?thesis by auto
  qed
qed simp

lemma preserves_branches:
  "preserves P m1 \<Longrightarrow> preserves P m2 \<Longrightarrow> preserves P (if b then m1 else m2)"
  "preserves P m \<Longrightarrow> (\<And>y. preserves P (f y)) \<Longrightarrow> preserves P (case x of None \<Rightarrow> m | Some y \<Rightarrow> f y)"
  by (auto split: option.split)

lemma new_buffer_keeps_thread:
  "preserves (\<lambda>w. current_thread_type w = t) (new_dataflow_buffer elem shp k api name)"
proof -
  let ?P = "\<lambda>w. current_thread_type w = t"
  have "preserves ?P (on_dfb a d args f)" for a d args and f :: "('t dfb_state, unit) state_op"
    by (auto simp: preserves_def on_dfb_def update_dfb_def split: sum.splits option.splits prod.splits)
  moreover have "preserves ?P (host_configure_dfb a d n shp)" for a d n
    by (auto simp: preserves_def host_configure_dfb_def update_dfb_def Let_def split: sum.splits)
  moreover have "preserves ?P (allocate_dfb_id a)" "preserves ?P (alloc_dfb df)" for a df
    by (auto simp: preserves_def allocate_dfb_id_def alloc_dfb_def Let_def)
  ultimately show ?thesis
    unfolding new_dataflow_buffer_def Let_def host_reset_dfb_def
    by (intro preserves_branches preserves_sbind) simp_all
qed

lemma preserves_smap: "(\<And>x. preserves P (f x)) \<Longrightarrow> preserves P (smap f xs)"
  by (induction xs) (auto intro!: preserves_sbind)

lemma context_keeps_thread:
  "preserves (\<lambda>w. current_thread_type w = t) (build_core_context ctx n)"
proof -
  let ?P = "\<lambda>w. current_thread_type w = t"
  have u: "preserves ?P (update_dfb_obj f g)" for f and g :: "'t dfb_obj \<Rightarrow> 't dfb_obj"
    by (simp add: preserves_def update_dfb_obj_def)
  have "preserves ?P (copy_value a (k, v))" for a k v
    by (cases v)
      (auto simp: copy_value_def the_dfb_def intro!: preserves_sbind new_buffer_keeps_thread u)
  then have "preserves ?P (smap (copy_value a) ctx)" for a
    by (intro preserves_smap) (auto simp: split_paired_all)
  moreover have "preserves ?P alloc_api" by (simp add: preserves_def alloc_api_def)
  ultimately show ?thesis unfolding build_core_context_def by (intro preserves_sbind) simp_all
qed

text \<open>The scheduler once all cores are added.\<close>

definition program_names :: "nat \<Rightarrow> string set \<Rightarrow> string set" where
  "program_names n names = {thread_name i name |i name. i < n \<and> name \<in> names}"

lemma add_cores_keep:
  assumes "smap (add_core ctx tmpls) is st = (r, st')" and "sched_inv st"
    and "current_thread_type (world st) = t"
  shows "sched_inv st' \<and> completed st' = completed st \<and> current_name st' = current_name st \<and>
    current_thread_type (world st') = t \<and> (\<forall>ccs. r = Inr ccs \<longrightarrow> length ccs = length is \<and>
      fst ` set (active st') = (\<Union>i\<in>set is. thread_name i ` fst ` set tmpls) \<union> fst ` set (active st))"
  using assms
proof (induction "is" arbitrary: st r)
  case (Cons i "is")
  obtain q w1 where b: "build_core_context ctx i (world st) = (q, w1)"
    by (cases "build_core_context ctx i (world st)")
  have t: "current_thread_type w1 = t"
    using preservesD [OF context_keeps_thread _ b, of t] Cons.prems(3) by simp
  have w: "on_world (build_core_context ctx i) st = (q, st\<lparr>world := w1\<rparr>)"
    by (simp add: on_world_def b)
  show ?case
  proof (cases q)
    case (Inl e)
    with Cons.prems w t have "r = Inl e" "st' = st\<lparr>world := w1\<rparr>" by (auto simp: add_core_def)
    with Cons.prems(2) t show ?thesis by simp
  next
    case (Inr cc)
    obtain p s1 where p: "sfor (add_template i cc) tmpls (st\<lparr>world := w1\<rparr>) = (p, s1)"
      by (cases "sfor (add_template i cc) tmpls (st\<lparr>world := w1\<rparr>)")
    have inv: "sched_inv (st\<lparr>world := w1\<rparr>)" using Cons.prems(2) by simp
    note K = add_templates_keep [OF p inv]
    show ?thesis
    proof (cases p)
      case (Inl e)
      with Cons.prems(1) w p Inr have "r = Inl e" "st' = s1" by (auto simp: add_core_def)
      with K t show ?thesis by simp
    next
      case (Inr u)
      have a: "add_core ctx tmpls i st = (Inr cc, s1)"
        using w p \<open>q = Inr cc\<close> Inr by (simp add: add_core_def)
      obtain r' where r': "smap (add_core ctx tmpls) is s1 = (r', st')"
        and r: "r = (case r' of Inl e \<Rightarrow> Inl e | Inr ccs \<Rightarrow> Inr (cc # ccs))"
        using Cons.prems(1) a by (cases "smap (add_core ctx tmpls) is s1")
          (auto simp: sbind_def split: sum.splits)
      have "sched_inv s1" "current_thread_type (world s1) = t" using K t by simp_all
      from Cons.IH [OF r' this] K Inr r show ?thesis by (auto split: sum.splits)
    qed
  qed
qed simp

lemma run_cooperative_cases:
  assumes "run_cooperative alg n tmpls ctx w = Some (r, w')"
  obtains (build_raised) e st where "smap (add_core ctx tmpls) [0..<n] (init_sched w) = (Inl e, st)"
      "r = Inl e" "w' = world st"
  | (run_raised) ccs st e st' where "smap (add_core ctx tmpls) [0..<n] (init_sched w) = (Inr ccs, st)"
      "run alg sync_can st = Some (Inl e, st')" "r = Inl e" "w' = world st'"
  | (ran) ccs st st' where "smap (add_core ctx tmpls) [0..<n] (init_sched w) = (Inr ccs, st)"
      "run alg sync_can st = Some (Inr (), st')" "r = validate_circular_buffers ccs w'" "w' = world st'"
proof -
  obtain q st where q: "smap (add_core ctx tmpls) [0..<n] (init_sched w) = (q, st)"
    by (cases "smap (add_core ctx tmpls) [0..<n] (init_sched w)")
  show ?thesis
  proof (cases q)
    case (Inl e)
    with assms q build_raised show ?thesis by (simp add: run_cooperative_def)
  next
    case (Inr ccs)
    with assms q obtain p st' where p: "run alg sync_can st = Some (p, st')"
      by (cases "run alg sync_can st") (auto simp: run_cooperative_def)
    show ?thesis
    proof (cases p)
      case (Inl e)
      with assms q p \<open>q = Inr ccs\<close> have "r = Inl e" "w' = world st'"
        by (simp_all add: run_cooperative_def)
      with run_raised q p \<open>q = Inr ccs\<close> Inl show ?thesis by blast
    next
      case (Inr u)
      with assms q p \<open>q = Inr ccs\<close> have "r = validate_circular_buffers ccs w'" "w' = world st'"
        by (auto simp: run_cooperative_def)
      with ran [of ccs st st'] q p \<open>q = Inr ccs\<close> Inr show ?thesis by simp
    qed
  qed
qed

lemma run_cooperative_ends: "\<exists>r w'. run_cooperative alg n tmpls ctx w = Some (r, w')"
proof -
  obtain q st where q: "smap (add_core ctx tmpls) [0..<n] (init_sched w) = (q, st)"
    by (cases "smap (add_core ctx tmpls) [0..<n] (init_sched w)")
  show ?thesis
  proof (cases q)
    case (Inl e)
    with q show ?thesis by (simp add: run_cooperative_def)
  next
    case (Inr ccs)
    have "sched_inv st" using add_cores_keep [OF q sched_inv_init refl] by blast
    then obtain p st' where "run alg sync_can st = Some (p, st')" using run_ends by blast
    with q Inr show ?thesis by (cases p) (simp_all add: run_cooperative_def)
  qed
qed


text \<open>The buffers that still have a block pending, with the core and the name they go by.\<close>

definition has_pending :: "('t, 'z) sim_scheme \<Rightarrow> ctx_val \<Rightarrow> bool" where
  "has_pending w v \<longleftrightarrow> (\<exists>f. v = Dfb_val f \<and>
     (pending_reserved_block (dfbs w ! f) \<noteq> None \<or> pending_waited_block (dfbs w ! f) \<noteq> None))"

definition pending_line :: "nat \<times> string \<times> ctx_val \<Rightarrow> string" where
  "pending_line ikv = ''core'' @ show_nat (fst ikv) @ ''.'' @ fst (snd ikv) @
     '': DataflowBuffer has incomplete blocks at end of execution''"

lemma in_dfb_refs: "(k, Dfb_val f) \<in> set cc \<Longrightarrow> f \<in> set (dfb_refs cc)"
  by (induction cc rule: dfb_refs.induct) auto

lemma in_indexed: "(i, k, v) \<in> set (indexed ccs) \<longleftrightarrow> i < length ccs \<and> (k, v) \<in> set (ccs ! i)"
proof -
  have "(i, k, v) \<in> set (indexed ccs) \<longleftrightarrow>
      (\<exists>cc. (i, cc) \<in> set (enumerate 0 ccs) \<and> (k, v) \<in> set cc)"
    unfolding indexed_def by (force simp: image_iff)
  then show ?thesis by (simp add: in_set_enumerate_eq)
qed

lemma pending_error_eq:
  assumes "\<forall>f. v = Dfb_val f \<longrightarrow> f < length (dfbs w)"
  shows "pending_error w i (k, v) = Inr (if has_pending w v then [pending_line (i, k, v)] else [])"
  using assms
  by (auto simp: pending_error_def has_pending_def pending_line_def validate_no_pending_blocks_def
      the_dfb_def split: ctx_val.split)

lemma concat_map_if: "concat (map (\<lambda>x. if P x then [f x] else []) xs) = map f (filter P xs)"
  by (induction xs) auto

text \<open>
  The check at the end of a program reports exactly the buffers that still have a
  reserved or waited block: it passes when there is none, and otherwise raises with one line
  for each of them, by core and name, in order.
\<close>

lemma validation_reports_pending:
  assumes "\<forall>cc\<in>set ccs. \<forall>f\<in>set (dfb_refs cc). f < length (dfbs w)"
  shows "validate_circular_buffers ccs w =
    (let bad = filter (\<lambda>(i, k, v). has_pending w v) (indexed ccs) in
     if bad = [] then Inr ()
     else Inl (incomplete_error (map pending_line bad)))"
proof -
  have "pending_error w i (k, v) = Inr (if has_pending w v then [pending_line (i, k, v)] else [])"
    if "(i, k, v) \<in> set (indexed ccs)" for i k v
  proof (rule pending_error_eq, intro allI impI)
    fix f
    assume v: "v = Dfb_val f"
    have "ccs ! i \<in> set ccs" "(k, Dfb_val f) \<in> set (ccs ! i)"
      using that v by (simp_all add: in_indexed)
    with assms in_dfb_refs show "f < length (dfbs w)" by blast
  qed
  then have r: "rmap (\<lambda>(i, kv). pending_error w i kv) (indexed ccs) =
      Inr (map (\<lambda>ikv. if has_pending w (snd (snd ikv)) then [pending_line ikv] else []) (indexed ccs))"
    by (intro rmap_all_Inr) auto
  have p: "(\<lambda>(i, k, v). has_pending w v) = (\<lambda>ikv. has_pending w (snd (snd ikv)))" by auto
  show ?thesis
    unfolding p by (simp add: r validate_circular_buffers_def concat_map_if Let_def del: concat_eq_Nil_conv)
qed

lemma validation_reports_pending_witness:
  "validate_circular_buffers [[(''a'', Dfb_val 0)]] demo_buffer = Inr ()"
proof -
  have "0 < length (dfbs demo_buffer)" using demo_buffer_facts(1) by (rule buffer_inv_length)
  then have "\<forall>cc\<in>set [[(''a'', Dfb_val 0)]]. \<forall>f\<in>set (dfb_refs cc). f < length (dfbs demo_buffer)"
    by simp
  from validation_reports_pending [OF this] show ?thesis
    using demo_buffer_facts(2,3) by (simp add: indexed_def has_pending_def)
qed

lemma validate_Inr:
  assumes "validate_circular_buffers ccs w = Inr ()" and "i < length ccs" and "(k, Dfb_val f) \<in> set (ccs ! i)"
  shows "pending_reserved_block (dfbs w ! f) = None \<and> pending_waited_block (dfbs w ! f) = None"
proof -
  obtain ess where e: "rmap (\<lambda>(i, kv). pending_error w i kv) (indexed ccs) = Inr ess" "concat ess = []"
    using assms(1) by (auto simp: validate_circular_buffers_def rbind_eq_Inr Let_def)
  have "(i, k, Dfb_val f) \<in> set (indexed ccs)" using assms(2,3) by (simp add: in_indexed)
  then obtain j where j: "j < length (indexed ccs)" "indexed ccs ! j = (i, k, Dfb_val f)"
    by (auto simp: in_set_conv_nth)
  with e have "pending_error w i (k, Dfb_val f) = Inr (ess ! j)" "ess ! j = []"
    by (auto simp: rmap_Inr_iff)
  then show ?thesis
    by (auto simp: pending_error_def validate_no_pending_blocks_def the_dfb_def sbind_def py_nth_def
        split: sum.splits exn.splits if_splits)
qed

text \<open>
  Property C3: a program that returns is done: every core ran its three threads to their end,
  nothing is left in the scheduler, and no buffer of any core has a reserved or a waited block
  pending.
\<close>

theorem program_returns_clean:
  assumes "run_cooperative alg n tmpls ctx w = Some (Inr (), w')" and "current_thread_type w = None"
  shows "\<exists>ccs st st'. smap (add_core ctx tmpls) [0..<n] (init_sched w) = (Inr ccs, st) \<and>
    length ccs = n \<and> run alg sync_can st = Some (Inr (), st') \<and> world st' = w' \<and> active st' = [] \<and>
    set (completed st') = (\<Union>i<n. thread_name i ` fst ` set tmpls) \<and>
    (\<forall>cc\<in>set ccs. \<forall>(k, v)\<in>set cc. \<not> has_pending w' v) \<and> current_thread_type w' = None"
  using assms(1)
proof (cases rule: run_cooperative_cases)
  case (ran ccs st st')
  have "current_thread_type (world (init_sched w)) = None" using assms(2) by (simp add: init_sched_def)
  from add_cores_keep [OF ran(1) sched_inv_init this]
  have st: "sched_inv st" "current_name st = None" "current_thread_type (world st) = None"
    "completed st = []" "length ccs = n"
    "fst ` set (active st) = (\<Union>i<n. thread_name i ` fst ` set tmpls)"
    by (simp_all add: init_sched_def atLeast0LessThan)
  note out = run_outcome_from [OF st(1) ran(2) st(3,2)]
  have pend: "\<not> has_pending w' v" if cc: "cc \<in> set ccs" and kv: "(k, v) \<in> set cc" for cc k v
  proof -
    from cc obtain i where i: "i < length ccs" "ccs ! i = cc" by (auto simp: in_set_conv_nth)
    have v: "validate_circular_buffers ccs w' = Inr ()" by (rule ran(3) [symmetric])
    have "pending_reserved_block (dfbs w' ! f) = None \<and> pending_waited_block (dfbs w' ! f) = None"
      if "v = Dfb_val f" for f
      by (rule validate_Inr [OF v i(1)]) (use kv i(2) that in simp)
    then show ?thesis by (auto simp: has_pending_def)
  qed
  have fin: "set (completed st') = (\<Union>i<n. thread_name i ` fst ` set tmpls)" "active st' = []"
    "current_thread_type w' = None"
    using conjunct1 [OF out] conjunct2 [OF conjunct2 [OF conjunct2 [OF out]]]
    by (simp_all add: name_set_def st(4,6) ran(4))
  show ?thesis
  proof (intro exI conjI)
    show "smap (add_core ctx tmpls) [0..<n] (init_sched w) = (Inr ccs, st)" by (rule ran(1))
    show "run alg sync_can st = Some (Inr (), st')" by (rule ran(2))
    show "\<forall>cc\<in>set ccs. \<forall>(k, v)\<in>set cc. \<not> has_pending w' v" using pend by blast
    show "world st' = w'" by (rule ran(4) [symmetric])
  qed (rule st fin)+
qed simp_all

text \<open>A program on a grid of two cores whose threads return at once.\<close>

definition idle_template :: "thread_type \<Rightarrow> ((nat, unit) cworld_scheme, sync_obj) template" where
  "idle_template tt = \<lparr>wrapped = \<lparr>cells = [], func_globals = Map.empty, code = (\<lambda>_ _. Ret)\<rparr>,
     tmpl_thread_type = Some tt\<rparr>"

definition demo_cworld :: "nat cworld" where
  "demo_cworld = \<lparr>current_thread_type = None, apis = [], blocks = [], stats = init_stats, dfbs = [],
     pipe_buffer = Map.empty, tensors = [], txs = []\<rparr>"

definition demo_templates :: "(string \<times> ((nat, unit) cworld_scheme, sync_obj) template) list" where
  "demo_templates = [(''compute'', idle_template COMPUTE), (''dm0'', idle_template DM),
     (''dm1'', idle_template DM)]"

lemma show_0: "show_nat 0 = ''0''"
  by (subst show_nat.simps) (simp add: digit_char_def)

abbreviation demo_entry :: "thread_type \<Rightarrow> (nat cworld, sync_obj) entry" where
  "demo_entry tt \<equiv> \<lparr>e_greenlet = Start Ret, blocking_obj = None, blocked_op = '''', e_thread_type = tt,
    block_location = '''', raw_loc = None\<rparr>"

lemma demo_cores:
  "\<exists>st. smap (add_core [(''grid'', Grid_val [1])] demo_templates) [0..<1] (init_sched demo_cworld) =
      (Inr [[(''grid'', Grid_val [1]), (''_core'', Int_val 0)]], st) \<and>
    active st = [(thread_name 0 ''compute'', demo_entry COMPUTE), (thread_name 0 ''dm0'', demo_entry DM),
      (thread_name 0 ''dm1'', demo_entry DM)]"
proof -
  have b: "build_core_context [(''grid'', Grid_val [1])] 0 demo_cworld =
      (Inr [(''grid'', Grid_val [1]), (''_core'', Int_val 0)], demo_cworld\<lparr>apis := [new_api]\<rparr>)"
    by (simp add: build_core_context_def alloc_api_def copy_value_def demo_cworld_def)
  show ?thesis
    by (simp add: add_core_def on_world_def init_sched_def b demo_templates_def add_template_def
        idle_template_def add_thread_def thread_name_def show_0 rebind_func_with_ctx_def call_func_def)
qed

lemma demo_program_runs:
  "\<exists>w'. run_cooperative Greedy 1 demo_templates [(''grid'', Grid_val [1])] demo_cworld = Some (Inr (), w')"
proof -
  obtain st where st: "smap (add_core [(''grid'', Grid_val [1])] demo_templates) [0..<1]
        (init_sched demo_cworld) = (Inr [[(''grid'', Grid_val [1]), (''_core'', Int_val 0)]], st)"
    and act: "active st = [(thread_name 0 ''compute'', demo_entry COMPUTE),
      (thread_name 0 ''dm0'', demo_entry DM), (thread_name 0 ''dm1'', demo_entry DM)]"
    using demo_cores by blast
  have "\<exists>st'. run Greedy sync_can st = Some (Inr (), st')"
    by (simp add: run_def candidates_def main_loop.simps act thread_name_def show_0 try_thread_def
        is_blocked_def unblock_def switch_def mark_completed_def with_thread_type_def Let_def)
  then obtain st' where "run Greedy sync_can st = Some (Inr (), st')" ..
  then show ?thesis
    unfolding run_cooperative_def st
    by (simp add: validate_circular_buffers_def indexed_def pending_error_def)
qed

theorem program_returns_clean_witness:
  "\<exists>w'. run_cooperative Greedy 1 demo_templates [(''grid'', Grid_val [1])] demo_cworld = Some (Inr (), w') \<and>
     (\<exists>st' :: (nat cworld, sync_obj) sched. world st' = w' \<and> active st' = [] \<and>
       set (completed st') = {''core0-compute'', ''core0-dm0'', ''core0-dm1''})"
proof -
  obtain w' where r: "run_cooperative Greedy 1 demo_templates [(''grid'', Grid_val [1])] demo_cworld =
      Some (Inr (), w')" using demo_program_runs by blast
  have t: "current_thread_type demo_cworld = None" by (simp add: demo_cworld_def)
  have names: "(\<Union>i<1. thread_name i ` fst ` set demo_templates) =
      {''core0-compute'', ''core0-dm0'', ''core0-dm1''}"
    by (simp add: demo_templates_def thread_name_def show_0 lessThan_Suc)
  show ?thesis using program_returns_clean [OF r t]
  proof (elim exE conjE)
    fix st' :: "(nat cworld, sync_obj) sched"
    assume st': "world st' = w'" "active st' = []"
      "set (completed st') = (\<Union>i<1. thread_name i ` fst ` set demo_templates)"
    show ?thesis
      by (intro exI [of _ w'] conjI exI [of _ st'] r st'(1,2)) (rule st'(3) [unfolded names])
  qed
qed

section \<open>What a thread sees\<close>

lemma fold_update_map_of: "map_of (fold (\<lambda>(n, v). AList.update n v) ls c) = map_of c ++ map_of (rev ls)"
  by (induction ls arbitrary: c) (auto simp: update_conv' map_add_def fun_eq_iff split: option.splits)

definition filled :: "(string \<times> ctx_val option) list \<Rightarrow> ctx_dict" where
  "filled cs = concat (map (\<lambda>(n, c). case c of None \<Rightarrow> [] | Some v \<Rightarrow> [(n, v)]) cs)"

lemma filled_Cons:
  "map_of (filled ((n, c) # cs)) =
     (case c of None \<Rightarrow> map_of (filled cs) | Some v \<Rightarrow> (map_of (filled cs))(n \<mapsto> v))"
  by (simp add: filled_def split: option.split)

lemma map_of_add_cell:
  "map_of (add_cell (n, c) ctx) =
     (case c of None \<Rightarrow> map_of ctx
      | Some v \<Rightarrow> if map_of ctx n = None then (map_of ctx)(n \<mapsto> v) else map_of ctx)"
  by (cases c; cases "map_of ctx n") (simp_all add: add_cell_def update_conv')

lemma fold_add_cell: "map_of (fold add_cell cs c) = map_of (filled cs) ++ map_of c"
proof (induction cs arbitrary: c)
  case (Cons x cs)
  obtain n v where x: "x = (n, v)" by (cases x)
  have "map_of (filled cs) ++ map_of (add_cell x c) = map_of (filled (x # cs)) ++ map_of c"
    by (rule ext) (simp add: x map_of_add_cell filled_Cons map_add_def split: option.split)
  then show ?case by (simp add: Cons.IH)
qed (simp add: filled_def)

text \<open>
  What a name means inside the threads of a program. The locals of the frame that
  calls the program come first, then the grid, and only then the variables the thread functions
  captured; and a bound thread function reads each of its free variables from the context of
  its core when the name is there. So a kernel variable whose name the calling frame (the
  wrapper of \<open>kernel\<close>) also uses is shadowed by that frame's local.
\<close>

lemma context_lookup:
  "map_of (gather_context grid ls functions) n =
     (case map_of (rev ls) n of
        Some v \<Rightarrow> Some v
      | None \<Rightarrow> if n = ''grid'' then Some (Grid_val grid)
          else map_of (filled (concat (map (\<lambda>t. cells (wrapped t)) functions))) n) \<and>
   map_of (cells (rebind_func_with_ctx f ctx)) n =
     (case map_of (cells f) n of
        None \<Rightarrow> None
      | Some c \<Rightarrow> Some (case map_of ctx n of Some v \<Rightarrow> Some v | None \<Rightarrow> c))"
proof
  show "map_of (gather_context grid ls functions) n =
     (case map_of (rev ls) n of
        Some v \<Rightarrow> Some v
      | None \<Rightarrow> if n = ''grid'' then Some (Grid_val grid)
          else map_of (filled (concat (map (\<lambda>t. cells (wrapped t)) functions))) n)"
    by (simp add: gather_context_def fold_add_cell fold_update_map_of map_add_def split: option.split)
  show "map_of (cells (rebind_func_with_ctx f ctx)) n =
     (case map_of (cells f) n of
        None \<Rightarrow> None
      | Some c \<Rightarrow> Some (case map_of ctx n of Some v \<Rightarrow> Some v | None \<Rightarrow> c))"
  proof -
    have "map_of (map (\<lambda>(n, c). (n, case map_of ctx n of Some v \<Rightarrow> Some v | None \<Rightarrow> c)) cs) n =
        (case map_of cs n of None \<Rightarrow> None
         | Some c \<Rightarrow> Some (case map_of ctx n of Some v \<Rightarrow> Some v | None \<Rightarrow> c))" for cs
      by (induction cs) (simp_all add: split_def)
    then show ?thesis by (simp add: rebind_func_with_ctx_def)
  qed
qed

section \<open>The deadlock report and the fair check\<close>

lemma thread_name_core: "CHR ''-'' \<notin> set name \<Longrightarrow> core_thread_name (thread_name n name)"
  unfolding core_thread_name_def thread_name_def by blast

text \<open>
  A program's deadlock report never fails: whenever the scheduler of a program
  stops, with either algorithm and for every grid, the report over the threads left in it can
  be printed (the report parses the core numbers back out of the thread names).
\<close>

lemma program_deadlock_report:
  assumes "smap (add_core ctx tmpls) [0..<n] (init_sched w) = (Inr ccs, st)"
    and "run alg sync_can st = Some (r, st')" and "current_thread_type w = None"
    and "\<forall>name\<in>fst ` set tmpls. CHR ''-'' \<notin> set name"
  shows "\<exists>ls. deadlock_report (obj_description (world st')) st' = Inr ls"
proof (rule deadlock_report_total)
  have "current_thread_type (world (init_sched w)) = None" using assms(3) by (simp add: init_sched_def)
  from add_cores_keep [OF assms(1) sched_inv_init this]
  have st: "sched_inv st" "current_name st = None" "current_thread_type (world st) = None"
    "name_set st = (\<Union>i<n. thread_name i ` fst ` set tmpls)"
    by (simp_all add: name_set_def init_sched_def atLeast0LessThan)
  from run_outcome_from [OF st(1) assms(2) st(3,2)]
  have "name_set st' = (\<Union>i<n. thread_name i ` fst ` set tmpls)" using st(4) by simp
  then have "fst ` set (active st') \<subseteq> (\<Union>i<n. thread_name i ` fst ` set tmpls)"
    unfolding name_set_def by blast
  moreover have "core_thread_name name" if "name \<in> (\<Union>i<n. thread_name i ` fst ` set tmpls)" for name
  proof -
    from that obtain i suffix where "name = thread_name i suffix" "suffix \<in> fst ` set tmpls" by blast
    with assms(4) thread_name_core show ?thesis by blast
  qed
  ultimately show "\<forall>name\<in>fst ` set (active st'). core_thread_name name" by blast
qed

text \<open>
  With the fair algorithm the second check of \<open>block_if_needed\<close>, after the
  thread is resumed, always passes: no thread is ever parked behind it, because the scheduler
  resumes a thread only when the same check of the same object passed, and whether it passes
  does not depend on the running thread.
\<close>

lemma fair_recheck_is_dead:
  assumes "main_loop Fair sync_can st = Some (r, st')" and "sched_inv st" and "no_resume st"
  shows "no_resume st'"
proof -
  have "no_resume st' \<and> loop_end sync_can r st'"
    by (rule main_loop_outcome [where P = no_resume, OF assms(2,3,1)])
      (rule objects.try_thread_no_resume)
  then show ?thesis ..
qed

text \<open>The scheduler of the program above.\<close>

definition demo_sched :: "(nat cworld, sync_obj) sched" where
  "demo_sched = with_threads [(''core0-dm0'', Ret, DM)] demo_cworld"

lemma fair_recheck_is_dead_witness:
  "\<exists>st'. main_loop Fair sync_can demo_sched = Some (Inr (), st') \<and> no_resume st'"
proof -
  have "\<exists>st'. main_loop Fair sync_can demo_sched = Some (Inr (), st')"
    by (simp add: demo_sched_def with_threads_def add_thread_def init_sched_def candidates_def
        get_fair_thread_order_def main_loop.simps try_thread_def is_blocked_def unblock_def
        switch_def mark_completed_def with_thread_type_def Let_def)
  then obtain st' where m: "main_loop Fair sync_can demo_sched = Some (Inr (), st')" ..
  have i: "sched_inv demo_sched" unfolding demo_sched_def by (rule with_threads_inv)
  have n: "no_resume demo_sched"
    by (simp add: no_resume_def demo_sched_def with_threads_def add_thread_def init_sched_def)
  from m fair_recheck_is_dead [OF m i n] show ?thesis by blast
qed

lemma program_deadlock_report_witness:
  "\<exists>ccs (st :: (nat cworld, sync_obj) sched) r st' ls.
     smap (add_core [(''grid'', Grid_val [1])] demo_templates) [0..<1] (init_sched demo_cworld) = (Inr ccs, st) \<and>
     run Fair sync_can st = Some (r, st') \<and> deadlock_report (obj_description (world st')) st' = Inr ls"
proof -
  obtain ccs st where s: "smap (add_core [(''grid'', Grid_val [1])] demo_templates) [0..<1]
      (init_sched demo_cworld) = (Inr ccs, st)" using demo_cores by blast
  have i: "sched_inv st" using add_cores_keep [OF s sched_inv_init refl] by blast
  obtain r st' where r: "run Fair sync_can st = Some (r, st')" using run_ends [OF i] by blast
  have t: "current_thread_type demo_cworld = None" by (simp add: demo_cworld_def)
  have d: "\<forall>name\<in>fst ` set demo_templates. CHR ''-'' \<notin> set name"
    by (simp add: demo_templates_def)
  from program_deadlock_report [OF s r t d] s r show ?thesis by blast
qed

end
