(* ===== verification/Blockmath.thy ===== *)
theory Blockmath
  imports Block
begin

text \<open>
  The functions of \<open>python/sim/math.py\<close> on blocks. The tile operations of PyTorch they call
  extend the record \<open>torch\<close>; an activation with parameters takes the PyTorch function it
  wraps as an argument.

  The lemmas: what a sum reduction computes, element by element, for blocks of several tiles;
  what a broadcast replicates; and that transposing twice gives the block back.
\<close>

section \<open>Tile operations\<close>

record 'x torch_math = "'x torch" +
  t_zeros_like :: "'x \<Rightarrow> 'x"
  t_max_all :: "'x \<Rightarrow> 'x result"
  t_sum_all :: "'x \<Rightarrow> 'x result"
  t_max_dim :: "nat \<Rightarrow> 'x \<Rightarrow> 'x result"
  t_sum_dim :: "nat \<Rightarrow> 'x \<Rightarrow> 'x result"
  t_set_corner :: "'x \<Rightarrow> 'x \<Rightarrow> 'x result"
  t_set_col0 :: "'x \<Rightarrow> 'x \<Rightarrow> 'x result"
  t_set_row0 :: "'x \<Rightarrow> 'x \<Rightarrow> 'x result"

section \<open>Broadcast\<close>

text \<open>\<open>xs[i]\<close> for a Python integer, which counts from the end when it is negative.\<close>

definition py_get :: "'a list \<Rightarrow> int \<Rightarrow> 'a result" where
  "py_get xs i =
     (if 0 \<le> i then py_nth xs (nat i)
      else if - int (length xs) \<le> i then py_nth xs (nat (i + int (length xs)))
      else Inl (IndexError ''tuple index out of range''))"

definition check_broadcast_dim :: "nat list \<Rightarrow> int \<Rightarrow> unit \<Rightarrow> unit result" where
  "check_broadcast_dim shp d u =
     (if d \<ge> int (length shp) then Inl (ValueError ''Cannot broadcast along dimension'')
      else rbind (py_get shp d) (\<lambda>n.
        guard (n = 1) (ValueError ''Cannot broadcast along dimension: dimension must have size 1'')))"

definition waiting_block :: "'t block \<Rightarrow> bool" where
  "waiting_block bl \<longleftrightarrow> \<not> is_temporary bl \<and> acquisition bl = WAIT \<and> thread_type bl = COMPUTE"

definition broadcast ::
    "'t torch_math \<Rightarrow> nat \<Rightarrow> int list option \<Rightarrow> (('t, 'z) heap_scheme, nat) state_op" where
  "broadcast T b dims =
     (case dims of
        None \<Rightarrow> sraise (ValueError ''dims parameter is required for broadcast()'')
      | Some ds \<Rightarrow>
          sbind (the_block b) (\<lambda>bl.
          sbind (slift (\<lambda>_. rfold (check_broadcast_dim (bshape bl)) ds ())) (\<lambda>_.
          sbind (slift (\<lambda>w. to_list w bl)) (\<lambda>ts.
          sbind (slift (\<lambda>_. rmap (t_expand_first T ds) ts)) (\<lambda>rs.
            alloc_block ((from_list rs (bshape bl))\<lparr>source_blocks :=
              source_blocks bl @ (if waiting_block bl then [b] else [])\<rparr>))))))"

section \<open>Elementwise functions\<close>

definition apply_unary_with_params ::
    "('t \<Rightarrow> 't result) \<Rightarrow> nat \<Rightarrow> (('t, 'z) heap_scheme, nat) state_op" where
  "apply_unary_with_params op b =
     sbind (the_block b) (\<lambda>bl.
     sbind (slift (\<lambda>w. to_list w bl)) (\<lambda>ts.
     sbind (slift (\<lambda>_. rmap op ts)) (\<lambda>rs.
       alloc_block (track_source_blocks (from_list rs (bshape bl)) [(b, bl)]))))"

text \<open>The table of \<open>ttl.math\<close> names and the PyTorch functions behind them.\<close>

definition torch_unary_ops :: "(string \<times> string) list" where
  "torch_unary_ops =
     [(''exp'', ''exp''), (''exp2'', ''exp2''), (''expm1'', ''expm1''), (''log'', ''log''),
      (''logp1'', ''log1p''), (''sqrt'', ''sqrt''), (''square'', ''square''), (''rsqrt'', ''rsqrt''),
      (''recip'', ''reciprocal''), (''tan'', ''tan''), (''tanh'', ''tanh''), (''atan'', ''atan''),
      (''atanh'', ''atanh''), (''sin'', ''sin''), (''asin'', ''asin''), (''asinh'', ''asinh''),
      (''cos'', ''cos''), (''acos'', ''acos''), (''acosh'', ''acosh''), (''relu'', ''relu''),
      (''sigmoid'', ''sigmoid''), (''gelu'', ''gelu''), (''silu'', ''silu''),
      (''softsign'', ''softsign''), (''hardsigmoid'', ''hardsigmoid''), (''selu'', ''selu'')]"

definition unary_op ::
    "(string \<Rightarrow> 't \<Rightarrow> 't result) \<Rightarrow> string \<Rightarrow> nat \<Rightarrow> (('t, 'z) heap_scheme, nat) state_op" where
  "unary_op torch_fn name b =
     (case map_of torch_unary_ops name of
        None \<Rightarrow> sraise (AttributeError name)
      | Some fn \<Rightarrow> apply_unary_with_params (torch_fn fn) b)"

definition math_binary_op ::
    "('t \<Rightarrow> 't \<Rightarrow> 't result) \<Rightarrow> nat \<Rightarrow> nat \<Rightarrow> (('t, 'z) heap_scheme, nat) state_op" where
  "math_binary_op op a b =
     sbind (the_block a) (\<lambda>x. sbind (the_block b) (\<lambda>y.
     sbind (slift (\<lambda>w. to_list w x)) (\<lambda>xs.
     sbind (slift (\<lambda>w. to_list w y)) (\<lambda>ys.
     sbind (slift (\<lambda>_. rmap (\<lambda>(u, v). op u v) (zip xs ys))) (\<lambda>rs.
       alloc_block (track_source_blocks (from_list rs (bshape x)) [(a, x), (b, y)]))))))"

definition block_max :: "'t torch_math \<Rightarrow> nat \<Rightarrow> nat \<Rightarrow> (('t, 'z) heap_scheme, nat) state_op" where
  "block_max T = math_binary_op (t_maximum T)"

definition block_min ::
    "('t \<Rightarrow> 't \<Rightarrow> 't result) \<Rightarrow> nat \<Rightarrow> nat \<Rightarrow> (('t, 'z) heap_scheme, nat) state_op" where
  "block_min minimum = math_binary_op minimum"

definition rsub ::
    "(int \<Rightarrow> 't) \<Rightarrow> ('t \<Rightarrow> 't \<Rightarrow> 't result) \<Rightarrow> nat \<Rightarrow> int \<Rightarrow> (('t, 'z) heap_scheme, nat) state_op" where
  "rsub tensor sub a b = apply_unary_with_params (sub (tensor b)) a"

definition relu_max ::
    "('t \<Rightarrow> 't result) \<Rightarrow> (int \<Rightarrow> 't \<Rightarrow> 't result) \<Rightarrow> nat \<Rightarrow> int \<Rightarrow> (('t, 'z) heap_scheme, nat) state_op" where
  "relu_max relu clamp_max b upper_limit =
     apply_unary_with_params (\<lambda>t. rbind (relu t) (clamp_max upper_limit)) b"

definition relu_min ::
    "('t \<Rightarrow> 't result) \<Rightarrow> (int \<Rightarrow> 't \<Rightarrow> 't result) \<Rightarrow> nat \<Rightarrow> int \<Rightarrow> (('t, 'z) heap_scheme, nat) state_op" where
  "relu_min relu clamp_min b lower_limit =
     apply_unary_with_params (\<lambda>t. rbind (clamp_min lower_limit t) relu) b"

definition leaky_relu ::
    "('f \<Rightarrow> 't \<Rightarrow> 't result) \<Rightarrow> nat \<Rightarrow> 'f \<Rightarrow> (('t, 'z) heap_scheme, nat) state_op" where
  "leaky_relu torch_leaky_relu b slope = apply_unary_with_params (torch_leaky_relu slope) b"

definition elu :: "('f \<Rightarrow> 't \<Rightarrow> 't result) \<Rightarrow> nat \<Rightarrow> 'f \<Rightarrow> (('t, 'z) heap_scheme, nat) state_op" where
  "elu torch_elu b alpha = apply_unary_with_params (torch_elu alpha) b"

definition celu ::
    "('f \<Rightarrow> 't \<Rightarrow> 't result) \<Rightarrow> nat \<Rightarrow> 'f \<Rightarrow> 'f \<Rightarrow> (('t, 'z) heap_scheme, nat) state_op" where
  "celu torch_celu b alpha alpha_recip = apply_unary_with_params (torch_celu alpha) b"

definition prelu ::
    "('f \<Rightarrow> 't \<Rightarrow> 't result) \<Rightarrow> nat \<Rightarrow> 'f \<Rightarrow> (('t, 'z) heap_scheme, nat) state_op" where
  "prelu torch_leaky_relu b alpha = apply_unary_with_params (torch_leaky_relu alpha) b"

definition softplus ::
    "('f \<Rightarrow> 'f \<Rightarrow> 't \<Rightarrow> 't result) \<Rightarrow> nat \<Rightarrow> 'f \<Rightarrow> 'f \<Rightarrow> 'f \<Rightarrow> (('t, 'z) heap_scheme, nat) state_op" where
  "softplus torch_softplus b beta beta_reciprocal threshold =
     apply_unary_with_params (torch_softplus beta threshold) b"

definition hardtanh ::
    "('f \<Rightarrow> 'f \<Rightarrow> 't \<Rightarrow> 't result) \<Rightarrow> nat \<Rightarrow> 'f \<Rightarrow> 'f \<Rightarrow> (('t, 'z) heap_scheme, nat) state_op" where
  "hardtanh torch_hardtanh b min_val max_val =
     apply_unary_with_params (torch_hardtanh min_val max_val) b"

section \<open>Reductions\<close>

datatype reduction = Max_reduction | Sum_reduction

definition reduce_all :: "'t torch_math \<Rightarrow> reduction \<Rightarrow> 't \<Rightarrow> 't result" where
  "reduce_all T k = (case k of Max_reduction \<Rightarrow> t_max_all T | Sum_reduction \<Rightarrow> t_sum_all T)"

definition reduce_dim :: "'t torch_math \<Rightarrow> reduction \<Rightarrow> nat \<Rightarrow> 't \<Rightarrow> 't result" where
  "reduce_dim T k = (case k of Max_reduction \<Rightarrow> t_max_dim T | Sum_reduction \<Rightarrow> t_sum_dim T)"

definition combine :: "'t torch_math \<Rightarrow> reduction \<Rightarrow> 't \<Rightarrow> 't \<Rightarrow> 't result" where
  "combine T k = (case k of Max_reduction \<Rightarrow> t_maximum T | Sum_reduction \<Rightarrow> t_add T)"

text \<open>Step 1, one tile.\<close>

definition reduce_tile :: "'t torch_math \<Rightarrow> reduction \<Rightarrow> int list \<Rightarrow> 't \<Rightarrow> 't result" where
  "reduce_tile T k dims tile =
     (let result_tile = t_zeros_like T tile in
      if 0 \<in> set dims \<and> 1 \<in> set dims then rbind (reduce_all T k tile) (t_set_corner T result_tile)
      else if 0 \<in> set dims then rbind (reduce_dim T k 1 tile) (t_set_col0 T result_tile)
      else if 1 \<in> set dims then rbind (reduce_dim T k 0 tile) (t_set_row0 T result_tile)
      else Inr result_tile)"

text \<open>Step 2, the tiles that go into the result at \<open>(ri, rj)\<close>, in row-major order.\<close>

definition grid_cells :: "nat \<Rightarrow> nat \<Rightarrow> (nat \<times> nat) list" where
  "grid_cells M N = concat (map (\<lambda>i. map (Pair i) [0..<N]) [0..<M])"

definition cells_of :: "int list \<Rightarrow> nat \<Rightarrow> nat \<Rightarrow> nat \<Rightarrow> nat \<Rightarrow> (nat \<times> nat) list" where
  "cells_of dims M N ri rj =
     filter (\<lambda>(i, j). (0 \<in> set dims \<or> i = ri) \<and> (1 \<in> set dims \<or> j = rj)) (grid_cells M N)"

definition reduce_cell ::
    "'t torch_math \<Rightarrow> reduction \<Rightarrow> int list \<Rightarrow> nat \<Rightarrow> nat \<Rightarrow> 't list \<Rightarrow> 't \<Rightarrow> nat \<times> nat \<Rightarrow> 't result" where
  "reduce_cell T k dims M N reduced_tiles scaler_tile r =
     rbind (rmap (\<lambda>(i, j). py_nth reduced_tiles (i * N + j)) (cells_of dims M N (fst r) (snd r)))
       (\<lambda>tiles.
         case tiles of
           [] \<Rightarrow> Inl (IndexError ''list index out of range'')
         | t # ts \<Rightarrow> rbind (rfold (\<lambda>u acc. combine T k acc u) ts t) (\<lambda>acc. t_mul T acc scaler_tile))"

definition reduce_block ::
    "'t torch_math \<Rightarrow> reduction \<Rightarrow> nat \<Rightarrow> nat \<Rightarrow> int list option \<Rightarrow> (('t, 'z) heap_scheme, nat) state_op" where
  "reduce_block T k b scaler dims =
     (case dims of
        None \<Rightarrow> sraise (ValueError ''dims parameter must contain at least one dimension'')
      | Some [] \<Rightarrow> sraise (ValueError ''dims parameter must contain at least one dimension'')
      | Some (d # ds) \<Rightarrow>
          sbind (the_block b) (\<lambda>bl. sbind (the_block scaler) (\<lambda>sc.
          case bshape bl of
            [M, N] \<Rightarrow>
              sbind (slift (\<lambda>w. to_list w bl)) (\<lambda>input_tensors.
              sbind (slift (\<lambda>w. to_list w sc)) (\<lambda>scaler_tensors.
              sbind (slift (\<lambda>_. py_nth scaler_tensors 0)) (\<lambda>scaler_tile.
              sbind (slift (\<lambda>_. guard (\<forall>x\<in>set (d # ds). x < 2)
                (ValueError ''Cannot reduce along dimension: block grid has only 2 dimensions''))) (\<lambda>_.
              sbind (slift (\<lambda>_. rmap (reduce_tile T k (d # ds)) input_tensors)) (\<lambda>reduced_tiles.
              let result_M = (if 0 \<in> set (d # ds) then 1 else M);
                  result_N = (if 1 \<in> set (d # ds) then 1 else N) in
              sbind (slift (\<lambda>_. rmap (reduce_cell T k (d # ds) M N reduced_tiles scaler_tile)
                (grid_cells result_M result_N))) (\<lambda>rs.
                alloc_block (track_source_blocks (from_list rs [result_M, result_N])
                  [(b, bl), (scaler, sc)])))))))
          | _ \<Rightarrow> sraise (ValueError ''values to unpack''))))"

definition reduce_max ::
    "'t torch_math \<Rightarrow> nat \<Rightarrow> nat \<Rightarrow> int list option \<Rightarrow> (('t, 'z) heap_scheme, nat) state_op" where
  "reduce_max T = reduce_block T Max_reduction"

definition reduce_sum ::
    "'t torch_math \<Rightarrow> nat \<Rightarrow> nat \<Rightarrow> int list option \<Rightarrow> (('t, 'z) heap_scheme, nat) state_op" where
  "reduce_sum T = reduce_block T Sum_reduction"

section \<open>Transpose\<close>

definition transpose_block :: "'t torch_math \<Rightarrow> nat \<Rightarrow> (('t, 'z) heap_scheme, nat) state_op" where
  "transpose_block T b =
     sbind (the_block b) (\<lambda>bl.
     sbind (slift (\<lambda>w. to_list w bl)) (\<lambda>ts.
     sbind (slift (\<lambda>_. rmap (t_transpose T) ts)) (\<lambda>transposed_tiles.
     case bshape bl of
       [M, N] \<Rightarrow>
         sbind (slift (\<lambda>_. rmap (\<lambda>(j, i). py_nth transposed_tiles (i * N + j)) (grid_cells N M))) (\<lambda>rs.
           alloc_block (track_source_blocks (from_list rs [N, M]) [(b, bl)]))
     | _ \<Rightarrow> sraise (ValueError ''values to unpack''))))"

section \<open>Results of the functions\<close>

lemma length_grid_cells [simp]: "length (grid_cells M N) = M * N"
  unfolding grid_cells_def by (rule length_grid_pairs)

lemma grid_cells_nth: "i < M \<Longrightarrow> j < N \<Longrightarrow> grid_cells M N ! (i * N + j) = (i, j)"
  unfolding grid_cells_def by (rule grid_pairs_nth)

lemma set_grid_cells [simp]: "set (grid_cells M N) = {..<M} \<times> {..<N}"
  by (auto simp: grid_cells_def)

lemma distinct_grid_cells: "distinct (grid_cells M N)"
proof -
  have "distinct (concat (map (\<lambda>i. map (Pair i) [0..<N]) is))" if "distinct is" for "is" :: "nat list"
    using that by (induction "is") (auto simp: distinct_map inj_on_def)
  then show ?thesis by (simp add: grid_cells_def)
qed

text \<open>A temporary block made of a list of tiles shows these tiles.\<close>

lemma to_list_temporary:
  assumes "is_temporary bl" and "bbuf bl = Own (map Some ts)" and "span_length (bspan bl) = length ts"
  shows "to_list w bl = Inr ts"
proof -
  have "rmap (get_item w bl) [0..<length ts] = Inr (map ((!) ts) [0..<length ts])"
    using assms by (intro rmap_all_Inr)
      (simp add: get_item_def check_can_read_def slot_index_def buf_of_def)
  then show ?thesis using assms(3) by (simp add: to_list_def map_nth)
qed

lemma from_list_fields [simp]:
  "is_temporary (from_list ts shp)" "bbuf (from_list ts shp) = Own (map Some ts)"
  "span_length (bspan (from_list ts shp)) = length ts" "bshape (from_list ts shp) = shp"
  "source_blocks (from_list ts shp) = []"
  by (simp_all add: from_list_def new_block_def)

lemma track_fields [simp]:
  "is_temporary (track_source_blocks bl ins) = is_temporary bl"
  "bbuf (track_source_blocks bl ins) = bbuf bl" "bspan (track_source_blocks bl ins) = bspan bl"
  "bshape (track_source_blocks bl ins) = bshape bl"
  by (simp_all add: track_source_blocks_def)

lemma alloc_result:
  assumes "is_temporary bl" and "bbuf bl = Own (map Some ts)" and "span_length (bspan bl) = length ts"
  shows "\<exists>w'. alloc_block bl w = (Inr (length (blocks w)), w') \<and> blocks w' = blocks w @ [bl] \<and>
    to_list w' (blocks w' ! length (blocks w)) = Inr ts"
  using to_list_temporary [OF assms] by (simp add: alloc_block_def)

section \<open>What a sum reduction computes\<close>

text \<open>
  The documented behaviour of the tile operations, for integer tiles of \<open>m\<close> by \<open>n\<close>: \<open>e x r c\<close> is
  an element; a number is read at \<open>(0, 0)\<close> and a vector at \<open>(i, 0)\<close>.
\<close>

definition tile_laws :: "'t torch_math \<Rightarrow> ('t \<Rightarrow> nat \<Rightarrow> nat \<Rightarrow> int) \<Rightarrow> nat \<Rightarrow> nat \<Rightarrow> bool" where
  "tile_laws T e m n \<longleftrightarrow>
     (\<forall>x. shape_of T x = [m, n] \<longrightarrow> (\<exists>v. t_sum_all T x = Inr v \<and> shape_of T v = [] \<and>
        e v 0 0 = (\<Sum>r<m. \<Sum>c<n. e x r c))) \<and>
     (\<forall>x. shape_of T x = [m, n] \<longrightarrow> (\<exists>v. t_sum_dim T 1 x = Inr v \<and> shape_of T v = [m] \<and>
        (\<forall>r<m. e v r 0 = (\<Sum>c<n. e x r c)))) \<and>
     (\<forall>x. shape_of T x = [m, n] \<longrightarrow> (\<exists>v. t_sum_dim T 0 x = Inr v \<and> shape_of T v = [n] \<and>
        (\<forall>c<n. e v c 0 = (\<Sum>r<m. e x r c)))) \<and>
     (\<forall>x. shape_of T x = [m, n] \<longrightarrow> shape_of T (t_zeros_like T x) = [m, n] \<and>
        (\<forall>r<m. \<forall>c<n. e (t_zeros_like T x) r c = 0)) \<and>
     (\<forall>z v. shape_of T z = [m, n] \<and> shape_of T v = [] \<longrightarrow>
        (\<exists>y. t_set_corner T z v = Inr y \<and> shape_of T y = [m, n] \<and>
          (\<forall>r<m. \<forall>c<n. e y r c = (if r = 0 \<and> c = 0 then e v 0 0 else e z r c)))) \<and>
     (\<forall>z v. shape_of T z = [m, n] \<and> shape_of T v = [m] \<longrightarrow>
        (\<exists>y. t_set_col0 T z v = Inr y \<and> shape_of T y = [m, n] \<and>
          (\<forall>r<m. \<forall>c<n. e y r c = (if c = 0 then e v r 0 else e z r c)))) \<and>
     (\<forall>z v. shape_of T z = [m, n] \<and> shape_of T v = [n] \<longrightarrow>
        (\<exists>y. t_set_row0 T z v = Inr y \<and> shape_of T y = [m, n] \<and>
          (\<forall>r<m. \<forall>c<n. e y r c = (if r = 0 then e v c 0 else e z r c)))) \<and>
     (\<forall>x z. shape_of T x = [m, n] \<and> shape_of T z = [m, n] \<longrightarrow>
        (\<exists>y. t_add T x z = Inr y \<and> shape_of T y = [m, n] \<and>
          (\<forall>r<m. \<forall>c<n. e y r c = e x r c + e z r c))) \<and>
     (\<forall>x z. shape_of T x = [m, n] \<and> shape_of T z = [m, n] \<longrightarrow>
        (\<exists>y. t_mul T x z = Inr y \<and> shape_of T y = [m, n] \<and>
          (\<forall>r<m. \<forall>c<n. e y r c = e x r c * e z r c)))"

text \<open>An element of the reduced tile.\<close>

definition reduced_elem ::
    "('t \<Rightarrow> nat \<Rightarrow> nat \<Rightarrow> int) \<Rightarrow> nat \<Rightarrow> nat \<Rightarrow> int list \<Rightarrow> 't \<Rightarrow> nat \<Rightarrow> nat \<Rightarrow> int" where
  "reduced_elem e m n dims x r c =
     (if 0 \<in> set dims \<and> 1 \<in> set dims
      then (if r = 0 \<and> c = 0 then \<Sum>r'<m. \<Sum>c'<n. e x r' c' else 0)
      else if 0 \<in> set dims then (if c = 0 then \<Sum>c'<n. e x r c' else 0)
      else if 1 \<in> set dims then (if r = 0 then \<Sum>r'<m. e x r' c else 0)
      else 0)"

lemma reduce_tile_elem:
  assumes L: "tile_laws T e m n" and x: "shape_of T x = [m, n]"
  shows "\<exists>y. reduce_tile T Sum_reduction dims x = Inr y \<and> shape_of T y = [m, n] \<and>
    (\<forall>r<m. \<forall>c<n. e y r c = reduced_elem e m n dims x r c)"
proof -
  have z: "shape_of T (t_zeros_like T x) = [m, n]" "\<forall>r<m. \<forall>c<n. e (t_zeros_like T x) r c = 0"
    using L x unfolding tile_laws_def by meson+
  consider (both) "0 \<in> set dims" "1 \<in> set dims" | (zero) "0 \<in> set dims" "1 \<notin> set dims"
    | (one) "0 \<notin> set dims" "1 \<in> set dims" | (none) "0 \<notin> set dims" "1 \<notin> set dims" by blast
  then show ?thesis
  proof cases
    case both
    obtain v where v: "t_sum_all T x = Inr v" "shape_of T v = []" "e v 0 0 = (\<Sum>r<m. \<Sum>c<n. e x r c)"
      using L x unfolding tile_laws_def by meson
    obtain y where "t_set_corner T (t_zeros_like T x) v = Inr y" "shape_of T y = [m, n]"
      "\<forall>r<m. \<forall>c<n. e y r c = (if r = 0 \<and> c = 0 then e v 0 0 else e (t_zeros_like T x) r c)"
      using L v(2) z(1) unfolding tile_laws_def by meson
    with both v z show ?thesis by (simp add: reduce_tile_def reduce_all_def reduced_elem_def)
  next
    case zero
    obtain v where v: "t_sum_dim T 1 x = Inr v" "shape_of T v = [m]" "\<forall>r<m. e v r 0 = (\<Sum>c<n. e x r c)"
      using L x unfolding tile_laws_def by meson
    obtain y where "t_set_col0 T (t_zeros_like T x) v = Inr y" "shape_of T y = [m, n]"
      "\<forall>r<m. \<forall>c<n. e y r c = (if c = 0 then e v r 0 else e (t_zeros_like T x) r c)"
      using L v(2) z(1) unfolding tile_laws_def by meson
    with zero v z show ?thesis by (simp add: reduce_tile_def reduce_dim_def reduced_elem_def)
  next
    case one
    obtain v where v: "t_sum_dim T 0 x = Inr v" "shape_of T v = [n]" "\<forall>c<n. e v c 0 = (\<Sum>r<m. e x r c)"
      using L x unfolding tile_laws_def by meson
    obtain y where "t_set_row0 T (t_zeros_like T x) v = Inr y" "shape_of T y = [m, n]"
      "\<forall>r<m. \<forall>c<n. e y r c = (if r = 0 then e v c 0 else e (t_zeros_like T x) r c)"
      using L v(2) z(1) unfolding tile_laws_def by meson
    with one v z show ?thesis by (simp add: reduce_tile_def reduce_dim_def reduced_elem_def)
  next
    case none
    with z show ?thesis by (simp add: reduce_tile_def reduced_elem_def)
  qed
qed

lemma rmap_ex:
  "\<forall>x\<in>set xs. \<exists>y. f x = Inr y \<and> Q x y \<Longrightarrow>
     \<exists>ys. rmap f xs = Inr ys \<and> length ys = length xs \<and> (\<forall>i<length xs. Q (xs ! i) (ys ! i))"
proof (induction xs)
  case (Cons x xs)
  then obtain y ys where y: "f x = Inr y" "Q x y" "rmap f xs = Inr ys" "length ys = length xs"
    "\<forall>i<length xs. Q (xs ! i) (ys ! i)" by auto
  then have "\<forall>i<length (x # xs). Q ((x # xs) ! i) ((y # ys) ! i)" by (auto simp: less_Suc_eq_0_disj)
  with y show ?case by (intro exI [of _ "y # ys"]) simp
qed simp

lemma fold_add_elem:
  assumes L: "tile_laws T e m n" and "shape_of T t = [m, n]" and "\<forall>u\<in>set us. shape_of T u = [m, n]"
  shows "\<exists>y. rfold (\<lambda>u acc. combine T Sum_reduction acc u) us t = Inr y \<and> shape_of T y = [m, n] \<and>
    (\<forall>r<m. \<forall>c<n. e y r c = e t r c + sum_list (map (\<lambda>u. e u r c) us))"
  using assms(2,3)
proof (induction us arbitrary: t)
  case (Cons u us)
  have "shape_of T u = [m, n]" using Cons.prems(2) by simp
  then obtain a where a: "t_add T t u = Inr a" "shape_of T a = [m, n]" "\<forall>r<m. \<forall>c<n. e a r c = e t r c + e u r c"
    using L Cons.prems(1) unfolding tile_laws_def by meson
  have "\<forall>u\<in>set us. shape_of T u = [m, n]" using Cons.prems(2) by simp
  then obtain y where "rfold (\<lambda>u acc. combine T Sum_reduction acc u) us a = Inr y" "shape_of T y = [m, n]"
    "\<forall>r<m. \<forall>c<n. e y r c = e a r c + sum_list (map (\<lambda>u. e u r c) us)" using Cons.IH [OF a(2)] by blast
  with a show ?case by (simp add: combine_def)
qed simp

text \<open>One tile of the result.\<close>

definition cell_set :: "int list \<Rightarrow> nat \<Rightarrow> nat \<Rightarrow> nat \<Rightarrow> nat \<Rightarrow> (nat \<times> nat) set" where
  "cell_set dims M N ri rj =
     {(i, j). i < M \<and> j < N \<and> (0 \<in> set dims \<or> i = ri) \<and> (1 \<in> set dims \<or> j = rj)}"

lemma cells_of_set: "set (cells_of dims M N ri rj) = cell_set dims M N ri rj"
  by (auto simp: cells_of_def cell_set_def)

lemma cells_of_nonempty:
  assumes "0 < M" and "0 < N" and "ri < (if 0 \<in> set dims then 1 else M)"
    and "rj < (if 1 \<in> set dims then 1 else N)"
  shows "cells_of dims M N ri rj \<noteq> []"
proof -
  have "(ri, rj) \<in> cell_set dims M N ri rj" using assms by (auto simp: cell_set_def split: if_splits)
  then show ?thesis using cells_of_set [of dims M N ri rj] by (metis empty_iff empty_set)
qed

lemma reduce_cell_elem:
  assumes L: "tile_laws T e m n" and len: "length ys = M * N"
    and ne: "cells_of dims M N ri rj \<noteq> []"
    and sh: "\<forall>k<M * N. shape_of T (ys ! k) = [m, n]" "shape_of T sc = [m, n]"
  shows "\<exists>y. reduce_cell T Sum_reduction dims M N ys sc (ri, rj) = Inr y \<and>
    (\<forall>r<m. \<forall>c<n. e y r c = (\<Sum>(i, j)\<in>cell_set dims M N ri rj. e (ys ! (i * N + j)) r c) * e sc r c)"
proof -
  let ?cs = "cells_of dims M N ri rj" and ?g = "\<lambda>(i, j). ys ! (i * N + j)"
  have "rmap (\<lambda>(i, j). py_nth ys (i * N + j)) ?cs = Inr (map ?g ?cs)"
  proof (rule rmap_all_Inr)
    fix x assume "x \<in> set ?cs"
    then obtain i j where x: "x = (i, j)" "i < M" "j < N"
      by (auto simp: cells_of_set cell_set_def)
    have "i * N + j < M * N" by (rule grid_index_less [OF x(2,3)])
    then show "(case x of (i, j) \<Rightarrow> py_nth ys (i * N + j)) = Inr (?g x)" using x len by simp
  qed
  moreover obtain c cs where cs: "?cs = c # cs" using ne by (cases ?cs) auto
  moreover have g: "shape_of T (?g x) = [m, n]" if "x \<in> set ?cs" for x
  proof -
    from that obtain i j where x: "x = (i, j)" "i < M" "j < N" by (auto simp: cells_of_set cell_set_def)
    with grid_index_less [OF x(2,3)] sh(1) show ?thesis by simp
  qed
  moreover have "shape_of T (?g c) = [m, n]" "\<forall>u\<in>set (map ?g cs). shape_of T u = [m, n]"
    using g cs by auto
  moreover from fold_add_elem [OF L this]
  obtain y where y: "rfold (\<lambda>u acc. combine T Sum_reduction acc u) (map ?g cs) (?g c) = Inr y"
    "shape_of T y = [m, n]"
    "\<forall>r<m. \<forall>c'<n. e y r c' = e (?g c) r c' + sum_list (map (\<lambda>u. e u r c') (map ?g cs))"
    by blast
  moreover obtain z where z: "t_mul T y sc = Inr z" "\<forall>r<m. \<forall>c<n. e z r c = e y r c * e sc r c"
    using L y(2) sh(2) unfolding tile_laws_def by meson
  ultimately have run: "reduce_cell T Sum_reduction dims M N ys sc (ri, rj) = Inr z"
    by (simp add: reduce_cell_def)
  have "distinct ?cs" by (simp add: cells_of_def distinct_grid_cells)
  then have "sum_list (map (\<lambda>x. e (?g x) r c') ?cs) =
      (\<Sum>x\<in>cell_set dims M N ri rj. e (?g x) r c')" for r c'
    by (simp add: sum_list_distinct_conv_sum_set cells_of_set)
  then have "e (?g c) r c' + sum_list (map (\<lambda>u. e u r c') (map ?g cs)) =
      (\<Sum>(i, j)\<in>cell_set dims M N ri rj. e (ys ! (i * N + j)) r c')" for r c'
    unfolding cs by (simp add: split_def comp_def)
  with run y(3) z(2) show ?thesis by (intro exI [of _ z]) simp
qed

text \<open>
  Property C30: the sum reduction of a block of \<open>M\<close> by \<open>N\<close> tiles, element by element. The grid
  shrinks to one in every reduced dimension; an element of a result tile is the scaler's
  element times the sum, over the tiles that fall together in the grid, of the tile's own
  reduction: the sum of the whole tile at the corner for both dimensions, the sum of row \<open>r\<close>
  at column 0 for dimension 0, the sum of column \<open>c\<close> at row 0 for dimension 1, and 0 elsewhere.
  So for one dimension the tiles are collapsed across their columns but the grid across its
  rows (or the other way round), and the two directions are mixed in a block of several tiles.
\<close>

theorem reduce_sum_elements:
  assumes L: "tile_laws T e m n" and b: "b < length (blocks w)" "bshape (blocks w ! b) = [M, N]"
    and ts: "to_list w (blocks w ! b) = Inr ts" "length ts = M * N" "0 < M" "0 < N"
    and s: "s < length (blocks w)" "to_list w (blocks w ! s) = Inr (sc # scs)"
    and sh: "\<forall>x\<in>set (sc # ts). shape_of T x = [m, n]"
    and d: "dims \<noteq> []" "\<forall>x\<in>set dims. x < 2"
    and R: "RM = (if 0 \<in> set dims then 1 else M)" "RN = (if 1 \<in> set dims then 1 else N)"
  shows "\<exists>w' rs. reduce_sum T b s (Some dims) w = (Inr (length (blocks w)), w') \<and>
    bshape (blocks w' ! length (blocks w)) = [RM, RN] \<and>
    to_list w' (blocks w' ! length (blocks w)) = Inr rs \<and> length rs = RM * RN \<and>
    (\<forall>ri<RM. \<forall>rj<RN. \<forall>r<m. \<forall>c<n. e (rs ! (ri * RN + rj)) r c =
      (\<Sum>(i, j)\<in>cell_set dims M N ri rj. reduced_elem e m n dims (ts ! (i * N + j)) r c) * e sc r c)"
proof -
  have "\<forall>x\<in>set ts. \<exists>y. reduce_tile T Sum_reduction dims x = Inr y \<and> shape_of T y = [m, n] \<and>
      (\<forall>r<m. \<forall>c<n. e y r c = reduced_elem e m n dims x r c)"
    using reduce_tile_elem [OF L] sh by simp
  from rmap_ex [OF this] obtain ys where ys: "rmap (reduce_tile T Sum_reduction dims) ts = Inr ys"
    "length ys = M * N" "\<forall>k<M * N. shape_of T (ys ! k) = [m, n]"
    "\<forall>k<M * N. \<forall>r<m. \<forall>c<n. e (ys ! k) r c = reduced_elem e m n dims (ts ! k) r c"
    using ts(2) by auto
  let ?P = "\<lambda>ri rj y. \<forall>r<m. \<forall>c<n. e y r c =
      (\<Sum>(i, j)\<in>cell_set dims M N ri rj. e (ys ! (i * N + j)) r c) * e sc r c"
  have "\<forall>x\<in>set (grid_cells RM RN). \<exists>y. reduce_cell T Sum_reduction dims M N ys sc x = Inr y \<and>
      ?P (fst x) (snd x) y"
  proof
    fix x assume "x \<in> set (grid_cells RM RN)"
    then obtain ri rj where x: "x = (ri, rj)" "ri < RM" "rj < RN" by auto
    with R cells_of_nonempty [OF ts(3,4), of ri dims rj] have "cells_of dims M N ri rj \<noteq> []" by simp
    from reduce_cell_elem [OF L ys(2) this ys(3)] sh x(1)
    show "\<exists>y. reduce_cell T Sum_reduction dims M N ys sc x = Inr y \<and> ?P (fst x) (snd x) y" by simp
  qed
  from rmap_ex [OF this] obtain rs where
    rs: "rmap (reduce_cell T Sum_reduction dims M N ys sc) (grid_cells RM RN) = Inr rs"
    and lrs: "length rs = RM * RN"
    and el: "\<forall>k<RM * RN. ?P (fst (grid_cells RM RN ! k)) (snd (grid_cells RM RN ! k)) (rs ! k)" by auto
  let ?bl = "track_source_blocks (from_list rs [RM, RN]) [(b, blocks w ! b), (s, blocks w ! s)]"
  obtain w' where w': "alloc_block ?bl w = (Inr (length (blocks w)), w')" "blocks w' = blocks w @ [?bl]"
    "to_list w' (blocks w' ! length (blocks w)) = Inr rs"
    using alloc_result [of ?bl rs w] by auto
  obtain d0 ds where dims: "dims = d0 # ds" using d(1) by (cases dims) auto
  have "reduce_sum T b s (Some dims) w = (Inr (length (blocks w)), w')"
    using b s ts(1) ys(1) rs w'(1) d(2) R dims
    by (simp add: reduce_sum_def reduce_block_def Let_def)
  moreover have "e (rs ! (ri * RN + rj)) r c =
      (\<Sum>(i, j)\<in>cell_set dims M N ri rj. reduced_elem e m n dims (ts ! (i * N + j)) r c) * e sc r c"
    if "ri < RM" "rj < RN" "r < m" "c < n" for ri rj r c
  proof -
    have k: "ri * RN + rj < RM * RN" by (rule grid_index_less [OF that(1,2)])
    have "e (ys ! (i * N + j)) r c = reduced_elem e m n dims (ts ! (i * N + j)) r c"
      if "(i, j) \<in> cell_set dims M N ri rj" for i j
      using ys(4) grid_index_less [of i M j N] that \<open>r < m\<close> \<open>c < n\<close> by (auto simp: cell_set_def)
    then have "(\<Sum>(i, j)\<in>cell_set dims M N ri rj. e (ys ! (i * N + j)) r c) =
        (\<Sum>(i, j)\<in>cell_set dims M N ri rj. reduced_elem e m n dims (ts ! (i * N + j)) r c)"
      by (intro sum.cong) auto
    with el k that grid_cells_nth [OF that(1,2)] show ?thesis by simp
  qed
  ultimately show ?thesis
    using w' lrs by (intro exI [of _ w'] exI [of _ rs]) (simp add: nth_append)
qed

text \<open>Integer tiles of two by two as functions.\<close>

definition fn_torch :: "(nat list \<times> (nat \<Rightarrow> nat \<Rightarrow> int)) torch_math" where
  "fn_torch = \<lparr>shape_of = fst, t_zeros = (\<lambda>shp _. (shp, \<lambda>_ _. 0)),
     t_add = (\<lambda>x y. Inr (fst x, \<lambda>r c. snd x r c + snd y r c)),
     t_mul = (\<lambda>x y. Inr (fst x, \<lambda>r c. snd x r c * snd y r c)),
     t_maximum = (\<lambda>x y. Inr (fst x, \<lambda>r c. max (snd x r c) (snd y r c))),
     t_matmul = (\<lambda>x y. Inr (fst x, \<lambda>r c. \<Sum>k<2. snd x r k * snd y k c)),
     t_transpose = (\<lambda>x. Inr (rev (fst x), \<lambda>r c. snd x c r)),
     t_stack = (\<lambda>xs. Inr (hd xs)), t_reshape = (\<lambda>x shp. Inr (shp, snd x)), t_index = (\<lambda>x _. Inr x),
     t_index2 = (\<lambda>x i j. Inr ([], \<lambda>_ _. snd x (nat i) (nat j))), t_assign2 = (\<lambda>x _ _ v. Inr v),
     t_slice = (\<lambda>x _ _. Inr x), t_assign = (\<lambda>x _ _ v. Inr v),
     t_expand_first = (\<lambda>ds x. Inr (fst x, \<lambda>r c.
       snd x (if 0 \<in> set ds then 0 else r) (if 1 \<in> set ds then 0 else c))),
     t_zeros_like = (\<lambda>x. (fst x, \<lambda>_ _. 0)), t_max_all = Inr,
     t_sum_all = (\<lambda>x. Inr ([], \<lambda>_ _. \<Sum>r<2. \<Sum>c<2. snd x r c)), t_max_dim = (\<lambda>d x. Inr x),
     t_sum_dim = (\<lambda>d x. Inr ([2], \<lambda>i _. if d = 1 then \<Sum>c<2. snd x i c else \<Sum>r<2. snd x r i)),
     t_set_corner = (\<lambda>z v. Inr (fst z, \<lambda>r c. if r = 0 \<and> c = 0 then snd v 0 0 else snd z r c)),
     t_set_col0 = (\<lambda>z v. Inr (fst z, \<lambda>r c. if c = 0 then snd v r 0 else snd z r c)),
     t_set_row0 = (\<lambda>z v. Inr (fst z, \<lambda>r c. if r = 0 then snd v c 0 else snd z r c))\<rparr>"

lemma fn_tile_laws: "tile_laws fn_torch snd 2 2"
  by (simp add: tile_laws_def fn_torch_def)

definition const_tile :: "int \<Rightarrow> nat list \<times> (nat \<Rightarrow> nat \<Rightarrow> int)" where
  "const_tile k = ([2, 2], \<lambda>r c. k)"

definition math_heap :: "(nat list \<times> (nat \<Rightarrow> nat \<Rightarrow> int)) heap" where
  "math_heap = \<lparr>current_thread_type = Some COMPUTE, apis = [],
     blocks = [from_list [const_tile 1, const_tile 2] [2, 1], from_list [const_tile 10] [1, 1]],
     stats = init_stats\<rparr>"

lemma math_heap_facts:
  "length (blocks math_heap) = 2" "bshape (blocks math_heap ! 0) = [2, 1]"
  "to_list math_heap (blocks math_heap ! 0) = Inr [const_tile 1, const_tile 2]"
  "to_list math_heap (blocks math_heap ! 1) = Inr [const_tile 10]"
  by (simp_all add: math_heap_def to_list_temporary)

lemmas math_heap_simps = math_heap_facts math_heap_facts(4) [unfolded One_nat_def]

theorem reduce_sum_elements_witness:
  "\<exists>w' rs. reduce_sum fn_torch 0 1 (Some [0]) math_heap = (Inr 2, w') \<and>
     to_list w' (blocks w' ! 2) = Inr rs \<and> snd (rs ! 0) 1 0 = 60 \<and> snd (rs ! 0) 1 1 = 0"
proof -
  have set: "cell_set [0] 2 (Suc 0) 0 0 = {(0, 0), (1, 0)}" by (auto simp: cell_set_def)
  have "\<exists>w' rs. reduce_sum fn_torch 0 1 (Some [0]) math_heap = (Inr (length (blocks math_heap)), w') \<and>
    bshape (blocks w' ! length (blocks math_heap)) = [1, 1] \<and>
    to_list w' (blocks w' ! length (blocks math_heap)) = Inr rs \<and> length rs = 1 * 1 \<and>
    (\<forall>ri<1. \<forall>rj<1. \<forall>r<2. \<forall>c<2. snd (rs ! (ri * 1 + rj)) r c =
      (\<Sum>(i, j)\<in>cell_set [0] 2 1 ri rj. reduced_elem snd 2 2 [0]
        ([const_tile 1, const_tile 2] ! (i * 1 + j)) r c) * snd (const_tile 10) r c)"
    by (rule reduce_sum_elements [OF fn_tile_laws, where scs = "[]"])
      (simp_all add: math_heap_simps const_tile_def fn_torch_def)
  then obtain w' rs where r: "reduce_sum fn_torch 0 1 (Some [0]) math_heap = (Inr 2, w')"
    "to_list w' (blocks w' ! 2) = Inr rs"
    "\<forall>r<2. \<forall>c<2. snd (rs ! 0) r c = (\<Sum>(i, j)\<in>cell_set [0] 2 1 0 0. reduced_elem snd 2 2 [0]
        ([const_tile 1, const_tile 2] ! (i * 1 + j)) r c) * snd (const_tile 10) r c"
    by (auto simp: math_heap_facts)
  have "snd (rs ! 0) 1 0 = 60" "snd (rs ! 0) 1 1 = 0"
    using r(3) by (simp_all add: set reduced_elem_def const_tile_def)
  with r show ?thesis by blast
qed

section \<open>Broadcast and transpose\<close>

lemma transpose_eq:
  assumes "b < length (blocks w)" and "bshape (blocks w ! b) = [M, N]"
    and "to_list w (blocks w ! b) = Inr ts" and "length ts = M * N"
    and "rmap (t_transpose T) ts = Inr us"
  shows "\<exists>w' rs. transpose_block T b w = (Inr (length (blocks w)), w') \<and>
    length (blocks w') = Suc (length (blocks w)) \<and>
    bshape (blocks w' ! length (blocks w)) = [N, M] \<and>
    to_list w' (blocks w' ! length (blocks w)) = Inr rs \<and> length rs = N * M \<and>
    (\<forall>i<M. \<forall>j<N. rs ! (j * M + i) = us ! (i * N + j))"
proof -
  let ?g = "\<lambda>(j, i). us ! (i * N + j)"
  have lus: "length us = M * N" using rmap_length [OF assms(5)] assms(4) by simp
  have r: "rmap (\<lambda>(j, i). py_nth us (i * N + j)) (grid_cells N M) = Inr (map ?g (grid_cells N M))"
  proof (rule rmap_all_Inr)
    fix x assume "x \<in> set (grid_cells N M)"
    then obtain j i where x: "x = (j, i)" "j < N" "i < M" by auto
    with grid_index_less [of i M j N] lus
    show "(case x of (j, i) \<Rightarrow> py_nth us (i * N + j)) = Inr (?g x)" by simp
  qed
  let ?rs = "map ?g (grid_cells N M)"
  let ?bl = "track_source_blocks (from_list ?rs [N, M]) [(b, blocks w ! b)]"
  obtain w' where w': "alloc_block ?bl w = (Inr (length (blocks w)), w')" "blocks w' = blocks w @ [?bl]"
    "to_list w' (blocks w' ! length (blocks w)) = Inr ?rs"
    using alloc_result [of ?bl ?rs w] by auto
  have "?rs ! (j * M + i) = us ! (i * N + j)" if "i < M" "j < N" for i j
    using grid_index_less [OF that(2,1)] grid_cells_nth [OF that(2,1)] by simp
  moreover have "transpose_block T b w = (Inr (length (blocks w)), w')"
    using assms r w'(1) by (simp add: transpose_block_def)
  ultimately show ?thesis
    using w' by (intro exI [of _ w'] exI [of _ ?rs]) (simp add: nth_append)
qed

text \<open>
  Transposing a block is an involution: the result has the grid turned round, its
  tile \<open>(j, i)\<close> is the transposed tile \<open>(i, j)\<close>, and transposing the result again gives the
  shape and the tiles of the block back (for a tile transposition that is its own inverse).
\<close>

lemma transpose_involutive:
  assumes "b < length (blocks w)" and "bshape (blocks w ! b) = [M, N]"
    and "to_list w (blocks w ! b) = Inr ts" and "length ts = M * N"
    and "\<forall>x\<in>set ts. \<exists>y. t_transpose T x = Inr y \<and> t_transpose T y = Inr x"
  shows "\<exists>b1 w1 rs b2 w2. transpose_block T b w = (Inr b1, w1) \<and> bshape (blocks w1 ! b1) = [N, M] \<and>
    to_list w1 (blocks w1 ! b1) = Inr rs \<and>
    (\<forall>i<M. \<forall>j<N. t_transpose T (ts ! (i * N + j)) = Inr (rs ! (j * M + i))) \<and>
    transpose_block T b1 w1 = (Inr b2, w2) \<and> bshape (blocks w2 ! b2) = [M, N] \<and>
    to_list w2 (blocks w2 ! b2) = Inr ts"
proof -
  obtain us where us: "rmap (t_transpose T) ts = Inr us" "length us = M * N"
    and inv: "\<forall>k<M * N. t_transpose T (ts ! k) = Inr (us ! k) \<and> t_transpose T (us ! k) = Inr (ts ! k)"
    using rmap_ex [of ts "t_transpose T" "\<lambda>x y. t_transpose T x = Inr y \<and> t_transpose T y = Inr x"]
      assms(4,5) by auto
  obtain w1 rs where 1: "transpose_block T b w = (Inr (length (blocks w)), w1)"
    "length (blocks w1) = Suc (length (blocks w))" "bshape (blocks w1 ! length (blocks w)) = [N, M]"
    "to_list w1 (blocks w1 ! length (blocks w)) = Inr rs" "length rs = N * M"
    "\<forall>i<M. \<forall>j<N. rs ! (j * M + i) = us ! (i * N + j)"
    using transpose_eq [OF assms(1-4) us(1)] by blast
  have split: "\<exists>i<M. \<exists>j<N. k = j * M + i" if "k < N * M" for k
  proof -
    have "0 < M" using that by (cases M) auto
    then show ?thesis using that
      by (intro exI [of _ "k mod M"] conjI exI [of _ "k div M"]) (simp_all add: less_mult_imp_div_less)
  qed
  let ?vs = "map (\<lambda>(j, i). ts ! (i * N + j)) (grid_cells N M)"
  have vs: "?vs ! (j * M + i) = ts ! (i * N + j)" if "i < M" "j < N" for i j
    using grid_index_less [OF that(2,1)] grid_cells_nth [OF that(2,1)] by simp
  have "t_transpose T (rs ! k) = Inr (?vs ! k)" if "k < N * M" for k
    using split [OF that] 1(6) inv vs grid_index_less [of _ M _ N] by force
  then have r2: "rmap (t_transpose T) rs = Inr ?vs" using 1(5) by (simp add: rmap_Inr_iff)
  obtain w2 qs where 2: "transpose_block T (length (blocks w)) w1 = (Inr (length (blocks w1)), w2)"
    "bshape (blocks w2 ! length (blocks w1)) = [M, N]"
    "to_list w2 (blocks w2 ! length (blocks w1)) = Inr qs" "length qs = M * N"
    "\<forall>j<N. \<forall>i<M. qs ! (i * N + j) = ?vs ! (j * M + i)"
    using transpose_eq [OF _ 1(3,4,5) r2] 1(2) by auto
  have "qs = ts"
  proof (rule nth_equalityI)
    show "length qs = length ts" using 2(4) assms(4) by simp
    fix k assume "k < length qs"
    then have k: "k < M * N" using 2(4) by simp
    then have "0 < N" by (cases N) auto
    then have "k = k div N * N + k mod N" "k div N < M" "k mod N < N"
      using k by (simp_all add: less_mult_imp_div_less)
    with 2(5) vs show "qs ! k = ts ! k" by metis
  qed
  moreover have "\<forall>i<M. \<forall>j<N. t_transpose T (ts ! (i * N + j)) = Inr (rs ! (j * M + i))"
    using inv 1(6) grid_index_less [of _ M _ N] by simp
  ultimately show ?thesis
    using 1(1,3,4) 2(1-3)
    by (intro exI [of _ "length (blocks w)"] exI [of _ w1] exI [of _ rs]
        exI [of _ "length (blocks w1)"] exI [of _ w2]) simp
qed

lemma transpose_involutive_witness:
  "\<exists>b1 w1 b2 w2. transpose_block fn_torch 0 math_heap = (Inr b1, w1) \<and>
     bshape (blocks w1 ! b1) = [1, 2] \<and> transpose_block fn_torch b1 w1 = (Inr b2, w2) \<and>
     to_list w2 (blocks w2 ! b2) = Inr [const_tile 1, const_tile 2]"
proof -
  have "\<forall>x\<in>set [const_tile 1, const_tile 2].
      \<exists>y. t_transpose fn_torch x = Inr y \<and> t_transpose fn_torch y = Inr x"
    by (simp add: fn_torch_def const_tile_def)
  from transpose_involutive [OF _ math_heap_facts(2,3) _ this] show ?thesis
    by (simp add: math_heap_facts) blast
qed

text \<open>
  A broadcast along dimensions in which the block has one tile replicates: every
  element of every tile becomes the element at index 0 of the broadcast dimensions, the block
  keeps its shape, and the result remembers the waited blocks it was computed from; along any
  other dimension it is refused.
\<close>

lemma broadcast_replicates:
  assumes "b < length (blocks w)" and "to_list w (blocks w ! b) = Inr ts"
    and "\<forall>d\<in>set ds. 0 \<le> d \<and> nat d < length (bshape (blocks w ! b))"
    and "\<forall>x\<in>set ts. \<exists>y. t_expand_first T ds x = Inr y \<and>
      (\<forall>r<m. \<forall>c<n. e y r c = e x (if 0 \<in> set ds then 0 else r) (if 1 \<in> set ds then 0 else c))"
  shows "if \<forall>d\<in>set ds. bshape (blocks w ! b) ! nat d = 1
    then \<exists>w' rs. broadcast T b (Some ds) w = (Inr (length (blocks w)), w') \<and>
      bshape (blocks w' ! length (blocks w)) = bshape (blocks w ! b) \<and>
      to_list w' (blocks w' ! length (blocks w)) = Inr rs \<and> length rs = length ts \<and>
      (\<forall>k<length ts. \<forall>r<m. \<forall>c<n. e (rs ! k) r c =
        e (ts ! k) (if 0 \<in> set ds then 0 else r) (if 1 \<in> set ds then 0 else c)) \<and>
      set (source_blocks (blocks w' ! length (blocks w))) =
        set (source_blocks (blocks w ! b)) \<union> (if waiting_block (blocks w ! b) then {b} else {})
    else \<exists>msg. broadcast T b (Some ds) w = (Inl (ValueError msg), w)"
proof -
  let ?bl = "blocks w ! b"
  have chk: "rfold (check_broadcast_dim (bshape ?bl)) ds () =
      (if \<forall>d\<in>set ds. bshape ?bl ! nat d = 1 then Inr ()
       else Inl (ValueError ''Cannot broadcast along dimension: dimension must have size 1''))"
    using assms(3) by (induction ds) (auto simp: check_broadcast_dim_def py_get_def guard_def)
  show ?thesis
  proof (cases "\<forall>d\<in>set ds. bshape ?bl ! nat d = 1")
    case True
    obtain rs where rs: "rmap (t_expand_first T ds) ts = Inr rs" "length rs = length ts"
      "\<forall>k<length ts. \<forall>r<m. \<forall>c<n. e (rs ! k) r c =
        e (ts ! k) (if 0 \<in> set ds then 0 else r) (if 1 \<in> set ds then 0 else c)"
      using rmap_ex [of ts "t_expand_first T ds" "\<lambda>x y. \<forall>r<m. \<forall>c<n. e y r c =
        e x (if 0 \<in> set ds then 0 else r) (if 1 \<in> set ds then 0 else c)"] assms(4) by blast
    let ?res = "(from_list rs (bshape ?bl))\<lparr>source_blocks :=
        source_blocks ?bl @ (if waiting_block ?bl then [b] else [])\<rparr>"
    obtain w' where w': "alloc_block ?res w = (Inr (length (blocks w)), w')" "blocks w' = blocks w @ [?res]"
      "to_list w' (blocks w' ! length (blocks w)) = Inr rs"
      using alloc_result [of ?res rs w] by auto
    have "broadcast T b (Some ds) w = (Inr (length (blocks w)), w')"
      using assms(1,2) chk True rs(1) w'(1) by (simp add: broadcast_def)
    moreover have "bshape (blocks w' ! length (blocks w)) = bshape ?bl"
      "set (source_blocks (blocks w' ! length (blocks w))) =
        set (source_blocks ?bl) \<union> (if waiting_block ?bl then {b} else {})"
      using w'(2) by (simp_all add: nth_append)
    ultimately show ?thesis
      unfolding if_P [OF True] using w'(3) rs(2,3) by blast
  next
    case False
    from chk have "rfold (check_broadcast_dim (bshape ?bl)) ds () =
        Inl (ValueError ''Cannot broadcast along dimension: dimension must have size 1'')"
      unfolding if_not_P [OF False] .
    with assms(1) show ?thesis
      unfolding if_not_P [OF False] by (simp add: broadcast_def)
  qed
qed

lemma broadcast_replicates_witness:
  "\<exists>w' rs. broadcast fn_torch 1 (Some [1]) math_heap = (Inr 2, w') \<and>
     to_list w' (blocks w' ! 2) = Inr rs \<and> snd (rs ! 0) 0 1 = 10"
proof -
  have s: "bshape (blocks math_heap ! Suc 0) = [1, 1]" by (simp add: math_heap_def)
  have l: "\<forall>x\<in>set [const_tile 10]. \<exists>y. t_expand_first fn_torch [1] x = Inr y \<and>
      (\<forall>r<2. \<forall>c<2. snd y r c =
        snd x (if 0 \<in> set [1::int] then 0 else r) (if 1 \<in> set [1::int] then 0 else c))"
    by (simp add: fn_torch_def)
  have "\<forall>d\<in>set [1]. 0 \<le> d \<and> nat d < length (bshape (blocks math_heap ! 1))" by (simp add: s)
  from broadcast_replicates [OF _ math_heap_facts(4) this l] show ?thesis
    by (simp add: s math_heap_facts) (auto simp: const_tile_def)
qed

end
