(* ===== verification/Allocation.thy ===== *)
theory Allocation
  imports Prelude "HOL-Library.Multiset"
begin

text \<open>
  Distributing work and matrix blocks over a grid of cores:
  \<open>python/utils/block_allocation.py\<close>. Coordinates, sizes and factors are Python integers;
  \<open>sympy.factorint\<close> is the parameter \<open>factorint\<close>, which lists the prime factors of a number
  with their multiplicities.

  The lemmas: a list of grid ranges covers exactly the next cores of the grid in the chosen
  order; a two-dimensional split hands out all work when its groups are read as runs of cores,
  while the one-dimensional split counts one core twice; the products are exactly those of the
  sub-multisets of the factors; and the matrix block sizes divide the matrix and fit the grid.
\<close>

section \<open>Grids\<close>

definition remove_leading_ones :: "int list \<Rightarrow> int list" where
  "remove_leading_ones grid = dropWhile (\<lambda>x. x = 1) grid"

definition get_number_of_cores :: "int list \<Rightarrow> int result" where
  "get_number_of_cores grid =
     rfold (\<lambda>dim core_count.
       if dim > 0 then Inr (core_count * dim)
       else Inl (AssertionError ''grid dimensions must be positive'')) grid 1"

definition filter_factor_pairs_by_2d_grid ::
    "(int \<times> int) list \<Rightarrow> int \<times> int \<Rightarrow> (int \<times> int) list" where
  "filter_factor_pairs_by_2d_grid factor_pairs grid =
     concat (map (\<lambda>pair.
       if fst pair \<le> fst grid \<and> snd pair \<le> snd grid then [pair]
       else if snd pair \<le> fst grid \<and> fst pair \<le> snd grid then [(snd pair, fst pair)] else [])
       factor_pairs)"

type_synonym grid_range = "int list \<times> int list"

text \<open>The last and the last but one coordinate, with the defaults for short tuples.\<close>

definition last_coord :: "int \<Rightarrow> int list \<Rightarrow> int" where
  "last_coord d c = (if length c \<ge> 1 then c ! (length c - 1) else d)"

definition second_last_coord :: "int \<Rightarrow> int list \<Rightarrow> int" where
  "second_last_coord d c = (if length c \<ge> 2 then c ! (length c - 2) else d)"

text \<open>The three ranges of the row-wise branch: rest of a row, full rows, begin of a row.\<close>

definition row_wise_ranges ::
    "int list \<Rightarrow> int \<Rightarrow> int \<Rightarrow> int \<Rightarrow> int \<Rightarrow> grid_range list" where
  "row_wise_ranges prefix num_cores_x start_x start_y target =
     (let partial = (start_x \<noteq> 0 \<and> target > num_cores_x - start_x);
          r1 = (if partial then [(prefix @ [start_y, start_x], prefix @ [start_y, num_cores_x - 1])] else []);
          left1 = (if partial then target - (num_cores_x - start_x) else target);
          x1 = (if partial then 0 else start_x);
          y1 = (if partial then start_y + 1 else start_y);
          full = (left1 \<ge> num_cores_x);
          num_full_rows = left1 div num_cores_x;
          r2 = (if full then [(prefix @ [y1, x1], prefix @ [y1 + num_full_rows - 1, num_cores_x - 1])] else []);
          left2 = (if full then left1 - num_full_rows * num_cores_x else left1);
          x2 = (if full then 0 else x1);
          y2 = (if full then y1 + num_full_rows else y1);
          r3 = (if left2 > 0 then [(prefix @ [y2, x2], prefix @ [y2, x2 + left2 - 1])] else []) in
      r1 @ r2 @ r3)"

definition col_wise_ranges ::
    "int list \<Rightarrow> int \<Rightarrow> int \<Rightarrow> int \<Rightarrow> int \<Rightarrow> grid_range list" where
  "col_wise_ranges prefix num_cores_y start_x start_y target =
     (let partial = (start_y \<noteq> 0 \<and> target > num_cores_y - start_y);
          r1 = (if partial then [(prefix @ [start_y, start_x], prefix @ [num_cores_y - 1, start_x])] else []);
          left1 = (if partial then target - (num_cores_y - start_y) else target);
          y1 = (if partial then 0 else start_y);
          x1 = (if partial then start_x + 1 else start_x);
          full = (left1 \<ge> num_cores_y);
          num_full_cols = left1 div num_cores_y;
          r2 = (if full then [(prefix @ [y1, x1], prefix @ [num_cores_y - 1, x1 + num_full_cols - 1])] else []);
          left2 = (if full then left1 - num_full_cols * num_cores_y else left1);
          y2 = (if full then 0 else y1);
          x2 = (if full then x1 + num_full_cols else x1);
          r3 = (if left2 > 0 then [(prefix @ [y2, x2], prefix @ [y2 + left2 - 1, x2])] else []) in
      r1 @ r2 @ r3)"

definition available_cores :: "bool \<Rightarrow> int \<Rightarrow> int \<Rightarrow> int \<Rightarrow> int \<Rightarrow> int" where
  "available_cores row_wise nx ny sx sy =
     (if row_wise then (ny - 1 - sy) * nx + (nx - sx) else (nx - 1 - sx) * ny + (ny - sy))"

definition num_cores_to_grid_ranges ::
    "int list \<Rightarrow> int \<Rightarrow> int list \<Rightarrow> bool \<Rightarrow> grid_range list result" where
  "num_cores_to_grid_ranges start_coord target_num_cores grid_size row_wise =
     rbind (guard (length start_coord = length grid_size)
       (AssertionError ''start_coord and grid_size must have same dimensions'')) (\<lambda>_.
     rbind (guard (length (remove_leading_ones grid_size) \<le> 2)
       (AssertionError ''Only supports 2D grids'')) (\<lambda>_.
     let nx = last_coord 1 grid_size; ny = second_last_coord 1 grid_size;
         sx = last_coord 0 start_coord; sy = second_last_coord 0 start_coord in
     rbind (guard (sx < nx \<and> sy < ny) (AssertionError ''Start coord must be within grid'')) (\<lambda>_.
     rbind (guard (target_num_cores \<le> available_cores row_wise nx ny sx sy)
       (AssertionError ''Target exceeds available'')) (\<lambda>_.
     let prefix = replicate (length grid_size - 2) 0 in
     Inr (if row_wise then row_wise_ranges prefix nx sx sy target_num_cores
          else col_wise_ranges prefix ny sx sy target_num_cores)))))"

section \<open>Splitting work\<close>

text \<open>\<open>ranges[-1][1]\<close>\<close>

definition last_end :: "grid_range list \<Rightarrow> int list result" where
  "last_end rs = (if rs = [] then Inl (IndexError ''list index out of range'') else Inr (snd (last rs)))"

record core_split =
  cs_cores :: int
  cs_group1 :: "grid_range option"
  cs_group2 :: "grid_range option"
  cs_work1 :: int
  cs_work2 :: int

text \<open>Where group 2 starts after the last core \<open>(y, x)\<close> of group 1.\<close>

definition next_core :: "bool \<Rightarrow> int \<Rightarrow> int \<Rightarrow> int \<Rightarrow> int \<Rightarrow> int \<times> int" where
  "next_core row_wise nx ny y x =
     (if row_wise then (if x \<noteq> nx - 1 then (y, x + 1) else (y + 1, 0))
      else (if y \<noteq> ny - 1 then (y + 1, x) else (0, x + 1)))"

text \<open>The two-dimensional branch for more work than cores.\<close>

definition split_2d :: "int list \<Rightarrow> int \<Rightarrow> int \<Rightarrow> bool \<Rightarrow> core_split result" where
  "split_2d grid_size total_cores units row_wise =
     (let start_coord = replicate (length grid_size) 0;
          prefix = replicate (length grid_size - 2) 0;
          nx = last_coord 1 grid_size; ny = second_last_coord 1 grid_size;
          work_per_core = units div total_cores;
          more = units mod total_cores in
      if more = 0
      then Inr \<lparr>cs_cores = total_cores, cs_group1 = Some (start_coord, prefix @ [ny - 1, nx - 1]),
                cs_group2 = None, cs_work1 = work_per_core, cs_work2 = 0\<rparr>
      else
        rbind (num_cores_to_grid_ranges start_coord more grid_size row_wise) (\<lambda>group1_ranges.
        rbind (last_end group1_ranges) (\<lambda>last1.
        let yx = next_core row_wise nx ny (second_last_coord 0 last1) (last_coord 0 last1);
            start2 = prefix @ [fst yx, snd yx] in
        rbind (num_cores_to_grid_ranges start2 (total_cores - more) grid_size row_wise) (\<lambda>group2_ranges.
        rbind (last_end group2_ranges) (\<lambda>last2.
          Inr \<lparr>cs_cores = total_cores, cs_group1 = Some (start_coord, last1),
               cs_group2 = Some (start2, last2), cs_work1 = work_per_core + 1,
               cs_work2 = work_per_core\<rparr>)))))"

text \<open>The result \<open>None\<close> is Python's \<open>None\<close>, returned when no branch applies.\<close>

definition split_work_to_cores :: "int list \<Rightarrow> int \<Rightarrow> bool \<Rightarrow> core_split option result" where
  "split_work_to_cores grid_size units row_wise =
     (if units = 0
      then Inr (Some \<lparr>cs_cores = 0, cs_group1 = None, cs_group2 = None, cs_work1 = 0, cs_work2 = 0\<rparr>)
      else
        let n = length (remove_leading_ones grid_size) in
        rbind (guard (n \<le> 2) (AssertionError ''only supports grids with a single device'')) (\<lambda>_.
        rbind (get_number_of_cores grid_size) (\<lambda>total_cores.
        rbind (guard (total_cores > 0) (AssertionError ''grid must have at least one core'')) (\<lambda>_.
        let start_coord = replicate (length grid_size) 0;
            zeros = replicate (length grid_size - 1) 0 in
        if total_cores \<ge> units then
          rbind (if n = 1 then Inr (zeros @ [units - 1])
                 else if n = 2 then
                   rbind (num_cores_to_grid_ranges start_coord units grid_size row_wise) (\<lambda>ranges.
                   rbind (last_end ranges) (\<lambda>e. Inr (replicate (length grid_size - 2) 0 @ e)))
                 else Inl (NameError ''end_coord'')) (\<lambda>end_coord.
            Inr (Some \<lparr>cs_cores = units, cs_group1 = Some (start_coord, end_coord), cs_group2 = None,
                       cs_work1 = 1, cs_work2 = 0\<rparr>))
        else if n = 1 then
          let w = units div total_cores; r = units mod total_cores in
          Inr (Some \<lparr>cs_cores = total_cores, cs_group1 = Some (start_coord, zeros @ [r]),
                     cs_group2 = Some (zeros @ [r + 1], zeros @ [total_cores - 1]),
                     cs_work1 = w + 1, cs_work2 = w\<rparr>)
        else if n = 2 then
          rbind (split_2d grid_size total_cores units row_wise) (\<lambda>s. Inr (Some s))
        else Inr None))))"

section \<open>Matrix blocks\<close>

definition get_prime_factors_with_multiplicity :: "(int \<Rightarrow> (int \<times> nat) list) \<Rightarrow> int \<Rightarrow> int list" where
  "get_prime_factors_with_multiplicity factorint n =
     sort (concat (map (\<lambda>(prime, count). replicate count prime) (factorint n)))"

definition get_possible_products :: "int list \<Rightarrow> int list" where
  "get_possible_products factors =
     sorted_list_of_set (fold (\<lambda>p unique_products. unique_products \<union> (\<lambda>prod. prod * p) ` unique_products)
       factors {1})"

definition floor_div :: "int \<Rightarrow> int \<Rightarrow> int result" where
  "floor_div a b = (if b = 0 then Inl ZeroDivisionError else Inr (a div b))"

definition get_maximum_block_dim :: "int \<Rightarrow> int \<Rightarrow> int result" where
  "get_maximum_block_dim block_dim in0_block_w =
     rbind (floor_div (400 - 2 * in0_block_w * block_dim) (2 * in0_block_w + block_dim)) (\<lambda>other_dim.
       Inr (if other_dim > 0 then other_dim else 0))"

definition SUBBLOCK_HW_CHOICES :: "(int \<times> int) list" where
  "SUBBLOCK_HW_CHOICES =
     [(4, 2), (2, 4), (8, 1), (1, 8), (7, 1), (1, 7), (3, 2), (2, 3), (6, 1), (1, 6), (5, 1), (1, 5),
      (2, 2), (4, 1), (1, 4), (3, 1), (1, 3), (2, 1), (1, 2), (1, 1)]"

record matmul_params =
  block_h :: int
  block_w :: int
  subblock_h :: int
  subblock_w :: int

definition no_params :: matmul_params where
  "no_params = \<lparr>block_h = 0, block_w = 0, subblock_h = 0, subblock_w = 0\<rparr>"

definition find_subblock :: "int \<Rightarrow> int \<Rightarrow> (int \<times> int) option" where
  "find_subblock Mpc Npc = find (\<lambda>(h, w). Mpc mod h = 0 \<and> Npc mod w = 0) SUBBLOCK_HW_CHOICES"

text \<open>The loop of cases 1 and 2: grow until the memory limit.\<close>

fun grow_block :: "int \<Rightarrow> int \<Rightarrow> int list \<Rightarrow> int \<Rightarrow> int" where
  "grow_block low limit [] cur = cur"
| "grow_block low limit (ele # es) cur =
     (if ele * low \<le> limit then grow_block low limit es (ele * low) else cur)"

text \<open>The inner loop of case 3: the last choice below the limit.\<close>

fun last_fitting :: "int \<Rightarrow> int list \<Rightarrow> int \<Rightarrow> int" where
  "last_fitting limit [] cur = cur"
| "last_fitting limit (ele # es) cur = last_fitting limit es (if ele \<le> limit then ele else cur)"

definition too_big :: "int \<Rightarrow> int \<Rightarrow> int \<Rightarrow> int \<Rightarrow> int \<Rightarrow> int \<Rightarrow> bool result" where
  "too_big Mt Nt num_cores_y num_cores_x Mpc Npc =
     rbind (floor_div Mt Mpc) (\<lambda>m.
       if m > num_cores_y then Inr True else rbind (floor_div Nt Npc) (\<lambda>n. Inr (n > num_cores_x)))"

definition with_subblock :: "int \<Rightarrow> int \<Rightarrow> matmul_params" where
  "with_subblock Mpc Npc =
     (case find_subblock Mpc Npc of
        None \<Rightarrow> no_params
      | Some (h, w) \<Rightarrow> \<lparr>block_h = Mpc, block_w = Npc, subblock_h = h, subblock_w = w\<rparr>)"

text \<open>The outer loop of case 3; \<open>Mpc\<close> keeps its value from one round to the next.\<close>

fun search_blocks ::
    "int \<Rightarrow> int \<Rightarrow> int \<Rightarrow> int \<Rightarrow> int \<Rightarrow> int list \<Rightarrow> int list \<Rightarrow> int \<Rightarrow> matmul_params result" where
  "search_blocks Mt Nt cy cx w Mpc_choices [] Mpc = Inr no_params"
| "search_blocks Mt Nt cy cx w Mpc_choices (Npc # Npcs) Mpc =
     rbind (get_maximum_block_dim Npc w) (\<lambda>Mpc_max.
     let Mpc' = last_fitting Mpc_max Mpc_choices Mpc in
     rbind (too_big Mt Nt cy cx Mpc' Npc) (\<lambda>big.
       if big then search_blocks Mt Nt cy cx w Mpc_choices Npcs Mpc'
       else
         (case find_subblock Mpc' Npc of
            None \<Rightarrow> search_blocks Mt Nt cy cx w Mpc_choices Npcs Mpc'
          | Some (h, v) \<Rightarrow> Inr \<lparr>block_h = Mpc', block_w = Npc, subblock_h = h, subblock_w = v\<rparr>)))"

definition get_large_matmul_params ::
    "(int \<Rightarrow> (int \<times> nat) list) \<Rightarrow> int \<Rightarrow> int \<Rightarrow> int \<Rightarrow> int \<Rightarrow> int \<Rightarrow> matmul_params result" where
  "get_large_matmul_params factorint Mt Nt num_cores_y num_cores_x in0_block_w =
     (let Nt_all = get_prime_factors_with_multiplicity factorint Nt;
          Mt_all = get_prime_factors_with_multiplicity factorint Mt;
          Npc_min = prod_list (filter (\<lambda>f. f > num_cores_x) Nt_all);
          Nt_fac = filter (\<lambda>f. f \<le> num_cores_x) Nt_all;
          Mpc_min = prod_list (filter (\<lambda>f. f > num_cores_y) Mt_all);
          Mt_fac = filter (\<lambda>f. f \<le> num_cores_y) Mt_all in
      rbind (get_maximum_block_dim Mpc_min in0_block_w) (\<lambda>Npc_max.
      if Npc_min > Npc_max then Inr no_params
      else if Mpc_min > 1 then
        let Npc = grow_block Npc_min Npc_max (get_possible_products Nt_fac) Npc_min in
        rbind (too_big Mt Nt num_cores_y num_cores_x Mpc_min Npc) (\<lambda>big.
          Inr (if big then no_params else with_subblock Mpc_min Npc))
      else if Npc_min > 1 then
        rbind (get_maximum_block_dim Npc_min in0_block_w) (\<lambda>Mpc_max.
        let Mpc = grow_block Mpc_min Mpc_max (get_possible_products Mt_fac) Mpc_min in
        rbind (too_big Mt Nt num_cores_y num_cores_x Mpc Npc_min) (\<lambda>big.
          Inr (if big then no_params else with_subblock Mpc Npc_min)))
      else
        search_blocks Mt Nt num_cores_y num_cores_x in0_block_w
          (get_possible_products Mt_fac) (get_possible_products Nt_fac) Mpc_min))"

section \<open>Ranges cover runs of cores\<close>

text \<open>The three ranges with pairs \<open>(row, column)\<close>, for rows of \<open>n\<close> cores.\<close>

definition runs :: "int \<Rightarrow> int \<Rightarrow> int \<Rightarrow> int \<Rightarrow> ((int \<times> int) \<times> (int \<times> int)) list" where
  "runs n x y t =
     (let partial = (x \<noteq> 0 \<and> t > n - x);
          l1 = (if partial then t - (n - x) else t);
          x1 = (if partial then 0 else x);
          y1 = (if partial then y + 1 else y);
          k = l1 div n;
          l2 = (if l1 \<ge> n then l1 - k * n else l1);
          x2 = (if l1 \<ge> n then 0 else x1);
          y2 = (if l1 \<ge> n then y1 + k else y1) in
      (if partial then [((y, x), (y, n - 1))] else []) @
      (if l1 \<ge> n then [((y1, x1), (y1 + k - 1, n - 1))] else []) @
      (if l2 > 0 then [((y2, x2), (y2, x2 + l2 - 1))] else []))"

lemma row_wise_runs:
  "row_wise_ranges prefix n x y t =
     map (\<lambda>((a, b), (c, d)). (prefix @ [a, b], prefix @ [c, d])) (runs n x y t)"
  by (simp add: row_wise_ranges_def runs_def Let_def)

lemma col_wise_runs:
  "col_wise_ranges prefix n x y t =
     map (\<lambda>((a, b), (c, d)). (prefix @ [b, a], prefix @ [d, c])) (runs n y x t)"
  by (simp add: col_wise_ranges_def runs_def Let_def)

text \<open>The cells of a rectangle in row-major order, and a run of \<open>t\<close> cells from position \<open>a\<close>.\<close>

definition rect :: "(int \<times> int) \<times> (int \<times> int) \<Rightarrow> (int \<times> int) list" where
  "rect r = concat (map (\<lambda>y. map (Pair y) [snd (fst r)..snd (snd r)]) [fst (fst r)..fst (snd r)])"

definition run_cells :: "int \<Rightarrow> int \<Rightarrow> int \<Rightarrow> (int \<times> int) list" where
  "run_cells n a t = map (\<lambda>k. (k div n, k mod n)) [a..a + t - 1]"

lemma upto_shift: "[c + a..c + b] = map ((+) c) [a..b :: int]"
proof (induction a b rule: upto.induct)
  case (1 a b)
  show ?case
  proof (cases "a \<le> b")
    case True
    with 1 show ?thesis by (simp add: upto_rec1 [of a] upto_rec1 [of "c + a"] add.assoc)
  qed simp
qed

lemma run_cells_row:
  assumes "0 \<le> x" and "x + l \<le> n" and "0 < n"
  shows "run_cells n (y * n + x) l = map (Pair y) [x..x + l - 1]"
proof -
  have "[y * n + x..y * n + x + l - 1] = map ((+) (y * n)) [x..x + l - 1]"
    using upto_shift [of "y * n" x "x + l - 1"] by (simp add: algebra_simps)
  moreover have "((y * n + k) div n, (y * n + k) mod n) = (y, k)" if "0 \<le> k" "k < n" for k
    using that assms(3) by simp
  ultimately show ?thesis using assms by (simp add: run_cells_def)
qed

lemma run_cells_append:
  "0 \<le> t \<Longrightarrow> 0 \<le> u \<Longrightarrow> run_cells n a (t + u) = run_cells n a t @ run_cells n (a + t) u"
  using upto_split1 [of a "a + t" "a + (t + u) - 1"]
  by (cases "t = 0 \<or> u = 0") (auto simp: run_cells_def algebra_simps)

lemma run_cells_rows:
  assumes "0 < n"
  shows "run_cells n (y * n) (int k * n) = rect ((y, 0), (y + int k - 1, n - 1))"
proof (induction k)
  case 0
  then show ?case by (simp add: run_cells_def rect_def)
next
  case (Suc k)
  have "run_cells n (y * n) (int (Suc k) * n) =
      run_cells n (y * n) (int k * n) @ run_cells n ((y + int k) * n + 0) n"
    using run_cells_append [of "int k * n" n n "y * n"] assms by (simp add: algebra_simps)
  also have "run_cells n ((y + int k) * n + 0) n = map (Pair (y + int k)) [0..n - 1]"
    using run_cells_row [of 0 n n "y + int k"] assms by simp
  also have "[y..y + int (Suc k) - 1] = [y..y + int k - 1] @ [y + int k]"
    using upto_rec2 [of y "y + int k"] by simp
  then have "rect ((y, 0), (y + int (Suc k) - 1, n - 1)) =
      rect ((y, 0), (y + int k - 1, n - 1)) @ map (Pair (y + int k)) [0..n - 1]"
    by (simp add: rect_def)
  ultimately show ?case using Suc.IH by metis
qed

lemma rect_row: "rect ((y, a), (y, b)) = map (Pair y) [a..b]"
  by (simp add: rect_def)

text \<open>The ranges from the begin of a row on.\<close>

definition row_runs :: "int \<Rightarrow> int \<Rightarrow> int \<Rightarrow> ((int \<times> int) \<times> (int \<times> int)) list" where
  "row_runs n z l =
     (let k = l div n;
          l2 = (if l \<ge> n then l - k * n else l);
          y2 = (if l \<ge> n then z + k else z) in
      (if l \<ge> n then [((z, 0), (z + k - 1, n - 1))] else []) @
      (if l2 > 0 then [((y2, 0), (y2, 0 + l2 - 1))] else []))"

lemma runs_cases:
  "x \<noteq> 0 \<and> t > n - x \<Longrightarrow> runs n x y t = ((y, x), (y, n - 1)) # row_runs n (y + 1) (t - (n - x))"
  "runs n 0 y t = row_runs n y t"
  by (simp_all add: runs_def row_runs_def Let_def)

lemma row_runs_cells:
  assumes "0 < n" and "0 \<le> l"
  shows "concat (map rect (row_runs n z l)) = run_cells n (z * n) l"
proof (cases "l \<ge> n")
  case True
  let ?k = "l div n"
  have r: "l - ?k * n = l mod n" "0 \<le> l mod n" "l mod n \<le> n"
    using assms(1) by (simp_all add: minus_div_mult_eq_mod order_less_imp_le)
  have k: "0 \<le> ?k" using assms by (simp add: pos_imp_zdiv_nonneg_iff)
  have "run_cells n (z * n) l = run_cells n (z * n) (?k * n) @ run_cells n (z * n + ?k * n) (l mod n)"
    using run_cells_append [of "?k * n" "l mod n" n "z * n"] k assms(1) by simp
  also have "run_cells n (z * n) (?k * n) = rect ((z, 0), (z + ?k - 1, n - 1))"
    using run_cells_rows [OF assms(1), of z "nat ?k"] k by simp
  also have "run_cells n (z * n + ?k * n) (l mod n) = map (Pair (z + ?k)) [0..l mod n - 1]"
    using run_cells_row [of 0 "l mod n" n "z + ?k"] r assms(1) by (simp add: algebra_simps)
  finally show ?thesis using True r by (simp add: row_runs_def Let_def rect_row)
next
  case False
  with run_cells_row [of 0 l n z] assms show ?thesis by (simp add: row_runs_def Let_def rect_row)
qed

lemma runs_cells:
  assumes "0 \<le> x" and "x < n" and "0 \<le> t"
  shows "concat (map rect (runs n x y t)) = run_cells n (y * n + x) t"
proof -
  have n: "0 < n" using assms by simp
  show ?thesis
  proof (cases "x \<noteq> 0 \<and> t > n - x")
    case True
    have "run_cells n (y * n + x) t =
        run_cells n (y * n + x) (n - x) @ run_cells n ((y + 1) * n) (t - (n - x))"
      using run_cells_append [of "n - x" "t - (n - x)" n "y * n + x"] assms True
      by (simp add: algebra_simps)
    also have "run_cells n (y * n + x) (n - x) = rect ((y, x), (y, n - 1))"
      using run_cells_row [of x "n - x" n y] assms by (simp add: rect_row)
    finally show ?thesis
      using True row_runs_cells [OF n, of "t - (n - x)" "y + 1"] by (simp add: runs_cases(1))
  next
    case F: False
    show ?thesis
    proof (cases "x = 0")
      case True
      with row_runs_cells [OF n assms(3), of y] show ?thesis by (simp add: runs_cases(2))
    next
      case False
      with F assms run_cells_row [of x t n y] show ?thesis by (simp add: runs_def Let_def rect_row)
    qed
  qed
qed

text \<open>The end of the last range.\<close>

lemma last_run:
  assumes "0 \<le> x" and "x < n" and "0 < t"
  shows "runs n x y t \<noteq> []" and "snd (last (runs n x y t)) = ((y * n + x + t - 1) div n, (y * n + x + t - 1) mod n)"
proof -
  have n: "0 < n" using assms by simp
  have dm: "((a * n + b) div n, (a * n + b) mod n) = (a, b)" if "0 \<le> b" "b < n" for a b
    using that n by simp
  have row: "row_runs n z l \<noteq> [] \<and> snd (last (row_runs n z l)) = ((z * n + l - 1) div n, (z * n + l - 1) mod n)"
    if l: "0 < l" for z l
  proof (cases "l mod n = 0 \<and> l \<ge> n")
    case True
    then have m: "l - l div n * n = 0" by (simp add: minus_div_mult_eq_mod)
    then have e: "z * n + l - 1 = (z + l div n - 1) * n + (n - 1)" by (simp add: algebra_simps)
    have "((z * n + l - 1) div n, (z * n + l - 1) mod n) = (z + l div n - 1, n - 1)"
      unfolding e using n by (intro dm) simp_all
    moreover have "row_runs n z l = [((z, 0), (z + l div n - 1, n - 1))]"
      using True m by (simp add: row_runs_def Let_def)
    ultimately show ?thesis by simp
  next
    case False
    show ?thesis
    proof (cases "l \<ge> n")
      case True
      have m: "l - l div n * n = l mod n" by (simp add: minus_div_mult_eq_mod)
      have p: "0 < l mod n" "l mod n < n"
        using False True n pos_mod_sign [of n l] pos_mod_bound [of n l] by linarith+
      have e: "z * n + l - 1 = (z + l div n) * n + (l mod n - 1)"
        unfolding m [symmetric] by (simp add: algebra_simps)
      have "((z * n + l - 1) div n, (z * n + l - 1) mod n) = (z + l div n, l mod n - 1)"
        unfolding e using p by (intro dm) simp_all
      with True p m show ?thesis by (simp add: row_runs_def Let_def)
    next
      case F: False
      have e: "z * n + l - 1 = z * n + (l - 1)" by simp
      have "((z * n + l - 1) div n, (z * n + l - 1) mod n) = (z, l - 1)"
        unfolding e using F l by (intro dm) simp_all
      with F l show ?thesis by (simp add: row_runs_def Let_def)
    qed
  qed
  have "runs n x y t \<noteq> [] \<and> snd (last (runs n x y t)) = ((y * n + x + t - 1) div n, (y * n + x + t - 1) mod n)"
  proof (cases "x \<noteq> 0 \<and> t > n - x")
    case True
    have "(y + 1) * n + (t - (n - x)) - 1 = y * n + x + t - 1" by (simp add: algebra_simps)
    with True row [of "t - (n - x)" "y + 1"] show ?thesis by (simp add: runs_cases(1))
  next
    case F: False
    show ?thesis
    proof (cases "x = 0")
      case True
      with row [OF assms(3), of y] show ?thesis by (simp add: runs_cases(2))
    next
      case False
      have "((y * n + (x + t - 1)) div n, (y * n + (x + t - 1)) mod n) = (y, x + t - 1)"
        using False F assms by (intro dm) auto
      then have "((y * n + x + t - 1) div n, (y * n + x + t - 1) mod n) = (y, x + t - 1)"
        by (simp add: algebra_simps)
      with False F assms show ?thesis by (simp add: runs_def Let_def)
    qed
  qed
  then show "runs n x y t \<noteq> []"
    "snd (last (runs n x y t)) = ((y * n + x + t - 1) div n, (y * n + x + t - 1) mod n)" by simp_all
qed

section \<open>The ranges of a grid\<close>

text \<open>
  The cores of a grid in filling order: the core at a position, the position of a coordinate
  tuple, and the cells of a range.
\<close>

definition core_at :: "bool \<Rightarrow> int \<Rightarrow> int \<Rightarrow> int \<Rightarrow> int \<times> int" where
  "core_at row_wise nx ny k = (if row_wise then (k div nx, k mod nx) else (k mod ny, k div ny))"

definition core_pos :: "bool \<Rightarrow> int \<Rightarrow> int \<Rightarrow> int list \<Rightarrow> int" where
  "core_pos row_wise nx ny c =
     (if row_wise then second_last_coord 0 c * nx + last_coord 0 c
      else last_coord 0 c * ny + second_last_coord 0 c)"

definition range_cells :: "bool \<Rightarrow> grid_range \<Rightarrow> (int \<times> int) list" where
  "range_cells row_wise r =
     (let ys = [second_last_coord 0 (fst r)..second_last_coord 0 (snd r)];
          xs = [last_coord 0 (fst r)..last_coord 0 (snd r)] in
      if row_wise then concat (map (\<lambda>y. map (\<lambda>x. (y, x)) xs) ys)
      else concat (map (\<lambda>x. map (\<lambda>y. (y, x)) ys) xs))"

lemma coord_simps [simp]:
  "last_coord d (p @ [a, b]) = b" "second_last_coord d (p @ [a, b]) = a"
  "last_coord d [a, b] = b" "second_last_coord d [a, b] = a"
  by (simp_all add: last_coord_def second_last_coord_def nth_append)

definition embed :: "bool \<Rightarrow> int list \<Rightarrow> (int \<times> int) \<times> (int \<times> int) \<Rightarrow> grid_range" where
  "embed row_wise p r =
     (if row_wise then (p @ [fst (fst r), snd (fst r)], p @ [fst (snd r), snd (snd r)])
      else (p @ [snd (fst r), fst (fst r)], p @ [snd (snd r), fst (snd r)]))"

lemma embed_cells:
  "range_cells row_wise (embed row_wise p r) =
     map (\<lambda>c. if row_wise then c else (snd c, fst c)) (rect r)"
  by (simp add: range_cells_def embed_def rect_def map_concat comp_def)

definition grid_runs :: "bool \<Rightarrow> int \<Rightarrow> int \<Rightarrow> int \<Rightarrow> int \<Rightarrow> int \<Rightarrow> ((int \<times> int) \<times> (int \<times> int)) list" where
  "grid_runs row_wise nx ny sy sx t = (if row_wise then runs nx sx sy t else runs ny sy sx t)"

lemma num_cores_to_grid_ranges_eq:
  assumes "length sc = length gs" and "length (remove_leading_ones gs) \<le> 2"
    and "last_coord 0 sc < last_coord 1 gs" and "second_last_coord 0 sc < second_last_coord 1 gs"
  shows "num_cores_to_grid_ranges sc t gs row_wise =
    (if t \<le> available_cores row_wise (last_coord 1 gs) (second_last_coord 1 gs)
          (last_coord 0 sc) (second_last_coord 0 sc)
     then Inr (map (embed row_wise (replicate (length gs - 2) 0))
       (grid_runs row_wise (last_coord 1 gs) (second_last_coord 1 gs)
         (second_last_coord 0 sc) (last_coord 0 sc) t))
     else Inl (AssertionError ''Target exceeds available''))"
  using assms
  by (simp add: num_cores_to_grid_ranges_def Let_def row_wise_runs col_wise_runs grid_runs_def
      embed_def case_prod_beta)

lemma available_pos:
  "available_cores row_wise (last_coord 1 gs) (second_last_coord 1 gs) (last_coord 0 sc)
     (second_last_coord 0 sc) =
   last_coord 1 gs * second_last_coord 1 gs -
     core_pos row_wise (last_coord 1 gs) (second_last_coord 1 gs) sc"
  by (simp add: available_cores_def core_pos_def algebra_simps)

lemma grid_runs_cells:
  assumes "0 \<le> last_coord 0 sc" and "last_coord 0 sc < nx"
    and "0 \<le> second_last_coord 0 sc" and "second_last_coord 0 sc < ny" and "0 \<le> t"
  shows "concat (map (range_cells row_wise) (map (embed row_wise p)
      (grid_runs row_wise nx ny (second_last_coord 0 sc) (last_coord 0 sc) t))) =
    map (core_at row_wise nx ny)
      [core_pos row_wise nx ny sc..core_pos row_wise nx ny sc + t - 1]"
proof -
  have "concat (map (range_cells row_wise) (map (embed row_wise p)
      (grid_runs row_wise nx ny (second_last_coord 0 sc) (last_coord 0 sc) t))) =
    map (\<lambda>c. if row_wise then c else (snd c, fst c))
      (concat (map rect (grid_runs row_wise nx ny (second_last_coord 0 sc) (last_coord 0 sc) t)))"
    by (simp add: map_concat comp_def embed_cells)
  also have "concat (map rect (grid_runs row_wise nx ny (second_last_coord 0 sc) (last_coord 0 sc) t)) =
      run_cells (if row_wise then nx else ny) (core_pos row_wise nx ny sc) t"
    using assms by (simp add: grid_runs_def runs_cells core_pos_def)
  finally show ?thesis
    by (simp add: run_cells_def core_at_def comp_def)
qed

lemma core_at_bounds:
  assumes "0 < nx" and "0 < ny" and "0 \<le> k" and "k < nx * ny"
  shows "0 \<le> fst (core_at row_wise nx ny k) \<and> fst (core_at row_wise nx ny k) < ny \<and>
    0 \<le> snd (core_at row_wise nx ny k) \<and> snd (core_at row_wise nx ny k) < nx"
proof -
  have "k div nx < ny" "k div ny < nx"
    using int_div_less [of nx k ny] int_div_less [of ny k nx] assms by (simp_all add: mult.commute)
  with assms show ?thesis by (simp add: core_at_def pos_imp_zdiv_nonneg_iff)
qed

lemma grid_core_inj:
  assumes "0 < nx" and "0 < ny"
  shows "inj (core_at row_wise nx ny)"
  by (rule injI) (metis core_at_def div_mult_mod_eq prod.inject)

text \<open>
  For any start inside the grid and any number of cores, asking for more cores than
  are left is rejected, and otherwise the ranges, read in filling order, list exactly the
  requested number of cores from the start position on, all distinct and inside the grid.
\<close>
lemma ranges_cover:
  assumes "length sc = length gs" and "length (remove_leading_ones gs) \<le> 2"
    and nx: "nx = last_coord 1 gs" and ny: "ny = second_last_coord 1 gs"
    and x: "0 \<le> last_coord 0 sc" "last_coord 0 sc < nx"
    and y: "0 \<le> second_last_coord 0 sc" "second_last_coord 0 sc < ny" and t: "0 \<le> t"
  shows "(t > nx * ny - core_pos row_wise nx ny sc \<longrightarrow>
      num_cores_to_grid_ranges sc t gs row_wise = Inl (AssertionError ''Target exceeds available'')) \<and>
    (t \<le> nx * ny - core_pos row_wise nx ny sc \<longrightarrow>
      (\<exists>rs. num_cores_to_grid_ranges sc t gs row_wise = Inr rs \<and>
        concat (map (range_cells row_wise) rs) =
          map (core_at row_wise nx ny)
            [core_pos row_wise nx ny sc..core_pos row_wise nx ny sc + t - 1] \<and>
        length (concat (map (range_cells row_wise) rs)) = nat t \<and>
        distinct (concat (map (range_cells row_wise) rs)) \<and>
        set (concat (map (range_cells row_wise) rs)) \<subseteq> {0..ny - 1} \<times> {0..nx - 1}))"
proof -
  let ?p = "core_pos row_wise nx ny sc"
  let ?rs = "map (embed row_wise (replicate (length gs - 2) 0))
    (grid_runs row_wise nx ny (second_last_coord 0 sc) (last_coord 0 sc) t)"
  have n: "0 < nx" "0 < ny" and p: "0 \<le> ?p" using x y by (simp_all add: core_pos_def)
  have eq: "num_cores_to_grid_ranges sc t gs row_wise =
      (if t \<le> nx * ny - ?p then Inr ?rs else Inl (AssertionError ''Target exceeds available''))"
    using num_cores_to_grid_ranges_eq [OF assms(1,2), of t row_wise] x y
    unfolding available_pos nx ny by simp
  have c: "concat (map (range_cells row_wise) ?rs) = map (core_at row_wise nx ny) [?p..?p + t - 1]"
    using grid_runs_cells [OF x y t] .
  have "distinct (map (core_at row_wise nx ny) [?p..?p + t - 1])"
    using grid_core_inj [OF n, of row_wise] by (auto simp: distinct_map intro: inj_on_subset)
  moreover have "set (map (core_at row_wise nx ny) [?p..?p + t - 1]) \<subseteq> {0..ny - 1} \<times> {0..nx - 1}"
    if "t \<le> nx * ny - ?p"
  proof
    fix c assume "c \<in> set (map (core_at row_wise nx ny) [?p..?p + t - 1])"
    then obtain k where k: "c = core_at row_wise nx ny k" "?p \<le> k" "k \<le> ?p + t - 1" by auto
    with core_at_bounds [OF n, of k row_wise] p that
    show "c \<in> {0..ny - 1} \<times> {0..nx - 1}"
      by (simp add: mem_Times_iff)
  qed
  moreover have "length (map (core_at row_wise nx ny) [?p..?p + t - 1]) = nat t" by simp
  ultimately show ?thesis using eq c by (metis linorder_not_less)
qed

lemma ranges_cover_witness:
  "concat (map (range_cells True) [([0, 1, 2], [0, 1, 3]), ([0, 2, 0], [0, 2, 3]), ([0, 3, 0], [0, 3, 0])]) =
     map (core_at True 4 5) [6..12] \<and>
   num_cores_to_grid_ranges [0, 1, 2] 15 [1, 5, 4] True =
     Inl (AssertionError ''Target exceeds available'')"
proof -
  have "num_cores_to_grid_ranges [0, 1, 2] 7 [1, 5, 4] True =
      Inr [([0, 1, 2], [0, 1, 3]), ([0, 2, 0], [0, 2, 3]), ([0, 3, 0], [0, 3, 0])]"
    by code_simp
  then show ?thesis
    using ranges_cover [of "[0, 1, 2]" "[1, 5, 4]" 4 5 7 True]
      ranges_cover [of "[0, 1, 2]" "[1, 5, 4]" 4 5 15 True]
    by (simp add: last_coord_def second_last_coord_def core_pos_def remove_leading_ones_def)
qed

section \<open>Splitting work over a two-dimensional grid\<close>

lemma core_pos_at [simp]:
  assumes "0 < nx" and "0 < ny"
  shows "core_pos row_wise nx ny
    (p @ [fst (core_at row_wise nx ny k), snd (core_at row_wise nx ny k)]) = k"
  by (simp add: core_pos_def core_at_def)

lemma core_pos_append [simp]:
  assumes "length c \<ge> 2"
  shows "core_pos row_wise nx ny (p @ c) = core_pos row_wise nx ny c"
proof -
  from assms obtain q a b where "c = q @ [a, b]"
    by (cases c rule: rev_cases; cases "butlast c" rule: rev_cases) auto
  then show ?thesis
    using coord_simps(1,2) [of 0 "p @ q" a b] coord_simps(1,2) [of 0 q a b] by (simp add: core_pos_def)
qed

lemma core_pos_origin [simp]: "core_pos row_wise nx ny (replicate n 0) = 0"
  by (simp add: core_pos_def last_coord_def second_last_coord_def)

lemma coord_zeros [simp]:
  "last_coord 0 (replicate n 0) = 0" "second_last_coord 0 (replicate n 0) = 0"
  by (simp_all add: last_coord_def second_last_coord_def)

lemma div_mod_next:
  assumes "0 < (n :: int)"
  shows "((k + 1) div n, (k + 1) mod n) =
    (if k mod n \<noteq> n - 1 then (k div n, k mod n + 1) else (k div n + 1, 0))"
proof -
  have dm: "((a * n + b) div n, (a * n + b) mod n) = (a, b)" if "0 \<le> b" "b < n" for a b
    using that assms by simp
  have b: "0 \<le> k mod n" "k mod n < n" using assms by simp_all
  show ?thesis
  proof (cases "k mod n = n - 1")
    case False
    have e: "k + 1 = k div n * n + (k mod n + 1)" by simp
    have "((k + 1) div n, (k + 1) mod n) = (k div n, k mod n + 1)"
      using dm [of "k mod n + 1" "k div n"] b False unfolding e [symmetric] by simp
    with False show ?thesis by simp
  next
    case True
    then have e: "k + 1 = (k div n + 1) * n + 0"
      unfolding distrib_right using div_mult_mod_eq [of k n] by simp
    have "((k + 1) div n, (k + 1) mod n) = (k div n + 1, 0)"
      unfolding e using assms by (intro dm) simp_all
    with True show ?thesis by simp
  qed
qed

lemma next_core_at:
  assumes "0 < nx" and "0 < ny"
  shows "next_core row_wise nx ny (fst (core_at row_wise nx ny k)) (snd (core_at row_wise nx ny k)) =
    core_at row_wise nx ny (k + 1)"
  using div_mod_next [OF assms(1), of k] div_mod_next [OF assms(2), of k]
  by (simp add: next_core_def core_at_def split: if_splits)

lemma core_at_last:
  assumes "0 < nx" and "0 < ny"
  shows "core_at row_wise nx ny (nx * ny - 1) = (ny - 1, nx - 1)"
proof -
  have dm: "(a * n + b) div n = a \<and> (a * n + b) mod n = b" if "0 \<le> b" "b < n" for a b n :: int
    using that by simp
  have "nx * ny - 1 = (ny - 1) * nx + (nx - 1)" "nx * ny - 1 = (nx - 1) * ny + (ny - 1)"
    by (simp_all add: algebra_simps)
  with dm [of "nx - 1" nx "ny - 1"] dm [of "ny - 1" ny "nx - 1"] assms
  show ?thesis by (simp only: core_at_def) simp
qed

lemma ranges_last:
  assumes "length sc = length gs" and "length (remove_leading_ones gs) \<le> 2"
    and nx: "nx = last_coord 1 gs" and ny: "ny = second_last_coord 1 gs"
    and x: "0 \<le> last_coord 0 sc" "last_coord 0 sc < nx"
    and y: "0 \<le> second_last_coord 0 sc" "second_last_coord 0 sc < ny"
    and t: "0 < t" "t \<le> nx * ny - core_pos row_wise nx ny sc"
    and c: "c = core_at row_wise nx ny (core_pos row_wise nx ny sc + t - 1)"
  obtains rs where "num_cores_to_grid_ranges sc t gs row_wise = Inr rs"
    and "last_end rs = Inr (replicate (length gs - 2) 0 @ [fst c, snd c])"
proof
  let ?runs = "grid_runs row_wise nx ny (second_last_coord 0 sc) (last_coord 0 sc) t"
  let ?rs = "map (embed row_wise (replicate (length gs - 2) 0)) ?runs"
  show "num_cores_to_grid_ranges sc t gs row_wise = Inr ?rs"
    using num_cores_to_grid_ranges_eq [OF assms(1,2), of t row_wise] x y t
    unfolding available_pos nx ny by simp
  have "?runs \<noteq> [] \<and> snd (last ?runs) = (if row_wise then c else (snd c, fst c))"
    unfolding grid_runs_def c core_at_def core_pos_def
    using last_run [OF x t(1), of "second_last_coord 0 sc"] last_run [OF y t(1), of "last_coord 0 sc"]
    by (cases row_wise) simp_all
  then show "last_end ?rs = Inr (replicate (length gs - 2) 0 @ [fst c, snd c])"
    by (cases row_wise) (simp_all add: last_end_def last_map embed_def)
qed

lemma grid_2d:
  assumes "length (remove_leading_ones gs) = 2"
  shows "gs = replicate (length gs - 2) 1 @ [second_last_coord 1 gs, last_coord 1 gs]"
    and "2 \<le> length gs"
    and "prod_list gs = last_coord 1 gs * second_last_coord 1 gs"
proof -
  obtain a b where ab: "dropWhile (\<lambda>x. x = 1) gs = [a, b]"
    using assms by (auto simp: remove_leading_ones_def length_Suc_conv numeral_2_eq_2)
  define k where "k = length (takeWhile (\<lambda>x. x = 1) gs)"
  have "takeWhile (\<lambda>x. x = 1) gs = replicate k 1"
    unfolding k_def by (intro replicate_eqI) (auto dest: set_takeWhileD)
  then have gs: "gs = replicate k 1 @ [a, b]"
    using takeWhile_dropWhile_id [of "\<lambda>x. x = 1" gs] ab by simp
  show "gs = replicate (length gs - 2) 1 @ [second_last_coord 1 gs, last_coord 1 gs]"
    "2 \<le> length gs" "prod_list gs = last_coord 1 gs * second_last_coord 1 gs"
    unfolding gs by simp_all
qed

lemma get_number_of_cores_prod:
  assumes "\<forall>d \<in> set gs. 0 < d"
  shows "get_number_of_cores gs = Inr (prod_list gs)"
proof -
  have "rfold (\<lambda>dim core_count. if dim > 0 then Inr (core_count * dim)
      else Inl (AssertionError ''grid dimensions must be positive'')) gs c = Inr (c * prod_list gs)" for c
    using assms by (induction gs arbitrary: c) (simp_all add: mult.assoc)
  then show ?thesis by (simp add: get_number_of_cores_def)
qed

text \<open>The groups of a split with their work, and the filling positions a group spans.\<close>

definition core_groups :: "core_split \<Rightarrow> (grid_range \<times> int) list" where
  "core_groups s =
     (case cs_group1 s of None \<Rightarrow> [] | Some g \<Rightarrow> [(g, cs_work1 s)]) @
     (case cs_group2 s of None \<Rightarrow> [] | Some g \<Rightarrow> [(g, cs_work2 s)])"

definition group_positions :: "bool \<Rightarrow> int \<Rightarrow> int \<Rightarrow> grid_range \<Rightarrow> int list" where
  "group_positions row_wise nx ny g =
     [core_pos row_wise nx ny (fst g)..core_pos row_wise nx ny (snd g)]"

lemma split_2d_groups:
  assumes two: "length (remove_leading_ones gs) = 2" and pos: "\<forall>d \<in> set gs. 0 < d"
    and nx: "nx = last_coord 1 gs" and ny: "ny = second_last_coord 1 gs"
    and t: "tc = prod_list gs" and u: "0 < units"
  obtains s where "split_2d gs tc units row_wise = Inr s" and "cs_cores s = tc"
    and "cs_work1 s = units div tc + (if units mod tc = 0 then 0 else 1)"
    and "\<And>g. cs_group2 s = Some g \<Longrightarrow> cs_work2 s = units div tc"
    and "map (\<lambda>(g, w). (group_positions row_wise nx ny g, w)) (core_groups s) =
      (if units mod tc = 0 then [([0..tc - 1], units div tc)]
       else [([0..units mod tc - 1], units div tc + 1),
             ([units mod tc..tc - 1], units div tc)])"
proof -
  let ?p = "replicate (length gs - 2) (0 :: int)" and ?m = "units mod tc"
  have "0 < last_coord 1 gs \<and> 0 < second_last_coord 1 gs"
    using pos by (subst (asm) grid_2d(1) [OF two]) simp
  then have n: "0 < nx" "0 < ny" by (simp_all add: nx ny)
  have tot: "tc = nx * ny" using grid_2d(3) [OF two] by (simp add: t nx ny)
  have tp: "0 < tc" using n by (simp add: tot)
  have sc: "length (replicate (length gs) (0 :: int)) = length gs"
    "last_coord 0 (replicate (length gs) (0 :: int)) = 0"
    "second_last_coord 0 (replicate (length gs) (0 :: int)) = 0"
    by (simp_all add: last_coord_def second_last_coord_def)
  show ?thesis
  proof (cases "?m = 0")
    case True
    have e: "core_at row_wise nx ny (tc - 1) = (ny - 1, nx - 1)"
      using core_at_last [OF n] by (simp add: tot)
    show ?thesis
    proof (rule that)
      show "split_2d gs tc units row_wise = Inr \<lparr>cs_cores = tc,
          cs_group1 = Some (replicate (length gs) 0, ?p @ [ny - 1, nx - 1]), cs_group2 = None,
          cs_work1 = units div tc, cs_work2 = 0\<rparr>"
        using True by (simp add: split_2d_def Let_def nx ny)
    qed (use True e core_pos_at [OF n, of row_wise ?p "tc - 1"] in
        \<open>simp_all add: core_groups_def group_positions_def\<close>)
  next
    case False
    let ?c1 = "core_at row_wise nx ny (?m - 1)" and ?c2 = "core_at row_wise nx ny (tc - 1)"
    let ?s2 = "core_at row_wise nx ny ?m"
    let ?start = "?p @ [fst ?s2, snd ?s2]"
    have m: "0 < ?m" "?m < tc"
      using False pos_mod_sign [OF tp, of units] pos_mod_bound [OF tp, of units] by linarith+
    have ml: "?m \<le> nx * ny" using m(2) unfolding tot by (rule less_imp_le)
    obtain r1 where r1: "num_cores_to_grid_ranges (replicate (length gs) 0) ?m gs row_wise = Inr r1"
      "last_end r1 = Inr (?p @ [fst ?c1, snd ?c1])"
      using ranges_last [OF sc(1) _ nx ny, of ?m row_wise ?c1] sc n m ml two by (auto simp: tot)
    have b: "0 \<le> fst ?s2" "fst ?s2 < ny" "0 \<le> snd ?s2" "snd ?s2 < nx"
      using core_at_bounds [OF n, of ?m row_wise] m by (simp_all add: tot)
    obtain r2 where r2: "num_cores_to_grid_ranges ?start (tc - ?m) gs row_wise = Inr r2"
      "last_end r2 = Inr (?p @ [fst ?c2, snd ?c2])"
    proof (rule ranges_last [of ?start gs nx ny "tc - ?m" row_wise ?c2])
      show "length ?start = length gs" "length (remove_leading_ones gs) \<le> 2"
        using grid_2d(2) [OF two] two by simp_all
      show "0 \<le> last_coord 0 ?start" "last_coord 0 ?start < nx"
        "0 \<le> second_last_coord 0 ?start" "second_last_coord 0 ?start < ny"
        using b by simp_all
      show "0 < tc - ?m" "tc - ?m \<le> nx * ny - core_pos row_wise nx ny ?start"
        using m core_pos_at [OF n] by (simp_all only: tot)
      show "?c2 = core_at row_wise nx ny (core_pos row_wise nx ny ?start + (tc - ?m) - 1)"
        by (simp add: core_pos_at [OF n])
    qed (use nx ny in simp_all)
    show ?thesis
    proof (rule that)
      show "split_2d gs tc units row_wise = Inr \<lparr>cs_cores = tc,
          cs_group1 = Some (replicate (length gs) 0, ?p @ [fst ?c1, snd ?c1]),
          cs_group2 = Some (?start, ?p @ [fst ?c2, snd ?c2]),
          cs_work1 = units div tc + 1, cs_work2 = units div tc\<rparr>"
        using False r1 r2 next_core_at [OF n, of row_wise "?m - 1"]
        by (simp add: split_2d_def Let_def nx [symmetric] ny [symmetric])
    qed (use False core_pos_at [OF n] in \<open>simp_all add: core_groups_def group_positions_def\<close>)
  qed
qed

lemma positions_summary:
  assumes "ps = (if (u :: int) mod tc = 0 then [([0..tc - 1], u div tc)]
      else [([0..u mod tc - 1], u div tc + 1), ([u mod tc..tc - 1], u div tc)])" and "0 < tc"
  shows "concat (map fst ps) = [0..tc - 1]"
    and "sum_list (map (\<lambda>p. int (length (fst p)) * snd p) ps) = u"
    and "snd ` set ps \<subseteq> {u div tc, u div tc + 1}"
proof -
  have m: "0 \<le> u mod tc" "u mod tc < tc" using assms(2) by simp_all
  have "[0..u mod tc - 1] @ [u mod tc..tc - 1] = [0..tc - 1]"
    using m by (intro upto_split1 [symmetric]) simp_all
  then show "concat (map fst ps) = [0..tc - 1]" by (simp add: assms(1))
  have sum: "sum_list (map (\<lambda>p. int (length (fst p)) * snd p)
      (if r = 0 then [([0..tc - 1], q)] else [([0..r - 1], q + 1), ([r..tc - 1], q)])) = tc * q + r"
    if "0 \<le> r" "r < tc" for q r
    using that by (simp add: distrib_left left_diff_distrib)
  show "sum_list (map (\<lambda>p. int (length (fst p)) * snd p) ps) = u"
    using sum [OF m, of "u div tc"] by (simp only: assms(1) mult_div_mod_eq)
  show "snd ` set ps \<subseteq> {u div tc, u div tc + 1}" by (simp add: assms(1))
qed



text \<open>
  Three places where the split is wrong. On a one-dimensional grid with more work
  than cores the two groups together carry one unit more than there is, since group 1 ends
  one core too late. On a grid of one core, one unit of work is an unbound local and more units
  return Python's \<open>None\<close> instead of a split. On a three-dimensional grid with at least as many cores
  as units the end coordinate has one entry too many.
\<close>
lemma split_defects:
  assumes "1 < n" and "n < units"
  shows "(\<exists>s. split_work_to_cores [n] units row_wise = Inr (Some s) \<and>
      sum_list (map (\<lambda>(g, w). (last_coord 0 (snd g) - last_coord 0 (fst g) + 1) * w) (core_groups s)) =
        units + 1) \<and>
    split_work_to_cores [1, 1] 1 row_wise = Inl (NameError ''end_coord'') \<and>
    split_work_to_cores [1, 1] units row_wise = Inr None \<and>
    (\<exists>s e. split_work_to_cores [1, 2, 2] 3 row_wise = Inr (Some s) \<and>
      cs_group1 s = Some ([0, 0, 0], e) \<and> length e = 4)"
proof (intro conjI)
  let ?s = "\<lparr>cs_cores = n, cs_group1 = Some ([0], [units mod n]),
    cs_group2 = Some ([units mod n + 1], [n - 1]), cs_work1 = units div n + 1, cs_work2 = units div n\<rparr>"
  have "split_work_to_cores [n] units row_wise = Inr (Some ?s)"
    using assms by (simp add: split_work_to_cores_def remove_leading_ones_def get_number_of_cores_def
        Let_def)
  moreover have "(r + 1) * (q + 1) + (n - 1 - r) * q = n * q + r + 1" for q r
    by (simp add: algebra_simps)
  from this [of "units mod n" "units div n"]
  have "sum_list (map (\<lambda>(g, w). (last_coord 0 (snd g) - last_coord 0 (fst g) + 1) * w) (core_groups ?s)) =
      units + 1"
    by (simp add: core_groups_def last_coord_def algebra_simps)
  ultimately show "\<exists>s. split_work_to_cores [n] units row_wise = Inr (Some s) \<and>
      sum_list (map (\<lambda>(g, w). (last_coord 0 (snd g) - last_coord 0 (fst g) + 1) * w) (core_groups s)) =
        units + 1" by blast
  show "split_work_to_cores [1, 1] 1 row_wise = Inl (NameError ''end_coord'')"
    by (simp add: split_work_to_cores_def remove_leading_ones_def get_number_of_cores_def Let_def)
  show "split_work_to_cores [1, 1] units row_wise = Inr None"
    using assms
    by (simp add: split_work_to_cores_def remove_leading_ones_def get_number_of_cores_def Let_def)
  have "split_work_to_cores [1, 2, 2] 3 True = Inr (Some \<lparr>cs_cores = 3,
      cs_group1 = Some ([0, 0, 0], [0, 0, 1, 0]), cs_group2 = None, cs_work1 = 1, cs_work2 = 0\<rparr>)"
    "split_work_to_cores [1, 2, 2] 3 False = Inr (Some \<lparr>cs_cores = 3,
      cs_group1 = Some ([0, 0, 0], [0, 0, 0, 1]), cs_group2 = None, cs_work1 = 1, cs_work2 = 0\<rparr>)"
    by code_simp+
  then show "\<exists>s e. split_work_to_cores [1, 2, 2] 3 row_wise = Inr (Some s) \<and>
      cs_group1 s = Some ([0, 0, 0], e) \<and> length e = 4"
    by (cases row_wise) simp_all
qed

lemma split_defects_witness:
  "sum_list (map (\<lambda>(g, w). (last_coord 0 (snd g) - last_coord 0 (fst g) + 1) * w) (core_groups
     \<lparr>cs_cores = 8, cs_group1 = Some ([0], [4]), cs_group2 = Some ([5], [7]), cs_work1 = 13, cs_work2 = 12\<rparr>)) =
   (101 :: int)"
proof -
  have "split_work_to_cores [8] 100 True = Inr (Some \<lparr>cs_cores = 8, cs_group1 = Some ([0], [4]),
      cs_group2 = Some ([5], [7]), cs_work1 = 13, cs_work2 = 12\<rparr>)"
    by code_simp
  then show ?thesis using split_defects [of 8 100 True] by auto
qed

section \<open>Products of factors and block dimensions\<close>

lemma products_step:
  "fold (\<lambda>p S. S \<union> (\<lambda>prod. prod * p) ` S) fs S =
     (\<lambda>(s, q). s * q) ` (S \<times> (prod_list ` set (subseqs fs)))" for S :: "int set"
proof (induction fs arbitrary: S)
  case (Cons p fs)
  let ?Q = "prod_list ` set (subseqs fs)"
  have "set (subseqs (p # fs)) = (#) p ` set (subseqs fs) \<union> set (subseqs fs)"
    by (simp add: Let_def)
  then have "prod_list ` set (subseqs (p # fs)) = (\<lambda>q. p * q) ` ?Q \<union> ?Q"
    by (simp add: image_Un image_image)
  moreover have "(\<lambda>(s, q). s * q) ` ((S \<union> (\<lambda>prod. prod * p) ` S) \<times> ?Q) =
      (\<lambda>(s, q). s * q) ` (S \<times> ((\<lambda>q. p * q) ` ?Q \<union> ?Q))"
    by (force simp: image_iff mult.assoc)
  ultimately show ?case by (simp add: Cons.IH)
qed (force simp: image_iff)

text \<open>The candidates are exactly the products of the sub-sequences of the factors.\<close>

lemma possible_products_set:
  "set (get_possible_products fs) = prod_list ` set (subseqs fs)"
proof -
  have "finite (prod_list ` set (subseqs fs))" by simp
  moreover have "fold (\<lambda>p S. S \<union> (\<lambda>prod. prod * p) ` S) fs {1} = prod_list ` set (subseqs fs)"
    by (simp add: products_step image_image Times_insert_left)
  ultimately show ?thesis by (simp add: get_possible_products_def)
qed

lemma subseqs_dvd:
  "ps \<in> set (subseqs fs) \<Longrightarrow> prod_list ps dvd (prod_list fs :: int) \<and> set ps \<subseteq> set fs"
proof (induction fs arbitrary: ps)
  case (Cons f fs)
  from Cons.prems consider "ps \<in> set (subseqs fs)" | qs where "ps = f # qs" "qs \<in> set (subseqs fs)"
    by (auto simp: Let_def)
  then show ?case using Cons.IH by cases (auto intro: dvd_mult)
qed simp

lemma factors_prod_pos: "(\<And>f. f \<in> set fs \<Longrightarrow> (1 :: int) < f) \<Longrightarrow> 0 < prod_list fs"
proof (induction fs)
  case (Cons f fs)
  then have "1 < f" "0 < prod_list fs" by simp_all
  then show ?case by simp
qed simp

lemma possible_products_dvd:
  assumes "\<And>f. f \<in> set fs \<Longrightarrow> 1 < f" and "x \<in> set (get_possible_products fs)"
  shows "x dvd prod_list fs" and "0 < x"
proof -
  from assms(2) obtain ps where ps: "ps \<in> set (subseqs fs)" "x = prod_list ps"
    by (auto simp: possible_products_set)
  with subseqs_dvd [OF ps(1)] assms(1) factors_prod_pos [of ps]
  show "x dvd prod_list fs" "0 < x" by auto
qed

lemma le_int_div:
  assumes "0 < (n :: int)"
  shows "b \<le> k div n \<longleftrightarrow> n * b \<le> k"
proof
  assume "b \<le> k div n"
  then have "n * b \<le> n * (k div n)" using assms by simp
  also have "n * (k div n) \<le> k" using assms by (simp add: minus_mod_eq_mult_div [symmetric])
  finally show "n * b \<le> k" .
next
  assume "n * b \<le> k"
  from zdiv_mono1 [OF this assms] show "b \<le> k div n" using assms by simp
qed

text \<open>
  The maximal other dimension is exactly the largest one within the memory budget of 400 tiles.
\<close>
lemma maximum_block_dim:
  assumes "0 < a" and "0 \<le> w"
  obtains m where "get_maximum_block_dim a w = Inr m"
    and "\<And>b. 0 < b \<Longrightarrow> b \<le> m \<longleftrightarrow> 2 * w * a + 2 * w * b + a * b \<le> 400"
proof
  let ?d = "2 * w + a"
  have d: "0 < ?d" using assms by simp
  let ?q = "(400 - 2 * w * a) div ?d"
  show "get_maximum_block_dim a w = Inr (if ?q > 0 then ?q else 0)"
    using d by (simp add: get_maximum_block_dim_def floor_div_def)
  fix b :: int assume b: "0 < b"
  have "b \<le> ?q \<longleftrightarrow> ?d * b \<le> 400 - 2 * w * a" using d by (rule le_int_div)
  also have "\<dots> \<longleftrightarrow> 2 * w * a + 2 * w * b + a * b \<le> 400"
    by (simp add: algebra_simps)
  finally show "b \<le> (if ?q > 0 then ?q else 0) \<longleftrightarrow> 2 * w * a + 2 * w * b + a * b \<le> 400"
    using b by (cases "?q > 0") simp_all
qed

section \<open>Matrix block parameters\<close>

text \<open>What the code relies on: \<open>factorint\<close> lists factors above 1 whose product is the number.\<close>

definition factors_number :: "(int \<Rightarrow> (int \<times> nat) list) \<Rightarrow> int \<Rightarrow> bool" where
  "factors_number factorint n \<longleftrightarrow>
     prod_list (map (\<lambda>(prime, count). prime ^ count) (factorint n)) = n \<and>
     (\<forall>(prime, count) \<in> set (factorint n). 1 < prime)"

lemma prime_factors_prod:
  assumes "factors_number factorint n"
  shows "prod_list (get_prime_factors_with_multiplicity factorint n) = n"
    and "f \<in> set (get_prime_factors_with_multiplicity factorint n) \<Longrightarrow> 1 < f"
proof -
  have "prod_list (concat (map (\<lambda>(prime, count). replicate count prime) ps)) =
      prod_list (map (\<lambda>(prime, count). prime ^ count) ps)" for ps :: "(int \<times> nat) list"
    by (induction ps) auto
  moreover have "prod_list (sort fs) = prod_list fs" for fs :: "int list"
    by (metis mset_sort prod_mset_prod_list)
  ultimately show "prod_list (get_prime_factors_with_multiplicity factorint n) = n"
    using assms by (simp add: get_prime_factors_with_multiplicity_def factors_number_def)
  show "f \<in> set (get_prime_factors_with_multiplicity factorint n) \<Longrightarrow> 1 < f"
    using assms by (auto simp: get_prime_factors_with_multiplicity_def factors_number_def)
qed

lemma prod_list_partition:
  "prod_list (filter P fs) * prod_list (filter (\<lambda>f. \<not> P f) fs) = (prod_list fs :: int)"
  by (induction fs) (auto simp: algebra_simps)

text \<open>The loops only return the start value or a candidate, below the limit.\<close>

lemma grow_block_rule:
  assumes "P cur" and "\<And>e. e \<in> set es \<Longrightarrow> e * low \<le> limit \<Longrightarrow> P (e * low)"
  shows "P (grow_block low limit es cur)"
  using assms by (induction low limit es cur rule: grow_block.induct) auto

lemma last_fitting_in: "last_fitting limit es cur \<in> insert cur (set es)"
  by (induction limit es cur rule: last_fitting.induct) auto

lemma find_subblock_divides:
  assumes "find_subblock m n = Some (h, w)"
  shows "0 < h \<and> 0 < w \<and> h * w \<le> 8 \<and> h dvd m \<and> w dvd n"
proof -
  from assms have "(h, w) \<in> set SUBBLOCK_HW_CHOICES" "m mod h = 0" "n mod w = 0"
    by (auto simp: find_subblock_def find_Some_iff in_set_conv_nth)
  then show ?thesis by (auto simp: SUBBLOCK_HW_CHOICES_def)
qed

text \<open>What the parameters promise.\<close>

definition fits :: "int \<Rightarrow> int \<Rightarrow> int \<Rightarrow> int \<Rightarrow> matmul_params \<Rightarrow> bool" where
  "fits Mt Nt cy cx r \<longleftrightarrow>
     0 < block_h r \<and> block_h r dvd Mt \<and> Mt div block_h r \<le> cy \<and>
     0 < block_w r \<and> block_w r dvd Nt \<and> Nt div block_w r \<le> cx \<and>
     0 < subblock_h r \<and> subblock_h r dvd block_h r \<and>
     0 < subblock_w r \<and> subblock_w r dvd block_w r \<and> subblock_h r * subblock_w r \<le> 8"

lemma too_big_pos:
  "0 < m \<Longrightarrow> 0 < n \<Longrightarrow> too_big Mt Nt cy cx m n = Inr (Mt div m > cy \<or> Nt div n > cx)"
  by (simp add: too_big_def floor_div_def)

lemma with_subblock_fits:
  assumes "0 < m" "m dvd Mt" "Mt div m \<le> cy" "0 < n" "n dvd Nt" "Nt div n \<le> cx"
  shows "with_subblock m n = no_params \<or>
    fits Mt Nt cy cx (with_subblock m n) \<and>
      block_h (with_subblock m n) = m \<and> block_w (with_subblock m n) = n"
  using assms find_subblock_divides [of m n]
  by (auto simp: with_subblock_def fits_def split: option.splits)

lemma search_blocks_fits:
  assumes "\<And>m. m \<in> insert m0 (set ms) \<Longrightarrow> 0 < m \<and> m dvd Mt"
    and "\<And>n. n \<in> set ns \<Longrightarrow> 0 < n \<and> n dvd Nt" and "0 \<le> w"
  shows "\<exists>r. search_blocks Mt Nt cy cx w ms ns m0 = Inr r \<and> (r = no_params \<or> fits Mt Nt cy cx r)"
  using assms(1,2)
proof (induction ns arbitrary: m0)
  case (Cons n ns)
  have n: "0 < n" "n dvd Nt" using Cons.prems(2) by simp_all
  obtain k where k: "get_maximum_block_dim n w = Inr k"
    using maximum_block_dim [OF n(1) assms(3)] by metis
  let ?m = "last_fitting k ms m0"
  have in_m: "?m \<in> insert m0 (set ms)" by (rule last_fitting_in)
  then have m: "0 < ?m" "?m dvd Mt" using Cons.prems(1) by blast+
  have IH: "\<exists>r. search_blocks Mt Nt cy cx w ms ns ?m = Inr r \<and> (r = no_params \<or> fits Mt Nt cy cx r)"
    using Cons.prems in_m by (intro Cons.IH) auto
  show ?case
  proof (cases "Mt div ?m > cy \<or> Nt div n > cx")
    case True
    with IH k m n show ?thesis by (simp add: too_big_pos Let_def)
  next
    case False
    show ?thesis
    proof (cases "find_subblock ?m n")
      case None
      with IH False k m n show ?thesis by (simp add: too_big_pos Let_def)
    next
      case (Some s)
      with find_subblock_divides [of ?m n "fst s" "snd s"] False k m n show ?thesis
        by (simp add: too_big_pos Let_def fits_def case_prod_beta)
    qed
  qed
qed simp

lemma prod_list_large:
  assumes "\<And>f. f \<in> set fs \<Longrightarrow> (1 :: int) < f" and "f \<in> set fs"
  shows "1 < prod_list fs"
proof -
  have "f dvd prod_list fs" using assms(2) by (induction fs) auto
  then have "f \<le> prod_list fs" using factors_prod_pos [OF assms(1)] by (intro zdvd_imp_le) auto
  with assms show ?thesis by fastforce
qed

text \<open>One dimension: the product of the factors beyond the grid, and the candidates that scale it.\<close>

lemma choices_divide:
  assumes "factors_number factorint n"
    and fs: "fs = get_prime_factors_with_multiplicity factorint n"
    and low: "low = prod_list (filter (\<lambda>f. f > c) fs)"
    and es: "es = get_possible_products (filter (\<lambda>f. f \<le> c) fs)"
  shows "0 < low" and "low dvd n" and "\<And>e. e \<in> set es \<Longrightarrow> 0 < e * low \<and> e * low dvd n"
    and "(\<exists>f \<in> set fs. f > c) \<longrightarrow> 1 < low"
proof -
  have gt1: "\<And>f. f \<in> set fs \<Longrightarrow> 1 < f"
    using prime_factors_prod(2) [OF assms(1)] by (simp add: fs)
  have split: "low * prod_list (filter (\<lambda>f. f \<le> c) fs) = n"
    using prod_list_partition [of "\<lambda>f. f > c" fs] prime_factors_prod(1) [OF assms(1)]
    by (simp add: not_less fs low)
  show pos: "0 < low" unfolding low by (rule factors_prod_pos) (use gt1 in auto)
  show "low dvd n" using split by (metis dvd_triv_left)
  show "0 < e * low \<and> e * low dvd n" if "e \<in> set es" for e
    using possible_products_dvd [of "filter (\<lambda>f. f \<le> c) fs" e] that gt1 pos
    by (subst split [symmetric]) (simp add: es mult.commute mult_dvd_mono)
  show "(\<exists>f \<in> set fs. f > c) \<longrightarrow> 1 < low"
    using prod_list_large [of "filter (\<lambda>f. f > c) fs"] gt1 by (auto simp: low)
qed

text \<open>Within the memory budget of 400 tiles, as the maximal block dimension decides it.\<close>

definition in_budget :: "int \<Rightarrow> int \<Rightarrow> int \<Rightarrow> bool" where
  "in_budget w m n \<longleftrightarrow> 2 * w * m + 2 * w * n + m * n \<le> 400"

lemma in_budget_commute: "in_budget w m n \<longleftrightarrow> in_budget w n m"
  by (simp add: in_budget_def ac_simps)

lemma max_dim_budget:
  assumes "0 < a" and "0 \<le> w"
  obtains k where "get_maximum_block_dim a w = Inr k" and "\<And>b. 0 < b \<Longrightarrow> b \<le> k \<longleftrightarrow> in_budget w a b"
  using maximum_block_dim [OF assms] unfolding in_budget_def by metis

lemma grown_block:
  assumes "0 < low" "low dvd n" "low \<le> k" and "\<And>e. e \<in> set es \<Longrightarrow> 0 < e * low \<and> e * low dvd n"
  shows "0 < grow_block low k es low \<and> grow_block low k es low dvd n \<and> grow_block low k es low \<le> k"
  by (rule grow_block_rule [where P = "\<lambda>x. 0 < x \<and> x dvd n \<and> x \<le> k"]) (use assms in blast)+

text \<open>
  Property C28: whenever the factoriser multiplies out, the block parameters are computed without
  error, and they are either the rejection \<open>(0, 0, 0, 0)\<close> or a real distribution: the block sizes
  divide the matrix, the blocks fit the grid of cores, and the subblock divides the block with at
  most eight tiles. When a factor exceeds the grid, the blocks also stay within the memory budget
  of 400 tiles.
\<close>
theorem matmul_params_fit:
  assumes "factors_number factorint Mt" and "factors_number factorint Nt" and w: "0 \<le> w"
  shows "\<exists>r. get_large_matmul_params factorint Mt Nt cy cx w = Inr r \<and>
    (r = no_params \<or> fits Mt Nt cy cx r \<and>
      ((\<exists>f \<in> set (get_prime_factors_with_multiplicity factorint Mt). f > cy) \<or>
       (\<exists>f \<in> set (get_prime_factors_with_multiplicity factorint Nt). f > cx) \<longrightarrow>
       in_budget w (block_h r) (block_w r)))"
proof -
  define ms0 ns0 where "ms0 = get_prime_factors_with_multiplicity factorint Mt"
    and "ns0 = get_prime_factors_with_multiplicity factorint Nt"
  define lowM lowN where "lowM = prod_list (filter (\<lambda>f. f > cy) ms0)"
    and "lowN = prod_list (filter (\<lambda>f. f > cx) ns0)"
  define ms ns where "ms = get_possible_products (filter (\<lambda>f. f \<le> cy) ms0)"
    and "ns = get_possible_products (filter (\<lambda>f. f \<le> cx) ns0)"
  note M = choices_divide [OF assms(1) ms0_def lowM_def ms_def]
  note N = choices_divide [OF assms(2) ns0_def lowN_def ns_def]
  note eq = get_large_matmul_params_def [of factorint Mt Nt cy cx w, unfolded Let_def,
      folded ms0_def ns0_def, folded lowM_def lowN_def ms_def ns_def]
  obtain kn where kn: "get_maximum_block_dim lowM w = Inr kn" "\<And>b. 0 < b \<Longrightarrow> b \<le> kn \<longleftrightarrow> in_budget w lowM b"
    using max_dim_budget [OF M(1) w] by metis
  obtain km where km: "get_maximum_block_dim lowN w = Inr km" "\<And>b. 0 < b \<Longrightarrow> b \<le> km \<longleftrightarrow> in_budget w lowN b"
    using max_dim_budget [OF N(1) w] by metis
  show ?thesis
  proof (cases "lowN \<le> kn")
    case True
    then have "lowM \<le> km" using kn(2) [OF N(1)] km(2) [OF M(1)] by (simp add: in_budget_commute)
    note n = grown_block [OF N(1,2) True N(3)] and m = grown_block [OF M(1,2) this M(3)]
    have bn: "in_budget w lowM (grow_block lowN kn ns lowN)" using n kn(2) by blast
    have bm: "in_budget w (grow_block lowM km ms lowM) lowN" using m km(2) in_budget_commute by blast
    consider "lowM > 1" | "\<not> lowM > 1" "lowN > 1" | (s) "lowM = 1" "lowN = 1" using M(1) N(1) by linarith
    then show ?thesis
    proof cases
      case s
      have "\<exists>r. search_blocks Mt Nt cy cx w ms ns lowM = Inr r \<and> (r = no_params \<or> fits Mt Nt cy cx r)"
        by (rule search_blocks_fits) (use M(1-3) N(3) s w in auto)
      with s kn(1) M(4) N(4) True show ?thesis
        unfolding ms0_def [symmetric] ns0_def [symmetric] eq by auto
    next
      case 1
      with True kn(1) M(1,2) n bn with_subblock_fits [of lowM Mt cy "grow_block lowN kn ns lowN" Nt cx]
      show ?thesis unfolding eq by (auto simp: too_big_pos)
    next
      case 2
      with True kn(1) km(1) N(1,2) m bm with_subblock_fits [of "grow_block lowM km ms lowM" Mt cy lowN Nt cx]
      show ?thesis unfolding eq by (auto simp: too_big_pos)
    qed
  qed (simp add: eq kn(1))
qed

lemma matmul_params_fit_witness:
  "fits 22 8 8 8 \<lparr>block_h = 11, block_w = 8, subblock_h = 1, subblock_w = 8\<rparr>"
proof -
  let ?f = "\<lambda>n :: int. if n = 22 then [(2, 1), (11, 1)] else [(2, 3 :: nat)]"
  have "get_large_matmul_params ?f 22 8 8 8 2 =
      Inr \<lparr>block_h = 11, block_w = 8, subblock_h = 1, subblock_w = 8\<rparr>"
    by code_simp
  moreover have "factors_number ?f 22" "factors_number ?f 8"
    by (simp_all add: factors_number_def)
  ultimately show ?thesis
    using matmul_params_fit [of ?f 22 8 2 8 8] by (auto simp: no_params_def)
qed

text \<open>
  When no factor exceeds the grid, a block height found for one width is kept for the
  next, so the search can return blocks beyond the memory budget: here a one by eight matrix on a
  grid of one by two cores gets blocks of one by four tiles, whose buffers take 504 tiles, while
  nothing fits beside a width of four.
\<close>
lemma stale_block_height:
  "get_maximum_block_dim 4 50 = Inr 0 \<and>
   get_large_matmul_params (\<lambda>n. if n = 8 then [(2, 3)] else []) 1 8 1 2 50 =
     Inr \<lparr>block_h = 1, block_w = 4, subblock_h = 1, subblock_w = 4\<rparr> \<and>
   2 * 50 * 1 + 2 * 50 * 4 + 1 * (4 :: int) > 400"
proof (intro conjI)
  show "get_maximum_block_dim 4 50 = Inr 0" by code_simp
  show "get_large_matmul_params (\<lambda>n. if n = 8 then [(2, 3)] else []) 1 8 1 2 50 =
      Inr \<lparr>block_h = 1, block_w = 4, subblock_h = 1, subblock_w = 4\<rparr>" by code_simp
qed simp

end
