(* ===== verification/Pystring.thy ===== *)
theory Pystring
  imports Prelude "HOL-Library.Sublist"
begin

text \<open>
  The string methods of Python that the compiler driver and the profiling tools use, on
  strings of one-byte characters: containment, \<open>strip\<close>, \<open>split\<close>, \<open>splitlines\<close>, and the leftmost match
  of a pattern given as a function.
\<close>

section \<open>Containment\<close>

text \<open>\<open>sub in s\<close>\<close>

definition contains :: "string \<Rightarrow> string \<Rightarrow> bool" where
  "contains sub s \<longleftrightarrow> list_ex (prefix sub) (suffixes s)"

lemma contains_iff: "contains sub s \<longleftrightarrow> (\<exists>u v. s = u @ sub @ v)"
  by (force simp: contains_def list_ex_iff suffix_def prefix_def)

lemma contains_append: "contains sub s \<Longrightarrow> contains sub (u @ s @ v)"
  unfolding contains_iff by (metis append.assoc)

section \<open>Whitespace\<close>

definition is_space :: "char \<Rightarrow> bool" where
  "is_space c \<longleftrightarrow> (of_char c :: nat) \<in> {9, 10, 11, 12, 13, 28, 29, 30, 31, 32, 133, 160}"

definition lstrip :: "string \<Rightarrow> string" where
  "lstrip s = dropWhile is_space s"

definition rstrip :: "string \<Rightarrow> string" where
  "rstrip s = rev (dropWhile is_space (rev s))"

definition strip :: "string \<Rightarrow> string" where
  "strip s = rstrip (lstrip s)"

lemma lstrip_append: "is_space c \<Longrightarrow> lstrip (c # s) = lstrip s"
  by (simp add: lstrip_def)

lemma rstrip_no_space: "s = [] \<or> \<not> is_space (last s) \<Longrightarrow> rstrip s = s"
  by (cases s rule: rev_cases) (simp_all add: rstrip_def)

text \<open>\<open>s.lower()\<close>\<close>

definition lower_char :: "char \<Rightarrow> char" where
  "lower_char c =
     (let n = of_char c :: nat in
      if 65 \<le> n \<and> n \<le> 90 \<or> 192 \<le> n \<and> n \<le> 222 \<and> n \<noteq> 215 then char_of (n + 32) else c)"

definition lower :: "string \<Rightarrow> string" where
  "lower s = map lower_char s"

section \<open>Lines\<close>

definition newline :: char where
  "newline = CHR 0x0A"

text \<open>\<open>s.split(sep)\<close> for a separator of one character.\<close>

fun split_on :: "char \<Rightarrow> string \<Rightarrow> string list" where
  "split_on sep [] = [[]]"
| "split_on sep (c # cs) =
     (if c = sep then [] # split_on sep cs
      else (case split_on sep cs of [] \<Rightarrow> [[c]] | l # ls \<Rightarrow> (c # l) # ls))"

lemma split_on_not_Nil [simp]: "split_on sep s \<noteq> []"
  by (induction s) (auto split: list.splits)

lemma join_split_on: "join [sep] (split_on sep s) = s"
proof (induction s)
  case (Cons c cs)
  show ?case
  proof (cases "split_on sep cs")
    case (Cons l ls)
    with Cons.IH show ?thesis by (cases ls) auto
  qed simp
qed simp

lemma split_on_no_sep: "sep \<notin> set s \<Longrightarrow> split_on sep s = [s]"
  by (induction s) auto

lemma split_on_part: "l \<in> set (split_on sep s) \<Longrightarrow> \<exists>u v. s = u @ l @ v"
proof (induction s arbitrary: l)
  case (Cons c cs)
  show ?case
  proof (cases "c = sep")
    case True
    with Cons.prems have "l = [] \<or> l \<in> set (split_on sep cs)" by simp
    then show ?thesis
    proof
      assume "l \<in> set (split_on sep cs)"
      then obtain u v where "cs = u @ l @ v" using Cons.IH by blast
      then show ?thesis by (intro exI [of _ "c # u"] exI [of _ v]) simp
    qed (metis append_Nil)
  next
    case False
    obtain p ps where sp: "split_on sep cs = p # ps" by (cases "split_on sep cs") auto
    then have "cs = p @ drop (length p) cs"
      using join_split_on [of sep cs] by (cases ps) auto
    with Cons.prems Cons.IH [of l] False sp show ?thesis
      by (metis append_Cons append_Nil list.set_intros(2) set_ConsD split_on.simps(2) list.simps(5))
  qed
qed simp

lemma split_on_cons_part:
  "sep \<notin> set l \<Longrightarrow> split_on sep (l @ sep # s) = l # split_on sep s"
  by (induction l) auto

lemma split_on_join:
  "ls \<noteq> [] \<Longrightarrow> \<forall>l \<in> set ls. sep \<notin> set l \<Longrightarrow> split_on sep (join [sep] ls) = ls"
proof (induction "[sep]" ls rule: join.induct)
  case (2 l)
  then show ?case by (simp add: split_on_no_sep)
next
  case (3 x y zs)
  then show ?case by (simp add: split_on_cons_part)
qed simp

section \<open>Leftmost match\<close>

text \<open>
  \<open>re.search\<close>: the match of a pattern at the first position where there is one. A pattern is
  given by what it yields at the front of a string.
\<close>

fun search :: "(string \<Rightarrow> 'm option) \<Rightarrow> string \<Rightarrow> 'm option" where
  "search p [] = p []"
| "search p (c # cs) = (case p (c # cs) of None \<Rightarrow> search p cs | Some m \<Rightarrow> Some m)"

lemma search_None: "search p s = None \<longleftrightarrow> (\<forall>t. suffix t s \<longrightarrow> p t = None)"
proof (induction s)
  case (Cons c cs)
  then show ?case by (auto simp: suffix_Cons split: option.splits)
qed simp

lemma search_Some:
  assumes "search p s = Some m"
  shows "\<exists>u t. s = u @ t \<and> p t = Some m"
  using assms
proof (induction s)
  case (Cons c cs)
  show ?case
  proof (cases "p (c # cs)")
    case None
    with Cons.prems have "search p cs = Some m" by simp
    from Cons.IH [OF this] obtain u t where "cs = u @ t" and "p t = Some m" by (elim exE conjE)
    then show ?thesis by (intro exI [of _ "c # u"] exI [of _ t]) simp
  next
    case (Some a)
    with Cons.prems show ?thesis by (intro exI [of _ "[]"] exI [of _ "c # cs"]) simp
  qed
qed simp

lemma search_skip:
  assumes "\<And>u1 u2. u = u1 @ u2 \<Longrightarrow> u2 \<noteq> [] \<Longrightarrow> p (u2 @ t) = None"
  shows "search p (u @ t) = search p t"
  using assms
proof (induction u)
  case (Cons c u)
  have "p ((c # u) @ t) = None" by (rule Cons.prems [of "[]"]) simp_all
  moreover have "search p (u @ t) = search p t"
    by (rule Cons.IH) (metis Cons.prems append_Cons)
  ultimately show ?case by simp
qed simp

section \<open>Decimal literals\<close>

definition is_digit :: "char \<Rightarrow> bool" where
  "is_digit c \<longleftrightarrow> c \<in> set ''0123456789''"

lemma show_nat_all_digits: "\<forall>c \<in> set (show_nat n). is_digit c"
  unfolding is_digit_def using show_nat_digits [of n] by blast

text \<open>A maximal non-empty run of digits in front, and the rest: \<open>\d+\<close>.\<close>

definition take_digits :: "string \<Rightarrow> (nat \<times> string) option" where
  "take_digits s =
     (let ds = takeWhile is_digit s in
      if ds = [] then None else Some (parse_nat ds, dropWhile is_digit s))"

lemma take_digits_show:
  assumes "rest = [] \<or> \<not> is_digit (hd rest)"
  shows "take_digits (show_nat n @ rest) = Some (n, rest)"
proof -
  have "takeWhile is_digit (show_nat n @ rest) = show_nat n"
    "dropWhile is_digit (show_nat n @ rest) = rest"
    using assms show_nat_all_digits [of n]
    by (cases rest; simp add: takeWhile_append2 dropWhile_append2)+
  then show ?thesis using show_nat_not_Nil [of n] by (simp add: take_digits_def Let_def)
qed

lemma digit_not_space: "is_digit c \<Longrightarrow> \<not> is_space c"
  by (auto simp: is_digit_def is_space_def)

lemma show_nat_no_other: "\<not> is_digit c \<Longrightarrow> c \<notin> set (show_nat n)"
  using show_nat_all_digits by blast

lemma strip_no_space: "\<forall>c \<in> set s. \<not> is_space c \<Longrightarrow> strip s = s"
proof -
  assume n: "\<forall>c \<in> set s. \<not> is_space c"
  then have "lstrip s = s" by (cases s) (simp_all add: lstrip_def)
  moreover have "s = [] \<or> \<not> is_space (last s)" using n by (cases s rule: rev_cases) simp_all
  ultimately show ?thesis by (simp add: strip_def rstrip_no_space)
qed

lemma strip_show_int [simp]: "strip (show_int i) = show_int i"
proof (rule strip_no_space)
  have "\<not> is_space (CHR ''-'')" by (simp add: is_space_def)
  then show "\<forall>c \<in> set (show_int i). \<not> is_space c"
    using show_nat_all_digits digit_not_space by (auto simp: show_int_def)
qed

end
