(* ===== verification/Diagnostics.thy ===== *)
theory Diagnostics
  imports Pystring
begin

text \<open>
  Error messages with source context (\<open>python/ttl/diagnostics.py\<close>): where a variable was
  assigned, the Rust-like rendering of an error, the location inside an MLIR message, and the
  compile error of the DSL.

  Reading a source file is a parameter that gives its lines or \<open>None\<close>; whether verbose output is
  on (\<open>TTLANG_VERBOSE_ERRORS\<close>) is a Boolean. A regular expression is the function that matches it
  at the front of a string, used with \<open>search\<close>.

  The lemmas: the search for an assignment finds the last matching line; a location printed by
  MLIR is read back, wherever it stands; the search line by line adds nothing; and the caret stands
  below the column of the error.
\<close>

section \<open>Where a variable was assigned\<close>

text \<open>\<open>re.match(rf"^\s*{re.escape(var_name)}\s*=", line)\<close>\<close>

definition assigns :: "string \<Rightarrow> string \<Rightarrow> bool" where
  "assigns var_name l \<longleftrightarrow>
     list_ex (\<lambda>k. list_all is_space (take k l) \<and> prefix var_name (drop k l) \<and>
         prefix ''='' (lstrip (drop (k + length var_name) l)))
       [0..<Suc (length l)]"

definition find_variable_assignment :: "string list \<Rightarrow> string \<Rightarrow> int \<Rightarrow> int option" where
  "find_variable_assignment source_lines var_name before_line =
     (let start = min (before_line - 1) (int (length source_lines) - 1) in
      map_option (\<lambda>i. int i + 1)
        (find (\<lambda>i. assigns var_name (source_lines ! i)) (rev [0..<nat (start + 1)])))"

section \<open>Rendering\<close>

definition show_lines :: "string list \<Rightarrow> string" where
  "show_lines ls = join [newline] ls"

record source_diagnostic =
  sd_lines :: "string list"
  sd_filename :: string

definition spaces :: "int \<Rightarrow> string" where
  "spaces n = replicate (nat n) (CHR '' '')"

definition source_rows :: "source_diagnostic \<Rightarrow> int \<Rightarrow> int \<Rightarrow> int \<Rightarrow> string list" where
  "source_rows d line col span_length =
     (let gutter = spaces (int (length (show_int line))) in
      if 0 < line \<and> line \<le> int (length (sd_lines d))
      then [show_int line @ '' | '' @ rstrip (sd_lines d ! nat (line - 1)),
            gutter @ '' | '' @ spaces (col - 1) @ replicate (nat (max 1 span_length)) (CHR ''^'')]
      else [])"

definition error_rows ::
    "source_diagnostic \<Rightarrow> int \<Rightarrow> int \<Rightarrow> string \<Rightarrow> string \<Rightarrow> int \<Rightarrow> string option \<Rightarrow> string list" where
  "error_rows d line col message label span_length note =
     (let gutter = spaces (int (length (show_int line))) in
      [label @ '': '' @ message,
       ''  --> '' @ sd_filename d @ '':'' @ show_int line @ '':'' @ show_int col,
       gutter @ '' |'']
      @ source_rows d line col span_length
      @ [gutter @ '' |'']
      @ (case note of None \<Rightarrow> [] | Some n \<Rightarrow> if n = [] then [] else [gutter @ '' = note: '' @ n]))"

definition format_error ::
    "source_diagnostic \<Rightarrow> int \<Rightarrow> int \<Rightarrow> string \<Rightarrow> string \<Rightarrow> int \<Rightarrow> string option \<Rightarrow> string" where
  "format_error d line col message label span_length note =
     show_lines (error_rows d line col message label span_length note)"

text \<open>The first error is labelled as one, the others are notes; a blank line separates them.\<close>

definition format_error_chain ::
    "source_diagnostic \<Rightarrow> (int \<times> int \<times> string \<times> string option) list \<Rightarrow> string" where
  "format_error_chain d errors =
     join [newline, newline]
       (map (\<lambda>(i, line, col, message, note).
          format_error d line col message (if i = 0 then ''error'' else ''note'') 1 note)
        (zip [0..<length errors] errors))"

section \<open>Locations in MLIR messages\<close>

text \<open>\<open>"([^"]+)":(\d+):(\d+)\<close>, and with \<open>loc(\<close> in front.\<close>

definition match_file :: "string \<Rightarrow> (string \<times> string) option" where
  "match_file s =
     (if prefix ''\"'' s
      then (let f = takeWhile (\<lambda>c. c \<noteq> CHR ''\"'') (tl s); r = dropWhile (\<lambda>c. c \<noteq> CHR ''\"'') (tl s)
            in if f \<noteq> [] \<and> prefix ''\":'' r then Some (f, drop 2 r) else None)
      else None)"

definition match_quoted :: "string \<Rightarrow> (string \<times> nat \<times> nat) option" where
  "match_quoted s =
     (case match_file s of
        None \<Rightarrow> None
      | Some (f, r1) \<Rightarrow>
          (case take_digits r1 of
             None \<Rightarrow> None
           | Some (l, r2) \<Rightarrow>
               if prefix '':'' r2
               then (case take_digits (tl r2) of None \<Rightarrow> None | Some (c, _) \<Rightarrow> Some (f, l, c))
               else None))"

definition match_loc :: "string \<Rightarrow> (string \<times> nat \<times> nat) option" where
  "match_loc s = (if prefix ''loc('' s then match_quoted (drop 4 s) else None)"

definition parse_mlir_location :: "string \<Rightarrow> (string \<times> nat \<times> nat) option" where
  "parse_mlir_location s =
     (case search match_loc s of Some m \<Rightarrow> Some m | None \<Rightarrow> search match_quoted s)"

fun first_location :: "string list \<Rightarrow> (string \<times> nat \<times> nat) option" where
  "first_location [] = None"
| "first_location (l # ls) =
     (if contains ''loc('' l
      then (case parse_mlir_location l of Some m \<Rightarrow> Some m | None \<Rightarrow> first_location ls)
      else first_location ls)"

definition extract_location_from_mlir_error :: "string \<Rightarrow> (string \<times> nat \<times> nat) option" where
  "extract_location_from_mlir_error msg =
     (case parse_mlir_location msg of
        Some m \<Rightarrow> Some m
      | None \<Rightarrow> first_location (split_on newline msg))"

section \<open>The core of a message\<close>

text \<open>\<open>(.+?)(?:\n|$)\<close>: the rest of the line, which is not empty.\<close>

definition match_line :: "string \<Rightarrow> string option" where
  "match_line s =
     (let l = takeWhile (\<lambda>c. c \<noteq> newline) s in if l = [] then None else Some l)"

text \<open>\<open>'[^']+' op (.+?)(?:\n|$)\<close>\<close>

definition match_op :: "string \<Rightarrow> string option" where
  "match_op s =
     (if prefix [CHR 0x27] s
      then (let f = takeWhile (\<lambda>c. c \<noteq> CHR 0x27) (tl s); r = dropWhile (\<lambda>c. c \<noteq> CHR 0x27) (tl s)
            in if f \<noteq> [] \<and> prefix (CHR 0x27 # '' op '') r then match_line (drop 5 r) else None)
      else None)"

definition match_after :: "string \<Rightarrow> string \<Rightarrow> string option" where
  "match_after p s = (if prefix p s then match_line (drop (length p) s) else None)"

definition extract_core_message :: "string \<Rightarrow> string" where
  "extract_core_message msg =
     (case search match_op msg of
        Some m \<Rightarrow> strip m
      | None \<Rightarrow>
          (case search (match_after ''error: '') msg of
             Some m \<Rightarrow> strip m
           | None \<Rightarrow> strip (hd (split_on newline msg))))"

definition extract_note :: "string \<Rightarrow> string option" where
  "extract_note msg = map_option strip (search (match_after ''note: '') msg)"

section \<open>The entry points\<close>

definition format_mlir_error ::
    "(string \<Rightarrow> string list option) \<Rightarrow> bool \<Rightarrow> string \<Rightarrow> string list option \<Rightarrow> string option \<Rightarrow> string" where
  "format_mlir_error read_file verbose msg source_lines source_file =
     (case extract_location_from_mlir_error msg of
        None \<Rightarrow> msg
      | Some (filename, line, col) \<Rightarrow>
          let display_file = (case source_file of None \<Rightarrow> filename | Some f \<Rightarrow> if f = [] then filename else f);
              ls = (case source_lines of
                      None \<Rightarrow> read_file filename
                    | Some ls \<Rightarrow> if line > length ls then read_file filename else Some ls)
          in case ls of
               None \<Rightarrow> msg
             | Some ls \<Rightarrow>
                 format_error \<lparr>sd_lines = ls, sd_filename = display_file\<rparr> (int line) (int col)
                   (extract_core_message msg) ''error'' 1 None
                 @ (if verbose then [newline, newline] @ ''MLIR diagnostic:'' @ [newline] @ msg else []))"

text \<open>The class name and the text of the Python exception are arguments.\<close>

definition format_python_error ::
    "(string \<Rightarrow> string list option) \<Rightarrow> string \<Rightarrow> string \<Rightarrow> string \<Rightarrow> int \<Rightarrow> string list option \<Rightarrow> string" where
  "format_python_error read_file class_name text source_file line source_lines =
     (case (case source_lines of None \<Rightarrow> read_file source_file | Some ls \<Rightarrow> Some ls) of
        None \<Rightarrow> class_name @ '': '' @ text
      | Some ls \<Rightarrow>
          format_error \<lparr>sd_lines = ls, sd_filename = source_file\<rparr> line 1 text class_name 1 None)"

record compile_error =
  ce_message :: string
  ce_source_file :: "string option"
  ce_line :: "int option"
  ce_col :: "int option"
  ce_source_lines :: "string list option"

definition col_or_1 :: "int option \<Rightarrow> int" where
  "col_or_1 c = (case c of None \<Rightarrow> 1 | Some n \<Rightarrow> if n = 0 then 1 else n)"

definition format_compile_error :: "(string \<Rightarrow> string list option) \<Rightarrow> compile_error \<Rightarrow> string" where
  "format_compile_error read_file e =
     (case (ce_source_file e, ce_line e) of
        (Some file, Some line) \<Rightarrow>
          (case (case ce_source_lines e of None \<Rightarrow> read_file file | Some ls \<Rightarrow> Some ls) of
             None \<Rightarrow> ''error: '' @ ce_message e @ [newline] @ ''  --> '' @ file @ '':'' @ show_int line
               @ '':'' @ show_int (col_or_1 (ce_col e))
           | Some ls \<Rightarrow>
               format_error \<lparr>sd_lines = ls, sd_filename = file\<rparr> line (col_or_1 (ce_col e))
                 (ce_message e) ''error'' 1 None)
      | _ \<Rightarrow> ce_message e)"

section \<open>The search for an assignment\<close>

lemma find_rev_upt_Some:
  "find P (rev [0..<n]) = Some i \<longleftrightarrow> i < n \<and> P i \<and> (\<forall>j. i < j \<and> j < n \<longrightarrow> \<not> P j)"
proof (induction n)
  case (Suc n)
  show ?case
  proof (cases "P n")
    case True
    then show ?thesis by (auto simp: less_Suc_eq)
  next
    case False
    then show ?thesis using Suc.IH by (auto simp: less_Suc_eq)
  qed
qed simp

lemma find_rev_upt_None: "find P (rev [0..<n]) = None \<longleftrightarrow> (\<forall>i < n. \<not> P i)"
  by (auto simp: find_None_iff)

text \<open>
  The line found is the last one at or before the given line that has the form of an
  assignment to the name, and nothing is found exactly if there is no such line.
\<close>
lemma find_assignment_last:
  "(find_variable_assignment ls v b = Some n \<longleftrightarrow>
      1 \<le> n \<and> n \<le> min b (int (length ls)) \<and> assigns v (ls ! nat (n - 1)) \<and>
      \<not> (\<exists>m. n < m \<and> m \<le> min b (int (length ls)) \<and> assigns v (ls ! nat (m - 1)))) \<and>
   (find_variable_assignment ls v b = None \<longleftrightarrow>
      \<not> (\<exists>m. 1 \<le> m \<and> m \<le> min b (int (length ls)) \<and> assigns v (ls ! nat (m - 1))))"
proof -
  define k where "k = nat (min b (int (length ls)))"
  let ?P = "\<lambda>i. assigns v (ls ! i)"
  have e: "find_variable_assignment ls v b = map_option (\<lambda>i. int i + 1) (find ?P (rev [0..<k]))"
    unfolding find_variable_assignment_def Let_def k_def by (auto simp: min_def)
  have shift: "(\<exists>m. int i < m \<and> m \<le> min b (int (length ls)) \<and> ?P (nat (m - 1))) \<longleftrightarrow>
      (\<exists>j. i \<le> j \<and> j < k \<and> ?P j)" for i
  proof
    assume "\<exists>m. int i < m \<and> m \<le> min b (int (length ls)) \<and> ?P (nat (m - 1))"
    then obtain m where "int i < m" "m \<le> min b (int (length ls))" "?P (nat (m - 1))" by blast
    then show "\<exists>j. i \<le> j \<and> j < k \<and> ?P j"
      by (intro exI [of _ "nat (m - 1)"]) (auto simp: k_def)
  next
    assume "\<exists>j. i \<le> j \<and> j < k \<and> ?P j"
    then obtain j where "i \<le> j" "j < k" "?P j" by blast
    then show "\<exists>m. int i < m \<and> m \<le> min b (int (length ls)) \<and> ?P (nat (m - 1))"
      by (intro exI [of _ "int j + 1"]) (auto simp: k_def)
  qed
  have "find_variable_assignment ls v b = None \<longleftrightarrow> (\<forall>i < k. \<not> ?P i)"
    by (simp add: e find_rev_upt_None)
  also have "\<dots> \<longleftrightarrow> \<not> (\<exists>m. 0 < m \<and> m \<le> min b (int (length ls)) \<and> ?P (nat (m - 1)))"
    using shift [of 0] by auto
  finally have none: "find_variable_assignment ls v b = None \<longleftrightarrow>
      \<not> (\<exists>m. 1 \<le> m \<and> m \<le> min b (int (length ls)) \<and> ?P (nat (m - 1)))"
    by (simp add: zless_imp_add1_zle int_one_le_iff_zero_less)
  have "find_variable_assignment ls v b = Some n \<longleftrightarrow>
      (\<exists>i. n = int i + 1 \<and> i < k \<and> ?P i \<and> \<not> (\<exists>j. Suc i \<le> j \<and> j < k \<and> ?P j))"
    by (auto simp: e find_rev_upt_Some Suc_le_eq)
  also have "\<dots> \<longleftrightarrow> (\<exists>i. n = int i + 1 \<and> i < k \<and> ?P i \<and>
      \<not> (\<exists>m. n < m \<and> m \<le> min b (int (length ls)) \<and> ?P (nat (m - 1))))"
    using shift [of "nat n"] by (auto simp: nat_add_distrib shift [of "Suc _", symmetric] add.commute)
  also have "\<dots> \<longleftrightarrow> 1 \<le> n \<and> n \<le> min b (int (length ls)) \<and> ?P (nat (n - 1)) \<and>
      \<not> (\<exists>m. n < m \<and> m \<le> min b (int (length ls)) \<and> ?P (nat (m - 1)))"
    by (auto simp: k_def intro!: exI [of _ "nat (n - 1)"])
  finally show ?thesis using none by blast
qed

section \<open>Locations are read back\<close>

text \<open>How MLIR prints a location: \<open>loc("file":line:col)\<close>.\<close>

definition show_location :: "string \<Rightarrow> nat \<Rightarrow> nat \<Rightarrow> string" where
  "show_location f l c = ''loc(\"'' @ f @ ''\":'' @ show_nat l @ '':'' @ show_nat c @ '')''"

lemma takeWhile_quote:
  "q \<notin> set f \<Longrightarrow> takeWhile (\<lambda>c. c \<noteq> q) (f @ q # r) = f"
  "q \<notin> set f \<Longrightarrow> dropWhile (\<lambda>c. c \<noteq> q) (f @ q # r) = q # r"
  by (induction f) auto

lemma match_loc_show:
  assumes "f \<noteq> []" and "CHR ''\"'' \<notin> set f"
  shows "match_loc (show_location f l c @ post) = Some (f, l, c)"
proof -
  have d1: "take_digits (show_nat l @ '':'' @ r) = Some (l, '':'' @ r)" for r
    by (rule take_digits_show) (simp add: is_digit_def)
  have d2: "take_digits (show_nat c @ '')'' @ post) = Some (c, '')'' @ post)"
    by (rule take_digits_show) (simp add: is_digit_def)
  show ?thesis
    using assms d1 d2 takeWhile_quote [OF assms(2)]
    by (simp add: match_loc_def match_quoted_def match_file_def show_location_def Let_def)
qed

text \<open>Text without \<open>loc(\<close> in front of a location does not hide it.\<close>

lemma no_early_loc:
  assumes "\<not> contains ''loc('' (u1 @ u2)" and "u2 \<noteq> []"
  shows "match_loc (u2 @ ''loc('' @ t) = None"
proof -
  have n: "\<not> prefix ''loc('' (u2 @ v)" if "length u2 \<ge> 4" for v
  proof
    assume "prefix ''loc('' (u2 @ v)"
    then obtain zs where "u2 @ v = ''loc('' @ zs" by (auto simp: prefix_def)
    then have "take 4 (u2 @ v) = take 4 (''loc('' @ zs)" by simp
    with that have "take 4 u2 = ''loc(''" by simp
    then have "contains ''loc('' (u1 @ u2)"
      unfolding contains_iff by (metis append_take_drop_id)
    with assms(1) show False by simp
  qed
  have "\<not> prefix ''loc('' (u2 @ ''loc('' @ t)"
  proof (cases "length u2 \<ge> 4")
    case False
    with assms(2) consider a where "u2 = [a]" | a b where "u2 = [a, b]" | a b c where "u2 = [a, b, c]"
      by (cases u2; cases "tl u2"; cases "tl (tl u2)"; cases "tl (tl (tl u2))") auto
    then show ?thesis by cases auto
  qed (rule n)
  then show ?thesis by (simp add: match_loc_def)
qed

lemma parse_location_after:
  assumes "f \<noteq> []" and "CHR ''\"'' \<notin> set f" and "\<not> contains ''loc('' pre"
  shows "parse_mlir_location (pre @ show_location f l c @ post) = Some (f, l, c)"
proof -
  have "\<exists>t. show_location f l c @ post = ''loc('' @ t" by (simp add: show_location_def)
  then obtain t where t: "show_location f l c @ post = ''loc('' @ t" ..
  have "search match_loc (pre @ show_location f l c @ post) = search match_loc (show_location f l c @ post)"
    unfolding t by (rule search_skip) (use assms(3) no_early_loc in blast)
  also have "\<dots> = Some (f, l, c)"
    using match_loc_show [OF assms(1,2), of l c post] by (cases "show_location f l c @ post") auto
  finally show ?thesis by (simp add: parse_mlir_location_def)
qed

section \<open>The search line by line adds nothing\<close>

lemma take_digits_extend:
  assumes "take_digits s = Some (n, r)"
  shows "\<exists>n' r'. take_digits (s @ t) = Some (n', r') \<and> (r \<noteq> [] \<longrightarrow> n' = n \<and> r' = r @ t)"
proof -
  from assms have ds: "takeWhile is_digit s \<noteq> []" and r: "r = dropWhile is_digit s"
    and n: "n = parse_nat (takeWhile is_digit s)"
    by (auto simp: take_digits_def Let_def split: if_splits)
  show ?thesis
  proof (cases r)
    case Nil
    with r have "\<forall>c \<in> set s. is_digit c" by (metis dropWhile_eq_Nil_conv)
    then have "takeWhile is_digit (s @ t) = s @ takeWhile is_digit t" by (simp add: takeWhile_append2)
    with ds show ?thesis using Nil by (auto simp: take_digits_def Let_def)
  next
    case (Cons a list)
    then have na: "\<not> (\<forall>c \<in> set s. is_digit c)" using r by (metis dropWhile_eq_Nil_conv list.distinct(1))
    then obtain c where c: "c \<in> set s" "\<not> is_digit c" by blast
    have "takeWhile is_digit (s @ t) = takeWhile is_digit s" "dropWhile is_digit (s @ t) = dropWhile is_digit s @ t"
      using c takeWhile_append1 [of c s is_digit t] dropWhile_append1 [of c s is_digit t] by auto
    with ds n r show ?thesis by (simp add: take_digits_def Let_def)
  qed
qed

lemma found_by_dropWhile: "dropWhile (\<lambda>c. c \<noteq> q) s \<noteq> [] \<Longrightarrow> q \<in> set s"
  by (induction s) (auto split: if_splits)

lemma match_file_extend: "match_file s = Some (f, r) \<Longrightarrow> match_file (s @ t) = Some (f, r @ t)"
proof -
  assume m: "match_file s = Some (f, r)"
  let ?q = "\<lambda>c. c \<noteq> CHR ''\"''"
  from m have p: "prefix ''\"'' s" and f: "f = takeWhile ?q (tl s)" "f \<noteq> []"
    and r: "prefix ''\":'' (dropWhile ?q (tl s))" "r = drop 2 (dropWhile ?q (tl s))"
    unfolding match_file_def Let_def by (simp_all only: option.inject prod.inject option.distinct simp_thms split: if_split_asm)
  have "\<not> prefix ''\":'' []" by simp
  with r(1) have "dropWhile ?q (tl s) \<noteq> []" by metis
  then have "CHR ''\"'' \<in> set (tl s)" by (rule found_by_dropWhile)
  then have "takeWhile ?q (tl s @ t) = takeWhile ?q (tl s)" "dropWhile ?q (tl s @ t) = dropWhile ?q (tl s) @ t"
    using takeWhile_append1 [of "CHR ''\"''" "tl s" ?q t] dropWhile_append1 [of "CHR ''\"''" "tl s" ?q t] by auto
  moreover have "tl (s @ t) = tl s @ t" using p by (cases s) auto
  moreover have "2 \<le> length (dropWhile ?q (tl s))" using r(1) by (auto simp: prefix_def)
  ultimately show ?thesis using p f r by (simp add: match_file_def Let_def)
qed

lemma match_quoted_extend:
  assumes "match_quoted s \<noteq> None"
  shows "match_quoted (s @ t) \<noteq> None"
proof -
  from assms obtain f r1 l r2 c r3 where m: "match_file s = Some (f, r1)" "take_digits r1 = Some (l, r2)"
    "prefix '':'' r2" "take_digits (tl r2) = Some (c, r3)"
    by (auto simp: match_quoted_def split: option.splits if_splits)
  from m(3) have ne: "r2 \<noteq> []" by auto
  then have r2: "take_digits (r1 @ t) = Some (l, r2 @ t)" using take_digits_extend [OF m(2), of t] by auto
  obtain c' r3' where "take_digits (tl r2 @ t) = Some (c', r3')" using take_digits_extend [OF m(4), of t] by blast
  with r2 m(3) ne match_file_extend [OF m(1), of t] show ?thesis by (simp add: match_quoted_def)
qed

lemma extract_location_is_parse_aux:
  "extract_location_from_mlir_error msg = parse_mlir_location msg"
proof -
  have lines: "parse_mlir_location l = None"
    if none: "parse_mlir_location msg = None" and l: "l \<in> set (split_on newline msg)" for l
  proof -
    from none have n: "match_loc t = None" "match_quoted t = None" if "suffix t msg" for t
      using that by (auto simp: parse_mlir_location_def search_None split: option.splits)
    obtain u v where msg: "msg = u @ l @ v" using split_on_part [OF l] by blast
    have q: "match_quoted t = None" if "suffix t l" for t
    proof -
      from that obtain w where "l = w @ t" by (auto simp: suffix_def)
      then have "suffix (t @ v) msg" using msg by (auto simp: suffix_def)
      with n(2) [of "t @ v"] match_quoted_extend [of t v] show ?thesis by blast
    qed
    have "match_loc t = None" if "suffix t l" for t
    proof -
      have "suffix (drop 4 t) l" using that suffix_drop suffix_order.trans by blast
      with q show ?thesis by (simp add: match_loc_def)
    qed
    with q show ?thesis
      unfolding parse_mlir_location_def by (metis option.simps(4) search_None)
  qed
  have "first_location ls = None" if "\<forall>l \<in> set ls. parse_mlir_location l = None" for ls
    using that by (induction ls) auto
  then show ?thesis
    using lines by (auto simp: extract_location_from_mlir_error_def split: option.splits)
qed

text \<open>
  The location of a message is the first one of the whole text; going through its
  lines when there is none finds nothing.
\<close>
lemma extract_location_is_parse:
  "extract_location_from_mlir_error msg = parse_mlir_location msg"
  by (rule extract_location_is_parse_aux)


section \<open>What a reader sees\<close>

lemma no_newline_spaces [simp]: "newline \<notin> set (spaces n)"
  by (simp add: spaces_def newline_def)

lemma newline_in_no_literal:
  "newline \<notin> set ''0123456789''" "newline \<noteq> CHR ''-''" "newline \<noteq> CHR ''>''" "newline \<noteq> CHR '' ''"
  "newline \<noteq> CHR ''|''" "newline \<noteq> CHR '':''" "newline \<noteq> CHR ''^''" "newline \<noteq> CHR ''=''"
  by (simp_all add: newline_def)

lemma no_newline_show [simp]: "newline \<notin> set (show_nat n)" "newline \<notin> set (show_int i)"
proof -
  have n: "newline \<notin> set (show_nat n)" for n
    using show_nat_digits [of n] newline_in_no_literal(1) by blast
  then show "newline \<notin> set (show_nat n)" "newline \<notin> set (show_int i)"
    by (simp_all add: show_int_def newline_in_no_literal)
qed

lemma where_marked:
  "x \<notin> set p \<Longrightarrow> {i. i < length (p @ replicate k x) \<and> (p @ replicate k x) ! i = x} = {length p..<length p + k}"
  by (intro set_eqI) (cases "x \<in> set p", auto simp: nth_append dest: nth_mem)

lemma rstrip_prefix: "\<exists>t. s = rstrip s @ t"
proof -
  have "rev (rev s) = rev (takeWhile is_space (rev s) @ dropWhile is_space (rev s))" by simp
  then show ?thesis unfolding rstrip_def by (metis rev_append rev_rev_ident)
qed

lemma set_rstrip: "set (rstrip s) \<subseteq> set s"
  by (metis Un_iff rstrip_prefix set_append subsetI)

text \<open>
  The text of an error in a line of the source consists of the header, the place, the
  line of the source with its number and a row of carets; the carets stand exactly below the
  columns of the span.
\<close>
lemma carets_below_columns:
  assumes "1 \<le> line" and "line \<le> int (length (sd_lines d))" and "1 \<le> col" and "1 \<le> span"
    and "newline \<notin> set label \<union> set message \<union> set (sd_filename d) \<union> set (sd_lines d ! nat (line - 1))"
  shows "\<exists>gutter src under.
    split_on newline (format_error d line col message label span None) =
      [label @ '': '' @ message,
       ''  --> '' @ sd_filename d @ '':'' @ show_int line @ '':'' @ show_int col,
       gutter @ '' |'', show_int line @ src, gutter @ under, gutter @ '' |''] \<and>
    length gutter = length (show_int line) \<and>
    drop 3 src = rstrip (sd_lines d ! nat (line - 1)) \<and>
    {i. i < length under \<and> under ! i = CHR ''^''} = {nat col + 2..<nat col + 2 + nat span}"
proof -
  let ?g = "spaces (int (length (show_int line)))" and ?l = "rstrip (sd_lines d ! nat (line - 1))"
  let ?u = "'' | '' @ spaces (col - 1) @ replicate (nat span) (CHR ''^'')"
  let ?rows = "[label @ '': '' @ message,
       ''  --> '' @ sd_filename d @ '':'' @ show_int line @ '':'' @ show_int col,
       ?g @ '' |'', show_int line @ '' | '' @ ?l, ?g @ ?u, ?g @ '' |'']"
  have rows: "error_rows d line col message label span None = ?rows"
    using assms(1-4) by (simp add: error_rows_def source_rows_def Let_def max_def)
  have "newline \<notin> set ?l" using assms(5) set_rstrip by blast
  then have "\<forall>l \<in> set ?rows. newline \<notin> set l"
    using assms(5) newline_in_no_literal(2-) by (simp)
  then have "split_on newline (format_error d line col message label span None) = ?rows"
    unfolding format_error_def show_lines_def rows by (intro split_on_join) simp_all
  moreover have pos: "nat col = Suc (nat (col - 1))" using assms(3) by simp
  moreover have "{i. i < length ?u \<and> ?u ! i = CHR ''^''} = {nat col + 2..<nat col + 2 + nat span}"
    using assms(3,4) where_marked [of "CHR ''^''" "'' | '' @ spaces (col - 1)" "nat span"]
    by (simp add: spaces_def pos)
  ultimately show ?thesis
    by (intro exI [of _ ?g] exI [of _ "'' | '' @ ?l"] exI [of _ ?u]) (simp add: spaces_def)
qed

lemma carets_below_columns_witness:
  "\<exists>gutter src under.
    split_on newline (format_error \<lparr>sd_lines = [''a = 1'', ''b = a + c''], sd_filename = ''k.py''\<rparr> 2 9
      ''no c'' ''error'' 1 None) =
      [''error: no c'', ''  --> k.py:2:9'', gutter @ '' |'', ''2'' @ src, gutter @ under, gutter @ '' |''] \<and>
    {i. i < length under \<and> under ! i = CHR ''^''} = {11}"
proof -
  have s: "show_int 2 = ''2''" "show_int 9 = ''9''"
    by (simp_all add: show_int_def show_nat.simps digit_char_def)
  show ?thesis
    using carets_below_columns [of 2 "\<lparr>sd_lines = [''a = 1'', ''b = a + c''], sd_filename = ''k.py''\<rparr>"
      9 1 "''error''" "''no c''"]
    by (force simp: s newline_def)
qed



end
