(* ===== verification/Kernelapi.thy ===== *)
theory Kernelapi
  imports Kernelrun Diagnostics
begin

text \<open>
  The entry point of the compiler, \<open>python/ttl/ttl_api.py\<close>: kernels, the threads they register,
  the compilation of a kernel to a program for the device, the cache of compiled kernels and the
  call of a kernel.

  The MLIR side is a parameter, the record \<open>compiler\<close>: building the operations of a thread from its
  syntax tree (\<open>TTLGenericCompiler\<close>), verifying and lowering the module, and reading the kernels of
  the result. Files, the call stack and environment variables are fields of \<open>world\<close>. Printing is
  left out.

  The module variables are the state \<open>api_state\<close>: the registered threads, the buffer counter, the
  tensor registries and the current grid.
\<close>

section \<open>Arguments\<close>

text \<open>What is read of a \<open>ttnn\<close> tensor; an absent attribute is \<open>None\<close>.\<close>

record tensor_info =
  ti_shape :: "int list"
  ti_dtype :: string
  ti_dtype_name :: "string option"
  ti_buffer_type :: "string option"
  ti_memory_layout :: "string option"
  ti_layout :: "string option"
  ti_device_grid :: "(int \<times> int) option"

text \<open>
  An argument is a device tensor or any other value, each with its identity, the latter with the
  torch data type it has if any; or it is \<open>None\<close>.
\<close>

datatype arg = Tensor nat tensor_info | Host nat "torch_dtype option" | No_arg

definition is_ttnn_tensor :: "bool \<Rightarrow> arg \<Rightarrow> bool" where
  "is_ttnn_tensor can_import a = (can_import \<and> (case a of Tensor _ _ \<Rightarrow> True | _ \<Rightarrow> False))"

type_synonym cache_info = "int list \<times> string \<times> string \<times> string"

definition get_tensor_cache_info :: "tensor_info \<Rightarrow> cache_info" where
  "get_tensor_cache_info t =
     (ti_shape t, ti_dtype t,
      (case ti_buffer_type t of None \<Rightarrow> ''unknown'' | Some b \<Rightarrow> b),
      (case ti_layout t of None \<Rightarrow> ''unknown'' | Some l \<Rightarrow> l))"

type_synonym cache_key = "cache_info list \<times> bool option \<times> bool option"

definition tensor_infos :: "bool \<Rightarrow> arg list \<Rightarrow> tensor_info list" where
  "tensor_infos can_import args =
     concat (map (\<lambda>a. case a of Tensor _ t \<Rightarrow> if can_import then [t] else [] | _ \<Rightarrow> []) args)"

definition make_cache_key :: "bool \<Rightarrow> arg list \<Rightarrow> bool option \<Rightarrow> bool option \<Rightarrow> cache_key" where
  "make_cache_key can_import args fp32_dest_acc_en dst_full_sync_en =
     (map get_tensor_cache_info (tensor_infos can_import args), fp32_dest_acc_en, dst_full_sync_en)"

definition detect_memory_space_from_tensor :: "tensor_info \<Rightarrow> string \<Rightarrow> string" where
  "detect_memory_space_from_tensor t dflt =
     (case ti_buffer_type t of
        None \<Rightarrow> dflt
      | Some b \<Rightarrow> if contains ''L1'' b then ''L1'' else if contains ''DRAM'' b then ''DRAM'' else dflt)"

definition is_interleaved_tensor :: "tensor_info \<Rightarrow> bool" where
  "is_interleaved_tensor t =
     (case ti_memory_layout t of None \<Rightarrow> False | Some l \<Rightarrow> contains ''INTERLEAVED'' l)"

definition has_float32_args :: "bool \<Rightarrow> arg list \<Rightarrow> bool" where
  "has_float32_args can_import args =
     list_ex (\<lambda>a. case a of
         No_arg \<Rightarrow> False
       | Tensor _ t \<Rightarrow> can_import \<and>
           ((case ti_dtype_name t of None \<Rightarrow> False | Some n \<Rightarrow> contains ''float32'' (lower n))
            \<or> contains ''float32'' (lower (ti_dtype t)))
       | Host _ d \<Rightarrow> d = Some Torch_float32) args"

datatype 'k grid = Grid "int list" | Grid_auto | Grid_fn "arg list \<Rightarrow> 'k \<Rightarrow> int list result"

definition device_grids :: "bool \<Rightarrow> arg list \<Rightarrow> (int \<times> int) list" where
  "device_grids can_import args = List.map_filter ti_device_grid (tensor_infos can_import args)"

definition resolve_grid :: "bool \<Rightarrow> 'k grid \<Rightarrow> arg list \<Rightarrow> 'k \<Rightarrow> int list result" where
  "resolve_grid can_import g args kwargs =
     (case g of
        Grid_fn f \<Rightarrow> f args kwargs
      | Grid_auto \<Rightarrow>
          (case device_grids can_import args of
             [] \<Rightarrow> Inl (ValueError ''grid='auto' requires at least one ttnn tensor argument'')
           | (x, y) # _ \<Rightarrow> Inr [x, y])
      | Grid xs \<Rightarrow> Inr xs)"

section \<open>Threads\<close>

text \<open>The cell of a captured variable is empty before the variable is assigned.\<close>

datatype capture = Cap_int int | Cap_tensor nat | Cap_cb circular_buffer | Cap_other string

record 'f thread_fn =
  tf_name :: string
  tf_kernel_type :: string
  tf_source_file :: string
  tf_line_offset :: int
  tf_freevars :: "string list"
  tf_closure :: "capture option list option"
  tf_body :: 'f

record 'f api_state =
  thread_registry :: "'f thread_fn list"
  cb_counter :: nat
  tensor_registry :: registry
  current_grid :: "int list"

definition register_thread :: "'f thread_fn \<Rightarrow> 'f api_state \<Rightarrow> 'f api_state" where
  "register_thread t s = s\<lparr>thread_registry := thread_registry s @ [t]\<rparr>"

definition clear_thread_registry :: "'f api_state \<Rightarrow> 'f api_state" where
  "clear_thread_registry s = s\<lparr>thread_registry := []\<rparr>"

definition get_registered_threads :: "('f api_state, 'f thread_fn list) state_op" where
  "get_registered_threads s = (Inr (thread_registry s), s\<lparr>thread_registry := []\<rparr>)"

text \<open>The first line of the body from the lines of the decorated function; \<open>None\<close> without source.\<close>

fun count_decorators :: "string list \<Rightarrow> nat" where
  "count_decorators [] = 0"
| "count_decorators (l # ls) =
     (if prefix ''@'' (strip l) then 1 + count_decorators ls
      else if prefix ''def '' (strip l) \<or> prefix ''async def '' (strip l) then 0
      else count_decorators ls)"

definition get_source_line_offset :: "(string list \<times> int) option \<Rightarrow> int" where
  "get_source_line_offset src =
     (case src of
        None \<Rightarrow> 0
      | Some (raw_lines, start_lineno) \<Rightarrow> start_lineno + int (count_decorators raw_lines) - 1)"

text \<open>A decorated function: its lines and file may be unknown.\<close>

definition compile_decorator ::
    "string \<Rightarrow> string \<Rightarrow> string option \<Rightarrow> (string list \<times> int) option \<Rightarrow> string list \<Rightarrow>
     capture option list option \<Rightarrow> 'f \<Rightarrow> ('f api_state, 'f thread_fn) state_op" where
  "compile_decorator kernel_type name file src freevars closure body s =
     (let t = \<lparr>tf_name = name, tf_kernel_type = kernel_type,
               tf_source_file = (case file of None \<Rightarrow> ''<unknown>'' | Some f \<Rightarrow> f),
               tf_line_offset = get_source_line_offset src, tf_freevars = freevars,
               tf_closure = closure, tf_body = body\<rparr>
      in (Inr t, register_thread t s))"

definition compute :: "string \<Rightarrow> string option \<Rightarrow> (string list \<times> int) option \<Rightarrow> string list \<Rightarrow>
     capture option list option \<Rightarrow> 'f \<Rightarrow> ('f api_state, 'f thread_fn) state_op" where
  "compute = compile_decorator ''compute''"

definition datamovement :: "string \<Rightarrow> string option \<Rightarrow> (string list \<times> int) option \<Rightarrow> string list \<Rightarrow>
     capture option list option \<Rightarrow> 'f \<Rightarrow> ('f api_state, 'f thread_fn) state_op" where
  "datamovement = compile_decorator ''datamovement''"

definition make_buffer :: "nat \<Rightarrow> int list \<Rightarrow> int option \<Rightarrow> ('f api_state, circular_buffer) state_op" where
  "make_buffer tensor shp factor s =
     (let (r, n) = make_dataflow_buffer_like tensor shp factor (cb_counter s) in (r, s\<lparr>cb_counter := n\<rparr>))"

definition convert :: "capture option \<Rightarrow> capture result" where
  "convert c =
     (case c of
        None \<Rightarrow> Inl (ValueError ''Cell is empty'')
      | Some (Cap_other t) \<Rightarrow> Inl (TypeError ''Unhandled capture for vars of type'')
      | Some v \<Rightarrow> Inr v)"

definition collect_captures :: "'f thread_fn \<Rightarrow> (string \<times> capture) list result" where
  "collect_captures f =
     (case tf_closure f of
        None \<Rightarrow> Inr []
      | Some cells \<Rightarrow>
          rmap (\<lambda>(n, c). rbind (convert c) (\<lambda>v. Inr (n, v))) (zip (tf_freevars f) cells))"

text \<open>
  The dictionary from buffer index to buffer, in insertion order, over the cells of one thread and
  of all threads; and the list that has a place for every index up to the greatest.
\<close>

type_synonym cb_dict = "(nat \<times> circular_buffer) list"

definition collect_cell :: "capture option \<Rightarrow> cb_dict \<Rightarrow> cb_dict result" where
  "collect_cell c d =
     (case c of
        None \<Rightarrow> Inl (ValueError ''Cell is empty'')
      | Some (Cap_cb cb) \<Rightarrow> Inr (AList.update (cb_index cb) cb d)
      | Some _ \<Rightarrow> Inr d)"

definition cells_of :: "'f thread_fn \<Rightarrow> capture option list" where
  "cells_of t = (case tf_closure t of None \<Rightarrow> [] | Some cells \<Rightarrow> cells)"

definition config_list :: "cb_dict \<Rightarrow> circular_buffer option list" where
  "config_list d = (if d = [] then [] else map (map_of d) [0..<Max (set (map fst d)) + 1])"

definition collect_cb_configs :: "'f thread_fn list \<Rightarrow> circular_buffer option list result" where
  "collect_cb_configs ts =
     rbind (rfold (\<lambda>t. rfold collect_cell (cells_of t)) ts []) (\<lambda>d. Inr (config_list d))"

section \<open>From the lowered module to a kernel\<close>

datatype kernel_config = Compute_config "bool option" "bool option" | Reader_config | Writer_config

type_synonym core_ranges = "(int \<times> int) \<times> (int \<times> int)"

record compiled_kernel =
  ck_paths :: "(string \<times> string) list"
  ck_configs :: "kernel_config list"
  ck_arg_specs :: "int list list"
  ck_num_tensors :: nat
  ck_core_ranges :: core_ranges
  ck_tensor_indices :: "int list list"
  ck_cb_configs :: "circular_buffer option list"
  ck_program_hash :: int
  ck_all_source_lines :: "(string \<times> string list) list"
  ck_thread_to_kernel :: "(string \<times> string) list"
  ck_line_offsets :: "(string \<times> int) list"

text \<open>The operations of a thread, with what the driver reads of the object that built them.\<close>

record 't compiled_thread =
  ct_name :: string
  ct_tensor_indices :: "int list"
  ct_source_file :: string
  ct_source_lines :: "string list"
  ct_line_offset :: int
  ct_op :: 't

record 't module_thread =
  mt_op :: 't
  base_cta_index :: int
  crta_indices :: "int list"

record ('f, 't, 'm) compiler =
  front_end :: "'f thread_fn \<Rightarrow> (string \<times> capture) list \<Rightarrow> arg list \<Rightarrow> int list \<Rightarrow> string \<Rightarrow> bool \<Rightarrow> registry \<Rightarrow>
    't compiled_thread result"
  verify_error :: "'t \<Rightarrow> string option"
  run_passes :: "string \<Rightarrow> 't module_thread list \<Rightarrow> string + 'm"
  get_ttkernel_names :: "'m \<Rightarrow> (string \<times> string) list"
  to_cpp :: "'m \<Rightarrow> string \<Rightarrow> string"
  get_arg_spec :: "'m \<Rightarrow> string \<Rightarrow> int list option"
  md5_of :: "string \<Rightarrow> string"

record world =
  w_can_import :: bool
  w_has_device :: bool
  w_user :: string
  w_read_file :: "string \<Rightarrow> string list option"
  w_exists :: "string \<Rightarrow> bool"
  w_call_line :: "string \<Rightarrow> int option"
  w_verbose_errors :: bool
  w_compile_only :: bool
  w_auto_profile :: bool
  w_flow_beside_csv :: "string option"
  w_metal_home :: string

definition kernel_tmp_path :: "world \<Rightarrow> (string \<Rightarrow> string) \<Rightarrow> string \<Rightarrow> string \<Rightarrow> string" where
  "kernel_tmp_path w md5 name source =
     ''/tmp/'' @ w_user w @ ''/ttlang_kernel_'' @ name @ ''_'' @ take 8 (md5 source) @ ''.cpp''"

text \<open>The checks of the tensors, in order: memory space, interleaved, tiled.\<close>

definition check_tensor :: "tensor_info \<Rightarrow> unit result" where
  "check_tensor t =
     rbind (guard (detect_memory_space_from_tensor t ''unknown'' \<in> {''L1'', ''DRAM''})
       (ValueError ''TTNN interop requires L1 or DRAM memory space'')) (\<lambda>_.
     rbind (guard (is_interleaved_tensor t) (ValueError ''TTNN interop requires interleaved tensors'')) (\<lambda>_.
     guard (case ti_layout t of None \<Rightarrow> True | Some l \<Rightarrow> contains ''TILE'' l)
       (ValueError ''TTNN interop requires tilized tensors'')))"

definition check_args :: "bool \<Rightarrow> arg list \<Rightarrow> unit result" where
  "check_args can_import args =
     (let ts = tensor_infos can_import args in
      rbind (guard (\<not> (0 < length ts \<and> length ts < length args))
        (ValueError ''TTNN interop requires all tensors to be the same type'')) (\<lambda>_.
      rbind (rmap check_tensor ts) (\<lambda>_. Inr ())))"

text \<open>The configuration of one kernel and the processors it runs on; \<open>noc\<close> counts the data movement kernels.\<close>

definition compute_config :: "bool option \<Rightarrow> bool option \<Rightarrow> bool \<Rightarrow> kernel_config" where
  "compute_config fp32_dest_acc_en dst_full_sync_en has_f32 =
     Compute_config (case fp32_dest_acc_en of Some b \<Rightarrow> Some b | None \<Rightarrow> if has_f32 then Some True else None)
       dst_full_sync_en"

fun assign_configs ::
    "bool option \<Rightarrow> bool option \<Rightarrow> bool \<Rightarrow> (string \<times> string) list \<Rightarrow> nat \<Rightarrow>
     (string \<times> string) list \<Rightarrow> kernel_config list \<times> (string \<times> string) list" where
  "assign_configs fp32 dst has_f32 [] noc threads = ([], threads)"
| "assign_configs fp32 dst has_f32 ((name, thread_type) # ks) noc threads =
     (let (config, threads', noc') =
        (if thread_type = ''compute''
         then (compute_config fp32 dst has_f32,
               AList.update ''TRISC_2'' name (AList.update ''TRISC_1'' name
                 (AList.update ''TRISC_0'' name threads)), noc)
         else if thread_type = ''noc''
         then (if noc = 0 then (Reader_config, AList.update ''NCRISC'' name threads, noc + 1)
               else (Writer_config, AList.update ''BRISC'' name threads, noc + 1))
         else (Reader_config, threads, noc));
          (configs, result) = assign_configs fp32 dst has_f32 ks noc' threads'
      in (config # configs, result))"

definition compile_ttnn_kernel ::
    "world \<Rightarrow> ('f, 't, 'm) compiler \<Rightarrow> 'm \<Rightarrow> arg list \<Rightarrow> int list \<Rightarrow> int list list \<Rightarrow>
     circular_buffer option list \<Rightarrow> int \<Rightarrow> bool option \<Rightarrow> bool option \<Rightarrow> (string \<times> string list) list \<Rightarrow>
     (string \<times> int) list \<Rightarrow> compiled_kernel option result" where
  "compile_ttnn_kernel w cc m args grid thread_tensor_indices cb_configs program_hash fp32 dst
     all_source_lines line_offsets =
     (let kernel_info = get_ttkernel_names cc m in
      rbind (check_args (w_can_import w) args) (\<lambda>_.
      rbind (guard (length kernel_info = 3)
        (ValueError ''TTNN interop requires exactly 3 kernels (1 compute + 2 data movement)'')) (\<lambda>_.
      if \<not> w_can_import w then Inr None
      else case grid of
        [grid_cols, grid_rows] \<Rightarrow>
          (let (configs, thread_to_kernel) =
                 assign_configs fp32 dst (has_float32_args (w_can_import w) args) kernel_info 0 []
           in Inr (Some \<lparr>
                ck_paths = map (\<lambda>(n, t). (kernel_tmp_path w (md5_of cc) n (to_cpp cc m n), t)) kernel_info,
                ck_configs = configs,
                ck_arg_specs = map (\<lambda>(n, t). case get_arg_spec cc m n of None \<Rightarrow> [] | Some as \<Rightarrow> as) kernel_info,
                ck_num_tensors = length args,
                ck_core_ranges = ((0, 0), (grid_cols - 1, grid_rows - 1)),
                ck_tensor_indices = thread_tensor_indices,
                ck_cb_configs = cb_configs,
                ck_program_hash = program_hash,
                ck_all_source_lines = all_source_lines,
                ck_thread_to_kernel = thread_to_kernel,
                ck_line_offsets = line_offsets\<rparr>))
      | _ \<Rightarrow> Inl (ValueError ''wrong number of values to unpack''))))"

section \<open>Running a compiled kernel\<close>

text \<open>A host tensor has no device to call, and any other value no such attribute.\<close>

definition arg_device_grid :: "arg \<Rightarrow> (int \<times> int) result" where
  "arg_device_grid a =
     (case a of
        Tensor _ t \<Rightarrow> (case ti_device_grid t of Some g \<Rightarrow> Inr g | None \<Rightarrow> Inl (AttributeError ''device''))
      | Host _ (Some _) \<Rightarrow> Inl (TypeError ''device is not callable'')
      | _ \<Rightarrow> Inl (AttributeError ''device''))"

definition tensor_id :: "arg \<Rightarrow> nat result" where
  "tensor_id a = (case a of Tensor i _ \<Rightarrow> Inr i | _ \<Rightarrow> Inl (TypeError ''TensorAccessorArgs''))"

definition kernel_specs :: "compiled_kernel \<Rightarrow> kernel_config kernel_spec list result" where
  "kernel_specs ck =
     rmap (\<lambda>(i, path, thread_type).
         rbind (py_nth (ck_tensor_indices ck) i) (\<lambda>indices.
         rbind (py_nth (ck_configs ck) i) (\<lambda>config.
           Inr \<lparr>ks_path = path, ks_thread_type = thread_type, tensor_indices = indices, ks_config = config\<rparr>)))
       (zip [0..<length (ck_paths ck)] (ck_paths ck))"

definition run_compiled ::
    "core_ranges device_api \<Rightarrow> (nat list \<Rightarrow> (kernel_config, core_ranges) program_descriptor \<Rightarrow> 'o) \<Rightarrow>
     compiled_kernel \<Rightarrow> arg list \<Rightarrow> 'o result" where
  "run_compiled api generic_op ck args =
     rbind (guard (length args = ck_num_tensors ck) (ValueError ''Expected tensors'')) (\<lambda>_.
     rbind (case args of [] \<Rightarrow> Inl (IndexError ''tuple index out of range'') | a # _ \<Rightarrow> Inr a) (\<lambda>first.
     rbind (arg_device_grid first) (\<lambda>device_grid.
     let kernel_grid = grid_of api (ck_core_ranges ck) in
     rbind (guard (\<not> (fst kernel_grid > fst device_grid \<or> snd kernel_grid > snd device_grid))
       (ValueError ''Kernel grid exceeds device compute grid'')) (\<lambda>_.
     rbind (kernel_specs ck) (\<lambda>specs.
     rbind (rmap tensor_id args) (\<lambda>tensors.
       run_kernel_on_device api generic_op specs tensors (ck_cb_configs ck) (ck_core_ranges ck)))))))"

section \<open>Compiling a kernel\<close>

datatype 'v kwval = Kw_grid "int list" | Kw_space string | Kw_tiled bool | Kw_other 'v

type_synonym 'v kwargs = "(string \<times> 'v kwval) list"

record ('f, 'v) kernel_fn =
  kf_name :: string
  kf_params :: "string list"
  kf_source_file :: "string option"
  kf_source :: "(string list \<times> int) option"
  kf_body :: "arg list \<Rightarrow> 'v kwargs \<Rightarrow> ('f api_state, unit) state_op"

definition arg_id :: "arg \<Rightarrow> nat option" where
  "arg_id a = (case a of Tensor i _ \<Rightarrow> Some i | Host i _ \<Rightarrow> Some i | No_arg \<Rightarrow> None)"

definition register_names :: "string list \<Rightarrow> arg list \<Rightarrow> registry \<Rightarrow> registry" where
  "register_names params args r =
     foldl (\<lambda>r (i, name, a).
         case arg_id a of None \<Rightarrow> r | Some t \<Rightarrow> register_tensor_name t name (int i) r)
       r (zip [0..<length args] (zip params args))"

definition track_tensor_sources ::
    "world \<Rightarrow> string list \<Rightarrow> arg list \<Rightarrow> string \<Rightarrow> registry \<Rightarrow> registry" where
  "track_tensor_sources w params args source_file r =
     (if source_file = ''<unknown>'' then r
      else case w_read_file w source_file of
        None \<Rightarrow> r
      | Some source_lines \<Rightarrow>
          (case w_call_line w source_file of
             None \<Rightarrow> r
           | Some call_line \<Rightarrow>
               if call_line = 0 then r
               else foldl (\<lambda>r (name, a).
                   case a of
                     Tensor t _ \<Rightarrow>
                       if w_can_import w
                       then (case find_variable_assignment source_lines name call_line of
                               None \<Rightarrow> r | Some l \<Rightarrow> register_tensor_source t source_file l r)
                       else r
                   | _ \<Rightarrow> r) r (zip params args)))"

definition inject_kwargs :: "string list \<Rightarrow> int list \<Rightarrow> string \<Rightarrow> bool \<Rightarrow> 'v kwargs \<Rightarrow> 'v kwargs" where
  "inject_kwargs params grid memory_space tiled kwargs =
     foldl (\<lambda>d (n, v). if n \<in> set params then AList.update n v d else d) kwargs
       [(''grid'', Kw_grid grid), (''memory_space'', Kw_space memory_space), (''tiled'', Kw_tiled tiled)]"

text \<open>The wrapper that compiles one thread, and what becomes of its errors.\<close>

definition compile_thread ::
    "world \<Rightarrow> ('f, 't, 'm) compiler \<Rightarrow> arg list \<Rightarrow> int list \<Rightarrow> string \<Rightarrow> bool \<Rightarrow> registry \<Rightarrow> 'f thread_fn \<Rightarrow>
     't compiled_thread result" where
  "compile_thread w cc args grid memory_space tiled reg t =
     rbind (collect_captures t) (\<lambda>captures.
     rbind (front_end cc t captures args grid memory_space tiled reg) (\<lambda>ct.
     case verify_error cc (ct_op ct) of
       None \<Rightarrow> Inr ct
     | Some msg \<Rightarrow> Inl (RuntimeError (format_mlir_error (w_read_file w) (w_verbose_errors w) msg
         (Some (ct_source_lines ct)) (Some (tf_source_file t))))))"

definition located_error :: "world \<Rightarrow> string \<Rightarrow> int \<Rightarrow> exn \<Rightarrow> exn" where
  "located_error w source_file line e =
     (case e of
        CompileError m f l c \<Rightarrow>
          CompileError (format_compile_error (w_read_file w)
            \<lparr>ce_message = m, ce_source_file = f, ce_line = l, ce_col = c, ce_source_lines = None\<rparr>) None None None
      | ValueError m \<Rightarrow> ValueError (format_python_error (w_read_file w) ''ValueError'' m source_file line None)
      | TypeError m \<Rightarrow> TypeError (format_python_error (w_read_file w) ''TypeError'' m source_file line None)
      | _ \<Rightarrow> e)"

definition map_error :: "(exn \<Rightarrow> exn) \<Rightarrow> 'a result \<Rightarrow> 'a result" where
  "map_error f r = (case r of Inl e \<Rightarrow> Inl (f e) | Inr a \<Rightarrow> Inr a)"

definition module_thread_of :: "nat \<Rightarrow> 't compiled_thread \<Rightarrow> 't module_thread" where
  "module_thread_of cb_count ct =
     \<lparr>mt_op = ct_op ct, base_cta_index = int cb_count, crta_indices = ct_tensor_indices ct\<rparr>"

definition show_bool :: "bool \<Rightarrow> string" where
  "show_bool b = (if b then ''1'' else ''0'')"

definition compute_config_pass :: "bool option \<Rightarrow> bool option \<Rightarrow> string" where
  "compute_config_pass fp32 dst =
     (let opts = (case fp32 of None \<Rightarrow> [] | Some b \<Rightarrow> [''fp32-dest-acc-en='' @ show_bool b])
               @ (case dst of None \<Rightarrow> [] | Some b \<Rightarrow> [''dst-full-sync-en='' @ show_bool b])
      in if opts = [] then ''func.func(ttl-set-compute-kernel-config)''
         else ''func.func(ttl-set-compute-kernel-config{'' @ join '' '' opts @ ''})'')"

definition flow_graph_pass :: "string \<Rightarrow> string" where
  "flow_graph_pass path = ''ttl-dump-cb-flow-graph{output=\"'' @ path @ ''\"}''"

definition flow_graph_path :: "world \<Rightarrow> string result" where
  "flow_graph_path w =
     (case w_flow_beside_csv w of
        Some p \<Rightarrow> Inr p
      | None \<Rightarrow>
          if w_metal_home w = []
          then Inl (ValueError ''TTLANG_AUTO_PROFILE=1 requires TT_METAL_HOME or TTLANG_PROFILE_CSV to be set'')
          else Inr (w_metal_home w @ ''/generated/profiler/.logs/cb_flow_graph.json''))"

definition pipeline_passes :: "world \<Rightarrow> bool \<Rightarrow> bool option \<Rightarrow> bool option \<Rightarrow> string list result" where
  "pipeline_passes w perf_dump fp32 dst =
     rbind (if w_auto_profile w then rbind (flow_graph_path w) (\<lambda>p. Inr [flow_graph_pass p]) else Inr [])
       (\<lambda>profile_passes. Inr
         ((if w_has_device w then [''ttcore-register-device''] else [])
          @ [''func.func(convert-ttl-to-compute)'', compute_config_pass fp32 dst,
             ''func.func(ttl-assign-dst)'', ''func.func(ttl-insert-tile-regs-sync)'',
             ''func.func(ttl-lower-to-loops)'', ''func.func(ttl-annotate-cb-associations)'']
          @ (if perf_dump then [flow_graph_pass ''/tmp/ttlang_cb_flow_graph.json''] else [])
          @ profile_passes
          @ [''convert-ttl-to-ttkernel'', ''canonicalize'', ''cse'', ''lower-affine'',
             ''ttl-lower-signpost-to-emitc'', ''convert-ttkernel-to-emitc'', ''symbol-dce'']))"

definition pipeline_str :: "string list \<Rightarrow> string" where
  "pipeline_str passes = ''builtin.module('' @ join '','' passes @ '')''"

text \<open>A dictionary from the names of the threads.\<close>

definition by_thread :: "('t compiled_thread \<Rightarrow> 'a) \<Rightarrow> 't compiled_thread list \<Rightarrow> (string \<times> 'a) list" where
  "by_thread f cts = foldl (\<lambda>d ct. AList.update (ct_name ct) (f ct) d) [] cts"

text \<open>From the registered threads to the kernel; the buffer counter is that after the kernel body.\<close>

definition compile_module ::
    "world \<Rightarrow> ('f, 't, 'm) compiler \<Rightarrow> bool \<Rightarrow> string \<Rightarrow> int \<Rightarrow> arg list \<Rightarrow> int list \<Rightarrow> string \<Rightarrow> bool \<Rightarrow> int \<Rightarrow>
     bool option \<Rightarrow> bool option \<Rightarrow> 'f thread_fn list \<Rightarrow> 'f api_state \<Rightarrow> compiled_kernel option result" where
  "compile_module w cc perf_dump source_file line_offset args grid memory_space tiled program_hash fp32 dst ts s =
     rbind (guard (ts \<noteq> []) (ValueError ''No threads found.'')) (\<lambda>_.
     rbind (collect_cb_configs ts) (\<lambda>cb_configs.
     rbind (rmap (\<lambda>t. map_error (located_error w source_file line_offset)
       (compile_thread w cc args grid memory_space tiled (tensor_registry s) t)) ts) (\<lambda>cts.
     rbind (pipeline_passes w perf_dump fp32 dst) (\<lambda>passes.
     let all_source_lines = by_thread ct_source_lines cts; all_source_files = by_thread ct_source_file cts in
     case run_passes cc (pipeline_str passes) (map (module_thread_of (cb_counter s)) cts) of
       Inl msg \<Rightarrow> Inl (RuntimeError (format_mlir_error (w_read_file w) (w_verbose_errors w) msg
         (Some (snd (hd all_source_lines))) (Some (snd (hd all_source_files)))))
     | Inr m \<Rightarrow>
         compile_ttnn_kernel w cc m args grid (map ct_tensor_indices cts) cb_configs program_hash fp32 dst
           all_source_lines (by_thread ct_line_offset cts)))))"

definition compile_kernel ::
    "world \<Rightarrow> ('f, 't, 'm) compiler \<Rightarrow> bool \<Rightarrow> ('f, 'v) kernel_fn \<Rightarrow> arg list \<Rightarrow> 'v kwargs \<Rightarrow> int list \<Rightarrow>
     string \<Rightarrow> bool \<Rightarrow> int \<Rightarrow> bool option \<Rightarrow> bool option \<Rightarrow> ('f api_state, compiled_kernel option) state_op" where
  "compile_kernel w cc perf_dump k args kwargs grid memory_space tiled program_hash fp32 dst =
     (let file = (case kf_source_file k of None \<Rightarrow> ''<unknown>'' | Some f \<Rightarrow> f);
          offset = (case kf_source_file k of None \<Rightarrow> 0 | Some _ \<Rightarrow> get_source_line_offset (kf_source k));
          space = (case tensor_infos (w_can_import w) args of
                     [] \<Rightarrow> memory_space | t # _ \<Rightarrow> detect_memory_space_from_tensor t memory_space)
      in
      sbind (smodify (\<lambda>s. s\<lparr>tensor_registry :=
        track_tensor_sources w (kf_params k) args file (register_names (kf_params k) args (tensor_registry s))\<rparr>)) (\<lambda>_.
      sbind (smodify (\<lambda>s. clear_thread_registry
        (s\<lparr>cb_counter := reset_cb_counter (cb_counter s), current_grid := grid\<rparr>))) (\<lambda>_.
      sbind (kf_body k args (inject_kwargs (kf_params k) grid space tiled kwargs)) (\<lambda>_.
      sbind get_registered_threads (\<lambda>ts.
      slift (compile_module w cc perf_dump file offset args grid space tiled program_hash fp32 dst ts))))))"

section \<open>The decorator and the call\<close>

text \<open>
  The number of dimensions of an indexing map is computed as the list of its parameter names, which
  is then compared with a number; both are values of Python.
\<close>

datatype py_dims = Dims_list "string list" | Dims_int nat

definition check_dims :: "string list \<Rightarrow> string list \<Rightarrow> unit result" where
  "check_dims params iterator_types =
     guard (Dims_list params = Dims_int (length iterator_types))
       (ValueError ''Number of dimensions must match iterator_types length'')"

definition SUPPORTED_MEMORY_SPACES :: "string list" where
  "SUPPORTED_MEMORY_SPACES = [''L1'', ''DRAM'']"

record 'v kernel_options =
  ko_grid :: "'v kwargs grid option"
  ko_indexing_maps :: "string list list option"
  ko_iterator_types :: "string list option"
  ko_num_outs :: int
  ko_memory_space :: string
  ko_tiled :: "bool option"
  ko_fp32 :: "bool option"
  ko_dst :: "bool option"

text \<open>The value of \<open>tiled\<close> is \<open>None\<close> if it is not a Boolean. The outcome is the grid.\<close>

definition check_options :: "'v kernel_options \<Rightarrow> ('v kwargs grid \<times> bool) result" where
  "check_options ko =
     (case ko_grid ko of
        None \<Rightarrow> Inl (ValueError ''grid parameter is required'')
      | Some g \<Rightarrow>
          rbind (guard (ko_num_outs ko = 1) (ValueError ''num_outs must be 1'')) (\<lambda>_.
          rbind (guard (ko_memory_space ko \<in> set SUPPORTED_MEMORY_SPACES) (ValueError ''Invalid memory_space'')) (\<lambda>_.
          case ko_tiled ko of
            None \<Rightarrow> Inl (TypeError ''tiled must be a boolean'')
          | Some tiled \<Rightarrow>
              rbind (guard (\<not> (ko_iterator_types ko \<noteq> None \<and> ko_indexing_maps ko = None))
                (ValueError ''indexing_maps must be set when iterator_types is set'')) (\<lambda>_.
              rbind (case ko_iterator_types ko of
                  None \<Rightarrow> Inr []
                | Some its \<Rightarrow>
                    rmap (\<lambda>m. check_dims m its) (case ko_indexing_maps ko of None \<Rightarrow> [] | Some ms \<Rightarrow> ms)) (\<lambda>_.
              Inr (g, tiled))))))"

text \<open>What a decorated kernel keeps: its options, checked, its identifier and its function.\<close>

record ('f, 'v) decorated =
  dk_grid :: "'v kwargs grid"
  dk_tiled :: bool
  dk_options :: "'v kernel_options"
  dk_kernel_id :: int
  dk_fn :: "('f, 'v) kernel_fn"

definition pykernel_gen :: "'v kernel_options \<Rightarrow> int \<Rightarrow> ('f, 'v) kernel_fn \<Rightarrow> ('f, 'v) decorated result" where
  "pykernel_gen ko kernel_id f =
     rbind (check_options ko) (\<lambda>(g, tiled).
       Inr \<lparr>dk_grid = g, dk_tiled = tiled, dk_options = ko, dk_kernel_id = kernel_id, dk_fn = f\<rparr>)"

record 'f driver_state =
  ds_api :: "'f api_state"
  ds_cache :: "(cache_key \<times> compiled_kernel) list"
  ds_perf_dump :: bool

text \<open>The performance dump reads files the profiler and the compiler have written.\<close>

definition run_perf_dump :: "world \<Rightarrow> (string \<Rightarrow> string \<Rightarrow> unit result) \<Rightarrow> string \<Rightarrow> unit result" where
  "run_perf_dump w perf_summary_run kernel_name =
     rbind (guard (w_metal_home w \<noteq> []) (ValueError ''TTLANG_PERF_DUMP=1 requires TT_METAL_HOME to be set'')) (\<lambda>_.
     let logs_path = w_metal_home w @ ''/generated/profiler/.logs'' in
     rbind (guard (w_exists w logs_path) (ValueError ''Profiler logs directory not found'')) (\<lambda>_.
     rbind (perf_summary_run logs_path kernel_name) (\<lambda>_.
     guard (w_exists w ''/tmp/ttlang_cb_flow_graph.json'') (ValueError ''CB flow graph not found''))))"

definition dispatch_key :: "world \<Rightarrow> ('f, 'v) decorated \<Rightarrow> arg list \<Rightarrow> cache_key" where
  "dispatch_key w dk args =
     make_cache_key (w_can_import w) args (ko_fp32 (dk_options dk)) (ko_dst (dk_options dk))"

definition find_or_compile ::
    "world \<Rightarrow> ('f, 't, 'm) compiler \<Rightarrow> (int \<times> cache_key \<Rightarrow> int) \<Rightarrow> ('f, 'v) decorated \<Rightarrow> arg list \<Rightarrow> 'v kwargs \<Rightarrow>
     int list \<Rightarrow> ('f driver_state, compiled_kernel option) state_op" where
  "find_or_compile w cc hash dk args kwargs grid s =
     (let key = dispatch_key w dk args in
      case map_of (ds_cache s) key of
        Some ck \<Rightarrow> (Inr (Some ck), s)
      | None \<Rightarrow>
          (let (r, a) = compile_kernel w cc (ds_perf_dump s) (dk_fn dk) args kwargs grid
                 (ko_memory_space (dk_options dk)) (dk_tiled dk) (hash (dk_kernel_id dk, key))
                 (ko_fp32 (dk_options dk)) (ko_dst (dk_options dk)) (ds_api s)
           in (r, s\<lparr>ds_api := a,
                     ds_cache := (case r of Inr (Some ck) \<Rightarrow> AList.update key ck (ds_cache s) | _ \<Rightarrow> ds_cache s)\<rparr>)))"

definition kernel_call ::
    "world \<Rightarrow> ('f, 't, 'm) compiler \<Rightarrow> (int \<times> cache_key \<Rightarrow> int) \<Rightarrow> core_ranges device_api \<Rightarrow>
     (nat list \<Rightarrow> (kernel_config, core_ranges) program_descriptor \<Rightarrow> 'o) \<Rightarrow> (string \<Rightarrow> string \<Rightarrow> unit result) \<Rightarrow>
     ('f, 'v) decorated \<Rightarrow> arg list \<Rightarrow> 'v kwargs \<Rightarrow> ('f driver_state, 'o option) state_op" where
  "kernel_call w cc hash api generic_op perf_summary_run dk args kwargs =
     sbind (slift (\<lambda>_. resolve_grid (w_can_import w) (dk_grid dk) args kwargs)) (\<lambda>grid.
     sbind (find_or_compile w cc hash dk args kwargs grid) (\<lambda>compiled.
     case compiled of
       None \<Rightarrow> sreturn None
     | Some ck \<Rightarrow>
         if w_compile_only w then sreturn None
         else
           sbind (slift (\<lambda>_. run_compiled api generic_op ck args)) (\<lambda>res.
           sbind (\<lambda>s. if ds_perf_dump s
             then sbind (slift (\<lambda>_. run_perf_dump w perf_summary_run (kf_name (dk_fn dk))))
                    (\<lambda>_. smodify (\<lambda>s. s\<lparr>ds_perf_dump := False\<rparr>)) s
             else (Inr (), s)) (\<lambda>_.
           sreturn (Some res)))))"

section \<open>The program container\<close>

record ('f, 'v) program =
  pr_threads :: "'f thread_fn list"
  pr_args :: "arg list"
  pr_kwargs :: "'v kwargs"

definition program_call :: "('f, 'v) program \<Rightarrow> arg list \<Rightarrow> 'v kwargs \<Rightarrow> ('f, 'v) program" where
  "program_call p args kwargs =
     \<lparr>pr_threads = pr_threads p, pr_args = args,
      pr_kwargs = foldl (\<lambda>d (n, v). AList.update n v d) (pr_kwargs p) kwargs\<rparr>"

section \<open>Options\<close>

text \<open>
  A kernel is accepted exactly if a grid is given, it has one output, a supported memory
  space and a Boolean \<open>tiled\<close>, and no iterator types are given, or no indexing map to compare them
  with: with both, the comparison of a list with a number always fails.
\<close>
lemma options_accepted:
  "(\<exists>r. check_options ko = Inr r) \<longleftrightarrow>
     ko_grid ko \<noteq> None \<and> ko_num_outs ko = 1 \<and> ko_memory_space ko \<in> {''L1'', ''DRAM''} \<and> ko_tiled ko \<noteq> None \<and>
     (ko_iterator_types ko = None \<or> ko_indexing_maps ko = Some [])"
proof -
  have rej: "(\<exists>r. rmap (\<lambda>m. check_dims m its) ms = Inr r) \<longleftrightarrow> ms = []" for its ms
    by (cases ms) (simp_all add: check_dims_def)
  show ?thesis
    using rej
    by (auto simp: check_options_def SUPPORTED_MEMORY_SPACES_def rbind_eq_Inr split: option.splits)
qed

section \<open>The kernels of a program and where they run\<close>

lemma check_args_Inr:
  "check_args c args = Inr u \<longleftrightarrow>
     (tensor_infos c args = [] \<or> length args \<le> length (tensor_infos c args)) \<and>
     (\<forall>t \<in> set (tensor_infos c args).
        detect_memory_space_from_tensor t ''unknown'' \<in> {''L1'', ''DRAM''} \<and> is_interleaved_tensor t \<and>
        (case ti_layout t of None \<Rightarrow> True | Some l \<Rightarrow> contains ''TILE'' l))"
proof -
  have ok: "(\<exists>y. check_tensor t = Inr y) \<longleftrightarrow> detect_memory_space_from_tensor t ''unknown'' \<in> {''L1'', ''DRAM''} \<and>
      is_interleaved_tensor t \<and> (case ti_layout t of None \<Rightarrow> True | Some l \<Rightarrow> contains ''TILE'' l)" for t
    by (auto simp: check_tensor_def rbind_eq_Inr)
  have "check_args c args = Inr u \<longleftrightarrow>
      \<not> (0 < length (tensor_infos c args) \<and> length (tensor_infos c args) < length args) \<and>
      (\<exists>ys. rmap check_tensor (tensor_infos c args) = Inr ys)"
    by (auto simp: check_args_def Let_def rbind_eq_Inr)
  then show ?thesis unfolding rmap_ex_iff ok by auto
qed

text \<open>The configurations depend on the kinds of the kernels only.\<close>

fun configs_of :: "kernel_config \<Rightarrow> string list \<Rightarrow> nat \<Rightarrow> kernel_config list" where
  "configs_of c [] noc = []"
| "configs_of c (t # ts) noc =
     (if t = ''compute'' then c # configs_of c ts noc
      else if t = ''noc'' then (if noc = 0 then Reader_config else Writer_config) # configs_of c ts (Suc noc)
      else Reader_config # configs_of c ts noc)"

lemma assign_configs_kinds:
  "fst (assign_configs f d h ks n ts) = configs_of (compute_config f d h) (map snd ks) n"
  by (induction ks arbitrary: n ts) (auto simp: Let_def case_prod_beta)

lemma length_configs_of [simp]: "length (configs_of c ts n) = length ts"
  by (induction c ts n rule: configs_of.induct) auto

lemma three_configs:
  "(a = ''noc'' \<and> b = ''noc'' \<and> configs_of k [a, b, c] 0 ! 0 = configs_of k [a, b, c] 0 ! 1 \<or>
    a = ''noc'' \<and> c = ''noc'' \<and> configs_of k [a, b, c] 0 ! 0 = configs_of k [a, b, c] 0 ! 2 \<or>
    b = ''noc'' \<and> c = ''noc'' \<and> configs_of k [a, b, c] 0 ! 1 = configs_of k [a, b, c] 0 ! 2) \<longleftrightarrow>
   a = ''noc'' \<and> b = ''noc'' \<and> c = ''noc''"
  by (cases "a = ''noc''"; cases "b = ''noc''"; cases "c = ''noc''") simp_all


text \<open>A compiler whose output is fixed, for the instances below.\<close>

definition demo_world :: world where
  "demo_world = \<lparr>w_can_import = True, w_has_device = False, w_user = ''u'', w_read_file = (\<lambda>_. None),
     w_exists = (\<lambda>_. True), w_call_line = (\<lambda>_. None), w_verbose_errors = False, w_compile_only = False,
     w_auto_profile = False, w_flow_beside_csv = None, w_metal_home = ''/m''\<rparr>"

definition demo_compiler :: "(string \<times> string) list \<Rightarrow> (int list, int list, unit) compiler" where
  "demo_compiler names =
     \<lparr>front_end = (\<lambda>t caps args grid space tiled reg.
        Inr \<lparr>ct_name = tf_name t, ct_tensor_indices = tf_body t, ct_source_file = tf_source_file t,
             ct_source_lines = [], ct_line_offset = 0, ct_op = tf_body t\<rparr>),
      verify_error = (\<lambda>_. None), run_passes = (\<lambda>_ _. Inr ()), get_ttkernel_names = (\<lambda>_. names),
      to_cpp = (\<lambda>_ n. n), get_arg_spec = (\<lambda>_ _. None), md5_of = (\<lambda>s. ''0123456789'')\<rparr>"

definition demo_tensor :: tensor_info where
  "demo_tensor = \<lparr>ti_shape = [64, 64], ti_dtype = ''DataType.BFLOAT16'', ti_dtype_name = Some ''BFLOAT16'',
     ti_buffer_type = Some ''BufferType.L1'', ti_memory_layout = Some ''INTERLEAVED'',
     ti_layout = Some ''Layout.TILE'', ti_device_grid = Some (8, 8)\<rparr>"

lemmas demo_defs = demo_world_def demo_compiler_def demo_tensor_def


section \<open>Buffer indices and accessor arguments\<close>

definition captured :: "'f thread_fn list \<Rightarrow> circular_buffer set" where
  "captured ts = {cb. \<exists>t \<in> set ts. Some (Cap_cb cb) \<in> set (cells_of t)}"

lemma rfold_concat: "rfold (\<lambda>t. rfold g (h t)) ts d = rfold g (concat (map h ts)) d"
proof (induction ts arbitrary: d)
  case (Cons t ts)
  have "rfold (\<lambda>t. rfold g (h t)) ts = rfold g (concat (map h ts))" using Cons.IH by blast
  then show ?case by (simp add: rfold_append)
qed simp

lemma collect_keys:
  "rfold collect_cell cells d = Inr d' \<Longrightarrow>
     fst ` set d' = fst ` set d \<union> {cb_index cb | cb. Some (Cap_cb cb) \<in> set cells}"
proof (induction cells arbitrary: d)
  case (Cons c cells)
  then obtain d1 where d1: "collect_cell c d = Inr d1" and d': "rfold collect_cell cells d1 = Inr d'"
    by (auto simp: rbind_eq_Inr)
  have "fst ` set d1 = fst ` set d \<union> {cb_index cb | cb. Some (Cap_cb cb) = c}"
    using d1 dom_update [of _ _ d]
    by (cases c; cases "the c") (simp_all add: collect_cell_def, metis)
  then show ?case using Cons.IH [OF d'] by auto
qed simp

lemma collect_cb_configs_length:
  assumes "collect_cb_configs ts = Inr cfgs"
  shows "length cfgs = (if captured ts = {} then 0 else Max (cb_index ` captured ts) + 1) \<and>
    finite (captured ts)"
proof -
  from assms obtain d where d: "rfold (\<lambda>t. rfold collect_cell (cells_of t)) ts [] = Inr d"
    and cfgs: "cfgs = config_list d"
    by (auto simp: collect_cb_configs_def rbind_eq_Inr)
  have keys: "fst ` set d = cb_index ` captured ts"
    using d collect_keys unfolding rfold_concat by (force simp: captured_def)
  have "captured ts \<subseteq> {cb. Some (Cap_cb cb) \<in> set (concat (map cells_of ts))}" by (auto simp: captured_def)
  moreover have "finite {cb. Some (Cap_cb cb) \<in> set (concat (map cells_of ts))}"
    by (rule finite_inverse_image [of "set (concat (map cells_of ts))" "\<lambda>cb. Some (Cap_cb cb)", simplified vimage_def])
      (auto simp: inj_on_def)
  ultimately have "finite (captured ts)" by (rule finite_subset)
  moreover have "d = [] \<longleftrightarrow> captured ts = {}" using keys by auto
  ultimately show ?thesis using keys by (simp add: cfgs config_list_def)
qed

lemma compile_ttnn_kernel_cbs:
  "compile_ttnn_kernel w cc m args grid idx cfgs h fp32 dst src offs = Inr (Some ck) \<Longrightarrow> ck_cb_configs ck = cfgs"
  by (auto simp: compile_ttnn_kernel_def rbind_eq_Inr Let_def case_prod_beta split: if_splits list.splits)

lemma compile_module_Inr:
  assumes "compile_module w cc perf file off args grid space tiled h fp32 dst ts s = Inr (Some ck)"
  shows "\<exists>cts passes m. ts \<noteq> [] \<and> collect_cb_configs ts = Inr (ck_cb_configs ck) \<and> length cts = length ts \<and>
    run_passes cc (pipeline_str passes) (map (module_thread_of (cb_counter s)) cts) = Inr m"
proof -
  from assms obtain cfgs cts passes where e: "ts \<noteq> []" "collect_cb_configs ts = Inr cfgs" "length cts = length ts"
    and r: "(case run_passes cc (pipeline_str passes) (map (module_thread_of (cb_counter s)) cts) of
       Inl msg \<Rightarrow> Inl (RuntimeError (format_mlir_error (w_read_file w) (w_verbose_errors w) msg
         (Some (snd (hd (by_thread ct_source_lines cts)))) (Some (snd (hd (by_thread ct_source_file cts))))))
     | Inr m \<Rightarrow>
         compile_ttnn_kernel w cc m args grid (map ct_tensor_indices cts) cfgs h fp32 dst
           (by_thread ct_source_lines cts) (by_thread ct_line_offset cts)) = Inr (Some ck)"
    unfolding compile_module_def Let_def by (elim rbind_InrE) (auto dest: rmap_length)
  then show ?thesis
    by (cases "run_passes cc (pipeline_str passes) (map (module_thread_of (cb_counter s)) cts)")
      (auto dest: compile_ttnn_kernel_cbs)
qed

text \<open>The list of buffers is as long as the number of buffers created exactly if the last one is captured.\<close>

lemma configs_complete:
  assumes "collect_cb_configs ts = Inr cfgs" and "\<forall>cb \<in> captured ts. cb_index cb < n"
  shows "length cfgs \<le> n \<and> (length cfgs = n \<longleftrightarrow> n = 0 \<or> n - 1 \<in> cb_index ` captured ts)"
proof -
  have len: "length cfgs = (if captured ts = {} then 0 else Max (cb_index ` captured ts) + 1)"
    and fin: "finite (captured ts)"
    using collect_cb_configs_length [OF assms(1)] by blast+
  have le: "length cfgs \<le> n"
    using assms(2) fin by (simp add: len Max_less_iff Suc_le_eq)
  have eq: "length cfgs = n \<longleftrightarrow> n = 0 \<or> n - 1 \<in> cb_index ` captured ts"
  proof (cases "captured ts = {}")
    case False
    define M where "M = Max (cb_index ` captured ts)"
    from False fin have "M \<in> cb_index ` captured ts" unfolding M_def by (intro Max_in) auto
    moreover have "k \<le> M" if "k \<in> cb_index ` captured ts" for k using that fin by (simp add: M_def)
    moreover have l: "length cfgs = Suc M" using len False by (simp add: M_def)
    ultimately have M: "M \<in> cb_index ` captured ts" "\<And>k. k \<in> cb_index ` captured ts \<Longrightarrow> k \<le> M"
      and l: "length cfgs = Suc M" by blast+
    have "n - 1 \<in> cb_index ` captured ts \<longleftrightarrow> n - 1 = M"
    proof
      assume "n - 1 \<in> cb_index ` captured ts"
      then have "n - 1 \<le> M" by (rule M(2))
      with le l show "n - 1 = M" by arith
    qed (simp add: M(1))
    then show ?thesis using le l by linarith
  next
    case True
    then have "length cfgs = 0" by (simp add: len)
    with True show ?thesis by auto
  qed
  show ?thesis using le eq by blast
qed

text \<open>
  Property C31: in a compiled kernel whose threads capture buffers of its body, the compile-time
  arguments of a data movement kernel have the tensor accessor arguments at the index that its
  operations were given, exactly if there are none, no buffer was created, or the last buffer that
  was created is captured by some thread. Otherwise they stand too early, because the operations
  count the buffers created and the arguments only go up to the last one captured.
\<close>
theorem accessor_args_line_up:
  assumes "compile_module w cc perf file off args grid space tiled h fp32 dst ts s = Inr (Some ck)"
    and "\<forall>cb \<in> captured ts. cb_index cb < cb_counter s"
    and "build_kernel_descriptor api tensors acc cr cols rows (length (ck_cb_configs ck)) spec = Inr kd"
    and "ks_thread_type spec \<noteq> ''compute''"
  shows "\<exists>passes mts m. run_passes cc passes mts = Inr m \<and> mts \<noteq> [] \<and>
    (\<forall>mt \<in> set mts. drop (nat (base_cta_index mt)) (compile_time_args kd) = acc \<longleftrightarrow>
       acc = [] \<or> cb_counter s = 0 \<or> cb_counter s - 1 \<in> cb_index ` captured ts)"
proof -
  from compile_module_Inr [OF assms(1)] obtain cts passes m cfgs where
    ts: "ts \<noteq> []" and cfgs: "collect_cb_configs ts = Inr cfgs" and cts: "length cts = length ts"
    and m: "run_passes cc (pipeline_str passes) (map (module_thread_of (cb_counter s)) cts) = Inr m"
    and ck: "ck_cb_configs ck = cfgs"
    by blast
  have args: "compile_time_args kd = map int [0..<length cfgs] @ acc"
    using assms(3,4) by (auto simp: build_kernel_descriptor_def rbind_eq_Inr ck)
  let ?n = "cb_counter s"
  have le: "length cfgs \<le> ?n" and eq: "length cfgs = ?n \<longleftrightarrow> ?n = 0 \<or> ?n - 1 \<in> cb_index ` captured ts"
    using configs_complete [OF cfgs assms(2)] by blast+
  have "drop ?n (compile_time_args kd) = acc \<longleftrightarrow> acc = [] \<or> length cfgs = ?n"
  proof -
    have d: "drop ?n (compile_time_args kd) = drop (?n - length cfgs) acc" using le by (simp add: args)
    have e: "drop k acc = acc \<longleftrightarrow> acc = [] \<or> k = 0" for k
    proof
      assume "drop k acc = acc"
      then have "length (drop k acc) = length acc" by (rule arg_cong)
      then show "acc = [] \<or> k = 0" by (cases acc) auto
    qed auto
    have "?n - length cfgs = 0 \<longleftrightarrow> length cfgs = ?n" using le by linarith
    then show ?thesis unfolding d e by (rule arg_cong)
  qed
  then have "\<forall>mt \<in> set (map (module_thread_of ?n) cts). drop (nat (base_cta_index mt)) (compile_time_args kd) = acc \<longleftrightarrow>
      acc = [] \<or> ?n = 0 \<or> ?n - 1 \<in> cb_index ` captured ts"
    by (simp add: module_thread_of_def eq)
  moreover have "map (module_thread_of ?n) cts \<noteq> []" using ts cts by auto
  ultimately show ?thesis using m by blast
qed


text \<open>A kernel of three threads over two buffers, the second of which no thread uses.\<close>

definition demo_thread :: "string \<Rightarrow> string \<Rightarrow> int list \<Rightarrow> capture list \<Rightarrow> int list thread_fn" where
  "demo_thread name kind idx caps =
     \<lparr>tf_name = name, tf_kernel_type = kind, tf_source_file = ''k.py'', tf_line_offset = 0, tf_freevars = [],
      tf_closure = Some (map Some caps), tf_body = idx\<rparr>"

definition demo_threads :: "int list thread_fn list" where
  "demo_threads =
     [demo_thread ''c'' ''compute'' [] [Cap_cb (demo_cb 0 0)],
      demo_thread ''r'' ''datamovement'' [0] [Cap_cb (demo_cb 0 0), Cap_tensor 0],
      demo_thread ''w'' ''datamovement'' [0] [Cap_int 3]]"

definition demo_names :: "(string \<times> string) list" where
  "demo_names = [(''c'', ''compute''), (''r'', ''noc''), (''w'', ''noc'')]"

definition demo_state :: "nat \<Rightarrow> int list api_state" where
  "demo_state n = \<lparr>thread_registry = [], cb_counter = n,
     tensor_registry = \<lparr>name_registry = Map.empty, index_registry = Map.empty, source_registry = Map.empty\<rparr>,
     current_grid = [1, 1]\<rparr>"

theorem accessor_args_line_up_witness:
  "\<exists>ck kd passes mts m.
     compile_module demo_world (demo_compiler demo_names) False ''k.py'' 0 [Tensor 0 demo_tensor] [1, 1] ''L1'' True 0
       None None demo_threads (demo_state 2) = Inr (Some ck) \<and>
     build_kernel_descriptor demo_api [0] [100, 7] (0, 0) 1 1 (length (ck_cb_configs ck))
       \<lparr>ks_path = [], ks_thread_type = ''noc'', tensor_indices = [0], ks_config = ()\<rparr> = Inr kd \<and>
     run_passes (demo_compiler demo_names) passes mts = Inr m \<and> mts \<noteq> [] \<and>
     \<not> (\<exists>mt \<in> set mts. drop (nat (base_cta_index mt)) (compile_time_args kd) = [100, 7])"
proof -
  let ?run = "compile_module demo_world (demo_compiler demo_names) False ''k.py'' 0 [Tensor 0 demo_tensor] [1, 1] ''L1''
    True 0 None None demo_threads (demo_state 2)"
  let ?spec = "\<lparr>ks_path = [], ks_thread_type = ''noc'', tensor_indices = [0], ks_config = ()\<rparr>"
  have "case ?run of Inr (Some ck) \<Rightarrow> True | _ \<Rightarrow> False" by code_simp
  then obtain ck where ck: "?run = Inr (Some ck)" by (auto split: sum.splits option.splits)
  obtain kd where kd: "build_kernel_descriptor demo_api [0] [100, 7] (0, 0) 1 1 (length (ck_cb_configs ck)) ?spec = Inr kd"
    by (simp add: build_kernel_descriptor_def)
  have c: "captured demo_threads = {demo_cb 0 0}"
    by (auto simp: captured_def demo_threads_def demo_thread_def cells_of_def)
  have i: "cb_index (demo_cb 0 0) = 0" "cb_counter (demo_state 2) = 2" by (simp_all add: demo_cb_def demo_state_def)
  from accessor_args_line_up [OF ck _ kd] show ?thesis
    using ck kd by (simp add: c i)
qed

section \<open>The cache\<close>

definition run_calls ::
    "world \<Rightarrow> ('f, 't, 'm) compiler \<Rightarrow> (int \<times> cache_key \<Rightarrow> int) \<Rightarrow> core_ranges device_api \<Rightarrow>
     (nat list \<Rightarrow> (kernel_config, core_ranges) program_descriptor \<Rightarrow> 'o) \<Rightarrow> (string \<Rightarrow> string \<Rightarrow> unit result) \<Rightarrow>
     ('f, 'v) decorated \<Rightarrow> (arg list \<times> 'v kwargs) list \<Rightarrow> 'f driver_state \<Rightarrow> 'f driver_state" where
  "run_calls w cc hash api op perf dk calls s =
     foldl (\<lambda>s (args, kwargs). snd (kernel_call w cc hash api op perf dk args kwargs s)) s calls"

lemma find_or_compile_keeps:
  assumes "map_of (ds_cache s) key = Some ck"
  shows "map_of (ds_cache (snd (find_or_compile w cc hash dk args kwargs grid s))) key = Some ck"
  using assms
  by (auto simp: find_or_compile_def Let_def case_prod_beta update_conv' split: option.splits sum.splits)

lemma find_or_compile_stores:
  assumes "find_or_compile w cc hash dk args kwargs grid s = (Inr (Some ck), s1)"
  shows "map_of (ds_cache s1) (dispatch_key w dk args) = Some ck"
  using assms
  by (auto simp: find_or_compile_def Let_def case_prod_beta update_conv' split: option.splits)

lemma kernel_call_cache:
  "ds_cache (snd (kernel_call w cc hash api op perf dk args kwargs s)) = ds_cache s \<or>
   (\<exists>grid. ds_cache (snd (kernel_call w cc hash api op perf dk args kwargs s)) =
      ds_cache (snd (find_or_compile w cc hash dk args kwargs grid s)))"
proof (cases "resolve_grid (w_can_import w) (dk_grid dk) args kwargs")
  case (Inr grid)
  obtain r a where r: "find_or_compile w cc hash dk args kwargs grid s = (r, a)" by fastforce
  have "ds_cache (snd (kernel_call w cc hash api op perf dk args kwargs s)) = ds_cache a"
    by (auto simp: kernel_call_def Inr r sbind_def sreturn_def slift_def smodify_def
        split: sum.splits prod.splits option.splits)
  then show ?thesis using r by (metis snd_conv)
qed (simp add: kernel_call_def)

lemma run_calls_keep:
  "map_of (ds_cache s) key = Some ck \<Longrightarrow>
     map_of (ds_cache (run_calls w cc hash api op perf dk calls s)) key = Some ck"
proof (induction calls arbitrary: s)
  case (Cons c calls)
  obtain args kwargs where c: "c = (args, kwargs)" by (cases c)
  have "map_of (ds_cache (snd (kernel_call w cc hash api op perf dk args kwargs s))) key = Some ck"
    using kernel_call_cache [of w cc hash api op perf dk args kwargs s] find_or_compile_keeps [OF Cons.prems]
      Cons.prems by auto
  from Cons.IH [OF this] show ?case by (simp add: c run_calls_def)
qed (simp add: run_calls_def)

text \<open>
  Property C32: a kernel is compiled once per key. After a call has compiled it, whatever calls follow,
  a call whose arguments have the same key runs that kernel without compiling. The key has no keyword
  arguments, no host values and no grid, so this also holds for a call that resolves to another grid.
\<close>
theorem compiled_once:
  assumes "find_or_compile w cc hash dk args kwargs grid s = (Inr (Some ck), s1)"
    and "s2 = run_calls w cc hash api op perf dk calls s1"
    and "dispatch_key w dk args' = dispatch_key w dk args"
    and "resolve_grid (w_can_import w) (dk_grid dk) args' kwargs' = Inr grid'"
    and "\<not> w_compile_only w" and "\<not> ds_perf_dump s2"
  shows "kernel_call w cc hash api op perf dk args' kwargs' s2 =
    (rbind (run_compiled api op ck args') (\<lambda>r. Inr (Some r)), s2)"
proof -
  have "map_of (ds_cache s2) (dispatch_key w dk args') = Some ck"
    using run_calls_keep [OF find_or_compile_stores [OF assms(1)]] assms(2,3) by simp
  then have "find_or_compile w cc hash dk args' kwargs' grid' s2 = (Inr (Some ck), s2)"
    by (simp add: find_or_compile_def)
  then show ?thesis
    using assms(4-6)
    by (cases "run_compiled api op ck args'") (simp_all add: kernel_call_def sbind_def sreturn_def slift_def)
qed

text \<open>The grid of this kernel is the number given by a keyword argument.\<close>

definition demo_grid :: "arg list \<Rightarrow> int kwargs \<Rightarrow> int list result" where
  "demo_grid args kwargs = (case kwargs of [(_, Kw_other n)] \<Rightarrow> Inr [n, 1] | _ \<Rightarrow> Inl (TypeError ''grid''))"

definition demo_body :: "arg list \<Rightarrow> int kwargs \<Rightarrow> (int list api_state, unit) state_op" where
  "demo_body args kwargs = smodify (\<lambda>s. foldl (\<lambda>s t. register_thread t s) s demo_threads)"

definition demo_kernel :: "(int list, int) decorated" where
  "demo_kernel =
     \<lparr>dk_grid = Grid_fn demo_grid, dk_tiled = True,
      dk_options = \<lparr>ko_grid = Some (Grid_fn demo_grid), ko_indexing_maps = None, ko_iterator_types = None,
        ko_num_outs = 1, ko_memory_space = ''L1'', ko_tiled = Some True, ko_fp32 = None, ko_dst = None\<rparr>,
      dk_kernel_id = 7,
      dk_fn = \<lparr>kf_name = ''k'', kf_params = [''t''], kf_source_file = None, kf_source = None, kf_body = demo_body\<rparr>\<rparr>"

definition demo_device :: "core_ranges device_api" where
  "demo_device = \<lparr>has_ttnn = True, accessor_args_of = (\<lambda>t. [100, 7]), buffer_address = (\<lambda>t. 4096 * int t),
     dtype_of = (\<lambda>t. Some (Ttnn BFLOAT16)), enum_value = (\<lambda>d. 0),
     grid_of = (\<lambda>r. (fst (snd r) + 1, snd (snd r) + 1))\<rparr>"

definition demo_find :: "int \<Rightarrow> int list driver_state \<Rightarrow> compiled_kernel option result \<times> int list driver_state" where
  "demo_find n = find_or_compile demo_world (demo_compiler demo_names) fst demo_kernel [Tensor 0 demo_tensor]
     [(''n'', Kw_other n)] [n, 1]"

definition demo_call :: "int \<Rightarrow> int list driver_state \<Rightarrow> core_ranges option result \<times> int list driver_state" where
  "demo_call n = kernel_call demo_world (demo_compiler demo_names) fst
     demo_device
     (\<lambda>_ p. kd_core_ranges (hd (pd_kernels p))) (\<lambda>_ _. Inr ()) demo_kernel [Tensor 0 demo_tensor] [(''n'', Kw_other n)]"

text \<open>Compiled for one core, the kernel runs on one core when it is called for four.\<close>

theorem compiled_once_witness:
  "fst (demo_call 4 (snd (demo_find 1 \<lparr>ds_api = demo_state 0, ds_cache = [], ds_perf_dump = False\<rparr>))) =
     Inr (Some ((0, 0), (0, 0))) \<and>
   fst (demo_call 4 \<lparr>ds_api = demo_state 0, ds_cache = [], ds_perf_dump = False\<rparr>) =
     Inr (Some ((0, 0), (3, 0)))"
proof -
  let ?s = "\<lparr>ds_api = demo_state 0, ds_cache = [], ds_perf_dump = False\<rparr>"
  let ?op = "\<lambda>_ p. kd_core_ranges (hd (pd_kernels p))"
  have "case demo_find 1 ?s of
      (Inr (Some ck), s1) \<Rightarrow> \<not> ds_perf_dump s1 \<and> run_compiled demo_device ?op ck [Tensor 0 demo_tensor] = Inr ((0, 0), (0, 0))
    | _ \<Rightarrow> False"
    by code_simp
  then obtain ck s1 where f: "demo_find 1 ?s = (Inr (Some ck), s1)" and p: "\<not> ds_perf_dump s1"
    and r: "run_compiled demo_device ?op ck [Tensor 0 demo_tensor] = Inr ((0, 0), (0, 0))"
    by (auto split: prod.splits sum.splits option.splits)
  have "demo_call 4 s1 = (rbind (run_compiled demo_device ?op ck [Tensor 0 demo_tensor]) (\<lambda>r. Inr (Some r)), s1)"
    unfolding demo_call_def
    by (rule compiled_once [OF f [unfolded demo_find_def], where calls = "[]" and grid' = "[4, 1]"])
      (simp_all add: run_calls_def p demo_kernel_def demo_grid_def resolve_grid_def demo_world_def)
  moreover have "fst (demo_call 4 ?s) = Inr (Some ((0, 0), (3, 0)))" by code_simp
  ultimately show ?thesis using f r by simp
qed

end
