(* ===== verification/Pyfloat.thy ===== *)
theory Pyfloat
  imports Pystring
begin

text \<open>
  Python's floating point numbers as far as reports use them, and number formatting. A double is a
  pair of integers \<open>(m, e)\<close> that stands for \<open>m * 2 ^ e\<close> with 53 bits in \<open>m\<close>; every operation rounds
  its exact result to the nearest double, ties to even. Overflow and subnormal numbers, which the
  quotients of counters do not reach, are left out. \<open>{x:.kf}\<close> rounds the exact value to \<open>k\<close> decimals,
  ties to even.
\<close>

section \<open>Rounding\<close>

text \<open>The integer nearest to \<open>n / d\<close> for \<open>0 < d\<close>, ties to even.\<close>

definition round_half_even :: "int \<Rightarrow> int \<Rightarrow> int" where
  "round_half_even n d =
     (let q = n div d; r = n mod d in
      if 2 * r < d then q else if 2 * r > d then q + 1 else if even q then q else q + 1)"

lemma round_half_even_near:
  assumes "0 < d"
  shows "\<bar>2 * (n - d * round_half_even n d)\<bar> \<le> d"
proof -
  have m: "n - d * (n div d) = n mod d" by (simp add: minus_mult_div_eq_mod)
  have b: "0 \<le> n mod d" "n mod d < d" using assms by simp_all
  consider "round_half_even n d = n div d" "2 * (n mod d) \<le> d"
    | "round_half_even n d = n div d + 1" "2 * (n mod d) \<ge> d"
    by (cases "2 * (n mod d) < d"; cases "2 * (n mod d) > d"; cases "even (n div d)")
      (auto simp: round_half_even_def Let_def)
  then show ?thesis
  proof cases
    case 1
    then show ?thesis using m b by (simp add: abs_le_iff)
  next
    case 2
    have "n - d * round_half_even n d = n mod d - d" using m by (simp add: 2 algebra_simps)
    then show ?thesis using b 2 by (simp add: abs_le_iff)
  qed
qed

lemma round_half_even_exact [simp]: "0 < d \<Longrightarrow> round_half_even (d * n) d = n"
  by (simp add: round_half_even_def)

fun bit_length :: "nat \<Rightarrow> nat" where
  "bit_length n = (if n = 0 then 0 else 1 + bit_length (n div 2))"

declare bit_length.simps [simp del]

lemma bit_length_bounds: "n < 2 ^ bit_length n \<and> (0 < n \<longrightarrow> 2 ^ (bit_length n - 1) \<le> n)"
proof (induction n rule: bit_length.induct)
  case (1 n)
  show ?case
  proof (cases "n = 0")
    case False
    with 1 have u: "n div 2 < 2 ^ bit_length (n div 2)"
      and l: "0 < n div 2 \<longrightarrow> 2 ^ (bit_length (n div 2) - 1) \<le> n div 2" by auto
    have s: "bit_length n = 1 + bit_length (n div 2)" using False by (simp add: bit_length.simps [of n])
    have "n < 2 ^ bit_length n" using u by (simp add: s)
    moreover have "2 ^ (bit_length n - 1) \<le> n"
    proof (cases "n div 2 = 0")
      case True
      then show ?thesis using False by (simp add: s bit_length.simps [of 0])
    next
      case f: False
      then have "0 < bit_length (n div 2)" by (simp add: bit_length.simps [of "n div 2"])
      then have "(2::nat) ^ (bit_length n - 1) = 2 * 2 ^ (bit_length (n div 2) - 1)"
        by (simp add: s power_eq_if)
      with l f show ?thesis by linarith
    qed
    ultimately show ?thesis by simp
  qed (simp add: bit_length.simps [of 0])
qed

section \<open>Doubles\<close>

type_synonym double = "int \<times> int"

text \<open>\<open>a / (b * 2 ^ e)\<close> rounded to an integer, for \<open>0 < b\<close>.\<close>

definition scaled :: "int \<Rightarrow> int \<Rightarrow> int \<Rightarrow> int" where
  "scaled a b e =
     (if 0 \<le> e then round_half_even a (b * 2 ^ nat e) else round_half_even (a * 2 ^ nat (- e)) b)"

text \<open>Whether \<open>a / (b * 2 ^ e) < 2 ^ 53\<close>.\<close>

definition fits :: "int \<Rightarrow> int \<Rightarrow> int \<Rightarrow> bool" where
  "fits a b e =
     (if 0 \<le> e then a < 2 ^ 53 * b * 2 ^ nat e else a * 2 ^ nat (- e) < 2 ^ 53 * b)"

text \<open>The double nearest to \<open>a / b\<close>, for \<open>0 \<le> a\<close> and \<open>0 < b\<close>, and for any sign.\<close>

definition pos_quot :: "int \<Rightarrow> int \<Rightarrow> double" where
  "pos_quot a b =
     (if a = 0 then (0, 0)
      else (let e = int (bit_length (nat a)) - int (bit_length (nat b)) - 53;
                e' = (if fits a b e then e else e + 1)
            in (scaled a b e', e')))"

definition fl_quot :: "int \<Rightarrow> int \<Rightarrow> double" where
  "fl_quot a b =
     (let (m, e) = pos_quot \<bar>a\<bar> \<bar>b\<bar> in if (a < 0) \<noteq> (b < 0) then (- m, e) else (m, e))"

definition fl_int :: "int \<Rightarrow> double" where
  "fl_int n = fl_quot n 1"

definition d_div :: "double \<Rightarrow> double \<Rightarrow> double" where
  "d_div x y =
     (let e = snd x - snd y in
      if 0 \<le> e then fl_quot (fst x * 2 ^ nat e) (fst y) else fl_quot (fst x) (fst y * 2 ^ nat (- e)))"

definition d_mul :: "double \<Rightarrow> double \<Rightarrow> double" where
  "d_mul x y =
     (let e = snd x + snd y in
      if 0 \<le> e then fl_quot (fst x * fst y * 2 ^ nat e) 1 else fl_quot (fst x * fst y) (2 ^ nat (- e)))"

section \<open>Formatting\<close>

definition rjust :: "nat \<Rightarrow> string \<Rightarrow> string" where
  "rjust w s = replicate (w - length s) (CHR '' '') @ s"

definition ljust :: "nat \<Rightarrow> string \<Rightarrow> string" where
  "ljust w s = s @ replicate (w - length s) (CHR '' '')"

text \<open>\<open>{n:,}\<close>\<close>

fun group_rev :: "string \<Rightarrow> string" where
  "group_rev (a # b # c # d # s) = a # b # c # CHR '','' # group_rev (d # s)"
| "group_rev s = s"

definition show_grouped :: "int \<Rightarrow> string" where
  "show_grouped i =
     (let s = rev (group_rev (rev (show_nat (nat \<bar>i\<bar>)))) in if i < 0 then CHR ''-'' # s else s)"

text \<open>\<open>{x:.kf}\<close>: the sign stays on a negative number that rounds to zero.\<close>

definition pad_zeros :: "nat \<Rightarrow> string \<Rightarrow> string" where
  "pad_zeros w s = replicate (w - length s) (CHR ''0'') @ s"

definition fixed :: "nat \<Rightarrow> double \<Rightarrow> string" where
  "fixed k x =
     (let n = nat (scaled (\<bar>fst x\<bar> * 10 ^ k) 1 (- snd x));
          s = show_nat (n div 10 ^ k) @ (if k = 0 then [] else CHR ''.'' # pad_zeros k (show_nat (n mod 10 ^ k)))
      in if fst x < 0 then CHR ''-'' # s else s)"

section \<open>Reading integers\<close>

text \<open>\<open>int(s)\<close>: spaces around, a sign, digits with single underscores between them.\<close>

definition all_digits :: "string \<Rightarrow> bool" where
  "all_digits s \<longleftrightarrow> s \<noteq> [] \<and> list_all is_digit s"

definition digits_value :: "string \<Rightarrow> nat option" where
  "digits_value s =
     (if list_all all_digits (split_on (CHR ''_'') s) then Some (parse_nat (filter is_digit s)) else None)"

definition py_int :: "string \<Rightarrow> int option" where
  "py_int s =
     (let t = strip s in
      if prefix ''-'' t then map_option (\<lambda>n. - int n) (digits_value (tl t))
      else if prefix ''+'' t then map_option int (digits_value (tl t))
      else map_option int (digits_value t))"

lemma prefix_mem: "prefix [c] t \<Longrightarrow> c \<in> set t"
  by (auto simp: prefix_def)

lemma digits_value_show: "digits_value (show_nat n) = Some n"
proof -
  have "\<not> is_digit (CHR ''_'')" by (simp add: is_digit_def)
  then have "split_on (CHR ''_'') (show_nat n) = [show_nat n]"
    using show_nat_no_other by (intro split_on_no_sep) blast
  moreover have "all_digits (show_nat n)"
    using show_nat_all_digits [of n] show_nat_not_Nil [of n] by (simp add: all_digits_def list_all_iff)
  moreover have "filter is_digit (show_nat n) = show_nat n"
    using show_nat_all_digits [of n] by (simp add: filter_id_conv)
  ultimately show ?thesis by (simp add: digits_value_def)
qed

text \<open>\<open>int(str(i)) == i\<close>\<close>

lemma py_int_show [simp]: "py_int (show_int i) = Some i"
proof (cases "i < 0")
  case True
  then have "show_int i = CHR ''-'' # show_nat (nat (- i))" by (simp add: show_int_def)
  with True show ?thesis unfolding py_int_def strip_show_int by (simp add: digits_value_show)
next
  case False
  have n: "\<not> is_digit (CHR ''-'')" "\<not> is_digit (CHR ''+'')" by (simp_all add: is_digit_def)
  have "\<not> prefix ''-'' (show_nat (nat i))" "\<not> prefix ''+'' (show_nat (nat i))"
    using show_nat_no_other [OF n(1)] show_nat_no_other [OF n(2)] prefix_mem by metis+
  moreover have "show_int i = show_nat (nat i)" using False by (simp add: show_int_def)
  ultimately show ?thesis unfolding py_int_def strip_show_int using False by (simp add: digits_value_show)
qed

section \<open>Quotients stay below their bound\<close>

lemma round_half_even_le:
  assumes "0 < d" and "n \<le> d * k"
  shows "round_half_even n d \<le> k"
proof -
  have "2 * (d * round_half_even n d) \<le> 2 * n + d"
    using round_half_even_near [OF assms(1), of n] by (simp add: abs_le_iff algebra_simps)
  also have "\<dots> < 2 * (d * (k + 1))" using assms by (simp add: algebra_simps)
  finally have "round_half_even n d < k + 1" using assms(1) by simp
  then show ?thesis by simp
qed

lemma round_half_even_nonneg:
  assumes "0 < d" and "0 \<le> n"
  shows "0 \<le> round_half_even n d"
proof -
  have "0 \<le> n div d" using assms by (simp add: pos_imp_zdiv_nonneg_iff)
  then show ?thesis by (simp add: round_half_even_def Let_def)
qed

lemma bit_length_le:
  assumes "a \<le> 2 ^ j * b"
  shows "bit_length a \<le> j + bit_length b"
proof (cases "a = 0")
  case False
  have "(2::nat) ^ (bit_length a - 1) \<le> a" using bit_length_bounds [of a] False by simp
  also have "\<dots> \<le> 2 ^ j * b" by (rule assms)
  also have "\<dots> < 2 ^ j * 2 ^ bit_length b" using bit_length_bounds [of b] by simp
  also have "\<dots> = 2 ^ (j + bit_length b)" by (simp add: power_add)
  finally have "bit_length a - 1 < j + bit_length b" by simp
  then show ?thesis by linarith
qed (simp add: bit_length.simps [of 0])

lemma pos_quot_le:
  assumes "0 \<le> a" and "0 < b" and "a \<le> k * b" and "0 \<le> k" and "k \<le> 2 ^ 50"
  shows "snd (pos_quot a b) \<le> 0 \<and> 0 \<le> fst (pos_quot a b) \<and>
    fst (pos_quot a b) \<le> k * 2 ^ nat (- snd (pos_quot a b))"
proof (cases "a = 0")
  case True
  with assms(4) show ?thesis by (simp add: pos_quot_def)
next
  case False
  define e where "e = snd (pos_quot a b)"
  have "a \<le> 2 ^ 50 * b" using assms(2,3,5) by (meson mult_right_mono order.strict_implies_order order_trans)
  then have "nat a \<le> 2 ^ 50 * nat b" using assms(1,2) by (simp add: nat_le_iff)
  then have "bit_length (nat a) \<le> 50 + bit_length (nat b)" by (rule bit_length_le)
  then have e: "e < 0" using False by (auto simp: e_def pos_quot_def Let_def)
  have f: "fst (pos_quot a b) = round_half_even (a * 2 ^ nat (- e)) b"
    using False e by (auto simp: e_def pos_quot_def Let_def scaled_def)
  have "a * 2 ^ nat (- e) \<le> b * (k * 2 ^ nat (- e))" using assms(3) by (simp add: mult.commute mult_right_mono flip: mult.assoc)
  then have "fst (pos_quot a b) \<le> k * 2 ^ nat (- e)" unfolding f by (intro round_half_even_le assms(2))
  moreover have "0 \<le> fst (pos_quot a b)" unfolding f using assms(1,2) by (intro round_half_even_nonneg) simp_all
  ultimately show ?thesis using e by (simp add: e_def)
qed

lemma fl_quot_pos: "0 \<le> a \<Longrightarrow> 0 < b \<Longrightarrow> fl_quot a b = pos_quot a b"
  by (simp add: fl_quot_def Let_def case_prod_beta)

end
