(* ===== verification/Perfsummary.thy ===== *)
theory Perfsummary
  imports Pyfloat
begin

text \<open>
  The summary of a profiled run, \<open>python/ttl/_src/perf_summary.py\<close>: traces of the network on chip
  (one JSON file per program) and the profile of the device (one CSV file) are folded into counters
  and printed.

  A JSON object is the record of its fields, each absent or an integer or a string as the profiler
  writes them; a file is the list of its events or lines. Sets of cores are sets, counting
  dictionaries are association lists.

  The lemmas: no byte and no transfer of a trace is lost or counted twice; the duration spans the
  time stamps; and both sources give the same kernel durations on a well-formed trace.
\<close>

section \<open>Events and summaries\<close>

record event =
  e_run_host_id :: "int option"
  e_sx :: "int option"
  e_sy :: "int option"
  e_timestamp :: "int option"
  e_zone :: "string option"
  e_zone_phase :: "string option"
  e_type :: "string option"
  e_num_bytes :: "int option"
  e_noc :: "string option"
  e_mcast_start_x :: "int option"
  e_mcast_start_y :: "int option"
  e_dx :: "int option"
  e_dy :: "int option"

text \<open>\<open>ev.get(key, default)\<close>\<close>

definition get :: "'a option \<Rightarrow> 'a \<Rightarrow> 'a" where
  "get v d = (case v of None \<Rightarrow> d | Some a \<Rightarrow> a)"

type_synonym pos = "int \<times> int"

record summary =
  program_id :: int
  source_cores :: "pos set"
  dram_bytes_read :: int
  dram_bytes_written :: int
  l1_bytes_read :: int
  l1_bytes_written :: int
  dram_read_count :: int
  dram_write_count :: int
  l1_read_count :: int
  l1_write_count :: int
  read_barrier_count :: int
  write_barrier_count :: int
  transfer_sizes :: "(int \<times> int) list"
  noc_read_counts :: "(string \<times> int) list"
  noc_write_counts :: "(string \<times> int) list"
  brisc_durations :: "int list"
  ncrisc_durations :: "int list"
  trisc0_durations :: "int list"
  trisc1_durations :: "int list"
  trisc2_durations :: "int list"
  l1_destinations :: "pos set"
  dram_destinations :: "pos set"
  multicast_count :: int
  multicast_bytes :: int
  semaphore_count :: int
  min_timestamp :: "int option"
  max_timestamp :: "int option"

definition empty_summary :: summary where
  "empty_summary =
     \<lparr>program_id = 0, source_cores = {}, dram_bytes_read = 0, dram_bytes_written = 0, l1_bytes_read = 0,
      l1_bytes_written = 0, dram_read_count = 0, dram_write_count = 0, l1_read_count = 0,
      l1_write_count = 0, read_barrier_count = 0, write_barrier_count = 0, transfer_sizes = [],
      noc_read_counts = [], noc_write_counts = [], brisc_durations = [], ncrisc_durations = [],
      trisc0_durations = [], trisc1_durations = [], trisc2_durations = [], l1_destinations = {},
      dram_destinations = {}, multicast_count = 0, multicast_bytes = 0, semaphore_count = 0,
      min_timestamp = None, max_timestamp = None\<rparr>"

text \<open>\<open>d[k] += 1\<close> on a \<open>defaultdict(int)\<close>.\<close>

definition bump :: "'k \<Rightarrow> ('k \<times> int) list \<Rightarrow> ('k \<times> int) list" where
  "bump k d = AList.update k (get (map_of d k) 0 + 1) d"

section \<open>Reading a trace\<close>

text \<open>The cores that have zone events; such an event must say where it is.\<close>

definition collect_compute_cores_from_zones :: "event list \<Rightarrow> pos set result" where
  "collect_compute_cores_from_zones events =
     rfold (\<lambda>ev cores.
         case e_zone ev of
           None \<Rightarrow> Inr cores
         | Some _ \<Rightarrow>
             (case (e_sx ev, e_sy ev) of
                (None, _) \<Rightarrow> Inl (KeyError ''sx'')
              | (_, None) \<Rightarrow> Inl (KeyError ''sy'')
              | (Some x, Some y) \<Rightarrow> Inr (insert (x, y) cores)))
       events {}"

type_synonym zone_starts = "((string \<times> int \<times> int) \<times> int) list"

definition time_step :: "event \<Rightarrow> summary \<Rightarrow> summary" where
  "time_step ev s =
     (let ts = get (e_timestamp ev) 0 in
      s\<lparr>min_timestamp := (case min_timestamp s of None \<Rightarrow> Some ts | Some t \<Rightarrow> if ts < t then Some ts else Some t),
        max_timestamp := (case max_timestamp s of None \<Rightarrow> Some ts | Some t \<Rightarrow> if ts > t then Some ts else Some t)\<rparr>)"

definition zone_step :: "string \<Rightarrow> event \<Rightarrow> summary \<times> zone_starts \<Rightarrow> summary \<times> zone_starts" where
  "zone_step zone ev p =
     (let (s, zs) = p; ts = get (e_timestamp ev) 0; phase = get (e_zone_phase ev) [];
          key = (zone, get (e_sx ev) (-1), get (e_sy ev) (-1))
      in if zone = ''BRISC-KERNEL'' \<or> zone = ''NCRISC-KERNEL''
         then (if phase = ''ZONE_START'' then (s, AList.update key ts zs)
               else if phase = ''ZONE_END'' then
                 (case map_of zs key of
                    None \<Rightarrow> p
                  | Some start \<Rightarrow>
                      (if contains ''BRISC'' zone then s\<lparr>brisc_durations := brisc_durations s @ [ts - start]\<rparr>
                       else s\<lparr>ncrisc_durations := ncrisc_durations s @ [ts - start]\<rparr>, zs))
               else p)
         else p)"

definition mcast_step :: "pos set \<Rightarrow> event \<Rightarrow> summary \<Rightarrow> summary" where
  "mcast_step compute_cores ev s =
     (let n = get (e_num_bytes ev) 0;
          dst = (get (e_mcast_start_x ev) (-1), get (e_mcast_start_y ev) (-1));
          s1 = s\<lparr>transfer_sizes := bump n (transfer_sizes s),
                noc_write_counts := bump (get (e_noc ev) []) (noc_write_counts s)\<rparr>
      in if dst \<in> compute_cores
         then s1\<lparr>multicast_count := multicast_count s1 + 1, multicast_bytes := multicast_bytes s1 + n\<rparr>
         else s1\<lparr>dram_bytes_written := dram_bytes_written s1 + n, dram_write_count := dram_write_count s1 + 1\<rparr>)"

definition read_step :: "pos set \<Rightarrow> event \<Rightarrow> summary \<Rightarrow> summary" where
  "read_step compute_cores ev s =
     (let n = get (e_num_bytes ev) 0; dx = get (e_dx ev) (-1); dy = get (e_dy ev) (-1);
          s1 = s\<lparr>transfer_sizes := bump n (transfer_sizes s),
                noc_read_counts := bump (get (e_noc ev) []) (noc_read_counts s)\<rparr>
      in if (dx, dy) \<in> compute_cores \<and> dx \<ge> 0
         then s1\<lparr>l1_bytes_read := l1_bytes_read s1 + n, l1_read_count := l1_read_count s1 + 1,
                l1_destinations := insert (dx, dy) (l1_destinations s1)\<rparr>
         else s1\<lparr>dram_bytes_read := dram_bytes_read s1 + n, dram_read_count := dram_read_count s1 + 1,
                dram_destinations := (if dx \<ge> 0 then insert (dx, dy) (dram_destinations s1)
                                      else dram_destinations s1)\<rparr>)"

definition write_step :: "pos set \<Rightarrow> event \<Rightarrow> summary \<Rightarrow> summary" where
  "write_step compute_cores ev s =
     (let n = get (e_num_bytes ev) 0; dx = get (e_dx ev) (-1); dy = get (e_dy ev) (-1);
          s1 = s\<lparr>transfer_sizes := bump n (transfer_sizes s),
                noc_write_counts := bump (get (e_noc ev) []) (noc_write_counts s)\<rparr>
      in if (dx, dy) \<in> compute_cores \<and> dx \<ge> 0
         then s1\<lparr>l1_bytes_written := l1_bytes_written s1 + n, l1_write_count := l1_write_count s1 + 1,
                l1_destinations := insert (dx, dy) (l1_destinations s1)\<rparr>
         else s1\<lparr>dram_bytes_written := dram_bytes_written s1 + n, dram_write_count := dram_write_count s1 + 1,
                dram_destinations := (if dx \<ge> 0 then insert (dx, dy) (dram_destinations s1)
                                      else dram_destinations s1)\<rparr>)"

text \<open>An event of the network: semaphore, barrier, multicast, read, write, in this order.\<close>

definition noc_step :: "pos set \<Rightarrow> event \<Rightarrow> summary \<Rightarrow> summary" where
  "noc_step compute_cores ev s =
     (let ty = get (e_type ev) [];
          s0 = s\<lparr>source_cores := insert (get (e_sx ev) (-1), get (e_sy ev) (-1)) (source_cores s)\<rparr>
      in if contains ''SEMAPHORE'' ty then s0\<lparr>semaphore_count := semaphore_count s0 + 1\<rparr>
         else if contains ''BARRIER'' ty then
           (if contains ''READ'' ty \<and> contains ''START'' ty
            then s0\<lparr>read_barrier_count := read_barrier_count s0 + 1\<rparr>
            else if contains ''WRITE'' ty \<and> contains ''START'' ty
            then s0\<lparr>write_barrier_count := write_barrier_count s0 + 1\<rparr>
            else s0)
         else if e_mcast_start_x ev \<noteq> None then mcast_step compute_cores ev s0
         else if contains ''READ'' ty then read_step compute_cores ev s0
         else if contains ''WRITE'' ty then write_step compute_cores ev s0
         else s0)"

definition trace_step :: "pos set \<Rightarrow> summary \<times> zone_starts \<Rightarrow> event \<Rightarrow> summary \<times> zone_starts" where
  "trace_step compute_cores p ev =
     (let s = time_step ev (fst p) in
      case e_zone ev of
        Some zone \<Rightarrow> zone_step zone ev (s, snd p)
      | None \<Rightarrow> (noc_step compute_cores ev s, snd p))"

definition parse_noc_trace :: "event list \<Rightarrow> summary result" where
  "parse_noc_trace events =
     (case events of
        [] \<Rightarrow> Inr empty_summary
      | e # _ \<Rightarrow>
          rbind (collect_compute_cores_from_zones events) (\<lambda>compute_cores.
            Inr (fst (foldl (trace_step compute_cores)
              (empty_summary\<lparr>program_id := get (e_run_host_id e) 0\<rparr>, []) events))))"

section \<open>Reading the device profile\<close>

definition is_word :: "char \<Rightarrow> bool" where
  "is_word c \<longleftrightarrow>
     (let n = of_char c :: nat in
      48 \<le> n \<and> n \<le> 57 \<or> 65 \<le> n \<and> n \<le> 90 \<or> n = 95 \<or> 97 \<le> n \<and> n \<le> 122 \<or>
      n \<in> {170, 178, 179, 181, 185, 186, 188, 189, 190} \<or> 192 \<le> n \<and> n \<le> 255 \<and> n \<noteq> 215 \<and> n \<noteq> 247)"

text \<open>\<open>label\s*(\w+)\<close> and \<open>label\s*(\d+)\<close>\<close>

definition match_word :: "string \<Rightarrow> string \<Rightarrow> string option" where
  "match_word label s =
     (if prefix label s
      then (let w = takeWhile is_word (lstrip (drop (length label) s)) in if w = [] then None else Some w)
      else None)"

definition match_number :: "string \<Rightarrow> string \<Rightarrow> nat option" where
  "match_number label s =
     (if prefix label s then map_option fst (take_digits (lstrip (drop (length label) s))) else None)"

text \<open>A file is the list of its lines, \<open>None\<close> if it does not exist.\<close>

definition parse_chip_info :: "string list option \<Rightarrow> string \<times> nat \<times> nat" where
  "parse_chip_info csv =
     (case csv of
        None \<Rightarrow> (''unknown'', 1000, 0)
      | Some ls \<Rightarrow>
          (let header = strip (case ls of [] \<Rightarrow> [] | l # _ \<Rightarrow> l) in
           (get (search (match_word ''ARCH:'') header) ''unknown'',
            get (search (match_number ''CHIP_FREQ[MHz]:'') header) 1000,
            get (search (match_number ''Max Compute Cores:'') header) 0)))"

type_synonym durations = "((int \<times> string) \<times> int list) list"
type_synonym csv_starts = "((int \<times> string \<times> int \<times> int) \<times> int) list"

definition KERNEL_ZONES :: "string list" where
  "KERNEL_ZONES = [''BRISC-KERNEL'', ''NCRISC-KERNEL'', ''TRISC-KERNEL'']"

text \<open>The fields of a row: thread, zone, zone type, time, run, and core; \<open>None\<close> for a row that is skipped.\<close>

definition csv_row :: "string \<Rightarrow> (string \<times> string \<times> int \<times> int \<times> int \<times> int) option" where
  "csv_row line =
     (let parts = split_on (CHR '','') line in
      if length parts < 12 then None
      else if strip (parts ! 10) \<notin> set KERNEL_ZONES then None
      else case (py_int (parts ! 5), py_int (parts ! 7), py_int (parts ! 1), py_int (parts ! 2)) of
        (Some ts, Some run_id, Some cx, Some cy) \<Rightarrow>
          Some (strip (parts ! 3), strip (parts ! 11), ts, run_id, cx, cy)
      | _ \<Rightarrow> None)"

definition csv_step :: "csv_starts \<times> durations \<Rightarrow> string \<Rightarrow> csv_starts \<times> durations" where
  "csv_step p line =
     (case csv_row line of
        None \<Rightarrow> p
      | Some (thread, zone_type, ts, run_id, cx, cy) \<Rightarrow>
          (let (zs, ds) = p; key = (run_id, thread, cx, cy) in
           if zone_type = ''ZONE_START'' then (AList.update key ts zs, ds)
           else if zone_type = ''ZONE_END'' then
             (case map_of zs key of
                None \<Rightarrow> p
              | Some start \<Rightarrow>
                  (AList.delete key zs,
                   AList.update (run_id, thread) (get (map_of ds (run_id, thread)) [] @ [ts - start]) ds))
           else p))"

definition parse_kernel_durations :: "string list option \<Rightarrow> durations" where
  "parse_kernel_durations csv =
     (case csv of None \<Rightarrow> [] | Some ls \<Rightarrow> snd (foldl csv_step ([], []) (drop 2 ls)))"

section \<open>Printing a summary\<close>

definition infer_grid_shape :: "pos set \<Rightarrow> nat \<times> nat" where
  "infer_grid_shape cores = (card (fst ` cores), card (snd ` cores))"

definition format_bytes :: "int \<Rightarrow> string" where
  "format_bytes n =
     (if n \<ge> 1024 * 1024 then fixed 1 (fl_quot n (1024 * 1024)) @ '' MB''
      else if n \<ge> 1024 then fixed 1 (fl_quot n 1024) @ '' KB''
      else show_int n @ '' B'')"

definition at_least :: "double \<Rightarrow> int \<Rightarrow> bool" where
  "at_least x n =
     (if 0 \<le> snd x then fst x * 2 ^ nat (snd x) \<ge> n else fst x \<ge> n * 2 ^ nat (- snd x))"

definition format_cycles :: "int \<Rightarrow> int \<Rightarrow> string result" where
  "format_cycles cycles freq_mhz =
     (if freq_mhz = 0 then Inl ZeroDivisionError
      else let us = fl_quot cycles freq_mhz in
        Inr (show_grouped cycles @ '' cycles ('' @
          (if at_least us 1000 then fixed 2 (d_div us (fl_int 1000)) @ '' ms)'' else fixed 1 us @ '' us)'')))"

definition duration_cycles :: "summary \<Rightarrow> int" where
  "duration_cycles s =
     (case (min_timestamp s, max_timestamp s) of (Some a, Some b) \<Rightarrow> b - a | _ \<Rightarrow> 0)"

definition total_dram :: "summary \<Rightarrow> int" where
  "total_dram s = dram_bytes_read s + dram_bytes_written s"

definition total_l1 :: "summary \<Rightarrow> int" where
  "total_l1 s = l1_bytes_read s + l1_bytes_written s"

definition traffic_line :: "string \<Rightarrow> int \<Rightarrow> int \<Rightarrow> string \<Rightarrow> string" where
  "traffic_line label n count what =
     label @ rjust 10 (format_bytes n) @ ''  ('' @ show_int count @ what"

definition l1_lines :: "summary \<Rightarrow> string list" where
  "l1_lines s =
     (if total_l1 s > 0 then
        [traffic_line ''  L1 read:        '' (l1_bytes_read s) (l1_read_count s) '' transfers)'',
         traffic_line ''  L1 write:       '' (l1_bytes_written s) (l1_write_count s) '' transfers)'']
        @ (if l1_destinations s = {} then []
           else let (w, h) = infer_grid_shape (l1_destinations s) in
             [''  L1 targets:     '' @ show_nat (card (l1_destinations s)) @ '' cores ('' @ show_nat w @ ''x''
              @ show_nat h @ '')''])
      else [])
     @ (if multicast_count s > 0
        then [traffic_line ''  L1 multicast:   '' (multicast_bytes s) (multicast_count s) '' transfers, pipe)'']
        else [])"

definition bandwidth_lines :: "int \<Rightarrow> summary \<Rightarrow> string list" where
  "bandwidth_lines freq_mhz s =
     (if duration_cycles s > 0 then
        (let duration_s = d_div (fl_int (duration_cycles s)) (d_mul (fl_int freq_mhz) (fl_int (10 ^ 6)));
             bw_gbs = d_div (d_div (fl_int (total_dram s + total_l1 s + multicast_bytes s)) duration_s) (fl_int (10 ^ 9))
         in [''  effective BW:   '' @ fixed 1 bw_gbs @ '' GB/s (total payload / duration)''])
      else [])"

definition size_lines :: "summary \<Rightarrow> string list" where
  "size_lines s =
     (case filter (\<lambda>(k, _). k > 0) (transfer_sizes s) of
        [] \<Rightarrow> []
      | [(n, _)] \<Rightarrow> [''  transfer size:  '' @ format_bytes n @ '' (uniform)'']
      | sizes \<Rightarrow> [''  transfer sizes: '' @
          join '', '' (map (\<lambda>(k, c). format_bytes k @ ''x'' @ show_int c) (sort sizes))])"

definition ratio_note :: "int \<Rightarrow> int \<Rightarrow> string \<Rightarrow> string" where
  "ratio_note transfers barriers what =
     (if barriers > 0 \<and> transfers > 0
      then '' (1 per '' @ fixed 0 (fl_quot transfers barriers) @ what else [])"

definition barrier_lines :: "summary \<Rightarrow> string list" where
  "barrier_lines s =
     (let total_reads = dram_read_count s + l1_read_count s;
          total_writes = dram_write_count s + l1_write_count s + multicast_count s
      in if read_barrier_count s > 0 \<or> write_barrier_count s > 0 then
           [''  barriers:       '' @ show_int (read_barrier_count s) @ '' read''
            @ ratio_note total_reads (read_barrier_count s) '' reads)'' @ '', ''
            @ show_int (write_barrier_count s) @ '' write''
            @ ratio_note total_writes (write_barrier_count s) '' writes)'']
         else [])
     @ (if semaphore_count s > 0 then [''  semaphores:     '' @ show_int (semaphore_count s) @ '' events''] else [])"

definition noc_counts :: "(string \<times> int) list \<Rightarrow> string" where
  "noc_counts d = join '', '' (map (\<lambda>(noc, c). noc @ ''='' @ show_int c) (sort d))"

definition noc_lines :: "summary \<Rightarrow> string list" where
  "noc_lines s =
     (let r = noc_counts (noc_read_counts s); w = noc_counts (noc_write_counts s) in
      (if r \<noteq> [] \<or> w \<noteq> [] then [''  noc reads:      '' @ r, ''  noc writes:     '' @ w] else [])
      @ (if dram_destinations s = {} then []
         else [''  DRAM channels:  '' @ show_nat (card (dram_destinations s))]))"

definition thread_durations :: "summary \<Rightarrow> (string \<times> int list) list" where
  "thread_durations s =
     [(''BRISC'', brisc_durations s), (''NCRISC'', ncrisc_durations s), (''TRISC_0'', trisc0_durations s),
      (''TRISC_1'', trisc1_durations s), (''TRISC_2'', trisc2_durations s)]"

definition thread_line :: "int \<Rightarrow> string \<times> int list \<Rightarrow> string result" where
  "thread_line freq_mhz p =
     (let (label, durs) = p; mn = Min (set durs); mx = Max (set durs) in
      rbind (format_cycles mn freq_mhz) (\<lambda>a.
        if mn = mx then Inr (''    '' @ ljust 8 label @ '' '' @ a)
        else rbind (format_cycles mx freq_mhz) (\<lambda>b. Inr (''    '' @ ljust 8 label @ '' '' @ a @ '' - '' @ b))))"

definition kernel_time_lines :: "int \<Rightarrow> summary \<Rightarrow> string list result" where
  "kernel_time_lines freq_mhz s =
     (let ds = filter (\<lambda>(_, durs). durs \<noteq> []) (thread_durations s) in
      if ds = [] then Inr []
      else rbind (rmap (thread_line freq_mhz) ds) (\<lambda>ls. Inr (''  kernel time:'' # ls)))"

definition format_summary :: "summary \<Rightarrow> int \<Rightarrow> string option \<Rightarrow> string result" where
  "format_summary s freq_mhz name =
     (let (w, h) = infer_grid_shape (source_cores s);
          label = (case name of None \<Rightarrow> [] | Some n \<Rightarrow> if n = [] then [] else '' ('' @ n @ '')'') in
      rbind (format_cycles (duration_cycles s) freq_mhz) (\<lambda>dur.
      rbind (kernel_time_lines freq_mhz s) (\<lambda>times.
      Inr (join [newline]
        ([''--- Program '' @ show_int (program_id s) @ label @ '' ---'',
          ''grid: '' @ show_nat w @ ''x'' @ show_nat h @ '' ('' @ show_nat (card (source_cores s)) @ '' cores)'',
          ''duration: '' @ dur,
          traffic_line ''  DRAM read:      '' (dram_bytes_read s) (dram_read_count s) '' transfers)'',
          traffic_line ''  DRAM write:     '' (dram_bytes_written s) (dram_write_count s) '' transfers)'']
         @ l1_lines s @ bandwidth_lines freq_mhz s @ size_lines s @ barrier_lines s @ noc_lines s @ times)))))"

text \<open>The object for machines; the duration in microseconds is rounded to hundredths.\<close>

record json_summary =
  j_program_id :: int
  j_grid :: "nat \<times> nat"
  j_num_cores :: nat
  j_duration_cycles :: int
  j_duration_us_hundredths :: int
  j_bytes :: "int list"
  j_counts :: "int list"
  j_dram_channels :: nat
  j_transfer_sizes :: "(string \<times> int) list"
  j_name :: "string option"

definition hundredths :: "double \<Rightarrow> int" where
  "hundredths x = scaled (fst x * 100) 1 (- snd x)"

definition format_json_summary :: "summary \<Rightarrow> int \<Rightarrow> json_summary result" where
  "format_json_summary s freq_mhz =
     (if freq_mhz = 0 then Inl ZeroDivisionError
      else Inr \<lparr>j_program_id = program_id s, j_grid = infer_grid_shape (source_cores s),
        j_num_cores = card (source_cores s), j_duration_cycles = duration_cycles s,
        j_duration_us_hundredths = hundredths (fl_quot (duration_cycles s) freq_mhz),
        j_bytes = [dram_bytes_read s, dram_bytes_written s, l1_bytes_read s, l1_bytes_written s, multicast_bytes s],
        j_counts = [dram_read_count s, dram_write_count s, l1_read_count s, l1_write_count s,
          read_barrier_count s, write_barrier_count s],
        j_dram_channels = card (dram_destinations s),
        j_transfer_sizes = map (\<lambda>(k, v). (show_int k, v)) (filter (\<lambda>(k, _). k > 0) (sort (transfer_sizes s))),
        j_name = None\<rparr>)"

section \<open>The run\<close>

text \<open>The durations of the device profile replace those of the trace where there are any.\<close>

definition merge_durations :: "durations \<Rightarrow> summary \<Rightarrow> summary" where
  "merge_durations csv s =
     (let per_thread = (\<lambda>t. get (map_of csv (program_id s, t)) []) in
      s\<lparr>trisc0_durations := per_thread ''TRISC_0'', trisc1_durations := per_thread ''TRISC_1'',
        trisc2_durations := per_thread ''TRISC_2'',
        brisc_durations := (if per_thread ''BRISC'' \<noteq> [] then per_thread ''BRISC'' else brisc_durations s),
        ncrisc_durations := (if per_thread ''NCRISC'' \<noteq> [] then per_thread ''NCRISC'' else ncrisc_durations s)\<rparr>)"

text \<open>The trace files by name, as the directory lists them.\<close>

definition load_summaries :: "(string \<times> event list) list \<Rightarrow> string list option \<Rightarrow> summary list result" where
  "load_summaries files csv =
     rbind (rmap (\<lambda>(_, events). parse_noc_trace events) (sort_key fst files)) (\<lambda>ss.
       Inr (map (merge_durations (parse_kernel_durations csv)) ss))"

definition name_of :: "string list option \<Rightarrow> nat \<Rightarrow> string option" where
  "name_of names i =
     (case names of None \<Rightarrow> None | Some ns \<Rightarrow> if i < length ns then Some (ns ! i) else None)"

definition run_text :: "(string \<times> event list) list \<Rightarrow> string list option \<Rightarrow> string list option \<Rightarrow> string option result" where
  "run_text files csv names =
     (let (arch, freq_mhz, max_cores) = parse_chip_info csv in
      if files = [] then Inr None
      else rbind (load_summaries files csv) (\<lambda>ss.
        rbind (rmap (\<lambda>(i, s). format_summary s (int freq_mhz) (name_of names i)) (zip [0..<length ss] ss)) (\<lambda>texts.
        Inr (Some (join [newline]
          ([''=== PERF SUMMARY ==='',
            ''arch: '' @ arch @ '', freq: '' @ show_nat freq_mhz @ '' MHz, max_compute_cores: '' @ show_nat max_cores,
            ''programs: '' @ show_nat (length ss) @ '' (listed in dispatch order, includes ttnn ops)'', []]
           @ concat (map (\<lambda>t. [t, []]) texts)))))))"

definition run_json ::
    "(string \<times> event list) list \<Rightarrow> string list option \<Rightarrow> string list option \<Rightarrow>
     (string \<times> nat \<times> nat \<times> json_summary list) option result" where
  "run_json files csv names =
     (let (arch, freq_mhz, max_cores) = parse_chip_info csv in
      if files = [] then Inr None
      else rbind (load_summaries files csv) (\<lambda>ss.
        rbind (rmap (\<lambda>(i, s). rbind (format_json_summary s (int freq_mhz)) (\<lambda>d.
          Inr (d\<lparr>j_name := name_of names i\<rparr>))) (zip [0..<length ss] ss)) (\<lambda>ds.
        Inr (Some (arch, freq_mhz, max_cores, ds)))))"

section \<open>Nothing is lost\<close>

lemma sum_bump: "sum_list (map snd (bump k d)) = sum_list (map snd d) + 1"
  by (induction d) (auto simp: bump_def get_def)

lemma weight_bump: "(\<Sum>(i, v) \<leftarrow> bump k d. i * v) = (\<Sum>(i, v) \<leftarrow> d. i * v) + k"
  by (induction d) (auto simp: bump_def get_def algebra_simps)

definition is_transfer :: "event \<Rightarrow> bool" where
  "is_transfer ev \<longleftrightarrow> e_zone ev = None \<and>
     \<not> contains ''SEMAPHORE'' (get (e_type ev) []) \<and> \<not> contains ''BARRIER'' (get (e_type ev) []) \<and>
     (e_mcast_start_x ev \<noteq> None \<or> contains ''READ'' (get (e_type ev) []) \<or> contains ''WRITE'' (get (e_type ev) []))"

definition is_read :: "event \<Rightarrow> bool" where
  "is_read ev \<longleftrightarrow> is_transfer ev \<and> e_mcast_start_x ev = None \<and> contains ''READ'' (get (e_type ev) [])"

text \<open>What the counters add up to: bytes, bytes read, transfers, reads, and the three dictionaries.\<close>

definition books :: "summary \<Rightarrow> int list" where
  "books s =
     [total_dram s + total_l1 s + multicast_bytes s,
      dram_bytes_read s + l1_bytes_read s,
      dram_read_count s + l1_read_count s + dram_write_count s + l1_write_count s + multicast_count s,
      dram_read_count s + l1_read_count s,
      sum_list (map snd (transfer_sizes s)), (\<Sum>(k, v) \<leftarrow> transfer_sizes s. k * v),
      sum_list (map snd (noc_read_counts s)), sum_list (map snd (noc_write_counts s))]"

definition entry :: "event \<Rightarrow> int list" where
  "entry ev =
     (let n = get (e_num_bytes ev) 0 in
      if is_read ev then [n, n, 1, 1, 1, n, 1, 0]
      else if is_transfer ev then [n, 0, 1, 0, 1, n, 0, 1]
      else [0, 0, 0, 0, 0, 0, 0, 0])"

definition add :: "int list \<Rightarrow> int list \<Rightarrow> int list" where
  "add xs ys = map2 (+) xs ys"

lemmas books_simps = books_def total_dram_def total_l1_def add_def entry_def Let_def sum_bump weight_bump

lemma books_time [simp]: "books (time_step ev s) = books s"
  by (simp add: books_simps time_step_def)

lemma books_zone: "books (fst (zone_step z ev p)) = books (fst p)"
  by (auto simp: books_simps zone_step_def split: prod.splits option.splits)

lemma books_source [simp]: "books (s\<lparr>source_cores := c\<rparr>) = books s"
  by (simp add: books_simps)

lemma books_transfer:
  "books (mcast_step cc ev s) = add (books s) [get (e_num_bytes ev) 0, 0, 1, 0, 1, get (e_num_bytes ev) 0, 0, 1]"
  "books (write_step cc ev s) = add (books s) [get (e_num_bytes ev) 0, 0, 1, 0, 1, get (e_num_bytes ev) 0, 0, 1]"
  "books (read_step cc ev s) =
     add (books s) [get (e_num_bytes ev) 0, get (e_num_bytes ev) 0, 1, 1, 1, get (e_num_bytes ev) 0, 1, 0]"
  by (simp_all add: books_simps mcast_step_def write_step_def read_step_def)

lemma books_quiet [simp]:
  "books (s\<lparr>semaphore_count := n\<rparr>) = books s" "books (s\<lparr>read_barrier_count := n\<rparr>) = books s"
  "books (s\<lparr>write_barrier_count := n\<rparr>) = books s" "add (books s) [0, 0, 0, 0, 0, 0, 0, 0] = books s"
  by (simp_all add: books_simps)

lemma books_noc: "e_zone ev = None \<Longrightarrow> books (noc_step cc ev s) = add (books s) (entry ev)"
  by (auto simp: noc_step_def Let_def books_transfer entry_def is_read_def is_transfer_def)

lemma books_step: "books (fst (trace_step cc p ev)) = add (books (fst p)) (entry ev)"
proof (cases "e_zone ev")
  case (Some z)
  then have "entry ev = [0, 0, 0, 0, 0, 0, 0, 0]" by (simp add: entry_def is_read_def is_transfer_def Let_def)
  with Some show ?thesis by (simp add: trace_step_def Let_def books_zone)
qed (simp add: trace_step_def Let_def books_noc)

lemma books_fold: "books (fst (foldl (trace_step cc) p evs)) = foldl add (books (fst p)) (map entry evs)"
  by (induction evs arbitrary: p) (simp_all add: books_step)

lemma entry_cases:
  "is_read ev \<Longrightarrow> entry ev = [get (e_num_bytes ev) 0, get (e_num_bytes ev) 0, 1, 1, 1, get (e_num_bytes ev) 0, 1, 0]"
  "\<not> is_read ev \<Longrightarrow> is_transfer ev \<Longrightarrow>
     entry ev = [get (e_num_bytes ev) 0, 0, 1, 0, 1, get (e_num_bytes ev) 0, 0, 1]"
  "\<not> is_transfer ev \<Longrightarrow> entry ev = [0, 0, 0, 0, 0, 0, 0, 0]"
  "\<not> is_transfer ev \<Longrightarrow> \<not> is_read ev"
  by (simp_all add: entry_def is_read_def Let_def)

lemma entries_sum:
  "foldl add [a, b, c, d, e, f, g, h] (map entry evs) =
     (let ts = filter is_transfer evs; rs = filter is_read evs;
          bytes = (\<Sum>ev \<leftarrow> ts. get (e_num_bytes ev) 0) in
      [a + bytes, b + (\<Sum>ev \<leftarrow> rs. get (e_num_bytes ev) 0), c + int (length ts), d + int (length rs),
       e + int (length ts), f + bytes, g + int (length rs), h + (int (length ts) - int (length rs))])"
proof (induction evs arbitrary: a b c d e f g h)
  case (Cons ev evs)
  show ?case
    by (cases "is_transfer ev"; cases "is_read ev")
      (simp_all add: entry_cases add_def [of "[_, _, _, _, _, _, _, _]"] Let_def Cons.IH)
qed simp

text \<open>
  Property C35: every transfer of a trace is counted once, under reads and writes of the device
  memory and of the cores and under multicasts, and so are its bytes; the transfer sizes and the
  counts per network add up to the same transfers and bytes.
\<close>
theorem trace_conserves:
  assumes "parse_noc_trace evs = Inr s"
  shows "total_dram s + total_l1 s + multicast_bytes s = (\<Sum>ev \<leftarrow> filter is_transfer evs. get (e_num_bytes ev) 0) \<and>
    dram_bytes_read s + l1_bytes_read s = (\<Sum>ev \<leftarrow> filter is_read evs. get (e_num_bytes ev) 0) \<and>
    dram_read_count s + l1_read_count s + dram_write_count s + l1_write_count s + multicast_count s =
      int (length (filter is_transfer evs)) \<and>
    dram_read_count s + l1_read_count s = int (length (filter is_read evs)) \<and>
    sum_list (map snd (transfer_sizes s)) = int (length (filter is_transfer evs)) \<and>
    (\<Sum>(k, v) \<leftarrow> transfer_sizes s. k * v) = (\<Sum>ev \<leftarrow> filter is_transfer evs. get (e_num_bytes ev) 0) \<and>
    sum_list (map snd (noc_read_counts s)) = int (length (filter is_read evs)) \<and>
    sum_list (map snd (noc_write_counts s)) = int (length (filter is_transfer evs)) - int (length (filter is_read evs))"
proof -
  have z: "books (empty_summary\<lparr>program_id := i\<rparr>) = [0, 0, 0, 0, 0, 0, 0, 0]" for i
    by (simp add: books_simps empty_summary_def)
  have "books s = foldl add [0, 0, 0, 0, 0, 0, 0, 0] (map entry evs)"
  proof (cases evs)
    case Nil
    with assms have "s = empty_summary" by (simp add: parse_noc_trace_def)
    moreover have "books empty_summary = [0, 0, 0, 0, 0, 0, 0, 0]"
      by (simp add: books_simps empty_summary_def)
    ultimately show ?thesis using Nil by simp
  next
    case (Cons e es)
    with assms obtain cc where "s = fst (foldl (trace_step cc) (empty_summary\<lparr>program_id := get (e_run_host_id e) 0\<rparr>, []) evs)"
      by (auto simp: parse_noc_trace_def rbind_eq_Inr)
    then show ?thesis by (simp only: books_fold fst_conv z)
  qed
  then show ?thesis
    unfolding entries_sum by (simp add: books_def Let_def)
qed

section \<open>The time span\<close>

definition stamp :: "event \<Rightarrow> int" where
  "stamp ev = get (e_timestamp ev) 0"

lemma times_of_step:
  "min_timestamp (fst (trace_step cc p ev)) = min_timestamp (time_step ev (fst p))"
  "max_timestamp (fst (trace_step cc p ev)) = max_timestamp (time_step ev (fst p))"
  by (auto simp: trace_step_def zone_step_def noc_step_def mcast_step_def read_step_def write_step_def Let_def
      split: option.splits prod.splits)

lemma time_step_times:
  "min_timestamp s = Some t \<Longrightarrow> min_timestamp (time_step ev s) = Some (min (stamp ev) t)"
  "max_timestamp s = Some t \<Longrightarrow> max_timestamp (time_step ev s) = Some (max (stamp ev) t)"
  by (simp_all add: time_step_def Let_def stamp_def min_def max_def)

lemma times_of_fold:
  assumes "min_timestamp (fst p) = Some (Min T)" and "max_timestamp (fst p) = Some (Max T)" and "finite T" "T \<noteq> {}"
  shows "min_timestamp (fst (foldl (trace_step cc) p evs)) = Some (Min (T \<union> set (map stamp evs))) \<and>
    max_timestamp (fst (foldl (trace_step cc) p evs)) = Some (Max (T \<union> set (map stamp evs)))"
  using assms
proof (induction evs arbitrary: p T)
  case (Cons ev evs)
  have "min_timestamp (fst (trace_step cc p ev)) = Some (Min (insert (stamp ev) T))"
    "max_timestamp (fst (trace_step cc p ev)) = Some (Max (insert (stamp ev) T))"
    using Cons.prems by (simp_all add: times_of_step time_step_times)
  from Cons.IH [OF this] Cons.prems show ?case by (simp add: Un_commute insert_commute Un_left_commute)
qed simp

text \<open>
  The duration of a program is the span between the least and the greatest time stamp
  of its events, of whatever kind, and never negative.
\<close>
lemma duration_is_span:
  assumes "parse_noc_trace evs = Inr s" and "evs \<noteq> []"
  shows "duration_cycles s = Max (set (map stamp evs)) - Min (set (map stamp evs)) \<and> 0 \<le> duration_cycles s"
proof -
  from assms(2) obtain e es where evs: "evs = e # es" by (cases evs) auto
  with assms(1) obtain cc where s: "s = fst (foldl (trace_step cc) (empty_summary\<lparr>program_id := get (e_run_host_id e) 0\<rparr>, []) evs)"
    by (auto simp: parse_noc_trace_def rbind_eq_Inr)
  let ?p = "trace_step cc (empty_summary\<lparr>program_id := get (e_run_host_id e) 0\<rparr>, []) e"
  have "min_timestamp (fst ?p) = Some (Min {stamp e})" "max_timestamp (fst ?p) = Some (Max {stamp e})"
    by (simp_all add: times_of_step time_step_def Let_def stamp_def empty_summary_def)
  from times_of_fold [OF this] have "min_timestamp s = Some (Min (set (map stamp evs)))"
    "max_timestamp s = Some (Max (set (map stamp evs)))"
    by (simp_all add: s evs)
  moreover have "Min (set (map stamp evs)) \<le> Max (set (map stamp evs))" using assms(2) by simp
  ultimately show ?thesis by (simp add: duration_cycles_def)
qed

section \<open>Two sources, the same durations\<close>

text \<open>
  A mark is the start or end of a data movement kernel on a core: whether it is BRISC, the core,
  whether it is the start, and the time. The network trace and the device profile print it so.
\<close>

type_synonym mark = "bool \<times> int \<times> int \<times> bool \<times> int"

definition thread_of :: "bool \<Rightarrow> string" where
  "thread_of b = (if b then ''BRISC'' else ''NCRISC'')"

definition phase_of :: "bool \<Rightarrow> string" where
  "phase_of st = (if st then ''ZONE_START'' else ''ZONE_END'')"

definition mark_event :: "int \<Rightarrow> mark \<Rightarrow> event" where
  "mark_event run_id m =
     (let (b, x, y, st, t) = m in
      \<lparr>e_run_host_id = Some run_id, e_sx = Some x, e_sy = Some y, e_timestamp = Some t,
       e_zone = Some (thread_of b @ ''-KERNEL''), e_zone_phase = Some (phase_of st), e_type = None,
       e_num_bytes = None, e_noc = None, e_mcast_start_x = None, e_mcast_start_y = None, e_dx = None, e_dy = None\<rparr>)"

definition mark_row :: "int \<Rightarrow> mark \<Rightarrow> string" where
  "mark_row run_id m =
     (let (b, x, y, st, t) = m in
      join '','' [''0'', show_int x, show_int y, thread_of b, ''0'', show_int t, ''0'', show_int run_id, ''0'', ''0'',
        thread_of b @ ''-KERNEL'', phase_of st])"

text \<open>Every end has an open start on its core.\<close>

fun well_formed :: "(bool \<times> int \<times> int) set \<Rightarrow> mark list \<Rightarrow> bool" where
  "well_formed opn [] = True"
| "well_formed opn ((b, x, y, st, t) # ms) =
     (if st then well_formed (insert (b, x, y) opn) ms
      else (b, x, y) \<in> opn \<and> well_formed (opn - {(b, x, y)}) ms)"

lemma strip_labels [simp]:
  "strip (thread_of b) = thread_of b" "strip (phase_of st) = phase_of st"
  "strip (thread_of b @ ''-KERNEL'') = thread_of b @ ''-KERNEL''"
  by (rule strip_no_space, simp add: thread_of_def phase_of_def is_space_def)+

lemma csv_row_mark: "csv_row (mark_row run_id (b, x, y, st, t)) = Some (thread_of b, phase_of st, t, run_id, x, y)"
proof -
  let ?parts = "[''0'', show_int x, show_int y, thread_of b, ''0'', show_int t, ''0'', show_int run_id, ''0'', ''0'',
        thread_of b @ ''-KERNEL'', phase_of st]"
  have c: "\<not> is_digit (CHR '','')" by (simp add: is_digit_def)
  have "CHR '','' \<notin> set (show_int i)" for i
    by (simp add: show_int_def show_nat_no_other [OF c])
  then have "\<forall>l \<in> set ?parts. CHR '','' \<notin> set l" by (simp add: thread_of_def phase_of_def)
  then have "split_on (CHR '','') (mark_row run_id (b, x, y, st, t)) = ?parts"
    unfolding mark_row_def by (simp only: Let_def prod.case) (intro split_on_join, simp_all)
  moreover have "thread_of b @ ''-KERNEL'' \<in> set KERNEL_ZONES" by (simp add: thread_of_def KERNEL_ZONES_def)
  ultimately show ?thesis by (simp add: csv_row_def)
qed

text \<open>What the two readers agree on after the same marks.\<close>

definition same_books :: "int \<Rightarrow> (bool \<times> int \<times> int) set \<Rightarrow> summary \<times> zone_starts \<Rightarrow> csv_starts \<times> durations \<Rightarrow> bool" where
  "same_books run_id opn p q \<longleftrightarrow>
     (\<forall>b x y. (b, x, y) \<in> opn \<longrightarrow> map_of (fst q) (run_id, thread_of b, x, y) \<noteq> None) \<and>
     (\<forall>b x y t. map_of (fst q) (run_id, thread_of b, x, y) = Some t \<longrightarrow>
        map_of (snd p) (thread_of b @ ''-KERNEL'', x, y) = Some t) \<and>
     brisc_durations (fst p) = get (map_of (snd q) (run_id, thread_of True)) [] \<and>
     ncrisc_durations (fst p) = get (map_of (snd q) (run_id, thread_of False)) []"

lemma thread_of_inj [simp]: "thread_of b = thread_of b' \<longleftrightarrow> b = b'"
  by (simp add: thread_of_def)

lemma phase_labels [simp]: "phase_of True = ''ZONE_START''" "phase_of False = ''ZONE_END''"
  by (simp_all add: phase_of_def)

lemma contains_brisc: "contains ''BRISC'' ''BRISC-KERNEL''" "\<not> contains ''BRISC'' ''NCRISC-KERNEL''"
  by code_simp+

lemma thread_labels [simp]:
  "thread_of b @ ''-KERNEL'' = ''BRISC-KERNEL'' \<or> thread_of b @ ''-KERNEL'' = ''NCRISC-KERNEL''"
  "contains ''BRISC'' (thread_of b @ ''-KERNEL'') = b"
  using contains_brisc by (simp_all add: thread_of_def)

lemma mark_steps:
  "trace_step cc p (mark_event run_id (b, x, y, st, t)) =
     zone_step (thread_of b @ ''-KERNEL'') (mark_event run_id (b, x, y, st, t)) (time_step (mark_event run_id (b, x, y, st, t)) (fst p), snd p)"
  by (simp add: trace_step_def mark_event_def Let_def)

lemma mark_event_fields [simp]:
  "get (e_timestamp (mark_event run_id (b, x, y, st, t))) d = t" "get (e_sx (mark_event run_id (b, x, y, st, t))) d = x"
  "get (e_sy (mark_event run_id (b, x, y, st, t))) d = y"
  "get (e_zone_phase (mark_event run_id (b, x, y, st, t))) p = phase_of st"
  by (simp_all add: mark_event_def Let_def get_def)

lemma zone_step_phases:
  assumes "z = ''BRISC-KERNEL'' \<or> z = ''NCRISC-KERNEL''"
  shows "get (e_zone_phase ev) [] = ''ZONE_START'' \<Longrightarrow>
      zone_step z ev p = (fst p, AList.update (z, get (e_sx ev) (-1), get (e_sy ev) (-1)) (get (e_timestamp ev) 0) (snd p))"
    and "get (e_zone_phase ev) [] = ''ZONE_END'' \<Longrightarrow> map_of (snd p) (z, get (e_sx ev) (-1), get (e_sy ev) (-1)) = None \<Longrightarrow>
      zone_step z ev p = p"
    and "get (e_zone_phase ev) [] = ''ZONE_END'' \<Longrightarrow> map_of (snd p) (z, get (e_sx ev) (-1), get (e_sy ev) (-1)) = Some start \<Longrightarrow>
      zone_step z ev p =
        (if contains ''BRISC'' z
         then (fst p)\<lparr>brisc_durations := brisc_durations (fst p) @ [get (e_timestamp ev) 0 - start]\<rparr>
         else (fst p)\<lparr>ncrisc_durations := ncrisc_durations (fst p) @ [get (e_timestamp ev) 0 - start]\<rparr>, snd p)"
  using assms by (simp_all add: zone_step_def Let_def case_prod_beta)

lemma zone_step_mark:
  "zone_step (thread_of b @ ''-KERNEL'') (mark_event run_id (b, x, y, st, t)) p =
     (if st then (fst p, AList.update (thread_of b @ ''-KERNEL'', x, y) t (snd p))
      else case map_of (snd p) (thread_of b @ ''-KERNEL'', x, y) of
        None \<Rightarrow> p
      | Some start \<Rightarrow>
          (if b then (fst p)\<lparr>brisc_durations := brisc_durations (fst p) @ [t - start]\<rparr>
           else (fst p)\<lparr>ncrisc_durations := ncrisc_durations (fst p) @ [t - start]\<rparr>, snd p))"
proof (cases st)
  case True
  then show ?thesis by (simp add: zone_step_phases(1) [OF thread_labels(1)])
next
  case False
  then show ?thesis
    by (cases "map_of (snd p) (thread_of b @ ''-KERNEL'', x, y)")
      (simp_all add: zone_step_phases(2,3) [OF thread_labels(1)])
qed

lemma csv_step_mark:
  "csv_step q (mark_row run_id (b, x, y, st, t)) =
     (if st then (AList.update (run_id, thread_of b, x, y) t (fst q), snd q)
      else case map_of (fst q) (run_id, thread_of b, x, y) of
        None \<Rightarrow> q
      | Some start \<Rightarrow>
          (AList.delete (run_id, thread_of b, x, y) (fst q),
           AList.update (run_id, thread_of b) (get (map_of (snd q) (run_id, thread_of b)) [] @ [t - start]) (snd q)))"
  by (cases q; cases st) (simp_all add: csv_step_def csv_row_mark Let_def split: option.split)

lemma time_step_durations [simp]:
  "brisc_durations (time_step ev s) = brisc_durations s" "ncrisc_durations (time_step ev s) = ncrisc_durations s"
  by (simp_all add: time_step_def Let_def)

lemma same_books_step:
  assumes "same_books run_id opn p q" and "st \<or> (b, x, y) \<in> opn"
  shows "same_books run_id (if st then insert (b, x, y) opn else opn - {(b, x, y)})
    (trace_step cc p (mark_event run_id (b, x, y, st, t))) (csv_step q (mark_row run_id (b, x, y, st, t)))"
proof (cases st)
  case True
  with assms(1) show ?thesis
    by (simp add: same_books_def mark_steps zone_step_mark csv_step_mark update_conv')
next
  case False
  with assms(2) have "(b, x, y) \<in> opn" by simp
  with assms(1) obtain start where s: "map_of (fst q) (run_id, thread_of b, x, y) = Some start"
    "map_of (snd p) (thread_of b @ ''-KERNEL'', x, y) = Some start"
    unfolding same_books_def by blast
  with assms(1) False show ?thesis
    by (cases b) (simp_all add: same_books_def mark_steps zone_step_mark csv_step_mark update_conv' delete_conv'
        get_def)
qed

lemma same_books_fold:
  "same_books run_id opn p q \<Longrightarrow> well_formed opn ms \<Longrightarrow>
     \<exists>opn'. same_books run_id opn' (foldl (trace_step cc) p (map (mark_event run_id) ms))
       (foldl csv_step q (map (mark_row run_id) ms))"
proof (induction ms arbitrary: opn p q)
  case (Cons m ms)
  obtain b x y st t where m: "m = (b, x, y, st, t)" by (cases m)
  from Cons.prems(2) have wf: "st \<or> (b, x, y) \<in> opn"
    "well_formed (if st then insert (b, x, y) opn else opn - {(b, x, y)}) ms"
    by (auto simp: m split: if_splits)
  show ?case
    using Cons.IH [OF same_books_step [OF Cons.prems(1) wf(1)] wf(2)] by (simp add: m)
qed auto

text \<open>
  Property C36: on marks where every end has an open start, the network trace and the device profile
  of a program give the same list of durations for each of the two data movement processors.
\<close>
theorem durations_agree:
  assumes "parse_noc_trace (map (mark_event run_id) ms) = Inr s" and "well_formed {} ms"
  shows "brisc_durations s =
      get (map_of (parse_kernel_durations (Some (h1 # h2 # map (mark_row run_id) ms))) (run_id, ''BRISC'')) [] \<and>
    ncrisc_durations s =
      get (map_of (parse_kernel_durations (Some (h1 # h2 # map (mark_row run_id) ms))) (run_id, ''NCRISC'')) []"
proof (cases ms)
  case Nil
  with assms(1) show ?thesis
    by (auto simp: parse_noc_trace_def parse_kernel_durations_def empty_summary_def get_def)
next
  case (Cons m ms')
  with assms(1) obtain cc i where s: "s = fst (foldl (trace_step cc) (empty_summary\<lparr>program_id := i\<rparr>, [])
      (map (mark_event run_id) ms))"
    by (auto simp: parse_noc_trace_def rbind_eq_Inr)
  have "same_books run_id {} (empty_summary\<lparr>program_id := i\<rparr>, []) ([], [])"
    by (simp add: same_books_def empty_summary_def get_def)
  from same_books_fold [OF this assms(2), of cc] show ?thesis
    by (auto simp: s parse_kernel_durations_def same_books_def thread_of_def)
qed

theorem durations_agree_witness:
  "get (map_of (parse_kernel_durations (Some ([] # [] # map (mark_row 5)
     [(True, 1, 2, True, 100), (False, 1, 2, True, 110), (True, 1, 2, False, 160), (False, 1, 2, False, 190)])))
     (5, ''BRISC'')) [] = [60]"
proof -
  let ?ms = "[(True, 1, 2, True, 100), (False, 1, 2, True, 110), (True, 1, 2, False, 160), (False, 1, 2, False, 190)] :: mark list"
  have "case parse_noc_trace (map (mark_event 5) ?ms) of Inr s \<Rightarrow> brisc_durations s = [60] | Inl _ \<Rightarrow> False"
    by code_simp
  then obtain s where s: "parse_noc_trace (map (mark_event 5) ?ms) = Inr s" and b: "brisc_durations s = [60]"
    by (auto split: sum.splits)
  from durations_agree [OF s, of "[]" "[]"] b show ?thesis by simp
qed

text \<open>Without that, the two differ: an end that is repeated counts once in the profile, twice in the trace.\<close>

lemma repeated_end_counted_twice:
  "map_sum id brisc_durations (parse_noc_trace (map (mark_event 5)
     [(True, 1, 2, True, 100), (True, 1, 2, False, 160), (True, 1, 2, False, 170)])) = Inr [60, 70]"
  by code_simp

text \<open>Programs are listed in the order of the file names as text.\<close>

lemma not_in_dispatch_order:
  "map fst (sort_key fst [(''noc_trace_dev0_ID2.json'', es), (''noc_trace_dev0_ID10.json'', fs)]) =
     [''noc_trace_dev0_ID10.json'', ''noc_trace_dev0_ID2.json'']"
  by (simp add: sort_key_def less_list_code)

section \<open>Instances\<close>

text \<open>A core that reads 64 bytes from the device memory and 32 from a core, and sends 16 to the cores.\<close>

definition noc_event :: "string \<Rightarrow> int \<Rightarrow> int \<Rightarrow> int option \<Rightarrow> int \<Rightarrow> event" where
  "noc_event ty n t mcast dx =
     (mark_event 5 (True, 1, 2, True, t))\<lparr>e_zone := None, e_zone_phase := None, e_type := Some ty,
       e_num_bytes := Some n, e_noc := Some ''NOC_0'', e_mcast_start_x := mcast, e_mcast_start_y := mcast,
       e_dx := Some dx, e_dy := Some 2\<rparr>"

definition demo_trace :: "event list" where
  "demo_trace =
     [mark_event 5 (True, 1, 2, True, 100), noc_event ''READ'' 64 110 None 7, noc_event ''READ'' 32 120 None 1,
      noc_event ''READ_BARRIER_START'' 0 125 None (-1), noc_event ''WRITE_MULTICAST'' 16 130 (Some 1) (-1),
      mark_event 5 (True, 1, 2, False, 160)]"

lemma demo_trace_parses: "\<exists>s. parse_noc_trace demo_trace = Inr s"
proof -
  have "\<exists>c. collect_compute_cores_from_zones demo_trace = Inr c"
    by (simp add: collect_compute_cores_from_zones_def demo_trace_def noc_event_def mark_event_def)
  moreover have "\<exists>s. parse_noc_trace evs = Inr s" if "\<exists>c. collect_compute_cores_from_zones evs = Inr c" for evs
    using that by (cases evs) (auto simp: parse_noc_trace_def)
  ultimately show ?thesis by blast
qed

theorem trace_conserves_witness:
  "\<exists>s. parse_noc_trace demo_trace = Inr s \<and> total_dram s + total_l1 s + multicast_bytes s = 112 \<and>
     dram_bytes_read s + l1_bytes_read s = 96 \<and> sum_list (map snd (noc_write_counts s)) = 1"
proof -
  obtain s where s: "parse_noc_trace demo_trace = Inr s" using demo_trace_parses by blast
  have "(\<Sum>ev \<leftarrow> filter is_transfer demo_trace. get (e_num_bytes ev) 0) = 112" by code_simp
  moreover have "(\<Sum>ev \<leftarrow> filter is_read demo_trace. get (e_num_bytes ev) 0) = 96" by code_simp
  moreover have "int (length (filter is_transfer demo_trace)) - int (length (filter is_read demo_trace)) = 1" by code_simp
  ultimately show ?thesis using trace_conserves [OF s] s by metis
qed

lemma duration_is_span_witness:
  "\<exists>s. parse_noc_trace demo_trace = Inr s \<and> duration_cycles s = 60"
proof -
  obtain s where s: "parse_noc_trace demo_trace = Inr s" using demo_trace_parses by blast
  have "Max (set (map stamp demo_trace)) - Min (set (map stamp demo_trace)) = 60" by code_simp
  moreover have "demo_trace \<noteq> []" by (simp add: demo_trace_def)
  ultimately show ?thesis using duration_is_span [OF s] s by metis
qed

end
