(* ===== verification/Autoprofile.thy ===== *)
theory Autoprofile
  imports Pyfloat "HOL-Library.Multiset"
begin

text \<open>
  The profile report, \<open>python/ttl/_src/auto_profile.py\<close>: signposts in the device profile are paired
  to durations of source lines, and printed per thread beside the source, with the buffers that
  connect the threads and an estimate of what bounds the kernel.

  The rows of the profile are given as \<open>csv.reader\<close> yields them, the flow graph as the records its
  JSON stands for. Output is a list of lines, with box drawing characters as their UTF-8 bytes.

  The lemmas: a signpost name gives back its operation; what the map of waiting lines contains; and
  what the cycles printed beside the lines add up to.
\<close>

section \<open>Colours\<close>

definition esc :: "string \<Rightarrow> string" where
  "esc code = CHR 0x1B # ''['' @ code @ ''m''"

definition RED :: string where "RED = esc ''91''"
definition YELLOW :: string where "YELLOW = esc ''93''"
definition DIM :: string where "DIM = esc ''2''"
definition RESET :: string where "RESET = esc ''0''"

definition CB_BACKGROUNDS :: "string list" where
  "CB_BACKGROUNDS = map (\<lambda>n. esc (''48;5;'' @ n))
     [''153'', ''158'', ''183'', ''151'', ''181'', ''152'', ''187'', ''146'']"

definition cb_bg :: "int \<Rightarrow> string" where
  "cb_bg i = (if 0 \<le> i \<and> i < int (length CB_BACKGROUNDS) then CB_BACKGROUNDS ! nat i else [])"

section \<open>Signposts\<close>

record source_line_mapper =
  signpost_to_line :: "(string \<times> int \<times> string) list"
  mapper_source_lines :: "string list"
  mapper_line_offset :: int

definition register_signpost :: "string \<Rightarrow> int \<Rightarrow> string \<Rightarrow> source_line_mapper \<Rightarrow> source_line_mapper" where
  "register_signpost name lineno source m =
     m\<lparr>signpost_to_line := AList.update name (lineno, source) (signpost_to_line m)\<rparr>"

definition set_source :: "string list \<Rightarrow> source_line_mapper \<Rightarrow> source_line_mapper" where
  "set_source ls m = m\<lparr>mapper_source_lines := ls\<rparr>"

definition get_line_info :: "source_line_mapper \<Rightarrow> string \<Rightarrow> (int \<times> string) option" where
  "get_line_info m name = map_of (signpost_to_line m) name"

text \<open>\<open>_L\d+_\<close>, with what follows.\<close>

definition match_line_mark :: "string \<Rightarrow> string option" where
  "match_line_mark s =
     (if prefix ''_L'' s
      then (case take_digits (drop 2 s) of
              None \<Rightarrow> None
            | Some (_, r) \<Rightarrow> if prefix ''_'' r then Some (tl r) else None)
      else None)"

definition parse_signpost_name :: "string \<Rightarrow> string option \<times> bool" where
  "parse_signpost_name signpost =
     (case search match_line_mark signpost of
        None \<Rightarrow> (None, False)
      | Some rest \<Rightarrow>
          if prefix ''implicit_'' rest then (Some (drop (length ''implicit_'') rest), True)
          else (Some rest, False))"

definition generate_signpost_name :: "string \<Rightarrow> int \<Rightarrow> int \<Rightarrow> string \<times> string" where
  "generate_signpost_name operation lineno col =
     (let base = operation @ ''_L'' @ show_int lineno @ ''_C'' @ show_int col in
      (base @ ''_before'', base @ ''_after''))"

record profile_result =
  res_signpost :: string
  res_thread :: string
  res_cycles :: int
  res_lineno :: int
  res_source :: string
  res_op_name :: "string option"
  res_implicit :: bool

definition new_profile_result :: "string \<Rightarrow> string \<Rightarrow> int \<Rightarrow> int \<Rightarrow> string \<Rightarrow> profile_result" where
  "new_profile_result signpost thread cycles lineno source =
     (let (op_name, implicit) = parse_signpost_name signpost in
      \<lparr>res_signpost = signpost, res_thread = thread, res_cycles = cycles, res_lineno = lineno,
       res_source = strip source, res_op_name = op_name, res_implicit = implicit\<rparr>)"

type_synonym starts = "(string \<times> int) list"

definition profile_row ::
    "source_line_mapper \<Rightarrow> starts \<times> profile_result list \<Rightarrow> string list \<Rightarrow> starts \<times> profile_result list" where
  "profile_row m p row =
     (if length row < 13 then p
      else case py_int (row ! 5) of
        None \<Rightarrow> p
      | Some timestamp \<Rightarrow>
          (let (starts, results) = p; thread = row ! 3; signpost = row ! 10; zone_type = row ! 11;
               key = thread @ ''_'' @ signpost
           in if signpost = [] then p
              else if zone_type = ''ZONE_START'' then (AList.update key timestamp starts, results)
              else if zone_type = ''ZONE_END'' then
                (case map_of starts key of
                   None \<Rightarrow> p
                 | Some start_ts \<Rightarrow>
                     (AList.delete key starts,
                      (case get_line_info m signpost of
                         None \<Rightarrow> results
                       | Some (lineno, source) \<Rightarrow>
                           results @ [new_profile_result signpost thread (timestamp - start_ts) lineno source])))
              else p))"

definition parse_device_profile_csv :: "string list list \<Rightarrow> source_line_mapper \<Rightarrow> profile_result list result" where
  "parse_device_profile_csv rows m =
     (case rows of
        [] \<Rightarrow> Inl StopIteration
      | _ # body \<Rightarrow> Inr (sort_key res_lineno (snd (foldl (profile_row m) ([], []) body))))"

section \<open>The flow of buffers\<close>

record flow_op =
  fo_kernel :: "string option"
  fo_line :: "int option"
  fo_direction :: "string option"

record cb_info =
  ci_index :: "int option"
  ci_wait_ops :: "flow_op list"
  ci_dma_ops :: "flow_op list"
  ci_producers :: "flow_op list"
  ci_consumers :: "flow_op list"

definition op_kernel :: "flow_op \<Rightarrow> string" where
  "op_kernel o' = (case fo_kernel o' of None \<Rightarrow> [] | Some k \<Rightarrow> k)"

definition op_line :: "flow_op \<Rightarrow> int" where
  "op_line o' = (case fo_line o' of None \<Rightarrow> -1 | Some l \<Rightarrow> l)"

definition info_index :: "cb_info \<Rightarrow> int" where
  "info_index c = (case ci_index c of None \<Rightarrow> -1 | Some i \<Rightarrow> i)"

definition with_direction :: "string \<Rightarrow> flow_op list \<Rightarrow> flow_op list" where
  "with_direction d ops = filter (\<lambda>o'. fo_direction o' = Some d) ops"

type_synonym wait_map = "((string \<times> int) \<times> string \<times> int \<times> int \<times> string) list"

definition add_consumers :: "flow_op \<Rightarrow> int \<Rightarrow> string \<Rightarrow> flow_op list \<Rightarrow> wait_map \<Rightarrow> wait_map" where
  "add_consumers src i label consumers m =
     foldl (\<lambda>m c. if op_line c > 0
        then AList.update (op_kernel c, op_line c) (op_kernel src, op_line src, i, label) m else m) m consumers"

definition wait_source :: "cb_info \<Rightarrow> (flow_op \<times> string) option" where
  "wait_source c =
     (case with_direction ''read'' (ci_wait_ops c) of
        b # _ \<Rightarrow> Some (b, ''DMA'')
      | [] \<Rightarrow>
          (case (with_direction ''write'' (ci_dma_ops c), ci_producers c) of
             (_ # _, p # _) \<Rightarrow> Some (p, ''compute'')
           | _ \<Rightarrow> None))"

definition build_cb_wait_to_dma_map :: "cb_info list option \<Rightarrow> wait_map" where
  "build_cb_wait_to_dma_map cb_flow =
     (case cb_flow of
        None \<Rightarrow> []
      | Some cbs \<Rightarrow>
          foldl (\<lambda>m c. case wait_source c of
              None \<Rightarrow> m
            | Some (src, label) \<Rightarrow> add_consumers src (info_index c) label (ci_consumers c) m) [] cbs)"

definition build_dma_producer_to_cb_map :: "cb_info list option \<Rightarrow> ((string \<times> int) \<times> int) list" where
  "build_dma_producer_to_cb_map cb_flow =
     (case cb_flow of
        None \<Rightarrow> []
      | Some cbs \<Rightarrow>
          foldl (\<lambda>m c. if info_index c < 0 \<or> info_index c \<ge> int (length CB_BACKGROUNDS) then m
              else foldl (\<lambda>m w. if op_line w > 0 then AList.update (op_kernel w, op_line w) (info_index c) m else m)
                m (with_direction ''read'' (ci_wait_ops c))) [] cbs)"

section \<open>The report\<close>

text \<open>The elements of a list in the order of their first occurrence: the keys of a dictionary.\<close>

definition keys_in_order :: "'a list \<Rightarrow> 'a list" where
  "keys_in_order xs = rev (remdups (rev xs))"

definition cycles_of :: "profile_result list \<Rightarrow> int" where
  "cycles_of rs = (\<Sum>r \<leftarrow> rs. res_cycles r)"

definition of_thread :: "string \<Rightarrow> profile_result list \<Rightarrow> profile_result list" where
  "of_thread t rs = filter (\<lambda>r. res_thread r = t) rs"

definition THREAD_ORDER :: "string list" where
  "THREAD_ORDER = [''NCRISC'', ''BRISC'', ''TRISC_0'', ''TRISC_1'', ''TRISC_2'']"

definition thread_rank :: "string \<Rightarrow> nat" where
  "thread_rank t = (if t \<in> set THREAD_ORDER then length (takeWhile (\<lambda>u. u \<noteq> t) THREAD_ORDER) else 999)"

definition sorted_threads :: "profile_result list \<Rightarrow> string list" where
  "sorted_threads rs = sort_key thread_rank (keys_in_order (map res_thread rs))"

definition total_cycles :: "profile_result list \<Rightarrow> int" where
  "total_cycles rs =
     (case map (\<lambda>t. cycles_of (of_thread t rs)) (keys_in_order (map res_thread rs)) of
        [] \<Rightarrow> 1 | cs \<Rightarrow> Max (set cs))"

definition percent :: "int \<Rightarrow> int \<Rightarrow> double result" where
  "percent a b = (if b = 0 then Inl ZeroDivisionError else Inr (d_div (d_mul (fl_int 100) (fl_int a)) (fl_int b)))"

definition rule :: "char \<Rightarrow> nat \<Rightarrow> string" where
  "rule c n = replicate n c"

text \<open>The results whose source is that of a line.\<close>

definition group_of :: "profile_result list \<Rightarrow> string \<Rightarrow> profile_result list" where
  "group_of rs src = filter (\<lambda>r. strip (res_source r) = src) rs"

text \<open>The greatest and the second greatest total of a source text.\<close>

definition hottest_two :: "profile_result list \<Rightarrow> int \<times> int" where
  "hottest_two rs =
     (case rev (sort (map (\<lambda>src. cycles_of (group_of rs src)) (keys_in_order (map (strip \<circ> res_source) rs)))) of
        [] \<Rightarrow> (0, 0) | [a] \<Rightarrow> (a, 0) | a # b # _ \<Rightarrow> (a, b))"

definition line_color :: "int \<times> int \<Rightarrow> int \<Rightarrow> string" where
  "line_color h cycles =
     (if cycles \<ge> fst h \<and> fst h > 0 then RED else if cycles \<ge> snd h \<and> snd h > 0 then YELLOW else [])"

definition LAST_ARROW :: string where
  "LAST_ARROW = [CHR 0xE2, CHR 0x95, CHR 0xB0, CHR 0xE2, CHR 0x94, CHR 0x80]"

definition NEXT_ARROW :: string where
  "NEXT_ARROW = [CHR 0xE2, CHR 0x94, CHR 0x9C, CHR 0xE2, CHR 0x94, CHR 0x80]"

definition dim_row :: "nat \<Rightarrow> bool \<Rightarrow> string \<Rightarrow> string" where
  "dim_row indent is_last body =
     DIM @ rule (CHR '' '') indent @ (if is_last then LAST_ARROW else NEXT_ARROW) @ '' '' @ body @ RESET"

definition on_background :: "string \<Rightarrow> string \<Rightarrow> string" where
  "on_background bg s = (if bg \<noteq> [] then bg @ s @ RESET else s)"

text \<open>The remarks below a line: what it waits for, and the buffer whose barrier it is.\<close>

definition remark_rows :: "nat \<Rightarrow> (string \<times> int \<times> int \<times> string) option \<Rightarrow> int option \<Rightarrow> string list" where
  "remark_rows indent consumer producer =
     (case consumer of
        None \<Rightarrow> []
      | Some (barrier_kernel, barrier_line, cb_idx, label) \<Rightarrow>
          [dim_row indent (producer = None)
            (on_background (cb_bg cb_idx)
              (''waiting for '' @ label @ '' @ line '' @ show_int barrier_line @ '' ('' @ barrier_kernel @ '')''))])
     @ (case producer of
        None \<Rightarrow> []
      | Some i \<Rightarrow> [dim_row indent True (on_background (cb_bg i) (''DMA barrier for CB['' @ show_int i @ '']''))])"

definition op_key :: "profile_result \<Rightarrow> string option \<times> bool" where
  "op_key r = (res_op_name r, res_implicit r)"

definition op_groups :: "profile_result list \<Rightarrow> ((string option \<times> bool) \<times> profile_result list) list" where
  "op_groups g =
     sort_key (\<lambda>((n, implicit), _). (implicit, case n of None \<Rightarrow> [] | Some s \<Rightarrow> s))
       (map (\<lambda>k. (k, filter (\<lambda>r. op_key r = k) g)) (keys_in_order (map op_key g)))"

definition op_row :: "nat \<Rightarrow> bool \<Rightarrow> (string option \<times> bool) \<times> profile_result list \<Rightarrow> string" where
  "op_row indent is_last p =
     (let ((n, implicit), ops) = p;
          name = (case n of None \<Rightarrow> ''line'' | Some s \<Rightarrow> if s = [] then ''line'' else s)
      in dim_row indent is_last (show_grouped (cycles_of ops) @ '' '' @ name
          @ (if implicit then '' (implicit)'' else [])
          @ (if length ops > 1 then '' (x'' @ show_nat (length ops) @ '')'' else [])))"

definition has_named_ops :: "profile_result list \<Rightarrow> bool" where
  "has_named_ops g \<longleftrightarrow> list_ex (\<lambda>r. res_op_name r \<noteq> None \<and> res_op_name r \<noteq> Some []) g"

definition measured_head :: "string \<Rightarrow> int \<Rightarrow> double \<Rightarrow> string \<Rightarrow> string" where
  "measured_head color file_lineno pct cycles =
     color @ ljust 6 (show_int file_lineno) @ '' '' @ rjust 5 (fixed 1 pct) @ ''%  '' @ ljust 10 cycles @ '' ''"

text \<open>A line with results: one plain result, named operations, or several plain results.\<close>

definition measured_rows ::
    "int \<Rightarrow> int \<times> int \<Rightarrow> int \<Rightarrow> string \<Rightarrow> (string \<times> int \<times> int \<times> string) option \<Rightarrow> int option \<Rightarrow>
     profile_result list \<Rightarrow> string list result" where
  "measured_rows thread_total hot file_lineno source_line consumer producer g =
     (let cycles = cycles_of g; color = line_color hot cycles;
          bg = (case producer of None \<Rightarrow> [] | Some i \<Rightarrow> cb_bg i);
          source_colored = on_background bg source_line;
          reset = (if color \<noteq> [] then RESET else []);
          indent = 27 + length source_line;
          cs = map res_cycles g; mn = Min (set cs); mx = Max (set cs)
      in rbind (percent cycles thread_total) (\<lambda>pct.
         Inr (if \<not> has_named_ops g \<and> length g = 1
              then (measured_head color file_lineno pct (show_grouped cycles) @ source_colored @ reset)
                   # remark_rows indent consumer producer
              else if has_named_ops g
              then (measured_head color file_lineno pct (show_grouped cycles) @ source_colored @ reset)
                   # map (\<lambda>(i, p). op_row indent
                       (i = length (op_groups g) - 1 \<and> consumer = None \<and> producer = None) p)
                       (zip [0..<length (op_groups g)] (op_groups g))
                   @ remark_rows indent consumer producer
              else (if mn = mx
                    then measured_head color file_lineno pct (show_grouped mn) @ source_colored @ ''  '' @ reset
                      @ DIM @ ''(x'' @ show_nat (length g) @ '' = '' @ show_grouped cycles @ '' cycles)'' @ RESET
                    else measured_head color file_lineno pct (show_grouped mn @ ''-'' @ show_grouped mx)
                      @ source_colored @ ''  '' @ reset @ DIM @ ''(x'' @ show_nat (length g) @ '', avg=''
                      @ fixed 1 (fl_quot cycles (int (length g))) @ '', total='' @ show_grouped cycles @ '')'' @ RESET)
                   # remark_rows indent consumer producer)))"

definition source_row ::
    "wait_map \<Rightarrow> ((string \<times> int) \<times> int) list \<Rightarrow> string \<Rightarrow> int \<Rightarrow> profile_result list \<Rightarrow> nat \<Rightarrow> string \<Rightarrow> string list result" where
  "source_row waits producers kernel_name line_offset rs i line =
     (let source_line = rstrip line; g = group_of rs (strip source_line);
          file_lineno = int i + 1 + line_offset
      in case g of
           [] \<Rightarrow> Inr (if strip source_line \<noteq> []
                      then [ljust 6 (show_int file_lineno) @ '' '' @ rule (CHR '' '') 7 @ '' '' @ rule (CHR '' '') 10
                            @ '' '' @ source_line] else [])
         | r # _ \<Rightarrow>
             measured_rows (cycles_of rs) (hottest_two rs) file_lineno source_line
               (map_of waits (kernel_name, res_lineno r)) (map_of producers (kernel_name, res_lineno r)) g)"

definition lookup_or :: "'b \<Rightarrow> ('a \<times> 'b) list \<Rightarrow> 'a \<Rightarrow> 'b" where
  "lookup_or d m k = (case map_of m k of None \<Rightarrow> d | Some v \<Rightarrow> v)"

record report_input =
  ri_sources :: "(string \<times> string list) list"
  ri_thread_to_kernel :: "(string \<times> string) list"
  ri_waits :: wait_map
  ri_producers :: "((string \<times> int) \<times> int) list"
  ri_line_offsets :: "(string \<times> int) list"

definition thread_header :: "string \<Rightarrow> string \<Rightarrow> profile_result list \<Rightarrow> double \<Rightarrow> string list" where
  "thread_header thread kernel_name rs pct =
     [rule (CHR ''='') 100,
      ''THREAD: '' @ ljust 10 thread @ (if kernel_name \<noteq> [] then '' ['' @ kernel_name @ '']'' else []) @ '' (''
        @ show_nat (length rs) @ '' ops, '' @ show_grouped (cycles_of rs) @ '' cycles, '' @ fixed 1 pct @ ''% of total)'',
      rule (CHR ''='') 100, [],
      ljust 6 ''LINE'' @ '' '' @ ljust 7 ''%TIME'' @ '' '' @ ljust 10 ''CYCLES'' @ '' SOURCE'',
      rule (CHR ''-'') 6 @ '' '' @ rule (CHR ''-'') 7 @ '' '' @ rule (CHR ''-'') 10 @ '' '' @ rule (CHR ''-'') 70]"

definition thread_rows :: "report_input \<Rightarrow> profile_result list \<Rightarrow> string \<Rightarrow> string list result" where
  "thread_rows ri results thread =
     (let rs = sort_key res_lineno (of_thread thread results);
          kernel_name = lookup_or [] (ri_thread_to_kernel ri) thread;
          source_lines = lookup_or [] (ri_sources ri) kernel_name;
          line_offset = lookup_or 0 (ri_line_offsets ri) kernel_name
      in rbind (percent (cycles_of rs) (total_cycles results)) (\<lambda>pct.
         rbind (if source_lines = [] then Inr [''       (no source available for kernel '' @ [CHR 0x27] @ kernel_name @ [CHR 0x27] @ '')'']
                else rbind (rmap (\<lambda>i. source_row (ri_waits ri) (ri_producers ri) kernel_name line_offset rs i (source_lines ! i))
                  [0..<length source_lines]) (\<lambda>ls. Inr (concat ls))) (\<lambda>body.
         Inr (thread_header thread kernel_name rs pct @ body @ [[]]))))"

definition summary_row :: "report_input \<Rightarrow> profile_result list \<Rightarrow> string \<Rightarrow> string result" where
  "summary_row ri results thread =
     (let rs = of_thread thread results; kernel_name = lookup_or [] (ri_thread_to_kernel ri) thread in
      rbind (percent (cycles_of rs) (total_cycles results)) (\<lambda>pct.
        Inr (''  '' @ ljust 12 thread
          @ rjust 20 (if kernel_name \<noteq> [] then '' ['' @ kernel_name @ '']'' else [])
          @ '' '' @ rjust 10 (show_grouped (cycles_of rs)) @ '' cycles ('' @ rjust 3 (show_nat (length rs))
          @ '' ops) ['' @ rjust 5 (fixed 1 pct) @ ''%]'')))"

section \<open>The roofline\<close>

definition SYNC_OPS :: "string list" where
  "SYNC_OPS = [''cb_wait'', ''cb_reserve'']"

definition sync_cycles :: "profile_result list \<Rightarrow> int" where
  "sync_cycles rs = cycles_of (filter (\<lambda>r. case res_op_name r of None \<Rightarrow> False | Some n \<Rightarrow> n \<in> set SYNC_OPS) rs)"

definition work_cycles :: "profile_result list \<Rightarrow> string \<Rightarrow> int" where
  "work_cycles results t = cycles_of (of_thread t results) - sync_cycles (of_thread t results)"

definition active_threads :: "profile_result list \<Rightarrow> string list" where
  "active_threads results = filter (\<lambda>t. cycles_of (of_thread t results) > 0) (sorted_threads results)"

text \<open>\<open>max(ts, key=f)\<close>: the first of the greatest.\<close>

fun first_max :: "('a \<Rightarrow> int) \<Rightarrow> 'a list \<Rightarrow> 'a option" where
  "first_max f [] = None"
| "first_max f (t # ts) =
     (case first_max f ts of None \<Rightarrow> Some t | Some u \<Rightarrow> Some (if f t \<ge> f u then t else u))"

definition best_of :: "profile_result list \<Rightarrow> string list \<Rightarrow> string option" where
  "best_of results ts =
     first_max (work_cycles results) (filter (\<lambda>t. t \<in> set (active_threads results)) ts)"

definition best_cycles :: "profile_result list \<Rightarrow> string option \<Rightarrow> int" where
  "best_cycles results t = (case t of None \<Rightarrow> 0 | Some u \<Rightarrow> work_cycles results u)"

text \<open>\<open>int(x)\<close> of a double.\<close>

definition d_trunc :: "double \<Rightarrow> int" where
  "d_trunc x =
     (if 0 \<le> snd x then fst x * 2 ^ nat (snd x)
      else sgn (fst x) * (\<bar>fst x\<bar> div 2 ^ nat (- snd x)))"

definition HORIZONTAL :: string where
  "HORIZONTAL = [CHR 0xE2, CHR 0x94, CHR 0x80]"

definition DOT :: string where
  "DOT = [CHR 0xE2, CHR 0x97, CHR 0x8F]"

definition bound_row :: "int \<Rightarrow> int \<Rightarrow> string" where
  "bound_row memory compute =
     (if memory > compute then ''  '' @ fixed 0 (fl_quot (100 * (memory - compute)) memory) @ ''% memory bound''
      else if compute > memory then ''  '' @ fixed 0 (fl_quot (100 * (compute - memory)) compute) @ ''% compute bound''
      else ''  Perfectly balanced!'')"

definition marker_pos :: "int \<Rightarrow> int \<Rightarrow> int" where
  "marker_pos memory compute =
     d_trunc (d_mul (if memory + compute > 0 then fl_quot memory (memory + compute) else (1, -1)) (fl_int 39))"

definition roof_rows :: "int \<Rightarrow> int \<Rightarrow> string list" where
  "roof_rows memory compute =
     (let pos = marker_pos memory compute in
      [bound_row memory compute,
       ''  Compute '' @ [CHR 0xE2, CHR 0x94, CHR 0x9C] @ concat (replicate (nat pos) HORIZONTAL) @ DOT
         @ concat (replicate (nat (39 - pos)) HORIZONTAL) @ [CHR 0xE2, CHR 0x94, CHR 0xA4] @ '' Memory'',
       rule (CHR '' '') 10 @ show_grouped compute @ '' cycles'' @ rule (CHR '' '') 28 @ show_grouped memory @ '' cycles'',
       []])"

definition roofline_rows :: "profile_result list \<Rightarrow> string list" where
  "roofline_rows results =
     (let ts = active_threads results in
      if ts = [] then []
      else (let mt = best_of results [''NCRISC'', ''BRISC'']; ct = best_of results [''TRISC_0'', ''TRISC_1'', ''TRISC_2''];
                memory = best_cycles results mt; compute = best_cycles results ct
            in [''ROOFLINE ANALYSIS'', rule (CHR ''='') 100,
                ''  '' @ ljust 12 ''Thread'' @ '' '' @ rjust 10 ''Total'' @ ''   - '' @ rjust 10 ''Sync Waits'' @ ''   = '' @ rjust 10 ''Work'',
                ''  '' @ rule (CHR ''-'') 12 @ '' '' @ rule (CHR ''-'') 10 @ ''   - '' @ rule (CHR ''-'') 10 @ ''   = '' @ rule (CHR ''-'') 10]
               @ map (\<lambda>t. ''  '' @ ljust 12 t @ '' '' @ rjust 10 (show_grouped (cycles_of (of_thread t results)))
                   @ ''   - '' @ rjust 10 (show_grouped (sync_cycles (of_thread t results)))
                   @ ''   = '' @ rjust 10 (show_grouped (work_cycles results t))) ts
               @ [[]]
               @ (if memory > 0 \<or> compute > 0 then
                    (case mt of None \<Rightarrow> [] | Some t \<Rightarrow>
                      [''  Memory:  '' @ rjust 10 (show_grouped memory) @ '' cycles  ('' @ t @ '')''])
                    @ (case ct of None \<Rightarrow> [] | Some t \<Rightarrow>
                      [''  Compute: '' @ rjust 10 (show_grouped compute) @ '' cycles  ('' @ t @ '')''])
                    @ [[]] @ roof_rows memory compute
                  else [])))"

definition color_key_rows :: "report_input \<Rightarrow> string list" where
  "color_key_rows ri =
     (let active = sort (remdups (map snd (ri_producers ri) @ map (\<lambda>(_, _, _, i, _). i) (ri_waits ri))) in
      if active = [] then []
      else [''CB Colors: '' @ concat (map (\<lambda>i. if cb_bg i = [] then [] else cb_bg i @ '' CB['' @ show_int i @ ''] '' @ RESET @ '' '') active), []])"

text \<open>The whole report as lines; a division by a total of zero cycles ends it.\<close>

definition print_profile_report :: "report_input \<Rightarrow> profile_result list \<Rightarrow> string list result" where
  "print_profile_report ri results =
     (let ts = sorted_threads results in
      rbind (rmap (thread_rows ri results) ts) (\<lambda>threads.
      rbind (rmap (summary_row ri results) ts) (\<lambda>summary.
      Inr ([[], rule (CHR ''='') 100, ''TTLANG AUTO-PROFILE REPORT'', rule (CHR ''='') 100, []]
        @ color_key_rows ri
        @ [''Total operations: '' @ show_nat (length results),
           ''Longest thread: '' @ show_grouped (total_cycles results) @ '' cycles'', []]
        @ concat threads
        @ [rule (CHR ''='') 100, ''THREAD SUMMARY'', rule (CHR ''='') 100]
        @ summary @ [[]] @ roofline_rows results @ [rule (CHR ''='') 100, []]))))"

section \<open>Names of signposts\<close>

lemma search_no_mark:
  assumes "\<forall>c \<in> set s. c \<noteq> CHR ''_''"
  shows "search match_line_mark s = None"
  using assms by (induction s) (auto simp: match_line_mark_def)

lemma no_early_mark:
  assumes "\<not> contains ''_L'' (u1 @ u2)" and "u2 \<noteq> []"
  shows "match_line_mark (u2 @ ''_L'' @ t) = None"
proof (cases "length u2 = 1")
  case True
  then obtain c where "u2 = [c]" by (auto simp: length_Suc_conv)
  then show ?thesis by (simp add: match_line_mark_def)
next
  case False
  with assms(2) obtain a b w where u2: "u2 = a # b # w" by (cases u2; cases "tl u2") auto
  have "\<not> prefix ''_L'' u2"
  proof
    assume "prefix ''_L'' u2"
    then have "contains ''_L'' (u1 @ u2)" by (auto simp: contains_iff prefix_def)
    with assms(1) show False by simp
  qed
  then have "\<not> (a = CHR ''_'' \<and> b = CHR ''L'')" by (auto simp: u2)
  then show ?thesis by (auto simp: match_line_mark_def u2)
qed

lemma search_mark_skip:
  assumes "\<not> contains ''_L'' kname"
  shows "search match_line_mark (kname @ ''_L'' @ t) = search match_line_mark (''_L'' @ t)"
  by (rule search_skip) (use assms no_early_mark in blast)



text \<open>A kernel with such a part in its name loses its line signposts to a made-up operation.\<close>

lemma signpost_misread: "parse_signpost_name ''my_L2_norm_L52'' = (Some ''norm_L52'', False)"
  by code_simp

section \<open>What a line waits for\<close>

definition waits_on :: "cb_info \<Rightarrow> string \<times> int \<Rightarrow> string \<times> int \<times> int \<times> string \<Rightarrow> bool" where
  "waits_on c key v \<longleftrightarrow>
     (\<exists>src label con. wait_source c = Some (src, label) \<and> con \<in> set (ci_consumers c) \<and> op_line con > 0 \<and>
        key = (op_kernel con, op_line con) \<and> v = (op_kernel src, op_line src, info_index c, label))"

lemma map_of_add_consumers:
  "map_of (add_consumers src i label cons m) key =
     (if \<exists>con \<in> set cons. op_line con > 0 \<and> key = (op_kernel con, op_line con)
      then Some (op_kernel src, op_line src, i, label) else map_of m key)"
  by (induction cons arbitrary: m) (auto simp: add_consumers_def update_conv')

definition add_info :: "wait_map \<Rightarrow> cb_info \<Rightarrow> wait_map" where
  "add_info m c =
     (case wait_source c of None \<Rightarrow> m | Some (src, label) \<Rightarrow> add_consumers src (info_index c) label (ci_consumers c) m)"

lemma map_of_add_info:
  "map_of (add_info m c) key = Some v \<longleftrightarrow>
     waits_on c key v \<or> (\<forall>u. \<not> waits_on c key u) \<and> map_of m key = Some v"
  by (auto simp: add_info_def waits_on_def map_of_add_consumers split: option.split)

lemma ex_split_snoc:
  "(\<exists>as c bs. xs @ [x] = as @ c # bs \<and> R c bs) \<longleftrightarrow>
     R x [] \<or> (\<exists>as c bs. xs = as @ c # bs \<and> R c (bs @ [x]))" (is "?L \<longleftrightarrow> ?R")
proof
  assume ?L
  then obtain as c bs where e: "xs @ [x] = as @ c # bs" and r: "R c bs" by blast
  show ?R
  proof (cases bs rule: rev_cases)
    case Nil
    with e r show ?thesis by simp
  next
    case (snoc bs' y)
    with e have "xs = as @ c # bs'" "y = x" by (simp_all flip: append_Cons append_assoc)
    with r snoc show ?thesis by blast
  qed
next
  assume ?R
  then show ?L by (metis append_Cons append_assoc append_Nil2 append.assoc)
qed

text \<open>
  A line is recorded as waiting for a source exactly if the last buffer that has a
  consumer there names that source: the first read barrier of the buffer, or without one the first
  producer of a buffer that is written to memory.
\<close>
lemma wait_map_last:
  "map_of (build_cb_wait_to_dma_map (Some cbs)) key = Some v \<longleftrightarrow>
     (\<exists>as c bs. cbs = as @ c # bs \<and> waits_on c key v \<and> \<not> (\<exists>d \<in> set bs. \<exists>u. waits_on d key u))"
proof -
  have b: "build_cb_wait_to_dma_map (Some cbs) = foldl add_info [] cbs"
    by (simp add: build_cb_wait_to_dma_map_def add_info_def [abs_def])
  show ?thesis unfolding b
  proof (induction cbs rule: rev_induct)
    case (snoc c cbs)
    have h: "map_of (foldl add_info [] (cbs @ [c])) key = Some v \<longleftrightarrow>
        waits_on c key v \<or> (\<forall>u. \<not> waits_on c key u) \<and> map_of (foldl add_info [] cbs) key = Some v"
      by (simp add: map_of_add_info)
    show ?case unfolding h snoc.IH ex_split_snoc set_append bex_Un by (simp del: split_paired_Ex split_paired_All) blast
  qed simp
qed

section \<open>What the cycles beside the lines add up to\<close>

lemma cycles_of_weighted:
  "cycles_of (filter P rs) + (\<Sum>r \<leftarrow> rs. res_cycles r * h r) =
     (\<Sum>r \<leftarrow> rs. res_cycles r * (h r + (if P r then 1 else 0)))"
  by (induction rs) (auto simp: cycles_of_def algebra_simps)

lemma cycles_of_groups:
  "(\<Sum>l \<leftarrow> ls. cycles_of (filter (\<lambda>r. f r = g l) rs)) =
     (\<Sum>r \<leftarrow> rs. res_cycles r * int (length (filter (\<lambda>l. f r = g l) ls)))"
proof (induction ls)
  case (Cons l ls)
  have "(\<Sum>r \<leftarrow> rs. res_cycles r * int (length (filter (\<lambda>l. f r = g l) (l # ls)))) =
      (\<Sum>r \<leftarrow> rs. res_cycles r * (int (length (filter (\<lambda>l. f r = g l) ls)) + (if f r = g l then 1 else 0)))"
    by (intro arg_cong [where f = sum_list] map_cong) auto
  then show ?case using Cons.IH by (simp add: cycles_of_weighted [symmetric])
qed simp

lemma count_distinct: "distinct xs \<Longrightarrow> x \<in> set xs \<Longrightarrow> length (filter (\<lambda>y. x = y) xs) = 1"
proof (induction xs)
  case (Cons y ys)
  then show ?case by (cases "x = y") (auto simp: filter_empty_conv)
qed simp

lemma keys_in_order_simps [simp]: "distinct (keys_in_order xs)" "set (keys_in_order xs) = set xs"
  by (simp_all add: keys_in_order_def)

lemma sum_sort_key: "(\<Sum>x \<leftarrow> sort_key k xs. f x) = (\<Sum>x \<leftarrow> xs. f (x :: 'a) :: int)"
proof -
  have "mset (map f (sort_key k xs)) = mset (map f xs)" by simp
  then show ?thesis by (metis sum_mset_sum_list)
qed

lemma op_groups_total: "(\<Sum>(k, ops) \<leftarrow> op_groups g. cycles_of ops) = cycles_of g"
proof -
  have "(\<Sum>(k, ops) \<leftarrow> op_groups g. cycles_of ops) =
      (\<Sum>k \<leftarrow> keys_in_order (map op_key g). cycles_of (filter (\<lambda>r. op_key r = k) g))"
    by (simp add: op_groups_def sum_sort_key comp_def)
  also have "\<dots> = (\<Sum>r \<leftarrow> g. res_cycles r * int (length (filter (\<lambda>k. op_key r = k) (keys_in_order (map op_key g)))))"
    by (rule cycles_of_groups [where g = "\<lambda>k. k"])
  also have "\<dots> = (\<Sum>r \<leftarrow> g. res_cycles r)"
    by (intro arg_cong [where f = sum_list] map_cong) (simp_all add: count_distinct)
  finally show ?thesis by (simp add: cycles_of_def)
qed


text \<open>Two lines with the same text both show the cycles of both.\<close>

lemma repeated_text_counts_twice:
  "(\<Sum>l \<leftarrow> [''x.wait()'', ''x.wait()'']. cycles_of (group_of
     [new_profile_result ''dm_L3_cb_wait'' ''NCRISC'' 10 3 ''x.wait()'',
      new_profile_result ''dm_L4_cb_wait'' ''NCRISC'' 20 4 ''x.wait()''] (strip (rstrip l)))) = 60"
  by code_simp

section \<open>The marker of the roofline\<close>

lemma fl_int_39: "fl_int 39 = (39 * 2 ^ 47, -47)"
  by code_simp

lemma times_39_le:
  assumes "snd x \<le> 0" and "0 \<le> fst x" and "fst x \<le> 2 ^ nat (- snd x)"
  shows "snd (d_mul x (fl_int 39)) \<le> 0 \<and> 0 \<le> fst (d_mul x (fl_int 39)) \<and>
    fst (d_mul x (fl_int 39)) \<le> 39 * 2 ^ nat (- snd (d_mul x (fl_int 39)))"
proof -
  let ?a = "fst x * (39 * 2 ^ 47)" and ?b = "2 ^ nat (47 - snd x) :: int"
  have n: "nat (47 - snd x) = 47 + nat (- snd x)" using assms(1) by simp
  have "fst x * 2 ^ 47 \<le> 2 ^ nat (- snd x) * 2 ^ 47" using assms(3) by simp
  then have le: "?a \<le> 39 * ?b" by (simp add: n power_add)
  have "d_mul x (fl_int 39) = fl_quot ?a ?b"
    using assms(1) by (simp add: d_mul_def fl_int_39 Let_def)
  also have "\<dots> = pos_quot ?a ?b" using assms(2) by (intro fl_quot_pos) simp_all
  finally show ?thesis using pos_quot_le [of ?a ?b 39] le assms(2) by simp
qed

lemma d_trunc_le:
  assumes "snd x \<le> 0" and "0 \<le> fst x" and "fst x \<le> k * 2 ^ nat (- snd x)"
  shows "0 \<le> d_trunc x \<and> d_trunc x \<le> k"
proof (cases "snd x = 0")
  case False
  have "fst x div 2 ^ nat (- snd x) \<le> (k * 2 ^ nat (- snd x)) div 2 ^ nat (- snd x)"
    using assms(3) by (intro zdiv_mono1) simp_all
  moreover have "0 \<le> fst x div 2 ^ nat (- snd x)" using assms(2) by (simp add: pos_imp_zdiv_nonneg_iff)
  moreover have "d_trunc x = fst x div 2 ^ nat (- snd x)"
    using assms(1,2) False by (cases "fst x = 0") (simp_all add: d_trunc_def)
  ultimately show ?thesis by simp
qed (use assms in \<open>simp add: d_trunc_def\<close>)

text \<open>
  Property C39: for work that is not negative the marker of the roofline, computed with floating point
  numbers, stays in the bar, which is always 39 strokes and the dot long.
\<close>
theorem marker_in_bar:
  assumes "0 \<le> memory" and "0 \<le> compute"
  shows "0 \<le> marker_pos memory compute \<and> marker_pos memory compute \<le> 39 \<and>
    length (concat (replicate (nat (marker_pos memory compute)) HORIZONTAL) @ DOT
      @ concat (replicate (nat (39 - marker_pos memory compute)) HORIZONTAL)) = 40 * length DOT"
proof -
  let ?x = "if memory + compute > 0 then fl_quot memory (memory + compute) else (1, -1)"
  have "snd ?x \<le> 0 \<and> 0 \<le> fst ?x \<and> fst ?x \<le> 2 ^ nat (- snd ?x)"
    using assms pos_quot_le [of memory "memory + compute" 1] by (simp add: fl_quot_pos)
  then have "0 \<le> marker_pos memory compute \<and> marker_pos memory compute \<le> 39"
    unfolding marker_pos_def using times_39_le [of ?x] d_trunc_le by blast
  moreover have "length (concat (replicate n HORIZONTAL)) = n * 3" for n
    by (induction n) (simp_all add: HORIZONTAL_def)
  ultimately show ?thesis by (auto simp: DOT_def nat_diff_distrib)
qed

theorem marker_in_bar_witness: "0 \<le> marker_pos 3000 1000 \<and> marker_pos 3000 1000 \<le> 39"
  using marker_in_bar [of 3000 1000] by simp

end
