(* ===== verification/Genops.thy ===== *)
theory Genops
  imports Perfsummary
begin

text \<open>
  \<open>python/gen_elementwise.py\<close>: the generator of the element-wise functions a thread can call, from
  the table of macros \<open>TTLElementwiseOps.def\<close> to the text of a Python module. The text of the table
  is an argument; reading and writing files is left out.
\<close>

section \<open>Parsing the table\<close>

text \<open>A pattern with \<open>^\<close> and \<open>re.MULTILINE\<close> that cannot match a line end is tried once on each line.\<close>

definition match_op :: "string \<Rightarrow> string \<Rightarrow> string option" where
  "match_op macro l =
     (if prefix (macro @ ''('') l
      then (let s = drop (length macro + 1) l; w = takeWhile is_word s in
            if w \<noteq> [] \<and> prefix '','' (drop (length w) s) then Some w else None)
      else None)"

definition BINARY_MACROS :: "string list" where
  "BINARY_MACROS = [''TTL_BINARY_TILE_OP_SPECIAL'', ''TTL_BINARY_TILE_OP_MINMAX'', ''TTL_BINARY_TILE_OP'']"

definition match_binary :: "string \<Rightarrow> string option" where
  "match_binary l =
     (case List.map_filter (\<lambda>m. match_op m l) BINARY_MACROS of [] \<Rightarrow> None | w # _ \<Rightarrow> Some w)"

definition match_unary :: "string \<Rightarrow> string option" where
  "match_unary = match_op ''TTL_UNARY_TILE_OP''"

definition is_upper :: "char \<Rightarrow> bool" where
  "is_upper c \<longleftrightarrow> (let n = of_char c :: nat in 65 \<le> n \<and> n \<le> 90 \<or> 192 \<le> n \<and> n \<le> 222 \<and> n \<noteq> 215)"

definition macro_parameters :: "string list" where
  "macro_parameters = [''ttl_op'', ''tile_op'', ''ttk_init'', ''ttk_compute'']"

text \<open>The name is in lower case before its first letter is tested.\<close>

definition kept_name :: "string \<Rightarrow> string option" where
  "kept_name w =
     (let name = lower w in
      if is_upper (hd name) \<or> name \<notin> set macro_parameters then Some name else None)"

definition ops_of :: "(string \<Rightarrow> string option) \<Rightarrow> string \<Rightarrow> string list" where
  "ops_of match content = List.map_filter (\<lambda>l. Option.bind (match l) kept_name) (split_on newline content)"

definition parse_def_file :: "string \<Rightarrow> string list \<times> string list" where
  "parse_def_file content = (ops_of match_binary content, ops_of match_unary content)"

section \<open>The generated module\<close>

definition unlines :: "string list \<Rightarrow> string" where
  "unlines ls = concat (map (\<lambda>l. l @ [newline]) ls)"

definition HEADER :: string where
  "HEADER = unlines
    [''# SPDX-FileCopyrightText: (c) 2025 Tenstorrent AI ULC'', ''#'', ''# SPDX-License-Identifier: Apache-2.0'', '''',
     ''\"\"\"'', ''Auto-generated elementwise operation wrappers.'', '''',
     ''DO NOT EDIT - Generated from TTLElementwiseOps.def by gen_elementwise.py'', ''\"\"\"'', '''',
     ''from __future__ import annotations'', '''', ''from typing import TYPE_CHECKING'', '''',
     ''from .dialects import ttl'', ''from ._src.ttl_ast import syntax'', '''', ''if TYPE_CHECKING:'',
     ''    from .operators import TensorBlock'', '''']"

definition BINARY_OP_TEMPLATE :: "string \<Rightarrow> string" where
  "BINARY_OP_TEMPLATE name = unlines
    [''@syntax(\"'' @ name @ ''\")'',
     ''def '' @ name @ ''(lhs: \"TensorBlock\", rhs: \"TensorBlock\") -> \"TensorBlock\":'',
     ''    \"\"\"Element-wise '' @ name @ '' operation.\"\"\"'',
     ''    return ttl.'' @ name @ ''(lhs.type, lhs, rhs)'', '''']"

definition UNARY_OP_TEMPLATE :: "string \<Rightarrow> string" where
  "UNARY_OP_TEMPLATE name = unlines
    [''@syntax(\"'' @ name @ ''\")'',
     ''def '' @ name @ ''(input: \"TensorBlock\") -> \"TensorBlock\":'',
     ''    \"\"\"Element-wise '' @ name @ '' operation.\"\"\"'',
     ''    return ttl.'' @ name @ ''(input.type, input)'', '''']"

definition ALL_TEMPLATE :: "string \<Rightarrow> string" where
  "ALL_TEMPLATE entries = unlines [''__all__ = ['', entries, '']'']"

definition generate_python :: "string list \<Rightarrow> string list \<Rightarrow> string" where
  "generate_python binary_ops unary_ops =
    HEADER
    @ (if binary_ops \<noteq> []
       then unlines [''# Binary elementwise operations''] @ concat (map BINARY_OP_TEMPLATE binary_ops) else [])
    @ (if unary_ops \<noteq> []
       then unlines [''# Unary elementwise operations''] @ concat (map UNARY_OP_TEMPLATE unary_ops) else [])
    @ ALL_TEMPLATE (join ('','' @ [newline]) (map (\<lambda>op1. ''    \"'' @ op1 @ ''\"'') (binary_ops @ unary_ops)))"

section \<open>What the module registers\<close>

text \<open>The names of the lines \<open>@syntax("NAME")\<close> of a module, in order.\<close>

definition registered_name :: "string \<Rightarrow> string option" where
  "registered_name l =
    (if prefix ''@syntax(\"'' l
     then (let s = drop 9 l; w = takeWhile is_word s in if drop (length w) s = ''\")'' then Some w else None)
     else None)"

definition registered_names :: "string \<Rightarrow> string list" where
  "registered_names src = List.map_filter registered_name (split_on newline src)"

lemma map_filter_append [simp]: "List.map_filter f (xs @ ys) = List.map_filter f xs @ List.map_filter f ys"
  by (simp add: List.map_filter_def)

lemma map_filter_simps [simp]:
  "List.map_filter f [] = []"
  "List.map_filter f (x # xs) = (case f x of None \<Rightarrow> List.map_filter f xs | Some y \<Rightarrow> y # List.map_filter f xs)"
  by (simp_all add: List.map_filter_def split: option.splits)

lemma registered_line: "newline \<notin> set l \<Longrightarrow> registered_names (l @ newline # s) =
    (case registered_name l of None \<Rightarrow> [] | Some w \<Rightarrow> [w]) @ registered_names s"
  by (simp add: registered_names_def split_on_cons_part split: option.splits)

lemma registered_unlines:
  "\<forall>l \<in> set ls. newline \<notin> set l \<Longrightarrow> registered_names (unlines ls @ s) = List.map_filter registered_name ls @ registered_names s"
  by (induction ls) (auto simp: unlines_def registered_line split: option.splits)

lemma newline_not_word: "\<not> is_word newline"
  by (simp add: is_word_def newline_def)

lemma word_no_newline: "\<forall>c \<in> set w. is_word c \<Longrightarrow> newline \<notin> set w"
  using newline_not_word by blast

lemma registered_syntax:
  assumes "\<forall>c \<in> set w. is_word c"
  shows "registered_name (''@syntax('' @ [CHR 0x22] @ w @ [CHR 0x22] @ '')'') = Some w"
proof -
  have "takeWhile is_word (w @ CHR 0x22 # '')'') = w"
    using assms by (simp add: takeWhile_append is_word_def)
  then show ?thesis by (simp add: registered_name_def)
qed

lemma registered_chunk:
  assumes "\<forall>l \<in> set ls. newline \<notin> set l" and "List.map_filter registered_name ls = ws"
  shows "registered_names (unlines ls @ s) = ws @ registered_names s"
  using registered_unlines [OF assms(1)] assms(2) by simp

lemma other_line: "registered_name [] = None" "c \<noteq> CHR ''@'' \<Longrightarrow> registered_name (c # l) = None"
  by (simp_all add: registered_name_def)

definition words :: "string list \<Rightarrow> bool" where
  "words ws \<longleftrightarrow> (\<forall>w \<in> set ws. \<forall>c \<in> set w. is_word c)"

lemma newline_code: "newline = CHR 0x0A"
  by (simp add: newline_def)

lemma registered_template:
  assumes "\<forall>c \<in> set w. is_word c"
  shows "registered_names (BINARY_OP_TEMPLATE w @ s) = w # registered_names s"
    and "registered_names (UNARY_OP_TEMPLATE w @ s) = w # registered_names s"
proof -
  have n: "newline \<notin> set w" using assms by (rule word_no_newline)
  have r: "registered_name (CHR ''@'' # ''syntax('' @ CHR 0x22 # w @ CHR 0x22 # '')'') = Some w"
    using registered_syntax [OF assms] by simp
  show "registered_names (BINARY_OP_TEMPLATE w @ s) = w # registered_names s"
    unfolding BINARY_OP_TEMPLATE_def
    by (subst registered_chunk [where ws = "[w]"]) (use n r in \<open>auto simp: newline_code other_line\<close>)
  show "registered_names (UNARY_OP_TEMPLATE w @ s) = w # registered_names s"
    unfolding UNARY_OP_TEMPLATE_def
    by (subst registered_chunk [where ws = "[w]"]) (use n r in \<open>auto simp: newline_code other_line\<close>)
qed

lemma registered_templates:
  assumes "words ws"
  shows "registered_names (concat (map BINARY_OP_TEMPLATE ws) @ s) = ws @ registered_names s"
    and "registered_names (concat (map UNARY_OP_TEMPLATE ws) @ s) = ws @ registered_names s"
  using assms by (induction ws) (auto simp: words_def registered_template)

lemma registered_entries:
  assumes "words ws"
  shows "registered_names (join ('','' @ [newline]) (map (\<lambda>op1. ''    \"'' @ op1 @ ''\"'') ws) @ newline # s) = registered_names s"
  using assms
proof (induction ws rule: induct_list012)
  case 1
  show ?case using registered_line [of "[]" s] by (simp add: other_line)
next
  case (2 w)
  then have "newline \<notin> set w" by (simp add: words_def word_no_newline)
  then show ?case using registered_line [of "''    \"'' @ w @ ''\"''" s] by (simp add: other_line newline_code)
next
  case (3 w v ws)
  then have "newline \<notin> set w" by (simp add: words_def word_no_newline)
  then show ?case using 3 registered_line [of "''    \"'' @ w @ ''\",''"]
    by (simp add: other_line newline_code words_def)
qed

lemma registered_header: "registered_names (HEADER @ s) = registered_names s"
  unfolding HEADER_def by (subst registered_chunk [where ws = "[]"]) (simp_all add: other_line newline_code)

lemma registered_generated:
  assumes "words bs" and "words us"
  shows "registered_names (generate_python bs us) = bs @ us"
proof -
  have heading: "registered_names (unlines [CHR ''#'' # l] @ s) = registered_names s" if "newline \<notin> set l" for l s
    using registered_chunk [of "[CHR ''#'' # l]" "[]" s] that by (simp add: other_line newline_code)
  have "registered_names (ALL_TEMPLATE (join ('','' @ [newline]) (map (\<lambda>op1. ''    \"'' @ op1 @ ''\"'') (bs @ us)))) = []"
    using registered_entries [of "bs @ us" "'']'' @ [newline]"] assms registered_line [of "''__all__ = [''"]
      registered_line [of "'']''" "[]"]
    by (simp add: ALL_TEMPLATE_def unlines_def words_def ball_Un other_line newline_code)
      (simp add: registered_names_def other_line)
  then show ?thesis using assms
    by (cases "bs = []"; cases "us = []")
      (simp_all add: generate_python_def registered_header heading registered_templates newline_code)
qed

section \<open>From the table to the module\<close>

text \<open>
  A line of the table: an operation of two operands with the suffix of its macro, of one operand, or a
  line that starts with none of these macros, such as a comment or a \<open>#define\<close>.
\<close>

datatype def_line = Binary string string string | Unary string string | Plain string

fun show_def_line :: "def_line \<Rightarrow> string" where
  "show_def_line (Binary sfx n r) = ''TTL_BINARY_TILE_OP'' @ sfx @ ''('' @ n @ '','' @ r"
| "show_def_line (Unary n r) = ''TTL_UNARY_TILE_OP('' @ n @ '','' @ r"
| "show_def_line (Plain t) = t"

definition op_name_ok :: "string \<Rightarrow> bool" where
  "op_name_ok n \<longleftrightarrow> n \<noteq> [] \<and> (\<forall>c \<in> set n. is_word c) \<and> lower n \<notin> set macro_parameters"

fun def_line_ok :: "def_line \<Rightarrow> bool" where
  "def_line_ok (Binary sfx n r) \<longleftrightarrow> sfx \<in> {[], ''_SPECIAL'', ''_MINMAX''} \<and> op_name_ok n \<and> newline \<notin> set r"
| "def_line_ok (Unary n r) \<longleftrightarrow> op_name_ok n \<and> newline \<notin> set r"
| "def_line_ok (Plain t) \<longleftrightarrow> newline \<notin> set t \<and> \<not> prefix ''TTL_BINARY_TILE_OP'' t \<and> \<not> prefix ''TTL_UNARY_TILE_OP'' t"

definition binary_names :: "def_line list \<Rightarrow> string list" where
  "binary_names ls = List.map_filter (\<lambda>l. case l of Binary _ n _ \<Rightarrow> Some (lower n) | _ \<Rightarrow> None) ls"

definition unary_names :: "def_line list \<Rightarrow> string list" where
  "unary_names ls = List.map_filter (\<lambda>l. case l of Unary n _ \<Rightarrow> Some (lower n) | _ \<Rightarrow> None) ls"

lemma takeWhile_name: "op_name_ok n \<Longrightarrow> takeWhile is_word (n @ CHR '','' # r) = n"
  by (simp add: op_name_ok_def takeWhile_append is_word_def)

lemma match_op_name: "op_name_ok n \<Longrightarrow> match_op m (m @ ''('' @ n @ '','' @ r) = Some n"
  using takeWhile_name [of n r] by (simp add: match_op_def op_name_ok_def)

lemma kept_ok: "op_name_ok n \<Longrightarrow> kept_name n = Some (lower n)"
  by (simp add: kept_name_def op_name_ok_def)

lemma match_op_other: "\<not> prefix m l \<Longrightarrow> match_op m l = None"
  by (auto simp: match_op_def prefix_def)

lemma match_op_prefix: "\<not> prefix (m @ ''('') l \<Longrightarrow> match_op m l = None"
  by (simp add: match_op_def)

lemma parsed_binary:
  assumes "def_line_ok l"
  shows "Option.bind (match_binary (show_def_line l)) kept_name = (case l of Binary _ n _ \<Rightarrow> Some (lower n) | _ \<Rightarrow> None)"
proof (cases l)
  case (Binary sfx n r)
  have "match_op ''TTL_BINARY_TILE_OP_SPECIAL'' (''TTL_BINARY_TILE_OP_SPECIAL('' @ n @ '','' @ r) = Some n"
    "match_op ''TTL_BINARY_TILE_OP_MINMAX'' (''TTL_BINARY_TILE_OP_MINMAX('' @ n @ '','' @ r) = Some n"
    "match_op ''TTL_BINARY_TILE_OP'' (''TTL_BINARY_TILE_OP('' @ n @ '','' @ r) = Some n"
    using assms match_op_name [of n "''TTL_BINARY_TILE_OP_SPECIAL''" r] match_op_name [of n "''TTL_BINARY_TILE_OP_MINMAX''" r]
      match_op_name [of n "''TTL_BINARY_TILE_OP''" r] by (auto simp: Binary)
  with assms show ?thesis
    by (auto simp: Binary match_binary_def BINARY_MACROS_def match_op_prefix kept_ok)
next
  case (Unary n r)
  then show ?thesis by (simp add: match_binary_def BINARY_MACROS_def match_op_prefix)
next
  case (Plain t)
  have "\<not> prefix (''TTL_BINARY_TILE_OP'' @ s) t" for s
    using assms append_prefixD unfolding Plain def_line_ok.simps by metis
  from this [of "''_SPECIAL''"] this [of "''_MINMAX''"] this [of "[]"] show ?thesis
    by (simp add: Plain match_binary_def BINARY_MACROS_def match_op_other)
qed

lemma parsed_unary:
  assumes "def_line_ok l"
  shows "Option.bind (match_unary (show_def_line l)) kept_name = (case l of Unary n _ \<Rightarrow> Some (lower n) | _ \<Rightarrow> None)"
proof (cases l)
  case (Binary sfx n r)
  then show ?thesis by (simp add: match_unary_def match_op_prefix)
next
  case (Unary n r)
  have "match_op ''TTL_UNARY_TILE_OP'' (''TTL_UNARY_TILE_OP('' @ n @ '','' @ r) = Some n"
    using assms match_op_name [of n "''TTL_UNARY_TILE_OP''" r] by (simp add: Unary)
  with assms show ?thesis by (simp add: Unary match_unary_def kept_ok)
next
  case (Plain t)
  with assms show ?thesis by (simp add: match_unary_def match_op_other)
qed

lemma lower_char_word: "is_word c \<Longrightarrow> is_word (lower_char c)"
  by (auto simp: is_word_def lower_char_def Let_def of_char_of split: if_splits)

lemma words_names: "\<forall>l \<in> set ls. def_line_ok l \<Longrightarrow> words (binary_names ls) \<and> words (unary_names ls)"
  by (induction ls)
    (auto simp: words_def binary_names_def unary_names_def lower_def op_name_ok_def lower_char_word split: def_line.splits)

lemma show_def_line_no_newline: "def_line_ok l \<Longrightarrow> newline \<notin> set (show_def_line l)"
  by (cases l) (auto simp: op_name_ok_def newline_code dest: word_no_newline)

lemma map_filter_map: "List.map_filter f (map g xs) = List.map_filter (\<lambda>x. f (g x)) xs"
  by (induction xs) (auto split: option.splits)

lemma map_filter_cong_set: "(\<And>x. x \<in> set xs \<Longrightarrow> f x = g x) \<Longrightarrow> List.map_filter f xs = List.map_filter g xs"
  by (induction xs) (auto split: option.splits)

text \<open>Property C33: from a table of operations the generator reads the names of the operations with two and
  with one operand in their order, passing over all other lines, and writes a module that registers
  exactly these names, in this order, for the compiler.\<close>

theorem table_round_trip:
  assumes "ls \<noteq> []" and ok: "\<forall>l \<in> set ls. def_line_ok l"
  shows "parse_def_file (join [newline] (map show_def_line ls)) = (binary_names ls, unary_names ls) \<and>
    registered_names (case_prod generate_python (parse_def_file (join [newline] (map show_def_line ls)))) =
      binary_names ls @ unary_names ls"
proof -
  have "split_on newline (join [newline] (map show_def_line ls)) = map show_def_line ls"
    using assms show_def_line_no_newline by (intro split_on_join) auto
  then have "parse_def_file (join [newline] (map show_def_line ls)) = (binary_names ls, unary_names ls)"
    using ok parsed_binary parsed_unary unfolding parse_def_file_def ops_of_def binary_names_def unary_names_def
    by (auto simp: map_filter_map intro!: map_filter_cong_set)
  with words_names [OF ok] registered_generated show ?thesis by simp
qed

lemma table_round_trip_witness:
  "registered_names (case_prod generate_python (parse_def_file (join [newline]
     [''#define TTL_BINARY_TILE_OP(TTL_OP, TILE_OP)'', ''TTL_BINARY_TILE_OP_MINMAX(Max, MaxTileOp)'',
      ''TTL_UNARY_TILE_OP(Exp, ExpTileOp)'']))) = [''max'', ''exp'']"
proof -
  have "lower ''Max'' = ''max''" "lower ''Exp'' = ''exp''" by code_simp+
  then show ?thesis
    using table_round_trip [of "[Plain ''#define TTL_BINARY_TILE_OP(TTL_OP, TILE_OP)'', Binary ''_MINMAX'' ''Max'' '' MaxTileOp)'',
      Unary ''Exp'' '' ExpTileOp)'']"]
    by (auto simp: op_name_ok_def is_word_def macro_parameters_def newline_def binary_names_def unary_names_def)
qed

end
