(* ===== verification/Mlir.thy ===== *)
theory Mlir
  imports Kernelapi Autoprofile
begin

text \<open>
  What the compiler front end builds: operations of MLIR in blocks, values with types, and the
  Python values the visitor passes around. MLIR's Python bindings are not part of the repository,
  so an operation is the record of the call that creates it: its name, operands, attributes, the
  blocks it owns and its location. What the bindings decide by themselves (the type of a result the
  call does not give, which attributes a Python object has, the exceptions for unsuitable
  arguments) is the parameter record \<open>mlir\<close>.
\<close>

section \<open>Types and values\<close>

datatype ty =
    T_index
  | T_int nat
  | T_f32
  | T_tile int int core_dtype
  | T_memref "int list" ty
  | T_tensor "int list" ty "ttnn_layout option"
  | T_cb "int list" ty int
  | T_handle string
  | T_other string

text \<open>\<open>_get_type_str\<close>: what comes before the first \<open><\<close> of the printed type, with a \<open>!\<close> in front.\<close>

definition get_type_str :: "ty \<Rightarrow> string" where
  "get_type_str t =
     (case t of
        T_index \<Rightarrow> ''!index''
      | T_int w \<Rightarrow> ''!i'' @ show_nat w
      | T_f32 \<Rightarrow> ''!f32''
      | T_tile _ _ _ \<Rightarrow> ''!ttcore.tile''
      | T_memref _ _ \<Rightarrow> ''!memref''
      | T_tensor _ _ _ \<Rightarrow> ''!tensor''
      | T_cb _ _ _ \<Rightarrow> ''!ttl.cb''
      | T_handle _ \<Rightarrow> ''!ttl.transfer_handle''
      | T_other n \<Rightarrow> (if prefix ''!'' n then n else CHR ''!'' # n))"

definition is_memref :: "ty \<Rightarrow> bool" where
  "is_memref t = (case t of T_memref _ _ \<Rightarrow> True | _ \<Rightarrow> False)"

definition int_width :: "ty \<Rightarrow> nat option" where
  "int_width t = (case t of T_int w \<Rightarrow> Some w | _ \<Rightarrow> None)"

datatype attr = A_int int | A_str string | A_ty ty

text \<open>
  A value is an argument of a block or the result of an operation, which is carried along with
  its name, operands and attributes (\<open>value.owner\<close>).
\<close>

datatype val = Block_arg nat ty | Result nat string "val list" "attr list" ty

fun ty_of :: "val \<Rightarrow> ty" where
  "ty_of (Block_arg _ t) = t"
| "ty_of (Result _ _ _ _ t) = t"

datatype location = Loc_unknown | Loc_name string | Loc_file string int int

record operation =
  op_name :: string
  op_operands :: "val list"
  op_attrs :: "attr list"
  op_result :: "val option"
  op_blocks :: "nat list"
  op_loc :: location

text \<open>
  A Python value: \<open>P_value\<close> is an \<open>ir.Value\<close>, \<open>P_view\<close> the Python class of an operation with one
  result (an \<open>OpView\<close>), \<open>P_op\<close> that of an operation without result, \<open>P_module\<close> the module \<open>ttl\<close>.
  \<open>P_const\<close> is a constant of another class, given by the name of its class and its text.
\<close>

datatype pyval =
    P_none
  | P_bool bool
  | P_int int
  | P_str string
  | P_const string string
  | P_value val
  | P_view val
  | P_op string
  | P_type ty
  | P_module
  | P_list "pyval list"
  | P_tuple "pyval list"

text \<open>\<open>bool(v)\<close>.\<close>

definition truthy :: "pyval \<Rightarrow> bool" where
  "truthy v =
     (case v of
        P_none \<Rightarrow> False
      | P_bool b \<Rightarrow> b
      | P_int i \<Rightarrow> i \<noteq> 0
      | P_str s \<Rightarrow> s \<noteq> []
      | P_list vs \<Rightarrow> vs \<noteq> []
      | P_tuple vs \<Rightarrow> vs \<noteq> []
      | _ \<Rightarrow> True)"

text \<open>
  The bindings: the type of a result that is inferred, whether the class of an operation has an
  attribute \<open>type\<close>, the exceptions for an argument that is no value and for an element type a
  memref cannot have, and what reading \<open>name\<close> of the block that owns an argument raises.
\<close>

record mlir =
  infer :: "string \<Rightarrow> val list \<Rightarrow> attr list \<Rightarrow> ty result"
  view_has_type :: "string \<Rightarrow> bool"
  operand_error :: exn
  memref_elem :: "ty \<Rightarrow> unit result"
  block_name_error :: exn

text \<open>\<open>v.type\<close> and \<open>hasattr(v, "type")\<close>.\<close>

definition has_type :: "mlir \<Rightarrow> pyval \<Rightarrow> bool" where
  "has_type lib v =
     (case v of
        P_value _ \<Rightarrow> True
      | P_view (Result _ n _ _ _) \<Rightarrow> view_has_type lib n
      | _ \<Rightarrow> False)"

fun pv_val :: "pyval \<Rightarrow> val option" where
  "pv_val (P_value v) = Some v"
| "pv_val (P_view v) = Some v"
| "pv_val _ = None"

definition type_of :: "mlir \<Rightarrow> pyval \<Rightarrow> ty result" where
  "type_of lib v =
     (if has_type lib v
      then (case pv_val v of Some w \<Rightarrow> Inr (ty_of w) | None \<Rightarrow> Inl (AttributeError ''type''))
      else Inl (AttributeError ''type''))"

text \<open>A Python value as the operand of an operation: of a view its result is taken.\<close>

definition operand_of :: "mlir \<Rightarrow> pyval \<Rightarrow> val result" where
  "operand_of lib v = (case pv_val v of Some w \<Rightarrow> Inr w | None \<Rightarrow> Inl (operand_error lib))"

lemma type_of_eq_Inr: "type_of lib v = Inr t \<Longrightarrow> \<exists>w. pv_val v = Some w \<and> ty_of w = t"
  by (auto simp: type_of_def split: if_splits option.splits)

lemma operand_of_eq_Inr [simp]: "operand_of lib v = Inr w \<longleftrightarrow> pv_val v = Some w"
  by (auto simp: operand_of_def split: option.splits)

lemma type_of_operand: "type_of lib v = Inr t \<Longrightarrow> pv_val v = Some w \<Longrightarrow> ty_of w = t"
  using type_of_eq_Inr by fastforce

lemma type_of_value [simp]: "type_of lib (P_value v) = Inr (ty_of v)"
  by (simp add: type_of_def has_type_def)

section \<open>The state of the visitor\<close>

text \<open>
  The blocks built so far, the block that is filled, the current location; the symbol tables, the
  innermost first; the line whose signpost is open and the registered signposts
  (\<open>get_line_mapper()\<close>); and what \<open>_emit_entry\<close> sets.
\<close>

record cstate =
  next_value :: nat
  next_block :: nat
  blocks :: "nat \<Rightarrow> operation list"
  ip :: nat
  cur_loc :: location
  symbol_tables :: "(string \<times> pyval) list list"
  signpost_line :: "int option"
  line_mapper :: source_line_mapper
  func_entry :: bool
  accessor_names :: "string list"
  accessor_indices :: "int list"

type_synonym 'a build = "(cstate, 'a) state_op"

definition add_op :: "string \<Rightarrow> val list \<Rightarrow> attr list \<Rightarrow> val option \<Rightarrow> nat list \<Rightarrow> cstate \<Rightarrow> cstate" where
  "add_op n vs attrs r bs s =
     s\<lparr>blocks := (blocks s)(ip s := blocks s (ip s) @
         [\<lparr>op_name = n, op_operands = vs, op_attrs = attrs, op_result = r, op_blocks = bs,
           op_loc = cur_loc s\<rparr>])\<rparr>"

text \<open>An operation with one result of a given type, one with an inferred type, one without result.\<close>

definition emit :: "string \<Rightarrow> val list \<Rightarrow> attr list \<Rightarrow> ty \<Rightarrow> val build" where
  "emit n vs attrs t s =
     (let v = Result (next_value s) n vs attrs t
      in (Inr v, (add_op n vs attrs (Some v) [] s)\<lparr>next_value := next_value s + 1\<rparr>))"

definition sresult :: "'a result \<Rightarrow> 'a build" where
  "sresult r = slift (\<lambda>_. r)"

lemma sresult_simp [simp, res_simps]: "sresult r s = (r, s)"
  by (simp add: sresult_def)

definition emit_infer :: "mlir \<Rightarrow> string \<Rightarrow> val list \<Rightarrow> attr list \<Rightarrow> val build" where
  "emit_infer lib n vs attrs = sbind (sresult (infer lib n vs attrs)) (emit n vs attrs)"

definition emit_op :: "string \<Rightarrow> val list \<Rightarrow> attr list \<Rightarrow> unit build" where
  "emit_op n vs attrs = smodify (add_op n vs attrs None [])"

definition operands :: "mlir \<Rightarrow> pyval list \<Rightarrow> val list build" where
  "operands lib vs = sresult (rmap (operand_of lib) vs)"

text \<open>\<open>arith.ConstantOp(t, i)\<close>, an operation whose class has the attribute \<open>literal_value\<close>.\<close>

definition const_op :: "ty \<Rightarrow> int \<Rightarrow> val build" where
  "const_op t i = emit ''arith.constant'' [] [A_int i] t"

text \<open>\<open>memref.LoadOp(v, 0)\<close>, and a value read through its memref if it is one.\<close>

definition load :: "mlir \<Rightarrow> val \<Rightarrow> val build" where
  "load lib v =
     sbind (const_op T_index 0) (\<lambda>z.
     emit_infer lib ''memref.load'' [v, z] [])"

definition loaded :: "mlir \<Rightarrow> pyval \<Rightarrow> pyval build" where
  "loaded lib v =
     sbind (sresult (type_of lib v)) (\<lambda>t.
     if is_memref t
     then sbind (operands lib [v]) (\<lambda>ws. sbind (load lib (hd ws)) (\<lambda>r. sreturn (P_value r)))
     else sreturn v)"

definition store_at_0 :: "mlir \<Rightarrow> pyval \<Rightarrow> pyval \<Rightarrow> unit build" where
  "store_at_0 lib v m =
     sbind (const_op T_index 0) (\<lambda>z.
     sbind (operands lib [v, m]) (\<lambda>ws.
     emit_op ''memref.store'' (ws @ [z]) []))"

text \<open>\<open>_cast(val, ty)\<close>.\<close>

definition cast :: "mlir \<Rightarrow> pyval \<Rightarrow> ty \<Rightarrow> pyval build" where
  "cast lib v t =
     sbind (sresult (type_of lib v)) (\<lambda>vt.
     if vt = t then sreturn v
     else if t = T_index \<or> (vt = T_index \<and> int_width t \<noteq> None)
     then sbind (operands lib [v]) (\<lambda>ws.
          sbind (emit ''arith.index_cast'' ws [] t) (\<lambda>r. sreturn (P_value r)))
     else (case (vt, t) of
             (T_tensor _ _ _, T_tensor _ _ _) \<Rightarrow> sraise (TypeError ''shape mismatch'')
           | _ \<Rightarrow> sraise (TypeError ''Unhandled cast'')))"

section \<open>Symbol tables\<close>

text \<open>\<open>_var_exists(name)[name]\<close>: the innermost table that has the name.\<close>

fun var_lookup :: "(string \<times> pyval) list list \<Rightarrow> string \<Rightarrow> pyval option" where
  "var_lookup [] x = None"
| "var_lookup (t # ts) x = (case map_of t x of Some v \<Rightarrow> Some v | None \<Rightarrow> var_lookup ts x)"

definition lookup :: "string \<Rightarrow> pyval option build" where
  "lookup x s = (Inr (var_lookup (symbol_tables s) x), s)"

text \<open>\<open>self.symbol_tables[-1][name] = v\<close>.\<close>

definition bind_name :: "string \<Rightarrow> pyval \<Rightarrow> unit build" where
  "bind_name x v s =
     (case symbol_tables s of
        [] \<Rightarrow> (Inl (IndexError ''list index out of range''), s)
      | t # ts \<Rightarrow> (Inr (), s\<lparr>symbol_tables := AList.update x v t # ts\<rparr>))"

lemma var_lookup_update [simp]:
  "var_lookup (AList.update x v t # ts) y = (if x = y then Some v else var_lookup (t # ts) y)"
  by (simp add: update_conv')

end
