(* ===== verification/Operators.thy ===== *)
theory Operators
  imports Mlir
begin

text \<open>
  The functions a thread can call, \<open>python/ttl/operators.py\<close> with the methods of
  \<open>CircularBuffer\<close> and the element-wise functions \<open>gen_elementwise.py\<close> generates, as the compiler
  calls them: by name from \<open>TTLGenericCompiler._syntax\<close>, on Python values, emitting operations.
\<close>

section \<open>Calling convention\<close>

text \<open>
  The values of the parameters \<open>ps\<close> and the keyword-only parameters \<open>ks\<close> of a function without
  defaults, in the order of its signature. A keyword is \<open>None\<close> for \<open>**kwargs\<close>.
\<close>

type_synonym kwarg = "string option \<times> pyval"

definition bind_param :: "kwarg list \<Rightarrow> string \<Rightarrow> pyval result" where
  "bind_param kws p =
     (case map_of kws (Some p) of
        Some v \<Rightarrow> Inr v
      | None \<Rightarrow> Inl (TypeError ''missing a required argument''))"

definition bind_params :: "string list \<Rightarrow> string list \<Rightarrow> pyval list \<Rightarrow> kwarg list \<Rightarrow> pyval list result" where
  "bind_params ps ks args kws =
     rbind (guard (length args \<le> length ps) (TypeError ''too many positional arguments'')) (\<lambda>_.
     rbind (guard (list_all (\<lambda>(k, _). case k of None \<Rightarrow> False
                               | Some p \<Rightarrow> p \<in> set (drop (length args) ps @ ks)) kws)
       (TypeError ''got an unexpected keyword argument'')) (\<lambda>_.
     rbind (rmap (bind_param kws) (drop (length args) ps @ ks)) (\<lambda>vs. Inr (args @ vs))))"

section \<open>Blocks of a buffer\<close>

text \<open>\<open>_is_block\<close>: the result of \<open>ttl.attach_cb\<close>. The owner of a block argument has no name.\<close>

definition is_block :: "mlir \<Rightarrow> pyval \<Rightarrow> bool result" where
  "is_block lib v =
     (case v of
        P_value (Result _ n _ _ _) \<Rightarrow> Inr (n = ''ttl.attach_cb'')
      | P_value (Block_arg _ _) \<Rightarrow> Inl (block_name_error lib)
      | _ \<Rightarrow> Inr False)"

definition get_cb_from_block :: "pyval \<Rightarrow> val result" where
  "get_cb_from_block v =
     (case v of
        P_value (Result _ _ vs _ _) \<Rightarrow> py_nth vs 1
      | _ \<Rightarrow> Inl (AttributeError ''owner''))"

definition get_cb_shape :: "val \<Rightarrow> int list result" where
  "get_cb_shape cb =
     (case ty_of cb of
        T_cb shp _ _ \<Rightarrow> Inr shp
      | _ \<Rightarrow> Inl (ValueError ''Expected CircularBufferType''))"

text \<open>\<open>_get_cb_tensor_type\<close>, of both files.\<close>

definition get_cb_tensor_type :: "ty \<Rightarrow> ty result" where
  "get_cb_tensor_type t =
     (case t of
        T_cb shp elem _ \<Rightarrow> Inr (T_tensor shp elem None)
      | _ \<Rightarrow> Inl (ValueError ''Expected CircularBufferType''))"

definition need_block :: "mlir \<Rightarrow> string \<Rightarrow> pyval \<Rightarrow> unit build" where
  "need_block lib msg v =
     sbind (sresult (is_block lib v)) (\<lambda>b. if b then sreturn () else sraise (ValueError msg))"

section \<open>The methods of TensorBlock, the transfer handle and CircularBuffer\<close>

text \<open>\<open>ttl.NAME(x.type, x, ...)\<close>: an operation of the type of its first operand.\<close>

definition like_first :: "mlir \<Rightarrow> string \<Rightarrow> pyval \<Rightarrow> pyval list \<Rightarrow> pyval build" where
  "like_first lib name v vs =
     sbind (sresult (type_of lib v)) (\<lambda>t.
     sbind (operands lib (v # vs)) (\<lambda>ws.
     sbind (emit (''ttl.'' @ name) ws [] t) (\<lambda>r. sreturn (P_value r))))"

definition attach_cb :: "mlir \<Rightarrow> pyval \<Rightarrow> pyval \<Rightarrow> pyval build" where
  "attach_cb lib tensor cb = like_first lib ''attach_cb'' tensor [cb]"

definition block_store :: "mlir \<Rightarrow> pyval \<Rightarrow> pyval \<Rightarrow> pyval build" where
  "block_store lib blk rhs =
     sbind (need_block lib ''store() must be called on a block acquired from reserve(), not a regular tensor'' blk) (\<lambda>_.
     sbind (operands lib [rhs, blk]) (\<lambda>ws.
     sbind (emit_op ''ttl.store'' ws []) (\<lambda>_.
     sbind (sresult (get_cb_from_block blk)) (\<lambda>cb.
     attach_cb lib rhs (P_value cb)))))"

definition block_release :: "mlir \<Rightarrow> string \<Rightarrow> string \<Rightarrow> pyval \<Rightarrow> pyval build" where
  "block_release lib msg name blk =
     sbind (need_block lib msg blk) (\<lambda>_.
     sbind (sresult (get_cb_from_block blk)) (\<lambda>cb.
     sbind (emit_op name [cb] []) (\<lambda>_. sreturn P_none)))"

definition block_push :: "mlir \<Rightarrow> pyval \<Rightarrow> pyval build" where
  "block_push lib = block_release lib
     ''push() must be called on a block acquired from reserve(), not a regular tensor'' ''ttl.cb_push''"

definition block_pop :: "mlir \<Rightarrow> pyval \<Rightarrow> pyval build" where
  "block_pop lib = block_release lib
     ''pop() must be called on a block acquired from wait(), not a regular tensor'' ''ttl.cb_pop''"

definition handle_wait :: "mlir \<Rightarrow> pyval \<Rightarrow> pyval build" where
  "handle_wait lib h =
     sbind (operands lib [h]) (\<lambda>ws.
     sbind (emit_op ''ttl.wait'' ws []) (\<lambda>_. sreturn (P_op ''ttl.wait'')))"

definition cb_acquire :: "mlir \<Rightarrow> string \<Rightarrow> pyval \<Rightarrow> pyval build" where
  "cb_acquire lib name cb =
     sbind (sresult (type_of lib cb)) (\<lambda>ct.
     sbind (sresult (get_cb_tensor_type ct)) (\<lambda>t.
     sbind (operands lib [cb]) (\<lambda>ws.
     sbind (emit name ws [] t) (\<lambda>tensor.
     attach_cb lib (P_value tensor) cb))))"

section \<open>copy\<close>

definition make_tensor_slice :: "mlir \<Rightarrow> pyval \<Rightarrow> pyval list \<Rightarrow> int list \<Rightarrow> pyval build" where
  "make_tensor_slice lib tensor indices slice_shape =
     sbind (sresult (type_of lib tensor)) (\<lambda>t.
     case t of
       T_tensor shp elem enc \<Rightarrow>
         if length shp \<noteq> 2 then sraise (ValueError ''Expected rank-2 TTL tensor'')
         else (case indices of
             [row, col] \<Rightarrow>
               sbind (operands lib [tensor, row, col]) (\<lambda>ws.
               sbind (emit ''ttl.tensor_slice'' ws [] (T_tensor slice_shape elem enc)) (\<lambda>r.
                 sreturn (P_value r)))
           | _ \<Rightarrow> sraise (ValueError ''Expected 2 tile indices (row, col)''))
     | _ \<Rightarrow> sraise (ValueError ''Expected RankedTensorType''))"

text \<open>The pairs of a subscript: the start index and whether it comes from a range.\<close>

definition index_pair :: "pyval \<Rightarrow> (pyval \<times> bool) result" where
  "index_pair v =
     (case v of
        P_tuple [i, r] \<Rightarrow> Inr (i, truthy r)
      | P_tuple _ \<Rightarrow> Inl (ValueError ''not enough values to unpack'')
      | _ \<Rightarrow> Inl (TypeError ''cannot unpack non-iterable object''))"

definition subscript_parts :: "pyval list \<Rightarrow> (pyval \<times> pyval list) result" where
  "subscript_parts vs =
     (case vs of
        [tensor, P_list is] \<Rightarrow> Inr (tensor, is)
      | [tensor, P_tuple is] \<Rightarrow> Inr (tensor, is)
      | [_, _] \<Rightarrow> Inl (TypeError ''object has no len()'')
      | _ \<Rightarrow> Inl (ValueError ''not enough values to unpack''))"

definition process_tensor_subscript :: "mlir \<Rightarrow> pyval list \<Rightarrow> int list \<Rightarrow> pyval build" where
  "process_tensor_subscript lib sub shp =
     sbind (sresult (subscript_parts sub)) (\<lambda>(tensor, indices).
     if length indices \<noteq> 2 then sraise (ValueError ''Expected 2 indices (row, col)'')
     else
       sbind (sresult (py_nth shp 0)) (\<lambda>rows.
       sbind (sresult (if rows > 1 then Inr rows else py_nth shp 1)) (\<lambda>cols.
       sbind (sresult (rmap index_pair indices)) (\<lambda>ps.
       if (rows > 1 \<or> cols > 1) \<and> \<not> list_ex snd ps
       then sraise (ValueError ''CB shape requires range syntax'')
       else make_tensor_slice lib tensor (map fst ps) shp))))"

definition tuple_of :: "pyval \<Rightarrow> pyval list option" where
  "tuple_of v = (case v of P_tuple vs \<Rightarrow> Some vs | _ \<Rightarrow> None)"

text \<open>The shape of the buffer of the argument that must be a block.\<close>

definition copy_shape :: "mlir \<Rightarrow> pyval \<Rightarrow> pyval \<Rightarrow> int list result" where
  "copy_shape lib src dst =
     (if tuple_of dst \<noteq> None then
        rbind (is_block lib src) (\<lambda>b.
        if b then rbind (get_cb_from_block src) get_cb_shape
        else Inl (ValueError ''copy() with tensor subscript dst requires block src''))
      else if tuple_of src \<noteq> None then
        rbind (is_block lib dst) (\<lambda>b.
        if b then rbind (get_cb_from_block dst) get_cb_shape
        else Inl (ValueError ''copy() with tensor subscript src requires block dst''))
      else Inl (ValueError ''copy() requires at least one tensor subscript argument''))"

definition subscripted :: "mlir \<Rightarrow> int list \<Rightarrow> pyval \<Rightarrow> pyval build" where
  "subscripted lib shp v =
     (case tuple_of v of None \<Rightarrow> sreturn v | Some vs \<Rightarrow> process_tensor_subscript lib vs shp)"

definition ttl_copy :: "mlir \<Rightarrow> pyval \<Rightarrow> pyval \<Rightarrow> pyval build" where
  "ttl_copy lib src0 dst0 =
     sbind (sresult (copy_shape lib src0 dst0)) (\<lambda>shp.
     sbind (subscripted lib shp src0) (\<lambda>src.
     sbind (subscripted lib shp dst0) (\<lambda>dst.
     sbind (sresult (type_of lib src)) (\<lambda>_.
     sbind (sresult (is_block lib src)) (\<lambda>src_is_block.
     sbind (sresult (is_block lib dst)) (\<lambda>dst_is_block.
     sbind (sresult (if src_is_block then get_cb_from_block src else operand_of lib src)) (\<lambda>src_op.
     sbind (sresult (if dst_is_block then get_cb_from_block dst else operand_of lib dst)) (\<lambda>dst_op.
     if dst_is_block \<and> \<not> src_is_block
     then sbind (emit ''ttl.copy'' [src_op, dst_op] [] (T_handle ''read'')) (\<lambda>r. sreturn (P_value r))
     else if src_is_block \<and> \<not> dst_is_block
     then sbind (emit ''ttl.copy'' [src_op, dst_op] [] (T_handle ''write'')) (\<lambda>r. sreturn (P_value r))
     else sraise (ValueError ''copy() requires exactly one block argument'')))))))))"

section \<open>core, signpost, broadcast\<close>

definition get_constant_int :: "pyval \<Rightarrow> int result" where
  "get_constant_int v =
     (case v of
        P_int i \<Rightarrow> Inr i
      | P_bool b \<Rightarrow> Inr (if b then 1 else 0)
      | P_view (Result _ ''arith.constant'' _ [A_int i] _) \<Rightarrow> Inr i
      | _ \<Rightarrow> Inl (ValueError ''Expected int or arith.ConstantOp''))"

definition ttl_core :: "mlir \<Rightarrow> pyval \<Rightarrow> pyval build" where
  "ttl_core lib dims =
     sbind (sresult (get_constant_int dims)) (\<lambda>d.
     if d \<noteq> 2 then sraise (ValueError ''core() currently only supports dims=2'')
     else
       sbind (emit_infer lib ''ttl.core_x'' [] []) (\<lambda>x.
       sbind (emit_infer lib ''ttl.core_y'' [] []) (\<lambda>y.
         sreturn (P_tuple [P_value x, P_value y]))))"

definition emit_signpost :: "string \<Rightarrow> unit build" where
  "emit_signpost name = emit_op ''ttl.signpost'' [] [A_str name]"

definition ttl_signpost :: "mlir \<Rightarrow> pyval \<Rightarrow> pyval build" where
  "ttl_signpost lib name =
     (case name of
        P_str n \<Rightarrow> sbind (emit_signpost n) (\<lambda>_. sreturn (P_op ''ttl.signpost''))
      | _ \<Rightarrow> sraise (operand_error lib))"

text \<open>The members of \<open>set(dims)\<close> as far as they can equal 0 or 1; other members are \<open>None\<close>.\<close>

definition dim_of :: "pyval \<Rightarrow> int option" where
  "dim_of v =
     (case v of
        P_int i \<Rightarrow> Some i
      | P_bool b \<Rightarrow> Some (if b then 1 else 0)
      | P_const n r \<Rightarrow>
          (if n = ''float'' \<and> r \<in> {''0.0'', ''-0.0''} then Some 0
           else if n = ''float'' \<and> r = ''1.0'' then Some 1 else None)
      | _ \<Rightarrow> None)"

definition dims_list :: "pyval \<Rightarrow> int option list result" where
  "dims_list v =
     (case v of
        P_list vs \<Rightarrow> Inr (map dim_of vs)
      | P_tuple vs \<Rightarrow>
          (if list_ex (\<lambda>w. case w of P_list _ \<Rightarrow> True | _ \<Rightarrow> False) vs
           then Inl (TypeError ''unhashable type: list'') else Inr (map dim_of vs))
      | P_str s \<Rightarrow> Inr (map (\<lambda>_. None) s)
      | _ \<Rightarrow> Inl (TypeError ''object is not iterable''))"

definition bcast_value :: "int option list \<Rightarrow> int result" where
  "bcast_value ds =
     (if set ds = {Some 0} then Inr 2
      else if set ds = {Some 1} then Inr 1
      else if set ds = {Some 0, Some 1} then Inr 3
      else Inl (ValueError ''Invalid dims. Must be [0], [1], or [0, 1]''))"

definition ttl_broadcast :: "mlir \<Rightarrow> pyval \<Rightarrow> pyval \<Rightarrow> pyval \<Rightarrow> pyval build" where
  "ttl_broadcast lib inp out dims =
     sbind (sresult (rbind (dims_list dims) bcast_value)) (\<lambda>b.
     sbind (sresult (type_of lib inp)) (\<lambda>_.
     sbind (sresult (type_of lib out)) (\<lambda>t.
     sbind (operands lib [inp, out]) (\<lambda>ws.
     sbind (emit ''ttl.bcast'' ws [A_int b] t) (\<lambda>r. sreturn (P_value r))))))"

section \<open>The table of functions\<close>

text \<open>
  What a compiler instance knows: its arguments, the captured variables and global constants, the
  bindings, the data types and registry of the tensors, the names of the generated functions.
\<close>

datatype global = G_int int | G_float string | G_other

record cenv =
  ce_name :: string
  ce_kernel_type :: string
  ce_captures :: "(string \<times> capture) list"
  ce_grid :: "int list"
  ce_memory_space :: string
  ce_tiled :: bool
  ce_debug_locations :: bool
  ce_source_file :: string
  ce_source_lines :: "string list"
  ce_line_offset :: int
  ce_globals :: "(string \<times> global) list"
  ce_auto_profile :: bool
  ce_lib :: mlir
  ce_tensor :: "nat \<Rightarrow> int list \<times> dtype"
  ce_registry :: registry
  ce_str_of :: "dtype \<Rightarrow> string"
  ce_can_import :: bool
  ce_binary :: "string list"
  ce_unary :: "string list"

text \<open>The functions of \<open>operators.py\<close> with their parameters, positional and keyword-only.\<close>

definition signatures :: "(string \<times> string list \<times> string list) list" where
  "signatures =
     [(''!tensor.__add__'', [''ast_self'', ''rhs''], []), (''!tensor.__sub__'', [''ast_self'', ''rhs''], []),
      (''!tensor.__mul__'', [''ast_self'', ''rhs''], []), (''!tensor.__truediv__'', [''ast_self'', ''rhs''], []),
      (''!tensor.__matmul__'', [''ast_self'', ''rhs''], []), (''!tensor.store'', [''ast_self'', ''rhs''], []),
      (''!tensor.push'', [''ast_self''], []), (''!tensor.pop'', [''ast_self''], []),
      (''!ttl.transfer_handle.wait'', [''ast_self''], []), (''!ttl.cb.wait'', [''ast_self''], []),
      (''!ttl.cb.reserve'', [''ast_self''], []), (''copy'', [''src'', ''dst''], []), (''core'', [], [''dims'']),
      (''signpost'', [''name''], []), (''broadcast'', [''input'', ''output'', ''dims''], [])]"

definition signature_of :: "cenv \<Rightarrow> string \<Rightarrow> (string list \<times> string list) option" where
  "signature_of c f =
     (case map_of signatures f of
        Some sg \<Rightarrow> Some sg
      | None \<Rightarrow>
          if f \<in> set (ce_unary c) then Some ([''input''], [])
          else if f \<in> set (ce_binary c) then Some ([''lhs'', ''rhs''], [])
          else None)"

text \<open>The body of a function on its bound parameters.\<close>

definition run_fn :: "cenv \<Rightarrow> string \<Rightarrow> pyval list \<Rightarrow> pyval build" where
  "run_fn c f vs =
     (let lib = ce_lib c; a = vs ! 0; b = vs ! 1 in
      if f = ''!tensor.__add__'' then like_first lib ''add'' a [b]
      else if f = ''!tensor.__sub__'' then like_first lib ''sub'' a [b]
      else if f = ''!tensor.__mul__'' then like_first lib ''mul'' a [b]
      else if f = ''!tensor.__truediv__'' then like_first lib ''div'' a [b]
      else if f = ''!tensor.__matmul__''
      then sraise (NotImplementedError ''Matrix multiplication not yet supported in TTL mode'')
      else if f = ''!tensor.store'' then block_store lib a b
      else if f = ''!tensor.push'' then block_push lib a
      else if f = ''!tensor.pop'' then block_pop lib a
      else if f = ''!ttl.transfer_handle.wait'' then handle_wait lib a
      else if f = ''!ttl.cb.wait'' then cb_acquire lib ''ttl.cb_wait'' a
      else if f = ''!ttl.cb.reserve'' then cb_acquire lib ''ttl.cb_reserve'' a
      else if f = ''copy'' then ttl_copy lib a b
      else if f = ''core'' then ttl_core lib a
      else if f = ''signpost'' then ttl_signpost lib a
      else if f = ''broadcast'' then ttl_broadcast lib a b (vs ! 2)
      else like_first lib f a (tl vs))"

text \<open>\<open>fn(*args, **kwargs)\<close> for a name of the table.\<close>

definition call_fn :: "cenv \<Rightarrow> string \<Rightarrow> pyval list \<Rightarrow> kwarg list \<Rightarrow> pyval build" where
  "call_fn c f args kws =
     (case signature_of c f of
        None \<Rightarrow> sraise (KeyError f)
      | Some (ps, ks) \<Rightarrow> sbind (sresult (bind_params ps ks args kws)) (run_fn c f))"

end
