(* ===== verification/Frontend.thy ===== *)
theory Frontend
  imports Operators
begin

text \<open>
  The compiler front end: \<open>TTLGenericCompiler\<close> of \<open>python/ttl/_src/ttl_ast.py\<close> with its base classes
  \<open>TTCompilerBase\<close> and \<open>PyKernelAstBase\<close> of \<open>python/pykernel/_src\<close>, which visits the syntax tree of a
  thread function and emits operations. The syntax tree is the one Python's \<open>ast\<close> module gives; a
  node of a class the visitor does not know is \<open>Other_expr\<close> or \<open>Other_stmt\<close> with that class's name.
  The comments a verbose compiler adds to the output are left out.
\<close>

section \<open>Syntax trees\<close>

text \<open>Line and column offset.\<close>

type_synonym pos = "int \<times> int"

datatype const = C_bool bool | C_int int | C_str string | C_other string string

datatype bin_op =
  Add | Sub | Mult | Div | MatMult | FloorDiv | Mod | Pow | LShift | RShift | BitOr | BitXor | BitAnd

datatype un_op = UAdd | USub | Not | Invert

datatype bool_op = And | Or

datatype cmp_op = Eq | NotEq | Lt | LtE | Gt | GtE | Other_cmp string

datatype expr =
    Name pos string
  | Constant pos const
  | Attribute pos expr string
  | Call pos expr "expr list" "(string option \<times> expr) list"
  | UnaryOp pos un_op expr
  | BinOp pos expr bin_op expr
  | BoolOp pos bool_op "expr list"
  | Compare pos expr "cmp_op list" "expr list"
  | IfExp pos expr expr expr
  | Subscript pos expr expr
  | Slice pos "expr option" "expr option" "expr option"
  | Tuple pos "expr list"
  | List pos "expr list"
  | Other_expr pos string

datatype stmt =
    Expr pos expr
  | Assign pos "expr list" expr
  | AugAssign pos expr bin_op expr
  | AnnAssign pos expr expr "expr option"
  | If pos expr "stmt list" "stmt list"
  | For pos expr expr "stmt list"
  | With pos "(expr \<times> expr option) list" "stmt list"
  | Function_def pos string "string list" "stmt list"
  | Pass pos
  | Other_stmt pos string

fun expr_pos :: "expr \<Rightarrow> pos" where
  "expr_pos (Name p _) = p" | "expr_pos (Constant p _) = p" | "expr_pos (Attribute p _ _) = p"
| "expr_pos (Call p _ _ _) = p" | "expr_pos (UnaryOp p _ _) = p" | "expr_pos (BinOp p _ _ _) = p"
| "expr_pos (BoolOp p _ _) = p" | "expr_pos (Compare p _ _ _) = p" | "expr_pos (IfExp p _ _ _) = p"
| "expr_pos (Subscript p _ _) = p" | "expr_pos (Slice p _ _ _) = p" | "expr_pos (Tuple p _) = p"
| "expr_pos (List p _) = p" | "expr_pos (Other_expr p _) = p"

text \<open>\<open>node.id\<close>, which only a name has.\<close>

definition id_of :: "expr \<Rightarrow> string result" where
  "id_of e = (case e of Name _ x \<Rightarrow> Inr x | _ \<Rightarrow> Inl (AttributeError ''object has no attribute id''))"

section \<open>Locations and errors\<close>

definition loc_for_node :: "cenv \<Rightarrow> pos \<Rightarrow> location" where
  "loc_for_node c p =
     (if ce_debug_locations c
      then Loc_file (ce_source_file c) (fst p + ce_line_offset c) (snd p + 1)
      else Loc_name (ce_name c))"

definition with_location :: "location \<Rightarrow> 'a build \<Rightarrow> 'a build" where
  "with_location l m s =
     (case m (s\<lparr>cur_loc := l\<rparr>) of (r, s') \<Rightarrow> (r, s'\<lparr>cur_loc := cur_loc s\<rparr>))"

definition error_at :: "cenv \<Rightarrow> pos \<Rightarrow> string \<Rightarrow> exn" where
  "error_at c p msg =
     CompileError msg (Some (ce_source_file c)) (Some (fst p + ce_line_offset c)) (Some (snd p + 1))"

definition raise_error :: "cenv \<Rightarrow> pos \<Rightarrow> string \<Rightarrow> 'a build" where
  "raise_error c p msg = sraise (error_at c p msg)"

text \<open>The \<open>except\<close> clause around calls, binary operators and attributes.\<close>

definition locate :: "cenv \<Rightarrow> pos \<Rightarrow> exn \<Rightarrow> exn" where
  "locate c p e =
     (case e of
        ValueError m \<Rightarrow> error_at c p m
      | TypeError m \<Rightarrow> error_at c p m
      | NotImplementedError m \<Rightarrow> error_at c p m
      | _ \<Rightarrow> e)"

definition catch :: "(exn \<Rightarrow> exn) \<Rightarrow> 'a build \<Rightarrow> 'a build" where
  "catch f m s = (case m s of (Inl e, s') \<Rightarrow> (Inl (f e), s') | (Inr a, s') \<Rightarrow> (Inr a, s'))"

definition located :: "cenv \<Rightarrow> pos \<Rightarrow> 'a build \<Rightarrow> 'a build" where
  "located c p m = with_location (loc_for_node c p) (catch (locate c p) m)"

section \<open>Signposts of the profiler\<close>

definition source_line_at :: "cenv \<Rightarrow> pos \<Rightarrow> string" where
  "source_line_at c p =
     (if ce_source_lines c \<noteq> [] \<and> 0 < fst p \<and> fst p \<le> int (length (ce_source_lines c))
      then strip (ce_source_lines c ! nat (fst p - 1))
      else ''<line '' @ show_int (fst p + ce_line_offset c) @ ''>'')"

definition line_zone :: "cenv \<Rightarrow> int \<Rightarrow> string" where
  "line_zone c l = ce_name c @ ''_L'' @ show_int l"

definition register_zone :: "string \<Rightarrow> int \<Rightarrow> string \<Rightarrow> unit build" where
  "register_zone n l src = smodify (\<lambda>s. s\<lparr>line_mapper := register_signpost n l src (line_mapper s)\<rparr>)"

definition set_signpost_line :: "int option \<Rightarrow> unit build" where
  "set_signpost_line l = smodify (\<lambda>s. s\<lparr>signpost_line := l\<rparr>)"

definition close_line :: "cenv \<Rightarrow> unit build" where
  "close_line c s =
     (case signpost_line s of
        None \<Rightarrow> (Inr (), s)
      | Some l \<Rightarrow> emit_signpost (line_zone c l @ ''_after'') s)"

definition emit_line_signpost_if_needed :: "cenv \<Rightarrow> pos \<Rightarrow> unit build" where
  "emit_line_signpost_if_needed c p s =
     (let l = fst p + ce_line_offset c in
      if \<not> ce_auto_profile c \<or> signpost_line s = Some l then (Inr (), s)
      else sbind (close_line c) (\<lambda>_.
           sbind (register_zone (line_zone c l) l (source_line_at c p)) (\<lambda>_.
           sbind (emit_signpost (line_zone c l @ ''_before'')) (\<lambda>_.
           set_signpost_line (Some l)))) s)"

definition close_final_signpost :: "cenv \<Rightarrow> unit build" where
  "close_final_signpost c =
     (if ce_auto_profile c then sbind (close_line c) (\<lambda>_. set_signpost_line None) else sreturn ())"

definition emit_op_signposts :: "cenv \<Rightarrow> string \<Rightarrow> pos \<Rightarrow> bool \<Rightarrow> 'a build \<Rightarrow> 'a build" where
  "emit_op_signposts c opn p implicit m =
     (if \<not> ce_auto_profile c then with_location (loc_for_node c p) m
      else
        (let l = fst p + ce_line_offset c;
             base = line_zone c l @ ''_'' @ (if implicit then ''implicit_'' else []) @ opn
         in sbind (register_zone base l (source_line_at c p)) (\<lambda>_.
            with_location (loc_for_node c p)
              (sbind (emit_signpost (base @ ''_before'')) (\<lambda>_.
               sbind m (\<lambda>r.
               sbind (emit_signpost (base @ ''_after'')) (\<lambda>_. sreturn r)))))))"

section \<open>Operators on values\<close>

text \<open>\<open>x.result\<close> for the class of an operation.\<close>

definition unview :: "pyval \<Rightarrow> pyval" where
  "unview v = (case v of P_view w \<Rightarrow> P_value w | _ \<Rightarrow> v)"

text \<open>\<open>hasattr(v, "type") and isinstance(v.type, MemRefType)\<close>, then the load.\<close>

definition load_if_memref :: "mlir \<Rightarrow> pyval \<Rightarrow> pyval build" where
  "load_if_memref lib v = (if has_type lib v then loaded lib v else sreturn v)"

definition same_type :: "mlir \<Rightarrow> pyval \<Rightarrow> pyval \<Rightarrow> (ty \<times> pyval) build" where
  "same_type lib lhs rhs =
     sbind (sresult (type_of lib lhs)) (\<lambda>lt.
     sbind (sresult (type_of lib rhs)) (\<lambda>rt.
     sbind (if lt \<noteq> rt then cast lib rhs lt else sreturn rhs) (\<lambda>rhs'.
     sbind (sresult (type_of lib rhs')) (\<lambda>rt'.
     if lt = rt' then sreturn (lt, rhs') else sraise (AssertionError ''lhs.type != rhs.type'')))))"

definition arith2 :: "mlir \<Rightarrow> string \<Rightarrow> attr list \<Rightarrow> pyval list \<Rightarrow> pyval build" where
  "arith2 lib name attrs vs =
     sbind (operands lib vs) (\<lambda>ws.
     sbind (emit_infer lib name ws attrs) (\<lambda>r. sreturn (P_value r)))"

text \<open>The method name of a binary operator and the \<open>arith\<close> operation without such a method.\<close>

definition op_method :: "bin_op \<Rightarrow> string" where
  "op_method o2 =
     (case o2 of
        Add \<Rightarrow> ''__add__'' | Sub \<Rightarrow> ''__sub__'' | Mult \<Rightarrow> ''__mul__'' | Div \<Rightarrow> ''__truediv__''
      | MatMult \<Rightarrow> ''__matmul__'' | FloorDiv \<Rightarrow> ''__floordiv__'' | Mod \<Rightarrow> ''__mod__'' | Pow \<Rightarrow> ''__pow__''
      | LShift \<Rightarrow> ''__lshift__'' | RShift \<Rightarrow> ''__rshift__'' | BitOr \<Rightarrow> ''__or__'' | BitXor \<Rightarrow> ''__xor__''
      | BitAnd \<Rightarrow> ''__and__'')"

definition op_arith :: "bin_op \<Rightarrow> string option" where
  "op_arith o2 =
     (case o2 of
        Add \<Rightarrow> Some ''arith.addi'' | Sub \<Rightarrow> Some ''arith.subi'' | Mult \<Rightarrow> Some ''arith.muli''
      | FloorDiv \<Rightarrow> Some ''arith.divsi'' | Mod \<Rightarrow> Some ''arith.remsi'' | LShift \<Rightarrow> Some ''arith.shli''
      | RShift \<Rightarrow> Some ''arith.shrsi'' | BitOr \<Rightarrow> Some ''arith.ori'' | BitXor \<Rightarrow> Some ''arith.xori''
      | BitAnd \<Rightarrow> Some ''arith.andi'' | _ \<Rightarrow> None)"

definition bin_op :: "cenv \<Rightarrow> bin_op \<Rightarrow> pyval \<Rightarrow> pyval \<Rightarrow> pyval build" where
  "bin_op c o2 lhs0 rhs0 =
     (let lib = ce_lib c in
      if \<not> truthy lhs0 \<or> \<not> truthy rhs0 then sraise (ValueError ''Binary operands not found'')
      else
        sbind (load_if_memref lib (unview lhs0)) (\<lambda>lhs.
        sbind (load_if_memref lib (unview rhs0)) (\<lambda>rhs1.
        sbind (same_type lib lhs rhs1) (\<lambda>(t, rhs).
        let f = get_type_str t @ ''.'' @ op_method o2 in
        if signature_of c f \<noteq> None then call_fn c f [lhs, rhs] []
        else (case op_arith o2 of
                Some name \<Rightarrow> arith2 lib name [] [lhs, rhs]
              | None \<Rightarrow> sraise (NotImplementedError ''operator not implemented''))))))"

definition unary_op :: "cenv \<Rightarrow> un_op \<Rightarrow> pyval \<Rightarrow> pyval build" where
  "unary_op c o1 v0 =
     (let lib = ce_lib c in
      if \<not> truthy v0 then sraise (ValueError ''Unary operand not found'')
      else
        sbind (loaded lib v0) (\<lambda>v.
        sbind (sresult (type_of lib v)) (\<lambda>t.
        sbind (operands lib [v]) (\<lambda>ws.
        case o1 of
          USub \<Rightarrow> sbind (emit ''emitc.unary_minus'' ws [] t) (\<lambda>r. sreturn (P_view r))
        | UAdd \<Rightarrow> sbind (emit ''emitc.unary_plus'' ws [] t) (\<lambda>r. sreturn (P_view r))
        | Not \<Rightarrow> sbind (emit ''emitc.logical_not'' ws [] (T_int 1)) (\<lambda>r. sreturn (P_value r))
        | Invert \<Rightarrow> sbind (emit ''emitc.bitwise_not'' ws [] t) (\<lambda>r. sreturn (P_value r))))))"

definition cmp_predicate :: "cmp_op \<Rightarrow> string option" where
  "cmp_predicate p =
     (case p of
        Eq \<Rightarrow> Some ''eq'' | NotEq \<Rightarrow> Some ''ne'' | Gt \<Rightarrow> Some ''sgt'' | GtE \<Rightarrow> Some ''sge''
      | Lt \<Rightarrow> Some ''slt'' | LtE \<Rightarrow> Some ''sle'' | Other_cmp _ \<Rightarrow> None)"

definition compare_op :: "cenv \<Rightarrow> cmp_op \<Rightarrow> pyval \<Rightarrow> pyval \<Rightarrow> pyval build" where
  "compare_op c o2 lhs0 rhs0 =
     (let lib = ce_lib c in
      if \<not> truthy lhs0 \<or> \<not> truthy rhs0 then sraise (ValueError ''Compare operands not found'')
      else
        sbind (loaded lib lhs0) (\<lambda>lhs.
        sbind (loaded lib rhs0) (\<lambda>rhs1.
        sbind (same_type lib lhs rhs1) (\<lambda>(t, rhs).
        case cmp_predicate o2 of
          Some p \<Rightarrow> arith2 lib ''arith.cmpi'' [A_str p] [lhs, rhs]
        | None \<Rightarrow> sraise (NotImplementedError ''Compare operator not implemented'')))))"

text \<open>
  One operand of \<open>and\<close> or \<open>or\<close>. A memref is loaded to look at its type, but if that is one bit
  wide the operand stays the memref.
\<close>

definition not_zero :: "mlir \<Rightarrow> pyval \<Rightarrow> ty \<Rightarrow> pyval build" where
  "not_zero lib v t =
     sbind (const_op t 0) (\<lambda>z. arith2 lib ''arith.cmpi'' [A_str ''ne''] [v, P_view z])"

definition bool_value :: "mlir \<Rightarrow> pyval \<Rightarrow> pyval build" where
  "bool_value lib v0 =
     (if \<not> has_type lib v0
      then sraise (ValueError ''BoolOp values must be MemRef, ConstantOp, or IntegerType'')
      else
        sbind (loaded lib v0) (\<lambda>v.
        sbind (sresult (type_of lib v)) (\<lambda>t.
        case int_width t of
          None \<Rightarrow> sraise (ValueError ''BoolOp values must be MemRef or ConstantOp of IntegerType'')
        | Some w \<Rightarrow> if w = 1 then sreturn v0 else not_zero lib v t)))"

definition smap :: "('a \<Rightarrow> ('s, 'b) state_op) \<Rightarrow> 'a list \<Rightarrow> ('s, 'b list) state_op" where
  "smap f xs = foldr (\<lambda>x m. sbind (f x) (\<lambda>y. sbind m (\<lambda>ys. sreturn (y # ys)))) xs (sreturn [])"

definition sfoldl :: "('b \<Rightarrow> 'a \<Rightarrow> ('s, 'b) state_op) \<Rightarrow> 'b \<Rightarrow> 'a list \<Rightarrow> ('s, 'b) state_op" where
  "sfoldl f b xs = foldl (\<lambda>m x. sbind m (\<lambda>a. f a x)) (sreturn b) xs"

definition bool_op :: "cenv \<Rightarrow> bool_op \<Rightarrow> pyval list \<Rightarrow> pyval build" where
  "bool_op c o2 vs0 =
     (let lib = ce_lib c; name = (case o2 of And \<Rightarrow> ''arith.andi'' | Or \<Rightarrow> ''arith.ori'') in
      sbind (smap (bool_value lib) vs0) (\<lambda>vs.
      case vs of
        v # w # ws \<Rightarrow> sfoldl (\<lambda>a b. arith2 lib name [] [a, b]) v (w # ws)
      | _ \<Rightarrow> sraise (IndexError ''list index out of range'')))"

section \<open>Names, constants, attributes\<close>

definition const_value :: "const \<Rightarrow> pyval" where
  "const_value k =
     (case k of C_bool b \<Rightarrow> P_bool b | C_int i \<Rightarrow> P_int i | C_str t \<Rightarrow> P_str t | C_other n r \<Rightarrow> P_const n r)"

definition global_const :: "cenv \<Rightarrow> string \<Rightarrow> pyval build" where
  "global_const c x =
     (case map_of (ce_globals c) x of
        Some (G_int i) \<Rightarrow> sbind (const_op (T_int 64) i) (\<lambda>r. sreturn (P_value r))
      | Some (G_float t) \<Rightarrow> sbind (emit ''arith.constant'' [] [A_str t] T_f32) (\<lambda>r. sreturn (P_value r))
      | _ \<Rightarrow> sreturn P_none)"

definition visit_name :: "cenv \<Rightarrow> string \<Rightarrow> pyval build" where
  "visit_name c x =
     (if x = ''int'' then sreturn (P_type (T_int 64))
      else
        sbind (lookup x) (\<lambda>r.
        case r of
          None \<Rightarrow> global_const c x
        | Some v \<Rightarrow> if v = P_none then global_const c x else sreturn v))"

definition visit_constant :: "cenv \<Rightarrow> pos \<Rightarrow> const \<Rightarrow> pyval build" where
  "visit_constant c p k =
     (case k of
        C_bool b \<Rightarrow> sbind (const_op (T_int 1) (if b then 1 else 0)) (\<lambda>r. sreturn (P_view r))
      | C_int i \<Rightarrow> sbind (const_op (T_int 64) i) (\<lambda>r. sreturn (P_view r))
      | C_str t \<Rightarrow> sreturn (P_str t)
      | C_other _ _ \<Rightarrow> raise_error c p ''constant type not implemented'')"

definition constants_of :: "cenv \<Rightarrow> pos \<Rightarrow> expr list \<Rightarrow> pyval list result" where
  "constants_of c p es =
     rmap (\<lambda>e. case e of
         Constant _ k \<Rightarrow> Inr (const_value k)
       | _ \<Rightarrow> Inl (error_at c p ''list elements must be constants'')) es"

text \<open>\<open>ttl.NAME\<close> and \<open>ttl.math.NAME\<close>.\<close>

definition is_ttl_access :: "expr \<Rightarrow> bool" where
  "is_ttl_access v =
     (case v of
        Name _ x \<Rightarrow> x = ''ttl''
      | Attribute _ (Name _ x) a \<Rightarrow> x = ''ttl'' \<and> a = ''math''
      | _ \<Rightarrow> False)"

text \<open>The one class of \<open>ClassRegistry\<close>, \<open>TensorAccessor\<close> of \<open>kernel_types.py\<close>; its result is dropped.\<close>

definition accessor_members :: "string list" where
  "accessor_members =
     [''get_noc_addr'', ''get_shard_noc_addr'', ''get_bank_and_offset'', ''is_local_bank'',
      ''is_local_addr'', ''is_local_page'', ''is_local_shard'']"

definition emit_member :: "mlir \<Rightarrow> string \<Rightarrow> pyval list \<Rightarrow> pyval build" where
  "emit_member lib a args =
     (if a \<in> set accessor_members
      then sbind (arith2 lib (''ttkernel.tensor_accessor_'' @ a) [] args) (\<lambda>_. sreturn P_none)
      else sraise (ValueError ''Member not found in TensorAccessor''))"

definition method_call :: "cenv \<Rightarrow> expr \<Rightarrow> string \<Rightarrow> pyval list \<Rightarrow> kwarg list \<Rightarrow> pyval build" where
  "method_call c obj a args kws =
     sbind (sresult (id_of obj)) (\<lambda>x.
     sbind (lookup x) (\<lambda>r.
     case r of
       None \<Rightarrow> sraise (KeyError x)
     | Some v \<Rightarrow>
         sbind (sresult (type_of (ce_lib c) v)) (\<lambda>t.
         let f = get_type_str t @ ''.'' @ a in
         if signature_of c f \<noteq> None then call_fn c f (v # args) kws
         else if \<not> prefix ''!ttkernel.'' (get_type_str t)
         then sraise (ValueError ''is not a ttkernel type, thus can not have attributes.'')
         else if get_type_str t = ''!ttkernel.TensorAccessor'' then emit_member (ce_lib c) a (v # args)
         else sraise (ValueError ''has no attributes. Did you define a PyKernelAttributesBase subclass?''))))"

definition visit_attribute :: "cenv \<Rightarrow> pos \<Rightarrow> expr \<Rightarrow> string \<Rightarrow> pyval list \<Rightarrow> kwarg list \<Rightarrow> pyval build" where
  "visit_attribute c p obj a args kws =
     located c p
       (if is_ttl_access obj
        then (if signature_of c a \<noteq> None then call_fn c a args kws
              else raise_error c p ''Unknown function'')
        else method_call c obj a args kws)"

section \<open>Subscripts\<close>

text \<open>\<open>arith.IndexCastOp(index, v)\<close>.\<close>

definition index_cast_op :: "mlir \<Rightarrow> pyval \<Rightarrow> val build" where
  "index_cast_op lib v = sbind (operands lib [v]) (\<lambda>ws. emit ''arith.index_cast'' ws [] T_index)"

text \<open>\<open>arith.ConstantOp(index, v)\<close> for a constant of the source, which the bindings refuse if it is no integer.\<close>

definition is_const :: "expr \<Rightarrow> bool" where
  "is_const e = (case e of Constant _ _ \<Rightarrow> True | _ \<Rightarrow> False)"

definition index_const :: "mlir \<Rightarrow> expr \<Rightarrow> pyval build" where
  "index_const lib e =
     (case e of
        Constant _ (C_int i) \<Rightarrow> sbind (const_op T_index i) (\<lambda>r. sreturn (P_view r))
      | Constant _ (C_bool b) \<Rightarrow> sbind (const_op T_index (if b then 1 else 0)) (\<lambda>r. sreturn (P_view r))
      | _ \<Rightarrow> sraise (operand_error lib))"

definition as_index :: "mlir \<Rightarrow> pyval \<Rightarrow> pyval build" where
  "as_index lib v =
     sbind (sresult (type_of lib v)) (\<lambda>t.
     if t = T_index then sreturn v
     else sbind (index_cast_op lib v) (\<lambda>r. sreturn (P_view r)))"

text \<open>The variable that is subscripted must be a tensor.\<close>

definition subscripted_tensor :: "cenv \<Rightarrow> pos \<Rightarrow> expr \<Rightarrow> pyval build" where
  "subscripted_tensor c p e =
     sbind (sresult (id_of e)) (\<lambda>x.
     sbind (lookup x) (\<lambda>r.
     case r of
       None \<Rightarrow> raise_error c p ''Unknown variable''
     | Some v \<Rightarrow>
         (case type_of (ce_lib c) v of
            Inr (T_tensor _ _ _) \<Rightarrow> sreturn v
          | _ \<Rightarrow> raise_error c p ''TTL only supports subscripting tensors'')))"

section \<open>print\<close>

definition const_text :: "const \<Rightarrow> string" where
  "const_text k =
     (case k of C_bool b \<Rightarrow> (if b then ''True'' else ''False'') | C_int i \<Rightarrow> show_int i | C_str t \<Rightarrow> t
      | C_other _ r \<Rightarrow> r)"

text \<open>What an argument of \<open>print\<close> adds to the format, and the expressions it prints.\<close>

definition print_format :: "expr \<Rightarrow> string result" where
  "print_format e =
     (case e of
        Name _ _ \<Rightarrow> Inr ''{} ''
      | Constant _ k \<Rightarrow> Inr (const_text k @ '' '')
      | Call _ (Attribute _ (Constant _ k) _) _ _ \<Rightarrow>
          (case k of C_str t \<Rightarrow> Inr (t @ '' '') | _ \<Rightarrow> Inl (TypeError ''unsupported operand type(s) for +''))
      | Call _ (Attribute _ (Attribute _ _ _) _) _ _ \<Rightarrow> Inl (TypeError ''unsupported operand type(s) for +'')
      | Call _ (Attribute _ (Subscript _ _ _) _) _ _ \<Rightarrow> Inl (TypeError ''unsupported operand type(s) for +'')
      | Call _ _ _ _ \<Rightarrow> Inl (AttributeError ''object has no attribute value'')
      | _ \<Rightarrow> Inl (NotImplementedError ''Print argument not supported''))"

definition dprint :: "mlir \<Rightarrow> string \<Rightarrow> pyval list \<Rightarrow> pyval build" where
  "dprint lib fmt argv =
     sbind (operands lib argv) (\<lambda>ws.
     sbind (emit_op ''ttkernel.dprint'' ws [A_str (strip fmt @ [CHR 0x5C, CHR ''n''])]) (\<lambda>_. sreturn P_none))"

section \<open>Expressions\<close>

text \<open>\<open>_load_func_arg\<close>; the message for a missing argument needs the name of the function.\<close>

definition load_func_arg :: "mlir \<Rightarrow> expr \<Rightarrow> pyval \<Rightarrow> pyval build" where
  "load_func_arg lib f v =
     (if \<not> truthy v
      then sbind (sresult (id_of f)) (\<lambda>_. sraise (ValueError ''Function argument not found''))
      else if has_type lib v
      then sbind (sresult (type_of lib v)) (\<lambda>t.
           if is_memref t
           then sbind (operands lib [v]) (\<lambda>ws. sbind (load lib (hd ws)) (\<lambda>r. sreturn (P_view r)))
           else sreturn v)
      else sreturn v)"

definition is_tuple_expr :: "expr \<Rightarrow> expr list option" where
  "is_tuple_expr e = (case e of Tuple _ es \<Rightarrow> Some es | _ \<Rightarrow> None)"

text \<open>What a call calls: a method, \<open>print\<close>, a function of the table, or nothing that can be called.\<close>

datatype callee = Method pos expr string | Print | Function string | No_callee exn

definition callee_of :: "cenv \<Rightarrow> expr \<Rightarrow> callee" where
  "callee_of c f =
     (case f of
        Attribute q obj a \<Rightarrow> Method q obj a
      | Name _ x \<Rightarrow>
          if x = ''print'' then Print
          else if signature_of c x = None then No_callee (AssertionError ''Function not supported'')
          else Function x
      | _ \<Rightarrow> No_callee (AttributeError ''object has no attribute id''))"

text \<open>The expressions an argument of \<open>print\<close> prints.\<close>

definition print_exprs :: "expr \<Rightarrow> expr list" where
  "print_exprs e = (case e of Name _ _ \<Rightarrow> [e] | Call _ _ args _ \<Rightarrow> args | _ \<Rightarrow> [])"

text \<open>The start of an index, and whether the index is a range, whose end is not looked at.\<close>

definition index_start :: "expr \<Rightarrow> string + (expr \<times> bool)" where
  "index_start e =
     (case e of
        Slice _ None _ _ \<Rightarrow> Inl ''Slice must have explicit start index''
      | Slice _ (Some _) None _ \<Rightarrow> Inl ''Slice must have explicit stop index''
      | Slice _ (Some _) (Some _) (Some _) \<Rightarrow> Inl ''Slice step is not supported''
      | Slice _ (Some a) (Some _) None \<Rightarrow> Inr (a, True)
      | _ \<Rightarrow> Inr (e, False))"

lemma callee_size:
  "is_tuple_expr e = Some es \<Longrightarrow> size_list size es < size e"
  "size_list size (print_exprs e) \<le> size e + 1"
  "index_start e = Inr (a, r) \<Longrightarrow> size a \<le> size e"
  by (auto simp: is_tuple_expr_def print_exprs_def index_start_def
      split: expr.splits option.splits)

text \<open>
  \<open>visit\<close> on expressions, the arguments and keywords of a call, the arguments of \<open>print\<close> with the
  format so far, and the indices of a subscript.
\<close>

function (sequential) visit :: "cenv \<Rightarrow> expr \<Rightarrow> pyval build"
  and visit_all :: "cenv \<Rightarrow> expr list \<Rightarrow> pyval list build"
  and visit_args :: "cenv \<Rightarrow> expr \<Rightarrow> expr list \<Rightarrow> pyval list build"
  and visit_keywords :: "cenv \<Rightarrow> expr \<Rightarrow> (string option \<times> expr) list \<Rightarrow> kwarg list build"
  and visit_print :: "cenv \<Rightarrow> expr list \<Rightarrow> string \<Rightarrow> pyval list \<Rightarrow> pyval build"
  and visit_index :: "cenv \<Rightarrow> expr \<Rightarrow> pyval build"
  and visit_indices :: "cenv \<Rightarrow> expr list \<Rightarrow> pyval list build"
where
  "visit c (Name p x) = visit_name c x"
| "visit c (Constant p k) = visit_constant c p k"
| "visit c (Attribute p obj a) = visit_attribute c p obj a [] []"
| "visit c (Call p f args kws) =
     located c p
       (sbind (emit_line_signpost_if_needed c p) (\<lambda>_.
        case callee_of c f of
          Method q obj a \<Rightarrow>
            sbind (visit_args c f args) (\<lambda>vs.
            sbind (visit_keywords c f kws) (\<lambda>ks.
            visit_attribute c q obj a vs ks))
        | Print \<Rightarrow> visit_print c args [] []
        | Function x \<Rightarrow>
            sbind (visit_args c f args) (\<lambda>vs.
            sbind (visit_keywords c f kws) (\<lambda>ks.
            call_fn c x vs ks))
        | No_callee e \<Rightarrow> sraise e))"
| "visit c (UnaryOp p o1 e) = sbind (visit c e) (unary_op c o1)"
| "visit c (BinOp p l o2 r) =
     located c p
       (sbind (emit_line_signpost_if_needed c p) (\<lambda>_.
        sbind (visit c l) (\<lambda>lhs.
        sbind (visit c r) (\<lambda>rhs.
        bin_op c o2 lhs rhs))))"
| "visit c (BoolOp p o2 es) = sbind (visit_all c es) (bool_op c o2)"
| "visit c (Compare p l ops rs) =
     (case (ops, rs) of
        ([o2], [r]) \<Rightarrow>
          sbind (visit c l) (\<lambda>lhs.
          sbind (visit c r) (\<lambda>rhs.
          compare_op c o2 lhs rhs))
      | ([_], _) \<Rightarrow> sraise (AssertionError ''Only single comparators supported'')
      | _ \<Rightarrow> sraise (AssertionError ''Only single operators supported''))"
| "visit c (IfExp p t a b) =
     sbind (visit c t) (\<lambda>_. sbind (visit c a) (\<lambda>_. sbind (visit c b) (\<lambda>_. sreturn P_none)))"
| "visit c (Subscript p e ix) =
     sbind (subscripted_tensor c p e) (\<lambda>tensor.
     sbind (case is_tuple_expr ix of
         Some es \<Rightarrow> visit_indices c es
       | None \<Rightarrow> sbind (visit_index c ix) (\<lambda>i. sreturn [i])) (\<lambda>indices.
     sreturn (P_tuple [tensor, P_list indices])))"
| "visit c (Slice p a b st) = sraise (NotImplementedError ''visit Slice not supported'')"
| "visit c (Tuple p es) = sbind (visit_all c es) (\<lambda>vs. sreturn (P_tuple vs))"
| "visit c (List p es) = sbind (sresult (constants_of c p es)) (\<lambda>vs. sreturn (P_list vs))"
| "visit c (Other_expr p n) = sraise (NotImplementedError (''visit '' @ n @ '' not supported''))"

| "visit_all c [] = sreturn []"
| "visit_all c (e # es) =
     sbind (visit c e) (\<lambda>v. sbind (visit_all c es) (\<lambda>vs. sreturn (v # vs)))"

| "visit_args c f [] = sreturn []"
| "visit_args c f (e # es) =
     sbind (visit c e) (\<lambda>v0.
     sbind (load_func_arg (ce_lib c) f v0) (\<lambda>v.
     sbind (visit_args c f es) (\<lambda>vs. sreturn (v # vs))))"

| "visit_keywords c f [] = sreturn []"
| "visit_keywords c f ((k, e) # kws) =
     sbind (visit c e) (\<lambda>v0.
     sbind (load_func_arg (ce_lib c) f v0) (\<lambda>v.
     sbind (visit_keywords c f kws) (\<lambda>vs. sreturn ((k, v) # vs))))"

| "visit_print c [] fmt argv = dprint (ce_lib c) fmt argv"
| "visit_print c (e # es) fmt argv =
     sbind (sresult (print_format e)) (\<lambda>t.
     sbind (visit_all c (print_exprs e)) (\<lambda>vs.
     visit_print c es (fmt @ t) (argv @ vs)))"

| "visit_index c e =
     (case index_start e of
        Inl msg \<Rightarrow> raise_error c (expr_pos e) msg
      | Inr (a, r) \<Rightarrow>
          sbind (if is_const a then index_const (ce_lib c) a else sbind (visit c a) (as_index (ce_lib c))) (\<lambda>i.
          sreturn (P_tuple [i, P_bool r])))"

| "visit_indices c [] = sreturn []"
| "visit_indices c (e # es) =
     sbind (visit_index c e) (\<lambda>i. sbind (visit_indices c es) (\<lambda>is. sreturn (i # is)))"
  by pat_completeness auto

termination
  by (relation "measure (\<lambda>x. case x of
      Inl (Inl (c, e)) \<Rightarrow> 2 * size e
    | Inl (Inr (Inl (c, es))) \<Rightarrow> 2 * size_list size es
    | Inl (Inr (Inr (c, f, es))) \<Rightarrow> 2 * size_list size es
    | Inr (Inl (Inl (c, f, kws))) \<Rightarrow> 2 * size_list (size_prod (\<lambda>_. 0) size) kws
    | Inr (Inl (Inr (c, es, fmt, argv))) \<Rightarrow> 2 * size_list size es + 1
    | Inr (Inr (Inl (c, e))) \<Rightarrow> 2 * size e + 1
    | Inr (Inr (Inr (c, es))) \<Rightarrow> 2 * size_list size es)")
    (auto simp: less_Suc_eq_le dest!: callee_size(1,3)
      intro: order.trans [OF mult_le_mono2 [OF callee_size(2)]])

section \<open>Assignments\<close>

text \<open>Tuple targets: the value must be a tuple of as many components, the targets plain names.\<close>

definition bind_targets :: "expr list \<Rightarrow> pyval list \<Rightarrow> unit build" where
  "bind_targets ts vs =
     sfor (\<lambda>(t, v). case t of
         Name _ x \<Rightarrow> bind_name x v
       | _ \<Rightarrow> sraise (ValueError ''Tuple unpacking requires simple variable names'')) (zip ts vs)"

definition is_subscript :: "expr \<Rightarrow> bool" where
  "is_subscript e = (case e of Subscript _ _ _ \<Rightarrow> True | _ \<Rightarrow> False)"

definition holds_memref :: "mlir \<Rightarrow> pyval \<Rightarrow> bool" where
  "holds_memref lib v = (case type_of lib v of Inr t \<Rightarrow> is_memref t | Inl _ \<Rightarrow> False)"

text \<open>Assignment to one target. A subscript gives a tuple, which has no \<open>memref\<close> to store into.\<close>

definition base_assign :: "cenv \<Rightarrow> expr list \<Rightarrow> expr \<Rightarrow> unit build" where
  "base_assign c targets e =
     (case targets of
        [t] \<Rightarrow>
          if is_tuple_expr t \<noteq> None
          then sraise (NotImplementedError ''Tuple Assignment except for rt_args not supported.'')
          else
            sbind (visit c t) (\<lambda>var.
            sbind (visit c e) (\<lambda>v.
            if is_subscript t then sraise (AttributeError ''object has no attribute memref'')
            else
              sbind (sresult (id_of t)) (\<lambda>x.
              if holds_memref (ce_lib c) var then store_at_0 (ce_lib c) v var
              else bind_name x v)))
      | _ \<Rightarrow> sraise (AssertionError ''Only single assignments supported''))"

definition visit_assign :: "cenv \<Rightarrow> expr list \<Rightarrow> expr \<Rightarrow> unit build" where
  "visit_assign c targets e =
     (case targets of
        [] \<Rightarrow> sraise (IndexError ''list index out of range'')
      | t # _ \<Rightarrow>
          (case is_tuple_expr t of
             None \<Rightarrow> base_assign c targets e
           | Some ts \<Rightarrow>
               sbind (visit c e) (\<lambda>v.
               case tuple_of v of
                 None \<Rightarrow> base_assign c targets e
               | Some vs \<Rightarrow>
                   if length vs \<noteq> length ts
                   then sraise (ValueError ''Cannot unpack values into variables'')
                   else bind_targets ts vs)))"

text \<open>\<open>memref.alloca\<close> of a memref type.\<close>

definition alloca :: "mlir \<Rightarrow> int list \<Rightarrow> ty \<Rightarrow> val build" where
  "alloca lib shp t =
     sbind (sresult (memref_elem lib t)) (\<lambda>_. emit ''memref.alloca'' [] [] (T_memref shp t))"

text \<open>
  \<open>x: [dtype, *shape] = ...\<close> makes an array, \<open>x: T = v\<close> a cell for \<open>v\<close>. The check whether the
  variable has a memref already asks if the value is an MLIR type, which no value is.
\<close>

definition array_shape :: "expr list \<Rightarrow> int list result" where
  "array_shape es =
     (case es of
        Name _ _ # d # ds \<Rightarrow>
          if list_all is_const (d # ds)
          then rmap (\<lambda>e. case e of
              Constant _ (C_int i) \<Rightarrow> Inr i
            | Constant _ (C_bool b) \<Rightarrow> Inr (if b then 1 else 0)
            | _ \<Rightarrow> Inl (TypeError ''incompatible function arguments'')) (d # ds)
          else Inl (NotImplementedError ''Not possible to use dynamic dimensions in EmitC.'')
      | _ \<Rightarrow> Inl (ValueError ''Array Initialization must follow [dtype, *shape] syntax.''))"

definition visit_ann_assign :: "cenv \<Rightarrow> expr \<Rightarrow> expr \<Rightarrow> expr option \<Rightarrow> unit build" where
  "visit_ann_assign c target annotation value =
     (let lib = ce_lib c in
      sbind (visit c target) (\<lambda>var.
      sbind (case value of Some e \<Rightarrow> visit c e
             | None \<Rightarrow> sraise (NotImplementedError ''visit NoneType not supported'')) (\<lambda>v.
      sbind (sresult (id_of target)) (\<lambda>x.
      case annotation of
        List _ es \<Rightarrow>
          sbind (sresult (array_shape es)) (\<lambda>shp.
          sbind (alloca lib shp (T_int 64)) (\<lambda>m. bind_name x (P_value m)))
      | _ \<Rightarrow>
          if holds_memref lib v
          then sraise (ValueError ''Not allowed to AnnAssign to another AnnAssign'ed variable. Temporary fix is to just add 0 to the variable.'')
          else if truthy var then sraise (AssertionError ''Can not AnnAssign to non-memref types'')
          else
            sbind (sresult (type_of lib v)) (\<lambda>t.
            sbind (alloca lib [1] t) (\<lambda>m.
            sbind (bind_name x (P_value m)) (\<lambda>_.
            store_at_0 lib v (P_value m))))))))"

definition aug_name :: "bin_op \<Rightarrow> string option" where
  "aug_name o2 =
     (case o2 of Add \<Rightarrow> Some ''arith.addi'' | Sub \<Rightarrow> Some ''arith.subi'' | Mult \<Rightarrow> Some ''arith.muli''
      | _ \<Rightarrow> None)"

definition visit_aug_assign :: "cenv \<Rightarrow> expr \<Rightarrow> bin_op \<Rightarrow> expr \<Rightarrow> unit build" where
  "visit_aug_assign c te o2 e =
     (let lib = ce_lib c in
      sbind (visit c te) (\<lambda>target.
      if \<not> truthy target
      then sraise (ValueError ''AugAssign can only Assign to values that have been defined'')
      else
        sbind (visit c e) (\<lambda>v.
        sbind (sresult (type_of lib target)) (\<lambda>t.
        if \<not> is_memref t then sraise (ValueError ''Can not AugAssign to non-memref types'')
        else
          sbind (loaded lib target) (\<lambda>old.
          case aug_name o2 of
            None \<Rightarrow> sraise (NotImplementedError ''AugAssign operation not supported'')
          | Some name \<Rightarrow>
              sbind (arith2 lib name [] [old, v]) (\<lambda>r.
              store_at_0 lib r target))))))"

section \<open>Blocks of statements\<close>

definition new_block :: "nat build" where
  "new_block s = (Inr (next_block s), s\<lparr>next_block := next_block s + 1\<rparr>)"

definition emit_region :: "string \<Rightarrow> val list \<Rightarrow> attr list \<Rightarrow> nat list \<Rightarrow> unit build" where
  "emit_region n vs attrs bs = smodify (add_op n vs attrs None bs)"

definition at_block :: "nat \<Rightarrow> 'a build \<Rightarrow> 'a build" where
  "at_block b m s = (case m (s\<lparr>ip := b\<rparr>) of (r, s') \<Rightarrow> (r, s'\<lparr>ip := ip s\<rparr>))"

definition push_table :: "(string \<times> pyval) list \<Rightarrow> unit build" where
  "push_table t = smodify (\<lambda>s. s\<lparr>symbol_tables := t # symbol_tables s\<rparr>)"

definition pop_table :: "unit build" where
  "pop_table = smodify (\<lambda>s. s\<lparr>symbol_tables := tl (symbol_tables s)\<rparr>)"

text \<open>The body of a branch or loop, in its own block and with its own symbol table.\<close>

definition in_scope :: "cenv \<Rightarrow> nat \<Rightarrow> (string \<times> pyval) list \<Rightarrow> unit build \<Rightarrow> unit build" where
  "in_scope c b table m =
     at_block b (with_location Loc_unknown
       (sbind (push_table table) (\<lambda>_.
        sbind m (\<lambda>_.
        sbind (close_final_signpost c) (\<lambda>_.
        sbind (emit_op ''scf.yield'' [] []) (\<lambda>_.
        pop_table))))))"

definition if_condition :: "cenv \<Rightarrow> pyval \<Rightarrow> val build" where
  "if_condition c v0 =
     (let lib = ce_lib c in
      case v0 of
        P_op _ \<Rightarrow> sraise (operand_error lib)
      | _ \<Rightarrow>
        sbind (load_if_memref lib (unview v0)) (\<lambda>v.
        case type_of lib v of
          Inl _ \<Rightarrow> sraise (ValueError ''Cannot Compare Non-Integer Values'')
        | Inr t \<Rightarrow>
            (case int_width t of
               None \<Rightarrow> sraise (ValueError ''Cannot Compare Non-Integer Values'')
             | Some w \<Rightarrow>
                 sbind (if w \<noteq> 1 then not_zero lib v t else sreturn v) (\<lambda>r.
                 sbind (operands lib [r]) (\<lambda>ws. sreturn (hd ws))))))"

text \<open>The operands of \<open>range\<close>, and one of them as a value of type index.\<close>

definition range_args :: "cenv \<Rightarrow> expr list \<Rightarrow> (pyval \<times> pyval \<times> pyval) build" where
  "range_args c args =
     (case args of
        [u] \<Rightarrow>
          sbind (const_op T_index 0) (\<lambda>l. sbind (visit c u) (\<lambda>uv. sbind (const_op T_index 1) (\<lambda>st.
          sreturn (P_view l, uv, P_view st))))
      | [l, u] \<Rightarrow>
          sbind (visit c l) (\<lambda>lv. sbind (visit c u) (\<lambda>uv. sbind (const_op T_index 1) (\<lambda>st.
          sreturn (lv, uv, P_view st))))
      | [l, u, st] \<Rightarrow>
          sbind (visit c l) (\<lambda>lv. sbind (visit c u) (\<lambda>uv. sbind (visit c st) (\<lambda>sv.
          sreturn (lv, uv, sv))))
      | _ \<Rightarrow> sraise (NameError ''cannot access local variable lower_bound''))"

definition as_bound :: "mlir \<Rightarrow> pyval \<Rightarrow> val build" where
  "as_bound lib v =
     sbind (sresult (type_of lib v)) (\<lambda>t.
     if t = T_index then sbind (operands lib [v]) (\<lambda>ws. sreturn (hd ws))
     else index_cast_op lib v)"

definition loop_bounds :: "cenv \<Rightarrow> expr \<Rightarrow> val list build" where
  "loop_bounds c iter =
     (case iter of
        Call _ f args _ \<Rightarrow>
          sbind (sresult (id_of f)) (\<lambda>x.
          if x \<noteq> ''range'' then sraise (AssertionError ''Only range() supported in for loops'')
          else
            sbind (range_args c args) (\<lambda>(l0, u0, s0).
            sbind (loaded (ce_lib c) l0) (\<lambda>l1.
            sbind (loaded (ce_lib c) u0) (\<lambda>u1.
            sbind (loaded (ce_lib c) s0) (\<lambda>s1.
            sbind (as_bound (ce_lib c) l1) (\<lambda>l.
            sbind (as_bound (ce_lib c) u1) (\<lambda>u.
            sbind (as_bound (ce_lib c) s1) (\<lambda>st.
            sreturn [l, u, st]))))))))
      | _ \<Rightarrow> sraise (AttributeError ''object has no attribute func''))"

definition new_block_arg :: "ty \<Rightarrow> val build" where
  "new_block_arg t s = (Inr (Block_arg (next_value s) t), s\<lparr>next_value := next_value s + 1\<rparr>)"

section \<open>with: acquire and release\<close>

text \<open>What is to be released: the name of the operation, the buffer and where it was acquired.\<close>

type_synonym release = "string \<times> val \<times> pos"

text \<open>The method and the variable of one item.\<close>

definition with_call :: "cenv \<Rightarrow> expr \<Rightarrow> (string \<times> pos \<times> string) result" where
  "with_call c e =
     (case e of
        Call p f _ _ \<Rightarrow>
          (case f of
             Attribute _ obj m \<Rightarrow>
               if m \<notin> {''reserve'', ''wait''}
               then Inl (error_at c p ''with only supports reserve() or wait()'')
               else (case obj of
                   Name q x \<Rightarrow> Inr (m, q, x)
                 | _ \<Rightarrow> Inl (error_at c p ''with requires a simple variable (e.g., cb.reserve())''))
           | _ \<Rightarrow> Inl (error_at c p ''with requires a method call on an object''))
      | _ \<Rightarrow> Inl (error_at c (expr_pos e) ''with requires a method call (e.g., cb.reserve())''))"

definition cb_tensor_type_at :: "cenv \<Rightarrow> pos \<Rightarrow> pyval \<Rightarrow> ty result" where
  "cb_tensor_type_at c p cb =
     rbind (type_of (ce_lib c) cb) (\<lambda>t.
     case get_cb_tensor_type t of
       Inr tt \<Rightarrow> Inr tt
     | Inl _ \<Rightarrow> Inl (error_at c p ''Expected CircularBufferType''))"

definition acquire_op :: "string \<Rightarrow> string" where
  "acquire_op m = (if m = ''reserve'' then ''cb_reserve'' else ''cb_wait'')"

definition release_op :: "string \<Rightarrow> string" where
  "release_op m = (if m = ''reserve'' then ''cb_push'' else ''cb_pop'')"

text \<open>\<open>as var\<close>.\<close>

definition bind_var :: "cenv \<Rightarrow> expr option \<Rightarrow> pyval \<Rightarrow> unit build" where
  "bind_var c var v =
     (case var of
        None \<Rightarrow> sreturn ()
      | Some (Name _ y) \<Rightarrow> bind_name y v
      | Some e \<Rightarrow> raise_error c (expr_pos e) ''with ... as var requires a simple variable name'')"

definition acquire :: "cenv \<Rightarrow> expr \<times> expr option \<Rightarrow> release build" where
  "acquire c item =
     (let lib = ce_lib c; p = expr_pos (fst item) in
      sbind (sresult (with_call c (fst item))) (\<lambda>(m, q, x).
      sbind (lookup x) (\<lambda>r.
      case r of
        None \<Rightarrow> raise_error c q ''not found in scope''
      | Some cb \<Rightarrow>
          sbind (sresult (cb_tensor_type_at c p cb)) (\<lambda>t.
          sbind (operands lib [cb]) (\<lambda>ws.
          sbind (emit_op_signposts c (acquire_op m) p False
            (emit (''ttl.'' @ acquire_op m) ws [] t)) (\<lambda>tensor.
          sbind (attach_cb lib (P_value tensor) cb) (\<lambda>v.
          sbind (bind_var c (snd item) v) (\<lambda>_.
          sreturn (release_op m, hd ws, p)))))))))"

definition release_all :: "cenv \<Rightarrow> release list \<Rightarrow> unit build" where
  "release_all c rs =
     sfor (\<lambda>(opn, cb, p). emit_op_signposts c opn p True (emit_op (''ttl.'' @ opn) [cb] [])) (rev rs)"

section \<open>The entry of a thread function\<close>

definition tensor_error :: "cenv \<Rightarrow> nat \<Rightarrow> string \<Rightarrow> exn" where
  "tensor_error c t msg =
     (case get_tensor_source t (ce_registry c) of
        Some (f, l) \<Rightarrow> CompileError msg (Some f) (Some l) None
      | None \<Rightarrow> ValueError msg)"

text \<open>\<open>_build_tensor_type\<close>: the shape of the type is the tensor's in tiles.\<close>

definition tiles_of :: "int \<Rightarrow> int" where
  "tiles_of n = (n + DEFAULT_TILE_SIZE - 1) div DEFAULT_TILE_SIZE"

definition build_tensor_type :: "cenv \<Rightarrow> nat \<Rightarrow> ty result" where
  "build_tensor_type c t =
     (let (shp, dt) = ce_tensor c t in
      rbind (guard (ce_tiled c) (ValueError ''Only tiled tensors supported for TTNN interop'')) (\<lambda>_.
      rbind (guard (ce_memory_space c \<in> {''L1'', ''DRAM''})
        (ValueError ''Only L1 or DRAM memory space supported'')) (\<lambda>_.
      rbind (guard (length (ce_grid c) = 2) (ValueError ''Only 2D grids supported'')) (\<lambda>_.
      rbind (guard (length shp = 2) (tensor_error c t ''Only 2D tensors supported'')) (\<lambda>_.
      rbind (create_ttnn_layout (ce_str_of c) (ce_can_import c)
        \<lparr>lc_logical_shape = shp, lc_grid = ce_grid c, lc_dtype = dt\<rparr>) (\<lambda>layout.
      rbind (tensor_dtype_to_ttcore_datatype (ce_str_of c) (ce_can_import c) dt) (\<lambda>d.
      Inr (T_tensor (map tiles_of shp) (T_tile DEFAULT_TILE_SIZE DEFAULT_TILE_SIZE d) (Some layout)))))))))"

definition captured_tensor :: "cenv \<Rightarrow> capture \<Rightarrow> nat option" where
  "captured_tensor c v = (case v of Cap_tensor t \<Rightarrow> if ce_can_import c then Some t else None | _ \<Rightarrow> None)"

text \<open>The captured tensors in order, and of each the name, global index and type.\<close>

definition captured_tensors :: "cenv \<Rightarrow> (string \<times> nat) list" where
  "captured_tensors c =
     List.map_filter (\<lambda>(n, v). map_option (\<lambda>t. (n, t)) (captured_tensor c v)) (ce_captures c)"

definition tensor_captures :: "cenv \<Rightarrow> (string \<times> int \<times> ty) list result" where
  "tensor_captures c =
     rmap (\<lambda>(n, t).
       rbind (build_tensor_type c t) (\<lambda>ty.
       rbind (get_tensor_global_index t (ce_registry c)) (\<lambda>i.
       Inr (n, i, ty))))
     (captured_tensors c)"

definition emit_cb_from_capture :: "cenv \<Rightarrow> circular_buffer \<Rightarrow> val build" where
  "emit_cb_from_capture c cb =
     sbind (sresult (tensor_dtype_to_ttcore_datatype (ce_str_of c) (ce_can_import c)
       (snd (ce_tensor c (cb_tensor cb))))) (\<lambda>d.
     emit ''ttl.bind_cb'' [] [A_int (int (cb_index cb)), A_int (buffer_factor cb)]
       (T_cb (cb_shape cb) (T_tile DEFAULT_TILE_SIZE DEFAULT_TILE_SIZE d) (buffer_factor cb)))"

definition bind_capture :: "cenv \<Rightarrow> pos \<Rightarrow> string \<times> capture \<Rightarrow> unit build" where
  "bind_capture c p nv =
     (if captured_tensor c (snd nv) \<noteq> None then sreturn ()
      else (case snd nv of
          Cap_int i \<Rightarrow> sbind (const_op T_index i) (\<lambda>r. bind_name (fst nv) (P_view r))
        | Cap_cb cb \<Rightarrow> sbind (emit_cb_from_capture c cb) (\<lambda>r. bind_name (fst nv) (P_value r))
        | _ \<Rightarrow> raise_error c p ''Invalid capture type''))"

definition bind_accessor :: "string \<times> int \<times> ty \<Rightarrow> unit build" where
  "bind_accessor a =
     (case a of (n, i, t) \<Rightarrow> sbind (new_block_arg t) (\<lambda>v. bind_name n (P_value v)))"

text \<open>The function with its block; from here on the instance has an entry.\<close>

definition open_function :: "cenv \<Rightarrow> pos \<Rightarrow> string \<Rightarrow> string list \<Rightarrow> (nat \<times> (string \<times> int \<times> ty) list) build" where
  "open_function c p name params =
     sbind (\<lambda>s. (if func_entry s then Inl (AssertionError ''Cannot declare function within a function'')
                  else Inr (), s)) (\<lambda>_.
     sbind (if params \<noteq> []
            then raise_error c p ''Thread functions must have no parameters. Use make_dataflow_buffer_like() in kernel body and capture CBs in closures.''
            else sreturn ()) (\<lambda>_.
     sbind (sresult (tensor_captures c)) (\<lambda>tcs.
     sbind (smodify (\<lambda>s. s\<lparr>accessor_names := map fst tcs, accessor_indices := map (fst \<circ> snd) tcs\<rparr>)) (\<lambda>_.
     sbind (sresult (get_thread_type_string (Type_string (ce_kernel_type c)))) (\<lambda>th.
     sbind new_block (\<lambda>b.
     sbind (emit_region ''func.func'' [] ([A_str name, A_str th] @ map (A_ty \<circ> snd \<circ> snd) tcs) [b]) (\<lambda>_.
     sbind (smodify (\<lambda>s. s\<lparr>func_entry := True\<rparr>)) (\<lambda>_.
     sreturn (b, tcs)))))))))"

definition bind_captures :: "cenv \<Rightarrow> pos \<Rightarrow> (string \<times> int \<times> ty) list \<Rightarrow> unit build" where
  "bind_captures c p tcs =
     sbind (sfor bind_accessor tcs) (\<lambda>_. sfor (bind_capture c p) (ce_captures c))"

definition close_function :: "cenv \<Rightarrow> unit build" where
  "close_function c = sbind (close_final_signpost c) (\<lambda>_. emit_op ''func.return'' [] [])"

section \<open>Statements\<close>

function (sequential) visit_stmt :: "cenv \<Rightarrow> stmt \<Rightarrow> unit build"
  and visit_stmts :: "cenv \<Rightarrow> stmt list \<Rightarrow> unit build"
where
  "visit_stmt c (Expr p e) = sbind (visit c e) (\<lambda>_. sreturn ())"
| "visit_stmt c (Assign p ts e) = visit_assign c ts e"
| "visit_stmt c (AugAssign p t o2 e) = visit_aug_assign c t o2 e"
| "visit_stmt c (AnnAssign p t a v) = visit_ann_assign c t a v"
| "visit_stmt c (If p test body orelse) =
     sbind (visit c test) (\<lambda>v.
     sbind (if_condition c v) (\<lambda>cond.
     sbind new_block (\<lambda>tb.
     sbind new_block (\<lambda>eb.
     sbind (emit_region ''scf.if'' [cond] [] (if orelse = [] then [tb] else [tb, eb])) (\<lambda>_.
     sbind (close_final_signpost c) (\<lambda>_.
     sbind (in_scope c tb [] (visit_stmts c body)) (\<lambda>_.
     if orelse = [] then sreturn () else in_scope c eb [] (visit_stmts c orelse))))))))"
| "visit_stmt c (For p target iter body) =
     sbind (loop_bounds c iter) (\<lambda>bounds.
     sbind (close_final_signpost c) (\<lambda>_.
     sbind new_block (\<lambda>b.
     sbind (emit_region ''scf.for'' bounds [] [b]) (\<lambda>_.
     sbind (new_block_arg T_index) (\<lambda>i.
     sbind (sresult (id_of target)) (\<lambda>x.
     in_scope c b [(x, P_value i)] (visit_stmts c body)))))))"
| "visit_stmt c (With p items body) =
     with_location (loc_for_node c p)
       (sbind (close_final_signpost c) (\<lambda>_.
        sbind (smap (acquire c) items) (\<lambda>releases.
        sbind (visit_stmts c body) (\<lambda>_.
        sbind (close_final_signpost c) (\<lambda>_.
        release_all c releases)))))"
| "visit_stmt c (Function_def p name params body) =
     with_location (loc_for_node c p)
       (sbind (open_function c p name params) (\<lambda>(b, tcs).
        sbind (push_table [(''ttl'', P_module)]) (\<lambda>_.
        sbind (at_block b
          (sbind (bind_captures c p tcs) (\<lambda>_.
           sbind (visit_stmts c body) (\<lambda>_.
           close_function c)))) (\<lambda>_.
        pop_table))))"
| "visit_stmt c (Pass p) = sreturn ()"
| "visit_stmt c (Other_stmt p n) = sraise (NotImplementedError (''visit '' @ n @ '' not supported''))"

| "visit_stmts c [] = sreturn ()"
| "visit_stmts c (t # ts) = sbind (visit_stmt c t) (\<lambda>_. visit_stmts c ts)"
  by pat_completeness auto

termination
  by (relation "measure (\<lambda>x. case x of
      Inl (c, t) \<Rightarrow> size t | Inr (c, ts) \<Rightarrow> size_list size ts)") auto

text \<open>
  A compiler instance: block 0 is the body of the module, and the signposts go to the mapper that
  all threads share.
\<close>

definition new_compiler :: "cenv \<Rightarrow> source_line_mapper \<Rightarrow> cstate result" where
  "new_compiler c m =
     rbind (guard (ce_kernel_type c \<in> {''datamovement'', ''noc'', ''compute''})
       (AssertionError ''Invalid kernel type'')) (\<lambda>_.
     Inr \<lparr>next_value = 0, next_block = 1, blocks = (\<lambda>_. []), ip = 0, cur_loc = Loc_unknown,
          symbol_tables = [], signpost_line = None,
          line_mapper = (if ce_auto_profile c then m\<lparr>mapper_line_offset := ce_line_offset c\<rparr> else m),
          func_entry = False, accessor_names = [], accessor_indices = []\<rparr>)"

definition visit_module :: "cenv \<Rightarrow> stmt list \<Rightarrow> unit build" where
  "visit_module c body = at_block 0 (with_location Loc_unknown (visit_stmts c body))"

definition compile_ast :: "cenv \<Rightarrow> source_line_mapper \<Rightarrow> stmt list \<Rightarrow> cstate result" where
  "compile_ast c m body =
     rbind (new_compiler c m) (\<lambda>s.
     case visit_module c body s of (Inl e, _) \<Rightarrow> Inl e | (Inr _, s') \<Rightarrow> Inr s')"

end
