(* ===== verification/Frontsteps.thy ===== *)
theory Frontsteps
  imports Frontend
begin

text \<open>
  What the visitor keeps: a relation between the states before and after that is reflexive,
  transitive and kept by the elementary steps is kept by every visit. The laws are the locales
  \<open>emission\<close> (expressions) and \<open>emission_stmt\<close> (statements); the induction over the syntax tree is
  done once in them, together with the proof that every operation the visitor emits is well typed
  in the sense of \<open>well_typed\<close>.
\<close>

section \<open>Typing of operations\<close>

definition same_type_ops :: "string set" where
  "same_type_ops = {''arith.divsi'', ''arith.remsi'', ''arith.shli'', ''arith.shrsi'', ''arith.xori'', ''arith.cmpi''}"

definition well_typed :: "string \<Rightarrow> val list \<Rightarrow> val option \<Rightarrow> bool" where
  "well_typed n vs r \<longleftrightarrow>
     (n = ''scf.for'' \<longrightarrow> map ty_of vs = [T_index, T_index, T_index]) \<and>
     (n = ''scf.if'' \<longrightarrow> map ty_of vs = [T_int 1]) \<and>
     (n \<in> same_type_ops \<longrightarrow> (\<exists>t. map ty_of vs = [t, t])) \<and>
     (n = ''memref.load'' \<longrightarrow> (\<exists>t. is_memref t \<and> map ty_of vs = [t, T_index])) \<and>
     (n = ''memref.store'' \<longrightarrow> (\<exists>t m. is_memref m \<and> map ty_of vs = [t, m, T_index])) \<and>
     (n = ''ttl.cb_reserve'' \<or> n = ''ttl.cb_wait'' \<longrightarrow>
        (\<exists>shp e k. map ty_of vs = [T_cb shp e k] \<and> map_option ty_of r = Some (T_tensor shp e None))) \<and>
     (n = ''ttl.attach_cb'' \<longrightarrow> vs \<noteq> [] \<and> map_option ty_of r = Some (ty_of (hd vs))) \<and>
     (n = ''ttl.copy'' \<longrightarrow>
        (\<exists>shp e e' k enc. map_option ty_of r = Some (T_handle ''read'') \<and>
             map ty_of vs = [T_tensor shp e enc, T_cb shp e' k] \<or>
           map_option ty_of r = Some (T_handle ''write'') \<and>
             map ty_of vs = [T_cb shp e' k, T_tensor shp e enc]))"

lemma well_typed_other:
  "n \<notin> {''scf.for'', ''scf.if'', ''arith.divsi'', ''arith.remsi'', ''arith.shli'', ''arith.shrsi'', ''arith.xori'',
     ''arith.cmpi'', ''memref.load'', ''memref.store'', ''ttl.cb_reserve'', ''ttl.cb_wait'', ''ttl.attach_cb'',
     ''ttl.copy''} \<Longrightarrow> well_typed n vs r"
  by (simp add: well_typed_def same_type_ops_def)

section \<open>Steps of the visitor\<close>

text \<open>A successful run relates the states and its value has the property \<open>P\<close>.\<close>

definition steps :: "(cstate \<Rightarrow> cstate \<Rightarrow> bool) \<Rightarrow> ('a \<Rightarrow> bool) \<Rightarrow> 'a build \<Rightarrow> bool" where
  "steps R P m \<longleftrightarrow> (\<forall>s a s'. m s = (Inr a, s') \<longrightarrow> R s s' \<and> P a)"

lemma stepsD: "steps R P m \<Longrightarrow> m s = (Inr a, s') \<Longrightarrow> R s s' \<and> P a"
  by (simp add: steps_def)

lemma steps_weaken: "steps R Q m \<Longrightarrow> (\<And>a. Q a \<Longrightarrow> P a) \<Longrightarrow> steps R P m"
  by (auto simp: steps_def)

lemma steps_raise [simp]: "steps R P (sraise e)" "steps R P (raise_error c p msg)"
  by (simp_all add: steps_def raise_error_def)

lemma steps_if: "(b \<Longrightarrow> steps R P m) \<Longrightarrow> (\<not> b \<Longrightarrow> steps R P m') \<Longrightarrow> steps R P (if b then m else m')"
  by simp

text \<open>Names and attributes that occur in an expression or statement.\<close>

primrec mentions :: "string \<Rightarrow> expr \<Rightarrow> bool" where
  "mentions f (Name p x) = (x = f)"
| "mentions f (Constant p k) = False"
| "mentions f (Attribute p e a) = (a = f \<or> mentions f e)"
| "mentions f (Call p g args kws) =
     (mentions f g \<or> list_ex id (map (mentions f) args) \<or> list_ex snd (map (map_prod id (mentions f)) kws))"
| "mentions f (UnaryOp p o1 e) = mentions f e"
| "mentions f (BinOp p l o2 r) = (mentions f l \<or> mentions f r)"
| "mentions f (BoolOp p o2 es) = list_ex id (map (mentions f) es)"
| "mentions f (Compare p l ops rs) = (mentions f l \<or> list_ex id (map (mentions f) rs))"
| "mentions f (IfExp p t a b) = (mentions f t \<or> mentions f a \<or> mentions f b)"
| "mentions f (Subscript p e i) = (mentions f e \<or> mentions f i)"
| "mentions f (Slice p a b st) =
     (map_option (mentions f) a = Some True \<or> map_option (mentions f) b = Some True
      \<or> map_option (mentions f) st = Some True)"
| "mentions f (Tuple p es) = list_ex id (map (mentions f) es)"
| "mentions f (List p es) = list_ex id (map (mentions f) es)"
| "mentions f (Other_expr p n) = False"

primrec stmt_mentions :: "string \<Rightarrow> stmt \<Rightarrow> bool" where
  "stmt_mentions f (Expr p e) = mentions f e"
| "stmt_mentions f (Assign p ts e) = (list_ex (mentions f) ts \<or> mentions f e)"
| "stmt_mentions f (AugAssign p t o2 e) = (mentions f t \<or> mentions f e)"
| "stmt_mentions f (AnnAssign p t a v) =
     (mentions f t \<or> mentions f a \<or> map_option (mentions f) v = Some True)"
| "stmt_mentions f (If p t b e) =
     (mentions f t \<or> list_ex id (map (stmt_mentions f) b) \<or> list_ex id (map (stmt_mentions f) e))"
| "stmt_mentions f (For p t i b) = (mentions f t \<or> mentions f i \<or> list_ex id (map (stmt_mentions f) b))"
| "stmt_mentions f (With p items b) =
     (list_ex (\<lambda>(e, v). mentions f e \<or> map_option (mentions f) v = Some True) items
      \<or> list_ex id (map (stmt_mentions f) b))"
| "stmt_mentions f (Function_def p n ps b) = list_ex id (map (stmt_mentions f) b)"
| "stmt_mentions f (Pass p) = False"
| "stmt_mentions f (Other_stmt p n) = False"

locale preorder_steps =
  fixes R :: "cstate \<Rightarrow> cstate \<Rightarrow> bool"
  assumes R_refl: "R s s"
    and R_trans: "R s s1 \<Longrightarrow> R s1 s2 \<Longrightarrow> R s s2"
begin

lemma steps_bind:
  "steps R Q m \<Longrightarrow> (\<And>a. Q a \<Longrightarrow> steps R P (f a)) \<Longrightarrow> steps R P (sbind m f)"
  unfolding steps_def sbind_eq_Inr by (blast intro: R_trans)

lemma steps_then:
  "steps R (\<lambda>_. True) m \<Longrightarrow> (\<And>a. steps R P (f a)) \<Longrightarrow> steps R P (sbind m f)"
  by (rule steps_bind)

lemma steps_return: "P a \<Longrightarrow> steps R P (sreturn a)"
  by (simp add: steps_def R_refl)

lemma steps_sresult: "(\<And>a. r = Inr a \<Longrightarrow> P a) \<Longrightarrow> steps R P (sresult r)"
  by (simp add: steps_def R_refl)

lemma steps_bind_sresult: "(\<And>a. r = Inr a \<Longrightarrow> steps R P (f a)) \<Longrightarrow> steps R P (sbind (sresult r) f)"
  by (rule steps_bind [where Q = "\<lambda>a. r = Inr a"]) (auto intro: steps_sresult)

lemma steps_lookup: "(\<And>r. steps R P (f r)) \<Longrightarrow> steps R P (sbind (lookup x) f)"
  by (rule steps_bind [where Q = "\<lambda>_. True"]) (simp_all add: steps_def lookup_def R_refl)

lemma steps_bind_operands:
  "(\<And>ws. map pv_val vs = map Some ws \<Longrightarrow> steps R P (f ws)) \<Longrightarrow> steps R P (sbind (operands lib vs) f)"
proof -
  assume a: "\<And>ws. map pv_val vs = map Some ws \<Longrightarrow> steps R P (f ws)"
  show ?thesis unfolding operands_def
    by (rule steps_bind_sresult, rule a)
      (auto simp: rmap_Inr_iff list_eq_iff_nth_eq)
qed

lemma steps_smap: "(\<And>x. x \<in> set xs \<Longrightarrow> steps R (\<lambda>_. True) (f x)) \<Longrightarrow> steps R (\<lambda>_. True) (smap f xs)"
  by (induction xs)
    (auto simp: smap_def intro!: steps_return steps_bind [where Q = "\<lambda>_. True"])

end

locale emission = preorder_steps R for R :: "cstate \<Rightarrow> cstate \<Rightarrow> bool" +
  fixes c :: cenv and user :: bool
  assumes R_op: "well_typed n vs r \<Longrightarrow> n \<noteq> ''ttl.signpost'' \<Longrightarrow> R s (add_op n vs attrs r bs s)"
    and R_value: "R s (s\<lparr>next_value := i\<rparr>)"
    and R_loc: "R s (s\<lparr>cur_loc := l\<rparr>)"
    and R_line: "emit_line_signpost_if_needed c p s = (Inr (), s') \<Longrightarrow> R s s'"
    and R_user: "user \<Longrightarrow> R s (add_op ''ttl.signpost'' [] attrs None [] s)"
    and cmpi_type: "infer (ce_lib c) ''arith.cmpi'' vs attrs = Inr t \<Longrightarrow> t = T_int 1"
    and constant_has_type: "view_has_type (ce_lib c) ''arith.constant''"
    and generated: "set (ce_unary c) \<inter> {''cb_reserve'', ''cb_wait'', ''signpost''} = {}"
                   "set (ce_binary c) \<inter> {''cb_reserve'', ''cb_wait'', ''signpost''} = {}"
begin

lemma steps_emit:
  "(\<And>i. well_typed n vs (Some (Result i n vs attrs t))) \<Longrightarrow> n \<noteq> ''ttl.signpost'' \<Longrightarrow>
     steps R (\<lambda>v. \<exists>i. v = Result i n vs attrs t) (emit n vs attrs t)"
  unfolding steps_def emit_def Let_def by (auto intro: R_trans [OF R_op R_value])

lemma steps_bind_emit:
  "(\<And>i. well_typed n vs (Some (Result i n vs attrs t))) \<Longrightarrow> n \<noteq> ''ttl.signpost'' \<Longrightarrow>
     (\<And>i. steps R P (f (Result i n vs attrs t))) \<Longrightarrow> steps R P (sbind (emit n vs attrs t) f)"
  by (rule steps_bind [OF steps_emit]) auto

lemma steps_bind_const:
  "(\<And>i. steps R P (f (Result i ''arith.constant'' [] [A_int k] t))) \<Longrightarrow> steps R P (sbind (const_op t k) f)"
  unfolding const_op_def by (rule steps_bind_emit) (simp_all add: well_typed_other)

lemma steps_emit_infer:
  "(\<And>i t. infer lib n vs attrs = Inr t \<Longrightarrow> well_typed n vs (Some (Result i n vs attrs t))) \<Longrightarrow>
     n \<noteq> ''ttl.signpost'' \<Longrightarrow>
     steps R (\<lambda>v. \<exists>i t. infer lib n vs attrs = Inr t \<and> v = Result i n vs attrs t) (emit_infer lib n vs attrs)"
  unfolding emit_infer_def by (rule steps_bind_sresult, rule steps_weaken, rule steps_emit) auto

lemma steps_emit_op:
  "well_typed n vs None \<Longrightarrow> n \<noteq> ''ttl.signpost'' \<Longrightarrow> steps R (\<lambda>_. True) (emit_op n vs attrs)"
  by (simp add: steps_def emit_op_def R_op)

lemma steps_bind_emit_op:
  "well_typed n vs None \<Longrightarrow> n \<noteq> ''ttl.signpost'' \<Longrightarrow> steps R P (f ()) \<Longrightarrow>
     steps R P (sbind (emit_op n vs attrs) f)"
  by (rule steps_bind [OF steps_emit_op]) auto

lemma steps_located: "steps R P m \<Longrightarrow> steps R P (located c p m)"
proof (unfold steps_def, intro allI impI)
  fix s a s'
  assume m: "\<forall>s a s'. m s = (Inr a, s') \<longrightarrow> R s s' \<and> P a" and run: "located c p m s = (Inr a, s')"
  obtain r s1 where r: "m (s\<lparr>cur_loc := loc_for_node c p\<rparr>) = (r, s1)" by fastforce
  with run have "r = Inr a" "s' = s1\<lparr>cur_loc := cur_loc s\<rparr>"
    by (auto simp: located_def with_location_def catch_def split: sum.splits)
  with m r have "R (s\<lparr>cur_loc := loc_for_node c p\<rparr>) s1" "P a" by blast+
  then show "R s s' \<and> P a" using R_loc R_trans \<open>s' = _\<close> by metis
qed

lemma steps_line: "steps R (\<lambda>_. True) (emit_line_signpost_if_needed c p)"
  using R_line by (auto simp: steps_def)

end

lemma operand_types:
  "map pv_val [v] = map Some ws \<Longrightarrow> type_of lib v = Inr t \<Longrightarrow> \<exists>w. ws = [w] \<and> pv_val v = Some w \<and> ty_of w = t"
  using type_of_eq_Inr by fastforce

lemma operand_types2:
  "map pv_val [v, u] = map Some ws \<Longrightarrow> type_of lib v = Inr t \<Longrightarrow> type_of lib u = Inr t' \<Longrightarrow>
     map ty_of ws = [t, t']"
proof -
  assume m: "map pv_val [v, u] = map Some ws" and v: "type_of lib v = Inr t" and u: "type_of lib u = Inr t'"
  from m obtain a b where w: "ws = [a, b]" "pv_val v = Some a" "pv_val u = Some b" by auto
  with type_of_eq_Inr [OF v] type_of_eq_Inr [OF u] show ?thesis by auto
qed

context emission
begin

lemma steps_load:
  assumes "is_memref (ty_of v)"
  shows "steps R (\<lambda>_. True) (load lib v)"
  unfolding load_def
  by (rule steps_bind_const, rule steps_weaken, rule steps_emit_infer)
    (use assms in \<open>auto simp: well_typed_def same_type_ops_def\<close>)

lemma steps_loaded: "steps R (\<lambda>_. True) (loaded lib v)"
  unfolding loaded_def
  by (intro steps_bind_sresult steps_if steps_bind_operands steps_bind [where Q = "\<lambda>_. True"]
      steps_load steps_return TrueI) (auto dest: type_of_operand)

lemma steps_load_if_memref: "steps R (\<lambda>_. True) (load_if_memref lib v)"
  unfolding load_if_memref_def by (intro steps_if steps_loaded steps_return TrueI)

lemma steps_cast: "steps R (\<lambda>_. True) (cast lib v t)"
  unfolding cast_def
  by (intro steps_bind_sresult steps_if steps_bind_operands steps_bind_emit steps_return TrueI)
    (simp_all add: well_typed_other split: ty.splits)

lemma steps_same_type:
  "steps R (\<lambda>(t, rhs'). type_of lib lhs = Inr t \<and> type_of lib rhs' = Inr t) (same_type lib lhs rhs)"
  unfolding same_type_def
  by (intro steps_bind_sresult steps_if steps_bind [OF steps_if [OF steps_cast steps_return]] steps_return)
    (simp_all)

lemma steps_arith2:
  assumes "name \<in> same_type_ops \<Longrightarrow> \<exists>a b t. vs = [a, b] \<and> type_of lib a = Inr t \<and> type_of lib b = Inr t"
    and "name \<notin> {''scf.for'', ''scf.if'', ''memref.load'', ''memref.store'', ''ttl.cb_reserve'', ''ttl.cb_wait'',
      ''ttl.attach_cb'', ''ttl.copy'', ''ttl.signpost''}"
  shows "steps R (\<lambda>_. True) (arith2 lib name attrs vs)"
proof -
  have "well_typed name ws r" if "map pv_val vs = map Some ws" for ws r
    using assms that by (auto simp: well_typed_def dest: operand_types2)
  then show ?thesis unfolding arith2_def
    by (intro steps_bind_operands steps_bind [OF steps_emit_infer] steps_return TrueI) (use assms(2) in auto)
qed

lemma steps_like_first:
  assumes "name \<notin> {''cb_reserve'', ''cb_wait'', ''copy'', ''signpost''}"
  shows "steps R (\<lambda>_. True) (like_first lib name v vs)"
proof -
  have "well_typed (''ttl.'' @ name) ws (Some (Result i n xs as t))"
    if "type_of lib v = Inr t" "map pv_val (v # vs) = map Some ws" for ws t i n xs as
    using that assms type_of_eq_Inr [OF that(1)]
    by (cases ws) (auto simp: well_typed_def same_type_ops_def)
  then show ?thesis unfolding like_first_def
    by (intro steps_bind_sresult steps_bind_operands steps_bind_emit steps_return TrueI)
      (use assms in auto)
qed

end

definition is_slice :: "int list \<Rightarrow> pyval \<Rightarrow> bool" where
  "is_slice shp v \<longleftrightarrow> (\<exists>i vs as e enc. v = P_value (Result i ''ttl.tensor_slice'' vs as (T_tensor shp e enc)))"

context emission
begin

lemma steps_need_block: "steps R (\<lambda>_. True) (need_block lib msg v)"
  unfolding need_block_def by (intro steps_bind_sresult steps_if steps_return steps_raise TrueI)

lemma steps_attach_cb: "steps R (\<lambda>_. True) (attach_cb lib t cb)"
  unfolding attach_cb_def by (rule steps_like_first) simp

lemma steps_block_store: "steps R (\<lambda>_. True) (block_store lib blk rhs)"
  unfolding block_store_def
  by (intro steps_bind [OF steps_need_block] steps_bind_operands steps_bind_emit_op steps_bind_sresult
      steps_attach_cb) (simp_all add: well_typed_other)

lemma steps_block_release:
  "name \<in> {''ttl.cb_push'', ''ttl.cb_pop''} \<Longrightarrow> steps R (\<lambda>_. True) (block_release lib msg name blk)"
  unfolding block_release_def
  by (intro steps_bind [OF steps_need_block] steps_bind_emit_op steps_bind_sresult steps_return TrueI)
    (auto simp: well_typed_other)

lemma steps_handle_wait: "steps R (\<lambda>_. True) (handle_wait lib h)"
  unfolding handle_wait_def
  by (intro steps_bind_operands steps_bind_emit_op steps_return TrueI) (simp_all add: well_typed_other)

lemma acquired_well_typed:
  assumes "type_of lib cb = Inr ct" "get_cb_tensor_type ct = Inr t" "map pv_val [cb] = map Some ws"
    and "name \<in> {''ttl.cb_reserve'', ''ttl.cb_wait''}"
  shows "well_typed name ws (Some (Result i name ws as t))"
  using assms type_of_eq_Inr [OF assms(1)]
  by (auto simp: well_typed_def same_type_ops_def get_cb_tensor_type_def split: ty.splits)

lemma steps_cb_acquire:
  "name \<in> {''ttl.cb_reserve'', ''ttl.cb_wait''} \<Longrightarrow> steps R (\<lambda>_. True) (cb_acquire lib name cb)"
  unfolding cb_acquire_def
  by (intro steps_bind_sresult steps_bind_operands steps_bind_emit steps_attach_cb acquired_well_typed) auto

lemma steps_make_tensor_slice: "steps R (is_slice shp) (make_tensor_slice lib t is shp)"
  unfolding make_tensor_slice_def
  by (intro steps_bind_sresult) (auto split: ty.splits list.splits intro!: steps_bind_operands steps_bind_emit
      steps_return simp: well_typed_other is_slice_def)

lemma steps_process_tensor_subscript: "steps R (is_slice shp) (process_tensor_subscript lib sub shp)"
  unfolding process_tensor_subscript_def
  by (intro steps_bind_sresult)
    (auto split: prod.splits intro!: steps_bind_sresult steps_make_tensor_slice)

lemma steps_subscripted:
  "steps R (\<lambda>w. if tuple_of v = None then w = v else is_slice shp w) (subscripted lib shp v)"
  unfolding subscripted_def
  by (auto split: option.splits intro: steps_return steps_process_tensor_subscript)

lemma steps_ttl_core: "steps R (\<lambda>_. True) (ttl_core lib dims)"
  unfolding ttl_core_def
  by (intro steps_bind_sresult steps_if steps_bind [OF steps_emit_infer] steps_return steps_raise TrueI)
    (simp_all add: well_typed_other)

lemma steps_ttl_signpost: "user \<Longrightarrow> steps R (\<lambda>_. True) (ttl_signpost lib name)"
  unfolding ttl_signpost_def emit_signpost_def
  by (auto split: pyval.splits intro!: steps_bind [where Q = "\<lambda>_. True"] steps_return)
    (simp add: steps_def emit_op_def R_user)

lemma steps_ttl_broadcast: "steps R (\<lambda>_. True) (ttl_broadcast lib inp out dims)"
  unfolding ttl_broadcast_def
  by (intro steps_bind_sresult steps_bind_operands steps_bind_emit steps_return TrueI)
    (simp_all add: well_typed_other)

end

text \<open>The operands of \<open>ttl.copy\<close>: a slice of the shape of the buffer, and the buffer.\<close>

lemma slice_not_block: "is_slice shp v \<Longrightarrow> is_block lib v = Inr False \<and> tuple_of v = None"
  by (auto simp: is_slice_def is_block_def tuple_of_def)

lemma slice_operand:
  "is_slice shp v \<Longrightarrow> operand_of lib v = Inr w \<Longrightarrow> \<exists>e enc. ty_of w = T_tensor shp e enc"
  by (auto simp: is_slice_def)

lemma cb_shape_type: "get_cb_shape cb = Inr shp \<Longrightarrow> \<exists>e k. ty_of cb = T_cb shp e k"
  by (auto simp: get_cb_shape_def split: ty.splits)

lemma not_tuple_block: "tuple_of v \<noteq> None \<Longrightarrow> is_block lib v = Inr b \<Longrightarrow> \<not> b"
  by (auto simp: tuple_of_def is_block_def split: pyval.splits)

definition copy_operands :: "int list \<Rightarrow> val \<Rightarrow> val \<Rightarrow> bool" where
  "copy_operands shp a b \<longleftrightarrow> (\<exists>e e' k enc. ty_of a = T_tensor shp e enc \<and> ty_of b = T_cb shp e' k)"

lemma copy_typed:
  assumes shp: "copy_shape lib src0 dst0 = Inr shp"
    and src: "if tuple_of src0 = None then src = src0 else is_slice shp src"
    and dst: "if tuple_of dst0 = None then dst = dst0 else is_slice shp dst"
    and sb: "is_block lib src = Inr sb" and db: "is_block lib dst = Inr db"
    and s: "(if sb then get_cb_from_block src else operand_of lib src) = Inr s"
    and d: "(if db then get_cb_from_block dst else operand_of lib dst) = Inr d"
  shows "db \<and> \<not> sb \<Longrightarrow> copy_operands shp s d"
    and "sb \<and> \<not> db \<Longrightarrow> copy_operands shp d s"
proof -
  assume r: "db \<and> \<not> sb"
  with dst db have nd: "tuple_of dst0 = None" "dst = dst0"
    by (metis Inr_inject slice_not_block)+
  with shp have ns: "tuple_of src0 \<noteq> None" by (auto simp: copy_shape_def split: if_splits)
  with shp nd d r have "get_cb_shape d = Inr shp" by (auto simp: copy_shape_def rbind_eq_Inr split: if_splits)
  moreover have "\<exists>e enc. ty_of s = T_tensor shp e enc" using ns src s r slice_operand by fastforce
  ultimately show "copy_operands shp s d" using cb_shape_type unfolding copy_operands_def by blast
next
  assume w: "sb \<and> \<not> db"
  with src sb have ns: "tuple_of src0 = None" "src = src0"
    by (metis Inr_inject slice_not_block)+
  with shp have nd: "tuple_of dst0 \<noteq> None"
    by (auto simp: copy_shape_def rbind_eq_Inr dest: not_tuple_block split: if_splits)
  with shp ns s w have "get_cb_shape s = Inr shp" by (auto simp: copy_shape_def rbind_eq_Inr split: if_splits)
  moreover have "\<exists>e enc. ty_of d = T_tensor shp e enc" using nd dst d w slice_operand by fastforce
  ultimately show "copy_operands shp d s" using cb_shape_type unfolding copy_operands_def by blast
qed

lemma copy_well_typed:
  "copy_operands shp a b \<Longrightarrow> well_typed ''ttl.copy'' [a, b] (Some (Result i n vs as (T_handle ''read'')))"
  "copy_operands shp a b \<Longrightarrow> well_typed ''ttl.copy'' [b, a] (Some (Result i n vs as (T_handle ''write'')))"
  by (auto simp: copy_operands_def well_typed_def same_type_ops_def)

context emission
begin

lemma steps_ttl_copy: "steps R (\<lambda>_. True) (ttl_copy lib src0 dst0)"
  unfolding ttl_copy_def
proof (intro steps_bind_sresult steps_bind [OF steps_subscripted] steps_if steps_raise)
  fix shp src dst t sb db s d
  assume a: "copy_shape lib src0 dst0 = Inr shp" "if tuple_of src0 = None then src = src0 else is_slice shp src"
    "if tuple_of dst0 = None then dst = dst0 else is_slice shp dst" "is_block lib src = Inr sb"
    "is_block lib dst = Inr db" "(if sb then get_cb_from_block src else operand_of lib src) = Inr s"
    "(if db then get_cb_from_block dst else operand_of lib dst) = Inr d"
  note typed = copy_typed [OF a]
  show "steps R (\<lambda>_. True) (sbind (emit ''ttl.copy'' [s, d] [] (T_handle ''read'')) (\<lambda>r. sreturn (P_value r)))"
    if "db \<and> \<not> sb"
    by (rule steps_bind_emit) (use copy_well_typed(1) typed(1) that in \<open>auto intro: steps_return\<close>)
  show "steps R (\<lambda>_. True) (sbind (emit ''ttl.copy'' [s, d] [] (T_handle ''write'')) (\<lambda>r. sreturn (P_value r)))"
    if "sb \<and> \<not> db"
    by (rule steps_bind_emit) (use copy_well_typed(2) typed(2) that in \<open>auto intro: steps_return\<close>)
qed

lemma signature_generated:
  assumes "signature_of c f \<noteq> None" and "map_of signatures f = None"
  shows "f \<notin> {''cb_reserve'', ''cb_wait'', ''copy'', ''signpost''}"
  using assms generated by (auto simp: signature_of_def signatures_def split: if_splits)

lemma steps_run_fn:
  assumes "signature_of c f \<noteq> None" and "f = ''signpost'' \<longrightarrow> user"
  shows "steps R (\<lambda>_. True) (run_fn c f vs)"
proof (cases "map_of signatures f")
  case None
  then have "run_fn c f vs = like_first (ce_lib c) f (vs ! 0) (tl vs)"
    by (simp add: run_fn_def signatures_def Let_def split: if_splits)
  with steps_like_first [OF signature_generated [OF assms(1) None]] show ?thesis by simp
next
  case Some
  show ?thesis unfolding run_fn_def Let_def
    by (intro steps_if steps_like_first steps_raise steps_block_store steps_handle_wait steps_cb_acquire
        steps_ttl_copy steps_ttl_core steps_ttl_signpost steps_ttl_broadcast)
      (use assms Some in \<open>auto simp: block_push_def block_pop_def signatures_def
         intro!: steps_block_release split: if_splits\<close>)
qed

lemma steps_call_fn:
  assumes "f = ''signpost'' \<longrightarrow> user"
  shows "steps R (\<lambda>_. True) (call_fn c f args kws)"
  unfolding call_fn_def
  by (auto split: option.splits intro!: steps_bind_sresult steps_run_fn) (use assms in auto)

end

lemma qualified_not_signpost: "get_type_str t @ CHR ''.'' # a \<noteq> ''signpost''"
  by (cases t) (auto simp: get_type_str_def prefix_def)

lemma arith_names:
  "op_arith o2 = Some name \<Longrightarrow> name \<in> {''arith.addi'', ''arith.subi'', ''arith.muli'', ''arith.divsi'', ''arith.remsi'',
     ''arith.shli'', ''arith.shrsi'', ''arith.ori'', ''arith.xori'', ''arith.andi''}"
  by (cases o2) (auto simp: op_arith_def)

context emission
begin

lemma steps_global_const: "steps R (\<lambda>_. True) (global_const c x)"
  unfolding global_const_def
  by (auto split: option.splits global.splits
      intro!: steps_bind_const steps_bind_emit steps_return simp: well_typed_other)

lemma steps_visit_name: "steps R (\<lambda>_. True) (visit_name c x)"
  unfolding visit_name_def
  by (intro steps_if steps_return steps_lookup TrueI)
    (auto split: option.splits intro: steps_return steps_global_const)

lemma steps_visit_constant: "steps R (\<lambda>_. True) (visit_constant c p k)"
  unfolding visit_constant_def
  by (auto split: const.splits intro!: steps_bind_const steps_return)

lemma steps_bin_op: "steps R (\<lambda>_. True) (bin_op c o2 l r)"
  unfolding bin_op_def Let_def
proof (intro steps_if steps_raise steps_bind [OF steps_load_if_memref] steps_bind [OF steps_same_type])
  fix lhs rhs1 x
  assume x: "case x of (t, rhs') \<Rightarrow> type_of (ce_lib c) lhs = Inr t \<and> type_of (ce_lib c) rhs' = Inr t"
  obtain t rhs where [simp]: "x = (t, rhs)" by fastforce
  have *: "steps R (\<lambda>_. True) (arith2 (ce_lib c) name [] [lhs, rhs])" if "op_arith o2 = Some name" for name
    by (rule steps_arith2) (use x arith_names [OF that] in auto)
  show "steps R (\<lambda>_. True) (case x of (t, rhs) \<Rightarrow>
      if signature_of c (get_type_str t @ ''.'' @ op_method o2) \<noteq> None
      then call_fn c (get_type_str t @ ''.'' @ op_method o2) [lhs, rhs] []
      else case op_arith o2 of None \<Rightarrow> sraise (NotImplementedError ''operator not implemented'')
           | Some name \<Rightarrow> arith2 (ce_lib c) name [] [lhs, rhs])"
    unfolding \<open>x = _\<close> prod.case
    by (intro steps_if steps_call_fn) (use qualified_not_signpost * in \<open>auto split: option.splits\<close>)
qed

lemma steps_unary_op: "steps R (\<lambda>_. True) (unary_op c o1 v)"
  unfolding unary_op_def Let_def
  by (intro steps_if steps_raise steps_bind [OF steps_loaded] steps_bind_sresult steps_bind_operands)
    (auto split: un_op.splits intro!: steps_bind_emit steps_return simp: well_typed_other)

lemma steps_compare_op: "steps R (\<lambda>_. True) (compare_op c o2 l r)"
  unfolding compare_op_def Let_def
  by (intro steps_if steps_raise steps_bind [OF steps_loaded] steps_bind [OF steps_same_type])
    (auto split: option.splits intro!: steps_arith2)

text \<open>The comparison with 0, whose result is one bit wide.\<close>

lemma steps_not_zero:
  assumes "type_of (ce_lib c) v = Inr t"
  shows "steps R (\<lambda>r. \<exists>w. pv_val r = Some w \<and> ty_of w = T_int 1 \<and> type_of (ce_lib c) r = Inr (T_int 1))
    (not_zero (ce_lib c) v t)"
  unfolding not_zero_def arith2_def
proof (intro steps_bind_const steps_bind_operands, rule steps_bind [OF steps_emit_infer])
  fix i ws j t'
  assume ws: "map pv_val [v, P_view (Result i ''arith.constant'' [] [A_int 0] t)] = map Some ws"
  have "type_of (ce_lib c) (P_view (Result i ''arith.constant'' [] [A_int 0] t)) = Inr t"
    using constant_has_type by (simp add: type_of_def has_type_def)
  from operand_types2 [OF ws assms this]
  show "well_typed ''arith.cmpi'' ws (Some (Result j ''arith.cmpi'' ws [A_str ''ne''] t'))"
    by (simp add: well_typed_def)
next
  fix i ws a
  assume "\<exists>i t. infer (ce_lib c) ''arith.cmpi'' ws [A_str ''ne''] = Inr t \<and> a = Result i ''arith.cmpi'' ws [A_str ''ne''] t"
  then show "steps R (\<lambda>r. \<exists>w. pv_val r = Some w \<and> ty_of w = T_int 1 \<and> type_of (ce_lib c) r = Inr (T_int 1))
      (sreturn (P_value a))"
    by (auto intro!: steps_return dest: cmpi_type)
qed simp

lemma steps_bool_value:
  "steps R (\<lambda>_. True) (bool_value (ce_lib c) v)"
  unfolding bool_value_def
  by (intro steps_if steps_raise steps_bind [OF steps_loaded] steps_bind_sresult)
    (auto split: option.splits intro!: steps_return intro: steps_weaken [OF steps_not_zero])

lemma steps_sfoldl: "(\<And>a x. steps R (\<lambda>_. True) (f a x)) \<Longrightarrow> steps R (\<lambda>_. True) (sfoldl f b xs)"
  unfolding sfoldl_def
proof (induction xs rule: rev_induct)
  case (snoc x xs)
  then show ?case by (auto intro: steps_bind [where Q = "\<lambda>_. True"])
qed (simp add: steps_return)

lemma steps_bool_op: "steps R (\<lambda>_. True) (bool_op c o2 vs)"
proof -
  have *: "steps R (\<lambda>_. True) (arith2 (ce_lib c) (case o2 of And \<Rightarrow> ''arith.andi'' | Or \<Rightarrow> ''arith.ori'') [] us)" for us
    by (cases o2) (auto intro!: steps_arith2 simp: same_type_ops_def)
  show ?thesis unfolding bool_op_def Let_def
    by (rule steps_bind [OF steps_smap]) (auto split: list.splits intro!: steps_sfoldl * steps_bool_value)
qed

end

text \<open>Whether the program calls \<open>ttl.signpost\<close> itself, which is allowed if \<open>user\<close>.\<close>

definition quiet :: "bool \<Rightarrow> expr list \<Rightarrow> bool" where
  "quiet user es \<longleftrightarrow> user \<or> \<not> list_ex (mentions ''signpost'') es"

lemma quiet_simps:
  "quiet user (e # e' # es) \<longleftrightarrow> quiet user [e] \<and> quiet user (e' # es)"
  "quiet user []"
  "quiet user [Call p g args kws] \<longleftrightarrow> quiet user [g] \<and> quiet user args \<and> quiet user (map snd kws)"
  "quiet user [Attribute p g a] \<longleftrightarrow> (a = ''signpost'' \<longrightarrow> user) \<and> quiet user [g]"
  "quiet user [Name p x] \<longleftrightarrow> (x = ''signpost'' \<longrightarrow> user)"
  "quiet user [UnaryOp p o1 e] \<longleftrightarrow> quiet user [e]"
  "quiet user [BinOp p l o2 r] \<longleftrightarrow> quiet user [l] \<and> quiet user [r]"
  "quiet user [BoolOp p b es] \<longleftrightarrow> quiet user es"
  "quiet user [Compare p l ops rs] \<longleftrightarrow> quiet user [l] \<and> quiet user rs"
  "quiet user [IfExp p l m r] \<longleftrightarrow> quiet user [l] \<and> quiet user [m] \<and> quiet user [r]"
  "quiet user [Subscript p l r] \<longleftrightarrow> quiet user [l] \<and> quiet user [r]"
  "quiet user [Tuple p es] \<longleftrightarrow> quiet user es"
  "quiet user [Slice p (Some l) u v] \<Longrightarrow> quiet user [l]"
  by (auto simp: quiet_def list_ex_iff)

lemma quiet_index:
  "index_start e = Inr (e', r) \<Longrightarrow> quiet user [e] \<Longrightarrow> quiet user [e']"
  by (cases e) (auto simp: index_start_def quiet_def split: option.splits)

lemma quiet_callee:
  "callee_of c f = Method q obj a \<Longrightarrow> quiet user [f] \<Longrightarrow> a = ''signpost'' \<Longrightarrow> user"
  "callee_of c f = Function x \<Longrightarrow> quiet user [f] \<Longrightarrow> x = ''signpost'' \<Longrightarrow> user"
  by (cases f; simp add: callee_of_def quiet_def split: if_splits)+

lemma quiet_lists:
  "quiet user [e] \<Longrightarrow> quiet user (print_exprs e)"
  "is_tuple_expr e = Some es \<Longrightarrow> quiet user [e] \<Longrightarrow> quiet user es"
  by (cases e; simp add: print_exprs_def is_tuple_expr_def quiet_simps)+

lemma quiet_ConsD: "quiet user (e # es) \<Longrightarrow> quiet user [e] \<and> quiet user es"
  by (auto simp: quiet_def)

lemmas quiet_parts = quiet_lists quiet_index quiet_callee

context emission
begin

lemma steps_emit_member: "steps R (\<lambda>_. True) (emit_member lib a args)"
  unfolding emit_member_def
  by (intro steps_if steps_raise steps_bind [OF steps_arith2] steps_return TrueI)
    (auto simp: same_type_ops_def)

lemma steps_method_call: "steps R (\<lambda>_. True) (method_call c obj a args kws)"
  unfolding method_call_def Let_def
  by (intro steps_bind_sresult steps_lookup)
    (auto split: option.splits simp: qualified_not_signpost
      intro!: steps_bind_sresult steps_if steps_call_fn steps_emit_member)

lemma steps_visit_attribute:
  "(a = ''signpost'' \<Longrightarrow> user) \<Longrightarrow> steps R (\<lambda>_. True) (visit_attribute c p obj a args kws)"
  unfolding visit_attribute_def
  by (intro steps_located steps_if steps_call_fn steps_method_call steps_raise) auto

lemma steps_index_cast: "steps R (\<lambda>v. ty_of v = T_index) (index_cast_op lib v)"
  unfolding index_cast_op_def
  by (intro steps_bind_operands, rule steps_weaken, rule steps_emit) (auto simp: well_typed_other)

lemma steps_index_const: "steps R (\<lambda>_. True) (index_const lib e)"
  unfolding index_const_def
  by (auto split: expr.splits const.splits intro!: steps_bind_const steps_return)

lemma steps_as_index: "steps R (\<lambda>_. True) (as_index lib v)"
  unfolding as_index_def
  by (intro steps_bind_sresult steps_if steps_bind [OF steps_index_cast] steps_return TrueI)

lemma steps_subscripted_tensor: "steps R (\<lambda>_. True) (subscripted_tensor c p e)"
  unfolding subscripted_tensor_def
  by (intro steps_bind_sresult steps_lookup)
    (auto split: option.splits sum.splits ty.splits intro!: steps_return)

lemma steps_dprint: "steps R (\<lambda>_. True) (dprint lib fmt argv)"
  unfolding dprint_def
  by (intro steps_bind_operands steps_bind_emit_op steps_return TrueI) (simp_all add: well_typed_other)

lemma steps_load_func_arg: "steps R (\<lambda>_. True) (load_func_arg lib f v)"
  unfolding load_func_arg_def
  by (intro steps_if steps_bind_sresult steps_raise steps_bind_operands steps_bind [OF steps_load] steps_return
      TrueI) (auto dest: type_of_operand)

text \<open>The visit of an expression, of arguments, of the arguments of \<open>print\<close> and of indices.\<close>

lemmas steps_leaf =
  steps_visit_name steps_visit_constant steps_visit_attribute steps_call_fn steps_unary_op steps_bin_op
  steps_bool_op steps_compare_op steps_dprint steps_return steps_raise

lemmas steps_seq = steps_bind [OF steps_line] steps_bind [OF steps_subscripted_tensor]
  steps_bind [OF steps_load_func_arg] steps_bind_sresult

lemma steps_visit_any:
  "d = c \<Longrightarrow> quiet user [e] \<Longrightarrow> steps R (\<lambda>_. True) (visit d e)"
  "d = c \<Longrightarrow> quiet user es \<Longrightarrow> steps R (\<lambda>_. True) (visit_all d es)"
  "d = c \<Longrightarrow> quiet user es \<Longrightarrow> steps R (\<lambda>_. True) (visit_args d f es)"
  "d = c \<Longrightarrow> quiet user (map snd kws) \<Longrightarrow> steps R (\<lambda>_. True) (visit_keywords d f kws)"
  "d = c \<Longrightarrow> quiet user es \<Longrightarrow> steps R (\<lambda>_. True) (visit_print d es fmt argv)"
  "d = c \<Longrightarrow> quiet user [e] \<Longrightarrow> steps R (\<lambda>_. True) (visit_index d e)"
  "d = c \<Longrightarrow> quiet user es \<Longrightarrow> steps R (\<lambda>_. True) (visit_indices d es)"
proof (induction d e and d es and d f es and d f kws and d es fmt argv and d e and d es
    rule: visit_visit_all_visit_args_visit_keywords_visit_print_visit_index_visit_indices.induct)
  case (4 d p f args kws)
  then have "quiet user [f]" and "quiet user args" and "quiet user (map snd kws)"
    by (simp_all add: quiet_simps)
  with 4 show ?case
    by (auto split: callee.splits dest: quiet_parts
        intro!: steps_located steps_leaf steps_then [OF steps_line] steps_then)
next
  case (10 d p e ix)
  then have "quiet user [ix]" by (simp add: quiet_simps)
  with 10 show ?case
    by (auto simp: quiet_parts split: option.splits intro!: steps_leaf steps_then [OF steps_subscripted_tensor]
        steps_then)
next
  case (22 d e es fmt argv)
  from 22(4) have "quiet user [e]" "quiet user es" by (auto simp: quiet_def)
  then have "quiet user (print_exprs e)" "quiet user es" by (simp_all add: quiet_parts)
  then show ?case
    unfolding visit_print.simps
    by (intro steps_bind_sresult steps_then [OF 22(1)] 22(2,3))
next
  case (23 d e)
  have "steps R (\<lambda>_. True) (visit c a)" if "index_start e = Inr (a, r)" "\<not> is_const a" for a r
    using 23 that quiet_index [OF that(1)] by auto
  then show ?case using 23(2)
    by (auto split: sum.splits
        intro!: steps_then [OF steps_index_const] steps_leaf steps_then [OF steps_then [OF _ steps_as_index]])
next
  case (16 d e es)
  with quiet_ConsD [OF 16(4)] show ?case by (auto intro!: steps_leaf steps_then)
next
  case (18 d f e es)
  with quiet_ConsD [OF 18(4)] show ?case by (auto intro!: steps_leaf steps_then steps_load_func_arg)
next
  case (20 d f k e kws)
  with quiet_ConsD [of user e "map snd kws"] show ?case
    by (auto intro!: steps_leaf steps_then steps_load_func_arg)
next
  case (25 d e es)
  with quiet_ConsD [OF 25(4)] show ?case by (auto intro!: steps_leaf steps_then)
next
  case (8 d p l ops rs)
  then show ?case
    by (auto simp: quiet_simps split: list.splits intro!: steps_leaf steps_then)
next
  case (13 d p es)
  then show ?case by (auto intro!: steps_bind_sresult steps_leaf)
qed (auto simp: quiet_simps intro!: steps_leaf steps_located steps_then steps_line)

end

context emission
begin

lemma steps_visit: "user \<or> \<not> mentions ''signpost'' e \<Longrightarrow> steps R (\<lambda>_. True) (visit c e)"
  by (rule steps_visit_any) (simp_all add: quiet_def)

lemma steps_store_at_0:
  assumes "type_of lib m = Inr t" and "is_memref t"
  shows "steps R (\<lambda>_. True) (store_at_0 lib v m)"
  unfolding store_at_0_def
proof (intro steps_bind_const steps_bind_operands steps_emit_op)
  fix i ws
  assume "map pv_val [v, m] = map Some ws"
  then obtain a b where "ws = [a, b]" "ty_of b = t" using type_of_operand [OF assms(1)] by auto
  with assms(2) show "well_typed ''memref.store'' (ws @ [Result i ''arith.constant'' [] [A_int 0] T_index]) None"
    by (auto simp: well_typed_def same_type_ops_def)
qed simp

lemma steps_alloca: "steps R (\<lambda>v. ty_of v = T_memref shp t) (alloca lib shp t)"
  unfolding alloca_def
  by (intro steps_bind_sresult, rule steps_weaken, rule steps_emit) (auto simp: well_typed_other)

lemma steps_if_condition: "steps R (\<lambda>v. ty_of v = T_int 1) (if_condition c v0)"
proof -
  have *: "steps R (\<lambda>v. ty_of v = T_int 1) (sbind (if w \<noteq> 1 then not_zero (ce_lib c) v t else sreturn v)
      (\<lambda>r. sbind (operands (ce_lib c) [r]) (\<lambda>ws. sreturn (hd ws))))"
    if "type_of (ce_lib c) v = Inr t" "int_width t = Some w" for v t w
  proof (rule steps_bind [where Q = "\<lambda>r. type_of (ce_lib c) r = Inr (T_int 1)"])
    show "steps R (\<lambda>r. type_of (ce_lib c) r = Inr (T_int 1)) (if w \<noteq> 1 then not_zero (ce_lib c) v t else sreturn v)"
      using that steps_not_zero [OF that(1)]
      by (intro steps_if steps_return) (auto simp: int_width_def split: ty.splits elim: steps_weaken)
    show "steps R (\<lambda>v. ty_of v = T_int 1) (sbind (operands (ce_lib c) [r]) (\<lambda>ws. sreturn (hd ws)))"
      if "type_of (ce_lib c) r = Inr (T_int 1)" for r
      by (intro steps_bind_operands steps_return) (use type_of_operand [OF that] in auto)
  qed
  have "steps R (\<lambda>v. ty_of v = T_int 1) (sbind (load_if_memref (ce_lib c) (unview v0)) (\<lambda>v.
        case type_of (ce_lib c) v of
          Inl _ \<Rightarrow> sraise (ValueError ''Cannot Compare Non-Integer Values'')
        | Inr t \<Rightarrow> (case int_width t of
               None \<Rightarrow> sraise (ValueError ''Cannot Compare Non-Integer Values'')
             | Some w \<Rightarrow> sbind (if w \<noteq> 1 then not_zero (ce_lib c) v t else sreturn v) (\<lambda>r.
                 sbind (operands (ce_lib c) [r]) (\<lambda>ws. sreturn (hd ws))))))"
    by (rule steps_then [OF steps_load_if_memref]) (auto split: sum.splits option.splits intro!: * simp del: not_None_eq One_nat_def split del: if_split)
  then show ?thesis unfolding if_condition_def Let_def by (cases v0) auto
qed

lemma steps_as_bound: "steps R (\<lambda>v. ty_of v = T_index) (as_bound lib v)"
  unfolding as_bound_def
  by (intro steps_bind_sresult steps_if steps_bind_operands steps_return steps_index_cast)
    (auto dest: type_of_operand)

lemma steps_range_args:
  "user \<or> \<not> list_ex (mentions ''signpost'') args \<Longrightarrow> steps R (\<lambda>_. True) (range_args c args)"
  unfolding range_args_def
  by (auto split: list.splits intro!: steps_bind_const steps_then [OF steps_visit] steps_return)

lemma steps_loop_bounds:
  "user \<or> \<not> mentions ''signpost'' iter \<Longrightarrow> steps R (\<lambda>vs. map ty_of vs = [T_index, T_index, T_index]) (loop_bounds c iter)"
  unfolding loop_bounds_def
  by (cases iter; simp)
    (auto split: prod.splits simp: list_ex_iff intro!: steps_bind_sresult steps_then [OF steps_range_args]
      steps_then [OF steps_loaded] steps_bind [OF steps_as_bound] steps_return)

end

text \<open>The state between two lines: no line signpost is open.\<close>

definition closed :: "cenv \<Rightarrow> cstate \<Rightarrow> bool" where
  "closed c s \<longleftrightarrow> (ce_auto_profile c \<longrightarrow> signpost_line s = None)"

lemma zone_line:
  "emit_op_signposts c opn p imp (emit n vs attrs t) s = (Inr v, s') \<Longrightarrow> signpost_line s' = signpost_line s"
  "emit_op_signposts c opn p imp (emit_op n vs attrs) s = (Inr u, s') \<Longrightarrow> signpost_line s' = signpost_line s"
  "attach_cb lib w cb s = (Inr r, s') \<Longrightarrow> signpost_line s' = signpost_line s"
  "bind_var c x r s = (Inr u, s') \<Longrightarrow> signpost_line s' = signpost_line s"
     apply (auto simp: emit_op_signposts_def with_location_def register_zone_def emit_signpost_def emit_op_def emit_def
      smodify_def add_op_def Let_def sbind_def sreturn_def split: if_splits)[2]
   apply (auto simp: attach_cb_def like_first_def operands_def sbind_eq_Inr emit_def add_op_def Let_def sreturn_def)[1]
  apply (auto simp: bind_var_def bind_name_def sreturn_def raise_error_def sraise_def
      split: option.splits expr.splits list.splits)[1]
  done

locale emission_stmt = emission R c user for R c user +
  assumes R_bind: "bind_name x v s = (Inr (), s') \<Longrightarrow> R s s'"
    and R_close: "close_final_signpost c s = (Inr (), s') \<Longrightarrow> R s s'"
    and R_block: "R s (s\<lparr>next_block := k\<rparr>)"
    and R_zone_emit: "closed c s \<Longrightarrow> (\<And>i. well_typed n vs (Some (Result i n vs attrs t))) \<Longrightarrow> n \<noteq> ''ttl.signpost'' \<Longrightarrow>
      emit_op_signposts c opn p imp (emit n vs attrs t) s = (Inr w, s') \<Longrightarrow> R s s'"
    and R_zone_op: "closed c s \<Longrightarrow> well_typed n vs None \<Longrightarrow> n \<noteq> ''ttl.signpost'' \<Longrightarrow>
      emit_op_signposts c opn p imp (emit_op n vs attrs) s = (Inr u, s') \<Longrightarrow> R s s'"
    and R_scope: "closed c s \<Longrightarrow> steps R (\<lambda>_. True) m \<Longrightarrow> in_scope c b table m s = (Inr (), s') \<Longrightarrow> R s s'"
    and R_function: "visit_stmt c (Function_def p name params body) s = (Inr u, s') \<Longrightarrow> R s s'"
begin

lemma steps_bind_name: "steps R (\<lambda>_. True) (bind_name x v)"
  using R_bind by (auto simp: steps_def)

lemma steps_close: "steps R (\<lambda>_. True) (close_final_signpost c)"
  using R_close by (auto simp: steps_def)

lemma steps_sfor: "(\<And>x. steps R (\<lambda>_. True) (f x)) \<Longrightarrow> steps R (\<lambda>_. True) (sfor f xs)"
proof (induction xs)
  case (Cons x xs)
  then have "steps R (\<lambda>_. True) (sbind (f x) (\<lambda>_. sfor f xs))" by (intro steps_then) auto
  then show ?case by (simp add: steps_def)
qed (simp add: steps_def R_refl)

lemma steps_bind_targets: "steps R (\<lambda>_. True) (bind_targets ts vs)"
  unfolding bind_targets_def
  by (rule steps_sfor) (auto split: expr.splits intro: steps_bind_name)

lemma steps_base_assign:
  "user \<or> \<not> (list_ex (mentions ''signpost'') ts \<or> mentions ''signpost'' e) \<Longrightarrow> steps R (\<lambda>_. True) (base_assign c ts e)"
  unfolding base_assign_def
  by (auto split: list.splits sum.splits simp: holds_memref_def
      intro!: steps_then [OF steps_visit] steps_bind_sresult steps_bind_name steps_store_at_0)

lemma steps_visit_assign:
  "user \<or> \<not> (list_ex (mentions ''signpost'') ts \<or> mentions ''signpost'' e) \<Longrightarrow> steps R (\<lambda>_. True) (visit_assign c ts e)"
  unfolding visit_assign_def
  by (auto split: list.splits option.splits
      intro!: steps_then [OF steps_visit] steps_base_assign steps_bind_targets)

lemma steps_visit_aug_assign:
  "user \<or> \<not> (mentions ''signpost'' t \<or> mentions ''signpost'' e) \<Longrightarrow> steps R (\<lambda>_. True) (visit_aug_assign c t o2 e)"
  unfolding visit_aug_assign_def Let_def
  by (intro steps_then [OF steps_visit] steps_if steps_raise steps_bind_sresult steps_then [OF steps_loaded])
    (auto split: option.splits bin_op.splits simp: same_type_ops_def aug_name_def
      intro!: steps_then [OF steps_arith2] steps_store_at_0)

lemma steps_visit_ann_assign:
  "user \<or> \<not> (mentions ''signpost'' t \<or> mentions ''signpost'' a \<or> map_option (mentions ''signpost'') v = Some True) \<Longrightarrow>
     steps R (\<lambda>_. True) (visit_ann_assign c t a v)"
proof -
  assume q: "user \<or> \<not> (mentions ''signpost'' t \<or> mentions ''signpost'' a \<or> map_option (mentions ''signpost'') v = Some True)"
  have cell: "steps R (\<lambda>_. True) (sbind (alloca (ce_lib c) shp ty) (\<lambda>m. sbind (bind_name x (P_value m)) (\<lambda>_.
      store_at_0 (ce_lib c) w (P_value m))))" for shp ty x w
    by (intro steps_bind [OF steps_alloca] steps_then [OF steps_bind_name] steps_store_at_0)
      (auto simp: is_memref_def)
  have arr: "steps R (\<lambda>_. True) (sbind (alloca (ce_lib c) shp ty) (\<lambda>m. bind_name x (P_value m)))" for shp ty x
    by (intro steps_bind [OF steps_alloca] steps_bind_name)
  have val: "steps R (\<lambda>_. True) (case v of Some e \<Rightarrow> visit c e
      | None \<Rightarrow> sraise (NotImplementedError ''visit NoneType not supported''))"
    using q by (cases v) (auto intro: steps_visit)
  show ?thesis unfolding visit_ann_assign_def Let_def
    by (intro steps_then [OF steps_visit] steps_then [OF val] steps_bind_sresult)
      (use q in \<open>auto split: expr.splits intro!: steps_bind_sresult cell arr\<close>)
qed

lemma steps_bind_var: "steps R (\<lambda>_. True) (bind_var c var v)"
  unfolding bind_var_def by (auto split: option.splits expr.splits intro: steps_return steps_bind_name)

text \<open>Between two lines: acquiring and releasing start and end with no line signpost open.\<close>

abbreviation R_rest :: "cstate \<Rightarrow> cstate \<Rightarrow> bool" where
  "R_rest s s' \<equiv> closed c s \<longrightarrow> R s s' \<and> closed c s'"

sublocale at_rest: preorder_steps R_rest
  by unfold_locales (auto intro: R_refl R_trans)

lemma steps_restI:
  "(\<And>s a s'. closed c s \<Longrightarrow> m s = (Inr a, s') \<Longrightarrow> R s s') \<Longrightarrow>
     (\<And>s a s'. m s = (Inr a, s') \<Longrightarrow> signpost_line s' = signpost_line s) \<Longrightarrow> steps R_rest (\<lambda>_. True) m"
  by (simp add: steps_def closed_def)

lemma steps_at_rest:
  "steps R P m \<Longrightarrow> (\<And>s a s'. m s = (Inr a, s') \<Longrightarrow> signpost_line s' = signpost_line s) \<Longrightarrow> steps R_rest P m"
  by (simp add: steps_def closed_def)

lemma steps_zone_emit:
  "(\<And>i. well_typed n vs (Some (Result i n vs attrs t))) \<Longrightarrow> n \<noteq> ''ttl.signpost'' \<Longrightarrow>
     steps R_rest (\<lambda>_. True) (emit_op_signposts c opn p imp (emit n vs attrs t))"
  by (rule steps_restI, rule R_zone_emit, assumption+, rule zone_line)

lemma steps_zone_op:
  "well_typed n vs None \<Longrightarrow> n \<noteq> ''ttl.signpost'' \<Longrightarrow>
     steps R_rest (\<lambda>_. True) (emit_op_signposts c opn p imp (emit_op n vs attrs))"
  by (rule steps_restI, rule R_zone_op, assumption+, rule zone_line)

lemma steps_acquire: "steps R_rest (\<lambda>_. True) (acquire c item)"
proof -
  have zone: "steps R_rest (\<lambda>_. True) (emit_op_signposts c (acquire_op m) p False (emit (''ttl.'' @ acquire_op m) ws [] t))"
    if "cb_tensor_type_at c p cb = Inr t" "map pv_val [cb] = map Some ws" for m p cb t ws
  proof (rule steps_zone_emit)
    from that(1) [unfolded cb_tensor_type_at_def] obtain ct where ct: "type_of (ce_lib c) cb = Inr ct"
      and "(case get_cb_tensor_type ct of Inr tt \<Rightarrow> Inr tt
            | Inl _ \<Rightarrow> Inl (error_at c p ''Expected CircularBufferType'')) = Inr t"
      by (rule rbind_InrE)
    then have "get_cb_tensor_type ct = Inr t" by (auto split: sum.split_asm)
    with ct that(2) show "well_typed (''ttl.'' @ acquire_op m) ws (Some (Result i (''ttl.'' @ acquire_op m) ws [] t))" for i
      by (intro acquired_well_typed) (auto simp: acquire_op_def)
  qed (simp add: acquire_op_def)
  have attach: "steps R_rest (\<lambda>_. True) (attach_cb lib t cb)" for lib t cb
    by (rule steps_at_rest [OF steps_attach_cb]) (rule zone_line)
  have var: "steps R_rest (\<lambda>_. True) (bind_var c x v)" for x v
    by (rule steps_at_rest [OF steps_bind_var]) (rule zone_line)
  show ?thesis unfolding acquire_def Let_def
    by (auto split: option.splits intro!: at_rest.steps_bind_sresult at_rest.steps_lookup at_rest.steps_bind_operands
        at_rest.steps_then [OF zone [where ws = "[w]" for w, simplified]] at_rest.steps_then [OF attach]
        at_rest.steps_then [OF var] at_rest.steps_return)
qed

lemma steps_release_all:
  assumes "\<And>n cb p. (n, cb, p) \<in> set rs \<Longrightarrow> n \<in> {''cb_push'', ''cb_pop''}"
  shows "steps R_rest (\<lambda>_. True) (release_all c rs)"
  using assms unfolding release_all_def
proof (induction rs rule: rev_induct)
  case (snoc r rs)
  obtain n cb p where r: "r = (n, cb, p)" using prod_cases3 by blast
  with snoc.prems [of n cb p] have "n \<in> {''cb_push'', ''cb_pop''}" by simp
  then have "steps R_rest (\<lambda>_. True) (emit_op_signposts c n p True (emit_op (''ttl.'' @ n) [cb] []))"
    by (intro steps_zone_op) (auto simp: well_typed_other)
  then have "steps R_rest (\<lambda>_. True) (sbind (emit_op_signposts c n p True (emit_op (''ttl.'' @ n) [cb] []))
      (\<lambda>_. sfor (\<lambda>(opn, cb, p). emit_op_signposts c opn p True (emit_op (''ttl.'' @ opn) [cb] [])) (rev rs)))"
    by (rule at_rest.steps_then) (rule snoc.IH, use snoc.prems in auto)
  then show ?case by (simp add: r steps_def)
qed (simp add: steps_def R_refl)

end

text \<open>What \<open>with\<close> acquires, in order.\<close>

lemma acquire_release:
  assumes "acquire c item s = (Inr (n, cb, p), s')"
  shows "n \<in> {''cb_push'', ''cb_pop''} \<and> p = expr_pos (fst item)"
  using assms unfolding acquire_def Let_def
  by (auto simp: sbind_eq_Inr sreturn_def release_op_def raise_error_def sraise_def
      split: option.splits prod.splits if_splits)

lemma smap_Inr:
  "smap f (x # xs) s = (Inr ys, s') \<longleftrightarrow>
     (\<exists>y s1 zs. f x s = (Inr y, s1) \<and> smap f xs s1 = (Inr zs, s') \<and> ys = y # zs)"
  by (auto simp: smap_def sbind_eq_Inr sreturn_def)

lemma smap_Nil [simp]: "smap f [] s = (Inr [], s)"
  by (simp add: smap_def)

lemma acquired_releases:
  "smap (acquire c) items s = (Inr rs, s') \<Longrightarrow> (n, cb, p) \<in> set rs \<Longrightarrow> n \<in> {''cb_push'', ''cb_pop''}"
proof (induction items arbitrary: s rs)
  case (Cons i items)
  then show ?case by (fastforce simp: smap_Inr dest: acquire_release)
qed simp

text \<open>Steps that leave the line signpost as it is.\<close>

lemma line_kept:
  "new_block s = (Inr k, s') \<Longrightarrow> signpost_line s' = signpost_line s"
  "emit_region n vs attrs bs s = (Inr u, s') \<Longrightarrow> signpost_line s' = signpost_line s"
  "new_block_arg t s = (Inr v, s') \<Longrightarrow> signpost_line s' = signpost_line s"
  by (auto simp: new_block_def emit_region_def new_block_arg_def smodify_def add_op_def)

lemma close_final_line: "close_final_signpost c s = (Inr u, s') \<Longrightarrow> closed c s'"
  by (auto simp: close_final_signpost_def closed_def sbind_eq_Inr set_signpost_line_def)

lemma in_scope_closed: "in_scope c b table m s = (Inr u, s') \<Longrightarrow> closed c s'"
  by (auto simp: in_scope_def at_block_def with_location_def sbind_eq_Inr emit_op_def pop_table_def add_op_def closed_def
      dest!: close_final_line split: prod.splits)

text \<open>The parts of the visit of a loop and of a branch.\<close>

lemma for_parts:
  assumes "visit_stmt c (For p target iter body) s = (Inr u, s')"
  obtains bounds s1 u1 s2 b s3 u2 s4 i s5 x s6 where
    "loop_bounds c iter s = (Inr bounds, s1)" and "close_final_signpost c s1 = (Inr u1, s2)"
    and "new_block s2 = (Inr b, s3)" and "emit_region ''scf.for'' bounds [] [b] s3 = (Inr u2, s4)"
    and "new_block_arg T_index s4 = (Inr i, s5)" and "sresult (id_of target) s5 = (Inr x, s6)"
    and "in_scope c b [(x, P_value i)] (visit_stmts c body) s6 = (Inr u, s')"
  using assms unfolding visit_stmt.simps by - (elim sbind_InrE, rule that)

lemma if_parts:
  assumes "visit_stmt c (If p test body orelse) s = (Inr u, s')"
  obtains v s1 cond s2 tb s3 eb s4 u1 s5 u2 s6 u3 s7 where
    "visit c test s = (Inr v, s1)" and "if_condition c v s1 = (Inr cond, s2)"
    and "new_block s2 = (Inr tb, s3)" and "new_block s3 = (Inr eb, s4)"
    and "emit_region ''scf.if'' [cond] [] (if orelse = [] then [tb] else [tb, eb]) s4 = (Inr u1, s5)"
    and "close_final_signpost c s5 = (Inr u2, s6)"
    and "in_scope c tb [] (visit_stmts c body) s6 = (Inr u3, s7)"
    and "(if orelse = [] then sreturn () else in_scope c eb [] (visit_stmts c orelse)) s7 = (Inr u, s')"
  using assms unfolding visit_stmt.simps by - (elim sbind_InrE, rule that)

context emission_stmt
begin

lemma steps_new_block: "steps R (\<lambda>_. True) new_block"
  by (simp add: steps_def new_block_def R_block)

lemma steps_new_block_arg: "steps R (\<lambda>_. True) (new_block_arg t)"
  by (simp add: steps_def new_block_arg_def R_value)

lemma steps_emit_region: "well_typed n vs None \<Longrightarrow> n \<noteq> ''signpost'' \<Longrightarrow> n \<noteq> ''ttl.signpost'' \<Longrightarrow>
    steps R (\<lambda>_. True) (emit_region n vs attrs bs)"
  by (simp add: steps_def emit_region_def R_op)

lemma steps_with_location: "steps R (\<lambda>_. True) m \<Longrightarrow> steps R (\<lambda>_. True) (with_location l m)"
  unfolding steps_def with_location_def
proof (intro allI impI)
  fix s a s'
  assume m: "\<forall>s a s'. m s = (Inr a, s') \<longrightarrow> R s s' \<and> True"
    and run: "(case m (s\<lparr>cur_loc := l\<rparr>) of (r, s') \<Rightarrow> (r, s'\<lparr>cur_loc := cur_loc s\<rparr>)) = (Inr a, s')"
  obtain r s1 where r: "m (s\<lparr>cur_loc := l\<rparr>) = (r, s1)" by fastforce
  with run have s': "r = Inr a" "s' = s1\<lparr>cur_loc := cur_loc s\<rparr>" by auto
  with m r have "R (s\<lparr>cur_loc := l\<rparr>) s1" by blast
  then show "R s s' \<and> True" using R_loc R_trans s'(2) by metis
qed

lemma steps_for:
  assumes quiet: "user \<or> \<not> mentions ''signpost'' iter" and body: "steps R (\<lambda>_. True) (visit_stmts c body)"
  shows "steps R (\<lambda>_. True) (visit_stmt c (For p target iter body))"
proof (unfold steps_def, intro allI impI conjI TrueI)
  fix s u s'
  assume run: "visit_stmt c (For p target iter body) s = (Inr u, s')"
  then obtain bounds s1 u1 s2 b s3 u2 s4 i s5 x s6 where
    1: "loop_bounds c iter s = (Inr bounds, s1)" and 2: "close_final_signpost c s1 = (Inr u1, s2)"
    and 3: "new_block s2 = (Inr b, s3)" and 4: "emit_region ''scf.for'' bounds [] [b] s3 = (Inr u2, s4)"
    and 5: "new_block_arg T_index s4 = (Inr i, s5)" and x: "sresult (id_of target) s5 = (Inr x, s6)"
    and 6: "in_scope c b [(x, P_value i)] (visit_stmts c body) s6 = (Inr u, s')"
    by (rule for_parts)
  have bounds: "R s s1" "map ty_of bounds = [T_index, T_index, T_index]"
    using stepsD [OF steps_loop_bounds [OF quiet] 1] by auto
  have "well_typed ''scf.for'' bounds None" using bounds(2) by (simp add: well_typed_def same_type_ops_def)
  then have "R s3 s4" using stepsD [OF steps_emit_region 4] by simp
  moreover have "closed c s5" using close_final_line [OF 2] line_kept(1) [OF 3] line_kept(2) [OF 4] line_kept(3) [OF 5]
    by (simp add: closed_def)
  then have "R s5 s'" using R_scope [OF _ body, of s6] 6 x by simp
  ultimately show "R s s'"
    using bounds(1) stepsD [OF steps_close 2] stepsD [OF steps_new_block 3] stepsD [OF steps_new_block_arg 5]
    by (meson R_trans)
qed

lemma steps_if_stmt:
  assumes quiet: "user \<or> \<not> mentions ''signpost'' test" and body: "steps R (\<lambda>_. True) (visit_stmts c body)"
    and orelse: "orelse \<noteq> [] \<Longrightarrow> steps R (\<lambda>_. True) (visit_stmts c orelse)"
  shows "steps R (\<lambda>_. True) (visit_stmt c (If p test body orelse))"
proof (unfold steps_def, intro allI impI conjI TrueI)
  fix s u s'
  assume run: "visit_stmt c (If p test body orelse) s = (Inr u, s')"
  then obtain v s1 cond s2 tb s3 eb s4 u1 s5 u2 s6 u3 s7 where
    1: "visit c test s = (Inr v, s1)" and 2: "if_condition c v s1 = (Inr cond, s2)"
    and 3: "new_block s2 = (Inr tb, s3)" and 4: "new_block s3 = (Inr eb, s4)"
    and 5: "emit_region ''scf.if'' [cond] [] (if orelse = [] then [tb] else [tb, eb]) s4 = (Inr u1, s5)"
    and 6: "close_final_signpost c s5 = (Inr u2, s6)"
    and 7: "in_scope c tb [] (visit_stmts c body) s6 = (Inr u3, s7)"
    and 8: "(if orelse = [] then sreturn () else in_scope c eb [] (visit_stmts c orelse)) s7 = (Inr u, s')"
    by (rule if_parts)
  have cond: "R s1 s2" "ty_of cond = T_int 1" using stepsD [OF steps_if_condition 2] by auto
  then have "well_typed ''scf.if'' [cond] None" by (simp add: well_typed_def same_type_ops_def)
  then have "R s4 s5" using stepsD [OF steps_emit_region 5] by simp
  moreover have "R s6 s7" using R_scope [OF close_final_line [OF 6] body] 7 by simp
  moreover have "R s7 s'" using 8 R_scope [OF in_scope_closed [OF 7] orelse]
    by (auto simp: R_refl split: if_splits)
  ultimately show "R s s'"
    using stepsD [OF steps_visit [OF quiet] 1] cond(1) stepsD [OF steps_new_block 3] stepsD [OF steps_new_block 4]
      stepsD [OF steps_close 6] by (meson R_trans)
qed

lemma steps_with:
  assumes body: "steps R (\<lambda>_. True) (visit_stmts c body)"
  shows "steps R (\<lambda>_. True) (visit_stmt c (With p items body))"
  unfolding visit_stmt.simps
proof (rule steps_with_location, unfold steps_def, intro allI impI conjI TrueI)
  fix s u s'
  assume "sbind (close_final_signpost c) (\<lambda>_. sbind (smap (acquire c) items) (\<lambda>releases. sbind (visit_stmts c body)
      (\<lambda>_. sbind (close_final_signpost c) (\<lambda>_. release_all c releases)))) s = (Inr u, s')"
  then obtain u1 s1 rs s2 u2 s3 u3 s4 where
    1: "close_final_signpost c s = (Inr u1, s1)" and 2: "smap (acquire c) items s1 = (Inr rs, s2)"
    and 3: "visit_stmts c body s2 = (Inr u2, s3)" and 4: "close_final_signpost c s3 = (Inr u3, s4)"
    and 5: "release_all c rs s4 = (Inr u, s')"
    by - (elim sbind_InrE, rule that)
  have "R s1 s2" using stepsD [OF at_rest.steps_smap [OF steps_acquire] 2] close_final_line [OF 1] by simp
  moreover have "R s4 s'"
    using stepsD [OF steps_release_all [of rs] 5] acquired_releases [OF 2] close_final_line [OF 4] by blast
  ultimately show "R s s'"
    using stepsD [OF steps_close 1] stepsD [OF body 3] stepsD [OF steps_close 4] by (meson R_trans)
qed

theorem steps_visit_stmts_any:
  "d = c \<Longrightarrow> user \<or> \<not> stmt_mentions ''signpost'' t \<Longrightarrow> steps R (\<lambda>_. True) (visit_stmt d t)"
  "d = c \<Longrightarrow> user \<or> \<not> list_ex (stmt_mentions ''signpost'') ts \<Longrightarrow> steps R (\<lambda>_. True) (visit_stmts d ts)"
proof (induction d t and d ts rule: visit_stmt_visit_stmts.induct)
  case (1 d p e)
  then show ?case by (auto intro!: steps_then [OF steps_visit] steps_return)
next
  case (5 d p test body orelse)
  then show ?case using steps_if_stmt [of test body orelse p] by (auto simp: list_ex_iff simp del: visit_stmt.simps)
next
  case (6 d p target iter body)
  then show ?case using steps_for [of iter body p target] by (auto simp: list_ex_iff simp del: visit_stmt.simps)
next
  case (7 d p items body)
  then show ?case using steps_with [of body p items] by (auto simp: list_ex_iff simp del: visit_stmt.simps)
next
  case (8 d p name params body)
  then show ?case using R_function unfolding steps_def by blast
qed (auto intro!: steps_visit_assign steps_visit_aug_assign steps_visit_ann_assign steps_return steps_then)

lemmas steps_visit_stmts = steps_visit_stmts_any [OF refl]

lemma steps_bind_captures: "steps R (\<lambda>_. True) (bind_captures c p tcs)"
proof -
  have "steps R (\<lambda>_. True) (bind_accessor a)" for a
    unfolding bind_accessor_def
    by (auto split: prod.splits intro!: steps_then [OF steps_new_block_arg] steps_bind_name)
  moreover have "steps R (\<lambda>_. True) (bind_capture c p nv)" for nv
    unfolding bind_capture_def emit_cb_from_capture_def
    by (auto split: capture.splits simp: well_typed_other intro!: steps_return steps_bind_const steps_bind_name
        steps_then [OF steps_bind_sresult] steps_weaken [OF steps_emit])
  ultimately show ?thesis unfolding bind_captures_def
    by (intro steps_then [OF steps_sfor] steps_sfor)
qed

text \<open>The body of a thread function, from the captures to the return.\<close>

lemma steps_body:
  assumes "user \<or> \<not> list_ex (stmt_mentions ''signpost'') body"
  shows "steps R (\<lambda>_. True) (sbind (bind_captures c p tcs) (\<lambda>_. sbind (visit_stmts c body) (\<lambda>_. close_function c)))"
  unfolding close_function_def
  by (intro steps_then [OF steps_bind_captures] steps_then [OF steps_visit_stmts(2) [OF assms]]
      steps_then [OF steps_close] steps_emit_op) (simp_all add: well_typed_other)

end

text \<open>
  Compiling a module that consists of one thread function: the function is opened, its body visited
  in its block, and what is left is to leave the block.
\<close>

definition entered :: "cenv \<Rightarrow> source_line_mapper \<Rightarrow> pos \<Rightarrow> string \<Rightarrow> (string \<times> int \<times> ty) list \<Rightarrow> string \<Rightarrow> cstate" where
  "entered c m p name tcs th =
     \<lparr>next_value = 0, next_block = 2,
      blocks = (\<lambda>_. [])(0 := [\<lparr>op_name = ''func.func'', op_operands = [],
        op_attrs = [A_str name, A_str th] @ map (A_ty \<circ> snd \<circ> snd) tcs, op_result = None, op_blocks = [1],
        op_loc = loc_for_node c p\<rparr>]),
      ip = 1, cur_loc = loc_for_node c p, symbol_tables = [[(''ttl'', P_module)]], signpost_line = None,
      line_mapper = (if ce_auto_profile c then m\<lparr>mapper_line_offset := ce_line_offset c\<rparr> else m),
      func_entry = True, accessor_names = map fst tcs, accessor_indices = map (fst \<circ> snd) tcs\<rparr>"

lemma open_function_entered:
  assumes "open_function c p name params s = (Inr (b, tcs), s')"
  shows "params = [] \<and> tensor_captures c = Inr tcs \<and> \<not> func_entry s \<and> b = next_block s \<and>
    (\<exists>th. get_thread_type_string (Type_string (ce_kernel_type c)) = Inr th \<and>
      s' = (add_op ''func.func'' [] ([A_str name, A_str th] @ map (A_ty \<circ> snd \<circ> snd) tcs) None [b]
        (s\<lparr>accessor_names := map fst tcs, accessor_indices := map (fst \<circ> snd) tcs,
           next_block := next_block s + 1\<rparr>))\<lparr>func_entry := True\<rparr>)"
  using assms unfolding open_function_def
  by (auto simp: sbind_eq_Inr new_block_def emit_region_def smodify_def raise_error_def sraise_def sreturn_def
      split: if_splits)

lemma framed_function:
  assumes "sbind (push_table t) (\<lambda>_. sbind (at_block b m) (\<lambda>_. pop_table)) s = (Inr (), s')"
  obtains s2 where "m (s\<lparr>ip := b, symbol_tables := t # symbol_tables s\<rparr>) = (Inr (), s2)"
    and "s' = s2\<lparr>ip := ip s, symbol_tables := tl (symbol_tables s2)\<rparr>"
proof -
  obtain q s2 where q: "m (s\<lparr>ip := b, symbol_tables := t # symbol_tables s\<rparr>) = (q, s2)" by fastforce
  have eq: "s\<lparr>symbol_tables := t # symbol_tables s, ip := b\<rparr> = s\<lparr>ip := b, symbol_tables := t # symbol_tables s\<rparr>"
    by simp
  from assms q have "q = Inr ()" "s' = s2\<lparr>ip := ip s, symbol_tables := tl (symbol_tables s2)\<rparr>"
    by (auto simp: sbind_eq_Inr push_table_def pop_table_def at_block_def smodify_def eq)
  with q show thesis by (intro that) auto
qed

lemma module_function:
  assumes "visit_module c [Function_def p name params body] s = (Inr u, s')"
  obtains b tcs s1 s2 where "open_function c p name params (s\<lparr>ip := 0, cur_loc := loc_for_node c p\<rparr>) = (Inr (b, tcs), s1)"
    and "sbind (bind_captures c p tcs) (\<lambda>_. sbind (visit_stmts c body) (\<lambda>_. close_function c))
           (s1\<lparr>ip := b, symbol_tables := [(''ttl'', P_module)] # symbol_tables s1\<rparr>) = (Inr (), s2)"
    and "s' = s2\<lparr>ip := ip s, symbol_tables := tl (symbol_tables s2), cur_loc := cur_loc s\<rparr>"
proof -
  obtain r t where r: "visit_stmts c [Function_def p name params body] (s\<lparr>ip := 0, cur_loc := Loc_unknown\<rparr>) = (r, t)"
    by fastforce
  with assms have r': "r = Inr u" "s' = t\<lparr>ip := ip s, cur_loc := cur_loc s\<rparr>"
    by (auto simp: visit_module_def at_block_def with_location_def split: prod.splits)
  let ?m = "\<lambda>(b, tcs). sbind (push_table [(''ttl'', P_module)]) (\<lambda>_. sbind (at_block b
      (sbind (bind_captures c p tcs) (\<lambda>_. sbind (visit_stmts c body) (\<lambda>_. close_function c)))) (\<lambda>_. pop_table))"
  from r r'(1) obtain t1 where
    "sbind (open_function c p name params) ?m (s\<lparr>ip := 0, cur_loc := loc_for_node c p\<rparr>) = (Inr (), t1)"
    and t: "t = t1\<lparr>cur_loc := Loc_unknown\<rparr>"
    by (auto simp: sbind_eq_Inr with_location_def split: prod.splits)
  then obtain b tcs s1 where op: "open_function c p name params (s\<lparr>ip := 0, cur_loc := loc_for_node c p\<rparr>) = (Inr (b, tcs), s1)"
    and m: "?m (b, tcs) s1 = (Inr (), t1)"
    by (auto simp: sbind_eq_Inr)
  from m have "sbind (push_table [(''ttl'', P_module)]) (\<lambda>_. sbind (at_block b
      (sbind (bind_captures c p tcs) (\<lambda>_. sbind (visit_stmts c body) (\<lambda>_. close_function c)))) (\<lambda>_. pop_table)) s1 = (Inr (), t1)"
    by simp
  then obtain s2 where "sbind (bind_captures c p tcs) (\<lambda>_. sbind (visit_stmts c body) (\<lambda>_. close_function c))
       (s1\<lparr>ip := b, symbol_tables := [(''ttl'', P_module)] # symbol_tables s1\<rparr>) = (Inr (), s2)"
    and "t1 = s2\<lparr>ip := ip s1, symbol_tables := tl (symbol_tables s2)\<rparr>"
    by (rule framed_function)
  with op r'(2) t show thesis by (intro that [of b tcs s1 s2]) auto
qed

lemma compile_entered:
  assumes "compile_ast c m [Function_def p name params body] = Inr s'"
  obtains tcs th s2 where "params = []" and "tensor_captures c = Inr tcs"
    and "get_thread_type_string (Type_string (ce_kernel_type c)) = Inr th"
    and "sbind (bind_captures c p tcs) (\<lambda>_. sbind (visit_stmts c body) (\<lambda>_. close_function c))
           (entered c m p name tcs th) = (Inr (), s2)"
    and "s' = s2\<lparr>ip := 0, symbol_tables := tl (symbol_tables s2), cur_loc := Loc_unknown\<rparr>"
proof -
  obtain s0 where s0: "new_compiler c m = Inr s0"
    and "(case visit_module c [Function_def p name params body] s0 of (Inl e, _) \<Rightarrow> Inl e | (Inr _, t) \<Rightarrow> Inr t) = Inr s'"
    using assms unfolding compile_ast_def by (rule rbind_InrE)
  then obtain u where "visit_module c [Function_def p name params body] s0 = (Inr u, s')"
    by (auto split: prod.splits sum.splits)
  then obtain b tcs s1 s2 where op: "open_function c p name params (s0\<lparr>ip := 0, cur_loc := loc_for_node c p\<rparr>) = (Inr (b, tcs), s1)"
    and run: "sbind (bind_captures c p tcs) (\<lambda>_. sbind (visit_stmts c body) (\<lambda>_. close_function c))
           (s1\<lparr>ip := b, symbol_tables := [(''ttl'', P_module)] # symbol_tables s1\<rparr>) = (Inr (), s2)"
    and s': "s' = s2\<lparr>ip := ip s0, symbol_tables := tl (symbol_tables s2), cur_loc := cur_loc s0\<rparr>"
    by (rule module_function)
  from open_function_entered [OF op] obtain th where th: "params = []" "tensor_captures c = Inr tcs" "b = next_block s0"
    "get_thread_type_string (Type_string (ce_kernel_type c)) = Inr th"
    "s1 = (add_op ''func.func'' [] ([A_str name, A_str th] @ map (A_ty \<circ> snd \<circ> snd) tcs) None [b]
        (s0\<lparr>ip := 0, cur_loc := loc_for_node c p, accessor_names := map fst tcs, accessor_indices := map (fst \<circ> snd) tcs,
           next_block := next_block s0 + 1\<rparr>))\<lparr>func_entry := True\<rparr>" by auto
  have "s1\<lparr>ip := b, symbol_tables := [(''ttl'', P_module)] # symbol_tables s1\<rparr> = entered c m p name tcs th"
    using s0 th(3,5) by (auto simp: new_compiler_def rbind_eq_Inr entered_def add_op_def)
  with run s' th(1,2,4) s0 show thesis
    by (intro that [of tcs th s2]) (auto simp: new_compiler_def rbind_eq_Inr)
qed

end
