(* ===== verification/Frontprops.thy ===== *)
theory Frontprops
  imports Frontsteps
begin

text \<open>
  What the compiler front end guarantees about its output: operations are well typed, signpost zones
  are closed in the block they were opened in, \<open>with\<close> releases what it acquired in reverse order,
  names bound in a branch or loop end with it, and the arguments of a thread are the captured tensors.
\<close>

section \<open>Elementary effects\<close>

lemma blocks_add_op [simp]:
  "blocks (add_op n vs attrs r bs s) =
     (blocks s)(ip s := blocks s (ip s) @ [\<lparr>op_name = n, op_operands = vs, op_attrs = attrs, op_result = r,
        op_blocks = bs, op_loc = cur_loc s\<rparr>])"
  by (simp add: add_op_def)

lemma fields_add_op [simp]:
  "ip (add_op n vs attrs r bs s) = ip s" "accessor_names (add_op n vs attrs r bs s) = accessor_names s" "symbol_tables (add_op n vs attrs r bs s) = symbol_tables s"
  "signpost_line (add_op n vs attrs r bs s) = signpost_line s" "func_entry (add_op n vs attrs r bs s) = func_entry s"
  "line_mapper (add_op n vs attrs r bs s) = line_mapper s" "cur_loc (add_op n vs attrs r bs s) = cur_loc s"
  "next_block (add_op n vs attrs r bs s) = next_block s" "accessor_indices (add_op n vs attrs r bs s) = accessor_indices s"
  by (simp_all add: add_op_def)

text \<open>What the signposts of the profiler do: they only add signposts to the current block.\<close>

definition signpost_op :: "location \<Rightarrow> string \<Rightarrow> operation" where
  "signpost_op l n = \<lparr>op_name = ''ttl.signpost'', op_operands = [], op_attrs = [A_str n], op_result = None,
     op_blocks = [], op_loc = l\<rparr>"

lemma emit_signpost_state:
  "emit_signpost n s = (Inr (), s\<lparr>blocks := (blocks s)(ip s := blocks s (ip s) @ [signpost_op (cur_loc s) n])\<rparr>)"
  by (simp add: emit_signpost_def emit_op_def smodify_def add_op_def signpost_op_def)

definition close_names :: "cenv \<Rightarrow> cstate \<Rightarrow> string list" where
  "close_names c s = (case signpost_line s of None \<Rightarrow> [] | Some l \<Rightarrow> [line_zone c l @ ''_after''])"

lemma close_line_state:
  "close_line c s = (Inr (), s\<lparr>blocks := (blocks s)(ip s := blocks s (ip s) @ map (signpost_op (cur_loc s)) (close_names c s))\<rparr>)"
  by (simp add: close_line_def close_names_def emit_signpost_state split: option.splits)

lemma close_final_state:
  "close_final_signpost c s = (Inr (),
     if ce_auto_profile c
     then s\<lparr>blocks := (blocks s)(ip s := blocks s (ip s) @ map (signpost_op (cur_loc s)) (close_names c s)),
            signpost_line := None\<rparr>
     else s)"
  by (simp add: close_final_signpost_def sbind_def close_line_state set_signpost_line_def sreturn_def smodify_def)

lemma line_signpost_state:
  "emit_line_signpost_if_needed c p s = (Inr (),
     let l = fst p + ce_line_offset c in
     if \<not> ce_auto_profile c \<or> signpost_line s = Some l then s
     else s\<lparr>blocks := (blocks s)(ip s := blocks s (ip s) @ map (signpost_op (cur_loc s))
              (close_names c s @ [line_zone c l @ ''_before''])),
            line_mapper := register_signpost (line_zone c l) l (source_line_at c p) (line_mapper s),
            signpost_line := Some l\<rparr>)"
  by (simp add: emit_line_signpost_if_needed_def Let_def sbind_def close_line_state register_zone_def
      emit_signpost_state set_signpost_line_def smodify_def)

definition zone_base :: "cenv \<Rightarrow> string \<Rightarrow> pos \<Rightarrow> bool \<Rightarrow> string" where
  "zone_base c opn p imp =
     line_zone c (fst p + ce_line_offset c) @ ''_'' @ (if imp then ''implicit_'' else []) @ opn"

definition zone_ops :: "cenv \<Rightarrow> string \<Rightarrow> pos \<Rightarrow> bool \<Rightarrow> operation \<Rightarrow> operation list" where
  "zone_ops c opn p imp q =
     (if ce_auto_profile c
      then [signpost_op (loc_for_node c p) (zone_base c opn p imp @ ''_before''), q,
            signpost_op (loc_for_node c p) (zone_base c opn p imp @ ''_after'')]
      else [q])"

definition zone_mapper :: "cenv \<Rightarrow> string \<Rightarrow> pos \<Rightarrow> bool \<Rightarrow> source_line_mapper \<Rightarrow> source_line_mapper" where
  "zone_mapper c opn p imp m =
     (if ce_auto_profile c
      then register_signpost (zone_base c opn p imp) (fst p + ce_line_offset c) (source_line_at c p) m else m)"

definition op_at :: "cenv \<Rightarrow> pos \<Rightarrow> string \<Rightarrow> val list \<Rightarrow> attr list \<Rightarrow> val option \<Rightarrow> operation" where
  "op_at c p n vs attrs r = \<lparr>op_name = n, op_operands = vs, op_attrs = attrs, op_result = r, op_blocks = [],
     op_loc = loc_for_node c p\<rparr>"

lemma zone_emit_state:
  "emit_op_signposts c opn p imp (emit n vs attrs t) s =
     (let v = Result (next_value s) n vs attrs t in
      (Inr v, s\<lparr>next_value := next_value s + 1,
         blocks := (blocks s)(ip s := blocks s (ip s) @ zone_ops c opn p imp (op_at c p n vs attrs (Some v))),
         line_mapper := zone_mapper c opn p imp (line_mapper s)\<rparr>))"
  by (simp add: emit_op_signposts_def Let_def with_location_def sbind_def register_zone_def smodify_def
      emit_signpost_state emit_def add_op_def sreturn_def zone_ops_def zone_mapper_def zone_base_def op_at_def)

lemma zone_op_state:
  "emit_op_signposts c opn p imp (emit_op n vs attrs) s =
     (Inr (), s\<lparr>blocks := (blocks s)(ip s := blocks s (ip s) @ zone_ops c opn p imp (op_at c p n vs attrs None)),
         line_mapper := zone_mapper c opn p imp (line_mapper s)\<rparr>)"
  by (simp add: emit_op_signposts_def Let_def with_location_def sbind_def register_zone_def smodify_def
      emit_signpost_state emit_op_def add_op_def sreturn_def zone_ops_def zone_mapper_def zone_base_def op_at_def)

lemma in_scope_state:
  assumes "in_scope c b table m s = (Inr u, s')"
  obtains s1 s2 where "m (s\<lparr>ip := b, cur_loc := Loc_unknown, symbol_tables := table # symbol_tables s\<rparr>) = (Inr (), s1)"
    and "close_final_signpost c s1 = (Inr (), s2)"
    and "s' = (add_op ''scf.yield'' [] [] None [] s2)\<lparr>symbol_tables := tl (symbol_tables s2), cur_loc := cur_loc s, ip := ip s\<rparr>"
proof -
  obtain q s1 where q: "m (s\<lparr>ip := b, cur_loc := Loc_unknown, symbol_tables := table # symbol_tables s\<rparr>) = (q, s1)"
    by fastforce
  obtain s2 where s2: "close_final_signpost c s1 = (Inr (), s2)" by (simp add: close_final_state)
  from assms q s2 have "q = Inr ()"
    "s' = (add_op ''scf.yield'' [] [] None [] s2)\<lparr>symbol_tables := tl (symbol_tables s2), cur_loc := cur_loc s, ip := ip s\<rparr>"
    by (auto simp: in_scope_def at_block_def with_location_def sbind_def push_table_def pop_table_def smodify_def
        emit_op_def split: prod.splits sum.splits)
  with q s2 show thesis by (intro that) auto
qed

lemma bind_name_state:
  "bind_name x v s = (Inr u, s') \<Longrightarrow>
     \<exists>t ts. symbol_tables s = t # ts \<and> s' = s\<lparr>symbol_tables := AList.update x v t # ts\<rparr>"
  by (auto simp: bind_name_def split: list.splits)

lemma nested_function: "func_entry s \<Longrightarrow> visit_stmt c (Function_def p name params body) s \<noteq> (Inr u, s')"
  by (auto simp: with_location_def sbind_def open_function_def split: prod.splits)

text \<open>What the bindings are documented to do, as far as the typing of the output needs it.\<close>

definition documented :: "cenv \<Rightarrow> bool" where
  "documented c \<longleftrightarrow>
     (\<forall>vs attrs t. infer (ce_lib c) ''arith.cmpi'' vs attrs = Inr t \<longrightarrow> t = T_int 1) \<and>
     view_has_type (ce_lib c) ''arith.constant'' \<and>
     set (ce_unary c @ ce_binary c) \<inter> {''cb_reserve'', ''cb_wait'', ''signpost''} = {}"

lemma documentedD:
  assumes "documented c"
  shows "infer (ce_lib c) ''arith.cmpi'' vs attrs = Inr t \<Longrightarrow> t = T_int 1"
    and "view_has_type (ce_lib c) ''arith.constant''"
    and "set (ce_unary c) \<inter> {''cb_reserve'', ''cb_wait'', ''signpost''} = {}"
    and "set (ce_binary c) \<inter> {''cb_reserve'', ''cb_wait'', ''signpost''} = {}"
  using assms by (auto simp: documented_def)

text \<open>Bindings that behave so, and a compiler for a small thread.\<close>

definition demo_lib :: mlir where
  "demo_lib =
     \<lparr>infer = (\<lambda>n vs attrs.
        if n = ''arith.cmpi'' then Inr (T_int 1)
        else if n = ''ttl.core_x'' \<or> n = ''ttl.core_y'' then Inr T_index
        else (case map ty_of vs of
                [] \<Rightarrow> Inl (ValueError ''cannot infer the type of a result'')
              | t # _ \<Rightarrow> Inr (case t of T_memref _ e \<Rightarrow> e | _ \<Rightarrow> t))),
      view_has_type = (\<lambda>n. n = ''arith.constant''), operand_error = TypeError ''Operand must be a Value'',
      memref_elem = (\<lambda>_. Inr ()), block_name_error = AttributeError ''name''\<rparr>"

definition demo_tensor_shape :: "nat \<Rightarrow> int list \<times> dtype" where
  "demo_tensor_shape t = ([96, 40], Torch Torch_bfloat16)"

definition demo_buffer :: "nat \<Rightarrow> circular_buffer" where
  "demo_buffer i = \<lparr>cb_tensor = 0, cb_shape = [1, 1], buffer_factor = 2, cb_index = i\<rparr>"

definition demo_env :: cenv where
  "demo_env =
     \<lparr>ce_name = ''work'', ce_kernel_type = ''compute'',
      ce_captures = [(''lhs'', Cap_cb (demo_buffer 0)), (''rows'', Cap_int 4), (''x'', Cap_tensor 7),
                     (''out'', Cap_cb (demo_buffer 1))],
      ce_grid = [1, 1], ce_memory_space = ''L1'', ce_tiled = True, ce_debug_locations = True,
      ce_source_file = ''k.py'', ce_source_lines = [''def work():'', ''  with lhs.wait() as l, out.reserve() as o:''],
      ce_line_offset = 10, ce_globals = [(''D'', G_int 2)], ce_auto_profile = True, ce_lib = demo_lib,
      ce_tensor = demo_tensor_shape,
      ce_registry = \<lparr>name_registry = [7 \<mapsto> ''x''], index_registry = [7 \<mapsto> 3], source_registry = Map.empty\<rparr>,
      ce_str_of = (\<lambda>_. ''torch''), ce_can_import = True, ce_binary = [''max''], ce_unary = [''exp'']\<rparr>"

text \<open>The environment itself if its bindings behave as documented.\<close>

definition sane :: "cenv \<Rightarrow> cenv" where
  "sane c = (if documented c then c else demo_env)"

lemma sane_documented: "documented (sane c)"
  by (simp add: sane_def documented_def demo_env_def demo_lib_def)

lemma sane_id: "documented c \<Longrightarrow> sane c = c"
  by (simp add: sane_def)

section \<open>Types\<close>

definition typed_state :: "cstate \<Rightarrow> bool" where
  "typed_state s \<longleftrightarrow> (\<forall>b. \<forall>q \<in> set (blocks s b). well_typed (op_name q) (op_operands q) (op_result q))"

definition keeps_typed :: "cstate \<Rightarrow> cstate \<Rightarrow> bool" where
  "keeps_typed s s' \<longleftrightarrow> func_entry s \<longrightarrow> func_entry s' \<and> (typed_state s \<longrightarrow> typed_state s')"

lemma typed_signpost: "well_typed ''ttl.signpost'' vs r" "well_typed (op_name (signpost_op l n)) vs r"
  by (simp_all add: well_typed_other signpost_op_def)

lemma typed_scope:
  assumes m: "steps keeps_typed (\<lambda>_. True) m" and run: "in_scope c b table m s = (Inr u, s')"
  shows "keeps_typed s s'"
  using run
proof (rule in_scope_state)
  fix s1 s2
  assume 1: "m (s\<lparr>ip := b, cur_loc := Loc_unknown, symbol_tables := table # symbol_tables s\<rparr>) = (Inr (), s1)"
    and 2: "close_final_signpost c s1 = (Inr (), s2)"
    and 3: "s' = (add_op ''scf.yield'' [] [] None [] s2)\<lparr>symbol_tables := tl (symbol_tables s2), cur_loc := cur_loc s, ip := ip s\<rparr>"
  from stepsD [OF m 1] have "keeps_typed s s1" by (simp add: keeps_typed_def typed_state_def)
  with 2 3 show ?thesis
    by (auto simp: keeps_typed_def typed_state_def close_final_state typed_signpost well_typed_other split: if_splits)
qed

lemma typed_more:
  "typed_state s \<Longrightarrow> (\<And>q. q \<in> set l \<Longrightarrow> well_typed (op_name q) (op_operands q) (op_result q)) \<Longrightarrow>
     blocks s' = (blocks s)(i := blocks s i @ l) \<Longrightarrow> typed_state s'"
  by (auto simp: typed_state_def split: if_splits)

lemma typed_same: "typed_state s \<Longrightarrow> blocks s' = blocks s \<Longrightarrow> typed_state s'"
  by (simp add: typed_state_def)

lemma typed_add_op: "typed_state s \<Longrightarrow> well_typed n vs r \<Longrightarrow> typed_state (add_op n vs attrs r bs s)"
  by (auto simp: typed_state_def)

lemma typed_zone_ops:
  "well_typed n vs r \<Longrightarrow> q \<in> set (zone_ops c opn p imp (op_at c p n vs attrs r)) \<Longrightarrow>
     well_typed (op_name q) (op_operands q) (op_result q)"
  by (auto simp: zone_ops_def typed_signpost op_at_def split: if_splits)

lemma keeps_typed_laws: "documented c \<Longrightarrow> emission_stmt keeps_typed c True"
proof (unfold_locales, goal_cases)
  case 6
  then show ?case
    by (auto simp: keeps_typed_def line_signpost_state Let_def typed_signpost elim!: typed_more split: if_splits)
next
  case (13 s s')
  then show ?case
    by (auto simp: keeps_typed_def close_final_state typed_signpost elim!: typed_more split: if_splits)
next
  case (15 s n vs attrs t opn p imp w s')
  from 15(3) have "well_typed n vs (Some (Result (next_value s) n vs attrs t))" .
  from typed_more [OF _ typed_zone_ops [OF this]] 15(5) show ?case
    by (auto simp: keeps_typed_def zone_emit_state Let_def)
next
  case (16 s n vs opn p imp attrs u s')
  from typed_more [OF _ typed_zone_ops [OF 16(3)]] 16(5) show ?case
    by (auto simp: keeps_typed_def zone_op_state)
next
  case 17
  then show ?case by (blast intro: typed_scope)
next
  case (3 n vs r s attrs bs)
  then show ?case by (auto simp: keeps_typed_def intro: typed_add_op)
next
  case (7 s attrs)
  then show ?case by (auto simp: keeps_typed_def typed_signpost(1) intro: typed_add_op)
next
  case (12 x v s s')
  then show ?case by (auto simp: keeps_typed_def dest!: bind_name_state intro: typed_same)
next
  case (18 p name params body s u s')
  then show ?case using nested_function [of s c p name params body u s']
    by (auto simp: keeps_typed_def simp del: visit_stmt.simps)
next
  case 8
  then show ?case by (rule documentedD)
next
  case 9
  then show ?case by (rule documentedD)
next
  case 10
  then show ?case by (rule documentedD)
next
  case 11
  then show ?case by (rule documentedD)
qed (auto simp: keeps_typed_def intro: typed_same)

interpretation typed: emission_stmt keeps_typed "sane c" True for c
  by (rule keeps_typed_laws) (rule sane_documented)


text \<open>A function update is evaluated where it is applied.\<close>

declare fun_upd_apply [code]

definition succeeded :: "'a result \<Rightarrow> bool" where
  "succeeded r = (case r of Inr _ \<Rightarrow> True | Inl _ \<Rightarrow> False)"

definition outcome :: "'a result \<Rightarrow> 'a" where
  "outcome r = (case r of Inr a \<Rightarrow> a)"

lemma succeeded_outcome: "succeeded r \<Longrightarrow> r = Inr (outcome r)"
  by (simp add: succeeded_def outcome_def split: sum.splits)

definition demo_mapper :: source_line_mapper where
  "demo_mapper = \<lparr>signpost_to_line = [], mapper_source_lines = [], mapper_line_offset = 0\<rparr>"

definition plain_env :: cenv where
  "plain_env = demo_env\<lparr>ce_captures := [(''x'', Cap_tensor 7)]\<rparr>"

definition demo_loop :: stmt where
  "demo_loop = Function_def (1, 0) ''work'' []
     [For (2, 2) (Name (2, 6) ''i'') (Call (2, 11) (Name (2, 11) ''range'') [Constant (2, 17) (C_int 3)] [])
        [Expr (3, 4) (Call (3, 4) (Name (3, 4) ''print'') [Name (3, 10) ''i''] [])]]"

lemma demo_loop_compiles: "succeeded (compile_ast plain_env demo_mapper [demo_loop])"
  by code_simp

lemma plain_documented: "documented plain_env"
  by (simp add: documented_def plain_env_def demo_env_def demo_lib_def)


section \<open>Signpost zones\<close>

text \<open>
  The names of the signposts of a block, read as zones: a signpost that ends in \<open>_before\<close> opens a
  zone, and until the signpost \<open>_after\<close> of the same name closes it no other may come. \<open>None\<close> is a
  violation, \<open>Some z\<close> the zone that is open.
\<close>

definition signposts :: "operation list \<Rightarrow> string list" where
  "signposts qs = concat (map (\<lambda>q. if op_name q = ''ttl.signpost''
     then (case op_attrs q of [A_str n] \<Rightarrow> [n] | _ \<Rightarrow> []) else []) qs)"

definition zone_step :: "string option \<Rightarrow> string \<Rightarrow> string option option" where
  "zone_step z n =
     (case z of
        None \<Rightarrow> if suffix ''_before'' n then Some (Some (take (length n - 7) n)) else None
      | Some b \<Rightarrow> if n = b @ ''_after'' then Some None else None)"

definition zones :: "string list \<Rightarrow> string option option" where
  "zones ns = foldl (\<lambda>st n. case st of None \<Rightarrow> None | Some z \<Rightarrow> zone_step z n) (Some None) ns"

lemma zones_Nil [simp]: "zones [] = Some None"
  by (simp add: zones_def)

lemma zones_before: "zones ns = Some None \<Longrightarrow> zones (ns @ [b @ ''_before'']) = Some (Some b)"
  by (simp add: zones_def zone_step_def suffix_def)

lemma zones_after: "zones ns = Some (Some b) \<Longrightarrow> zones (ns @ [b @ ''_after'']) = Some None"
  by (simp add: zones_def zone_step_def)

lemma zones_pair: "zones ns = Some None \<Longrightarrow> zones (ns @ [b @ ''_before'', b @ ''_after'']) = Some None"
  using zones_after [OF zones_before] by (simp add: append_assoc)

lemma signposts_append [simp]:
  "signposts (qs @ rs) = signposts qs @ signposts rs"
  "signposts (map (signpost_op l) ns) = ns"
  "signposts [signpost_op l n] = [n]"
  "signposts [] = []"
  by (induction ns) (auto simp: signposts_def signpost_op_def)

lemma signposts_other [simp]: "op_name q \<noteq> ''ttl.signpost'' \<Longrightarrow> signposts [q] = []"
  by (simp add: signposts_def)

text \<open>The zones that are registered with the mapper.\<close>

definition registered :: "source_line_mapper \<Rightarrow> string set" where
  "registered m = fst ` set (signpost_to_line m)"

lemma registered_more: "registered (register_signpost b l src m) = insert b (registered m)"
  using dom_update [of b "(l, src)" "signpost_to_line m"]
  by (simp add: registered_def register_signpost_def)

definition zones_ok :: "cenv \<Rightarrow> cstate \<Rightarrow> bool" where
  "zones_ok c s \<longleftrightarrow>
     (\<not> ce_auto_profile c \<longrightarrow> signpost_line s = None) \<and>
     (\<forall>b. zones (signposts (blocks s b)) = Some (if b = ip s then map_option (line_zone c) (signpost_line s) else None)) \<and>
     (\<forall>l. signpost_line s = Some l \<longrightarrow> line_zone c l \<in> registered (line_mapper s)) \<and>
     (\<forall>b. \<forall>n \<in> set (signposts (blocks s b)). \<exists>z \<in> registered (line_mapper s). n = z @ ''_before'' \<or> n = z @ ''_after'')"

definition keeps_zones :: "cenv \<Rightarrow> cstate \<Rightarrow> cstate \<Rightarrow> bool" where
  "keeps_zones c s s' \<longleftrightarrow> func_entry s \<longrightarrow> func_entry s' \<and> (zones_ok c s \<longrightarrow> zones_ok c s')"

lemma zones_same:
  "zones_ok c s \<Longrightarrow> blocks s' = blocks s \<Longrightarrow> ip s' = ip s \<Longrightarrow> signpost_line s' = signpost_line s \<Longrightarrow>
     line_mapper s' = line_mapper s \<Longrightarrow> zones_ok c s'"
  by (simp add: zones_ok_def)

lemma zones_add_op: "zones_ok c s \<Longrightarrow> n \<noteq> ''ttl.signpost'' \<Longrightarrow> zones_ok c (add_op n vs attrs r bs s)"
  by (auto simp: zones_ok_def)

text \<open>More signposts and registrations in the current block.\<close>

lemma zones_more:
  assumes ok: "zones_ok c s"
    and b: "blocks s' = (blocks s)(ip s := blocks s (ip s) @ qs)" and ip: "ip s' = ip s"
    and z: "zones (signposts (blocks s (ip s)) @ signposts qs) = Some (map_option (line_zone c) (signpost_line s'))"
    and reg: "registered (line_mapper s) \<subseteq> registered (line_mapper s')"
    and new: "\<And>n. n \<in> set (signposts qs) \<Longrightarrow> \<exists>z \<in> registered (line_mapper s'). n = z @ ''_before'' \<or> n = z @ ''_after''"
    and line: "\<And>l. signpost_line s' = Some l \<Longrightarrow> ce_auto_profile c \<and> line_zone c l \<in> registered (line_mapper s')"
  shows "zones_ok c s'"
  unfolding zones_ok_def
proof (intro conjI allI impI ballI)
  fix b
  show "zones (signposts (blocks s' b)) = Some (if b = ip s' then map_option (line_zone c) (signpost_line s') else None)"
    using ok z by (simp add: zones_ok_def \<open>blocks s' = _\<close> ip)
  fix n assume "n \<in> set (signposts (blocks s' b))"
  then have "n \<in> set (signposts (blocks s b)) \<or> n \<in> set (signposts qs)"
    by (auto simp: \<open>blocks s' = _\<close> split: if_splits)
  then show "\<exists>z \<in> registered (line_mapper s'). n = z @ ''_before'' \<or> n = z @ ''_after''"
  proof
    assume "n \<in> set (signposts (blocks s b))"
    with ok obtain z where "z \<in> registered (line_mapper s)" "n = z @ ''_before'' \<or> n = z @ ''_after''"
      unfolding zones_ok_def by blast
    with reg show ?thesis by blast
  qed (rule new)
next
  assume "\<not> ce_auto_profile c"
  with line show "signpost_line s' = None" by (cases "signpost_line s'") auto
qed (use line in blast)

lemma zones_current: "zones_ok c s \<Longrightarrow>
    zones (signposts (blocks s (ip s))) = Some (map_option (line_zone c) (signpost_line s))"
  by (simp add: zones_ok_def)

lemma zones_closed_line: "zones_ok c s \<Longrightarrow>
    zones (signposts (blocks s (ip s)) @ close_names c s) = Some None \<and>
    (\<forall>n \<in> set (close_names c s). \<exists>z \<in> registered (line_mapper s). n = z @ ''_before'' \<or> n = z @ ''_after'')"
  using zones_current [of c s] zones_after [of "signposts (blocks s (ip s))"]
  by (cases "signpost_line s") (auto simp: close_names_def zones_ok_def)

lemma zones_close:
  assumes ok: "zones_ok c s" and run: "close_final_signpost c s = (Inr (), s')"
  shows "zones_ok c s'"
proof (cases "ce_auto_profile c")
  case True
  with run have s': "s' = s\<lparr>blocks := (blocks s)(ip s := blocks s (ip s) @ map (signpost_op (cur_loc s)) (close_names c s)),
            signpost_line := None\<rparr>" by (simp add: close_final_state)
  show ?thesis
    by (rule zones_more [OF ok, where qs = "map (signpost_op (cur_loc s)) (close_names c s)"])
      (use zones_closed_line [OF ok] in \<open>auto simp: s'\<close>)
qed (use run ok in \<open>simp add: close_final_state\<close>)

lemma zones_line:
  assumes ok: "zones_ok c s" and run: "emit_line_signpost_if_needed c p s = (Inr (), s')"
  shows "zones_ok c s'"
proof (cases "\<not> ce_auto_profile c \<or> signpost_line s = Some (fst p + ce_line_offset c)")
  case False
  let ?l = "fst p + ce_line_offset c"
  let ?ns = "close_names c s @ [line_zone c ?l @ ''_before'']"
  from False run have s': "s' = s\<lparr>blocks := (blocks s)(ip s := blocks s (ip s) @ map (signpost_op (cur_loc s)) ?ns),
        line_mapper := register_signpost (line_zone c ?l) ?l (source_line_at c p) (line_mapper s), signpost_line := Some ?l\<rparr>"
    by (simp add: line_signpost_state Let_def)
  have "zones (signposts (blocks s (ip s)) @ ?ns) = Some (Some (line_zone c ?l))"
    using zones_before zones_closed_line [OF ok] by (metis append.assoc)
  with False show ?thesis
    by (intro zones_more [OF ok, where qs = "map (signpost_op (cur_loc s)) ?ns"])
      (use zones_closed_line [OF ok] in \<open>auto simp: s' registered_more simp del: map_append\<close>)
qed (use run ok in \<open>auto simp: line_signpost_state Let_def\<close>)

lemma zones_zone:
  assumes ok: "zones_ok c s" and cl: "closed c s" and q: "op_name q \<noteq> ''ttl.signpost''"
    and s': "blocks s' = (blocks s)(ip s := blocks s (ip s) @ zone_ops c opn p imp q)"
      "line_mapper s' = zone_mapper c opn p imp (line_mapper s)" "ip s' = ip s" "signpost_line s' = signpost_line s"
  shows "zones_ok c s'"
proof -
  let ?b = "zone_base c opn p imp"
  have line: "signpost_line s = None" using ok cl by (auto simp: zones_ok_def closed_def)
  have names: "signposts (zone_ops c opn p imp q) =
      (if ce_auto_profile c then [?b @ ''_before'', ?b @ ''_after''] else [])"
    using q by (simp add: zone_ops_def signposts_def signpost_op_def)
  have "zones (signposts (blocks s (ip s)) @ signposts (zone_ops c opn p imp q)) = Some None"
    using zones_current [OF ok] line zones_pair [of "signposts (blocks s (ip s))" ?b] unfolding names by simp
  note current = this
  show ?thesis
  proof (rule zones_more [OF ok s'(1,3)])
    show "zones (signposts (blocks s (ip s)) @ signposts (zone_ops c opn p imp q))
        = Some (map_option (line_zone c) (signpost_line s'))"
      using current line s'(4) by simp
    show "registered (line_mapper s) \<subseteq> registered (line_mapper s')"
      by (auto simp: s'(2) zone_mapper_def registered_more)
    show "\<exists>z \<in> registered (line_mapper s'). n = z @ ''_before'' \<or> n = z @ ''_after''"
      if "n \<in> set (signposts (zone_ops c opn p imp q))" for n
    proof (cases "ce_auto_profile c")
      case True
      with that have "n = ?b @ ''_before'' \<or> n = ?b @ ''_after''" unfolding names by simp
      moreover have "?b \<in> registered (line_mapper s')" using True by (simp add: s'(2) zone_mapper_def registered_more)
      ultimately show ?thesis by blast
    qed (use that in \<open>simp add: names\<close>)
    show "ce_auto_profile c \<and> line_zone c l \<in> registered (line_mapper s')" if "signpost_line s' = Some l" for l
      using that line s'(4) by simp
  qed
qed

lemma zones_move: "zones_ok c s \<Longrightarrow> closed c s \<Longrightarrow> blocks s' = blocks s \<Longrightarrow> signpost_line s' = signpost_line s \<Longrightarrow>
     line_mapper s' = line_mapper s \<Longrightarrow> zones_ok c s'"
  by (auto simp: zones_ok_def closed_def)

lemma zones_scope:
  assumes cl: "closed c s" and m: "steps (keeps_zones c) (\<lambda>_. True) m"
    and run: "in_scope c b table m s = (Inr u, s')"
  shows "keeps_zones c s s'"
  using run
proof (rule in_scope_state)
  fix s1 s2
  assume 1: "m (s\<lparr>ip := b, cur_loc := Loc_unknown, symbol_tables := table # symbol_tables s\<rparr>) = (Inr (), s1)"
    and 2: "close_final_signpost c s1 = (Inr (), s2)"
    and 3: "s' = (add_op ''scf.yield'' [] [] None [] s2)\<lparr>symbol_tables := tl (symbol_tables s2), cur_loc := cur_loc s, ip := ip s\<rparr>"
  show ?thesis unfolding keeps_zones_def
  proof (intro impI conjI)
    assume f: "func_entry s"
    with stepsD [OF m 1] have "func_entry s1" by (simp add: keeps_zones_def)
    then show "func_entry s'" using 2 3 by (auto simp: close_final_state split: if_splits)
    assume ok: "zones_ok c s"
    have "zones_ok c (s\<lparr>ip := b, cur_loc := Loc_unknown, symbol_tables := table # symbol_tables s\<rparr>)"
      by (rule zones_move [OF ok cl]) simp_all
    with stepsD [OF m 1] f have "zones_ok c s1" by (simp add: keeps_zones_def)
    then have "zones_ok c (add_op ''scf.yield'' [] [] None [] s2)" using 2 by (auto intro: zones_add_op zones_close)
    moreover have "closed c (add_op ''scf.yield'' [] [] None [] s2)" using close_final_line [OF 2] by (simp add: closed_def)
    ultimately show "zones_ok c s'" by (rule zones_move) (simp_all add: 3)
  qed
qed

lemma keeps_zones_laws: "documented c \<Longrightarrow> emission_stmt (keeps_zones c) c False"
proof (unfold_locales, goal_cases)
  case (3 n vs r s attrs bs)
  then show ?case by (auto simp: keeps_zones_def intro: zones_add_op)
next
  case (6 p s s')
  then show ?case
    using zones_line by (auto simp: keeps_zones_def line_signpost_state Let_def split: if_splits)
next
  case (12 x v s s')
  then show ?case by (auto simp: keeps_zones_def dest!: bind_name_state intro: zones_same)
next
  case (13 s s')
  then show ?case
    using zones_close by (auto simp: keeps_zones_def close_final_state split: if_splits)
next
  case (15 s n vs attrs t opn p imp w s')
  let ?q = "op_at c p n vs attrs (Some (Result (next_value s) n vs attrs t))"
  from 15(5) have s': "s' = s\<lparr>next_value := next_value s + 1,
         blocks := (blocks s)(ip s := blocks s (ip s) @ zone_ops c opn p imp ?q),
         line_mapper := zone_mapper c opn p imp (line_mapper s)\<rparr>" by (auto simp: zone_emit_state Let_def)
  have "zones_ok c s \<Longrightarrow> zones_ok c s'"
    by (rule zones_zone [of c s ?q s' opn p imp]) (use 15(2,4) in \<open>simp_all add: s' op_at_def\<close>)
  then show ?case by (simp add: keeps_zones_def s')
next
  case (16 s n vs opn p imp attrs u s')
  let ?q = "op_at c p n vs attrs None"
  from 16(5) have s': "s' = s\<lparr>blocks := (blocks s)(ip s := blocks s (ip s) @ zone_ops c opn p imp ?q),
         line_mapper := zone_mapper c opn p imp (line_mapper s)\<rparr>" by (simp add: zone_op_state)
  have "zones_ok c s \<Longrightarrow> zones_ok c s'"
    by (rule zones_zone [of c s ?q s' opn p imp]) (use 16(2,4) in \<open>simp_all add: s' op_at_def\<close>)
  then show ?case by (simp add: keeps_zones_def s')
next
  case (17 s m b table s')
  then show ?case by (blast intro: zones_scope)
next
  case (18 p name params body s u s')
  then show ?case using nested_function [of s c p name params body u s']
    by (auto simp: keeps_zones_def simp del: visit_stmt.simps)
next
  case 8
  then show ?case by (rule documentedD)
next
  case 9
  then show ?case by (rule documentedD)
next
  case 10
  then show ?case by (rule documentedD)
next
  case 11
  then show ?case by (rule documentedD)
qed (auto simp: keeps_zones_def intro: zones_same)

lemma close_function_closed: "close_function c s = (Inr u, s') \<Longrightarrow> closed c s'"
  by (auto simp: close_function_def sbind_eq_Inr emit_op_def closed_def dest: close_final_line)

interpretation zoned: emission_stmt "keeps_zones (sane c)" "sane c" False for c
  by (rule keeps_zones_laws) (rule sane_documented)

text \<open>Property C10: in a thread that does not emit signposts itself, the profiler's signposts of every
  block of the output form zones: each \<open>_before\<close> is followed by the \<open>_after\<close> of the same zone before
  the next zone of the block starts, none is left open at the end of a block, and every zone is
  registered with the line mapper.\<close>

theorem zones_are_closed:
  assumes "compile_ast c m [Function_def p name params body] = Inr s" and "documented c"
    and "\<not> list_ex (stmt_mentions ''signpost'') body"
  shows "zones (signposts (blocks s b)) = Some None \<and>
    set (signposts (blocks s b)) \<subseteq> (\<Union>z \<in> registered (line_mapper s). {z @ ''_before'', z @ ''_after''})"
  using assms(1)
proof (rule compile_entered)
  fix tcs th s2
  assume run: "sbind (bind_captures c p tcs) (\<lambda>_. sbind (visit_stmts c body) (\<lambda>_. close_function c))
      (entered c m p name tcs th) = (Inr (), s2)"
    and s: "s = s2\<lparr>ip := 0, symbol_tables := tl (symbol_tables s2), cur_loc := Loc_unknown\<rparr>"
  have "zones_ok c (entered c m p name tcs th)"
    by (auto simp: zones_ok_def entered_def signposts_def)
  with stepsD [OF zoned.steps_body [of body c, unfolded sane_id [OF assms(2)]] run] assms(3)
  have ok: "zones_ok c s2" by (simp add: keeps_zones_def entered_def)
  from run have "closed c s2" by (auto simp: sbind_eq_Inr intro: close_function_closed)
  with ok have "signpost_line s2 = None" by (auto simp: zones_ok_def closed_def)
  with ok show ?thesis unfolding zones_ok_def by (fastforce simp: s)
qed

lemma zones_are_closed_witness:
  "zones (signposts (blocks (outcome (compile_ast plain_env demo_mapper [demo_loop])) 2)) = Some None"
  using zones_are_closed [OF succeeded_outcome [OF demo_loop_compiles, unfolded demo_loop_def] plain_documented, of 2]
  by (simp add: demo_loop_def)

section \<open>Growth and scopes\<close>

text \<open>
  A visit only appends to blocks, ends in the block it started in, changes at most the innermost
  symbol table and leaves the arguments of the function alone.
\<close>

definition grows :: "cstate \<Rightarrow> cstate \<Rightarrow> bool" where
  "grows s s' \<longleftrightarrow> func_entry s \<longrightarrow> func_entry s' \<and> ip s' = ip s \<and> (\<forall>b. prefix (blocks s b) (blocks s' b)) \<and>
     tl (symbol_tables s') = tl (symbol_tables s) \<and> (symbol_tables s' = [] \<longleftrightarrow> symbol_tables s = []) \<and>
     accessor_names s' = accessor_names s \<and> accessor_indices s' = accessor_indices s"

lemma grows_blocks:
  "func_entry s' = func_entry s \<Longrightarrow> accessor_names s' = accessor_names s \<Longrightarrow> accessor_indices s' = accessor_indices s \<Longrightarrow> ip s' = ip s \<Longrightarrow> symbol_tables s' = symbol_tables s \<Longrightarrow>
     blocks s' = (blocks s)(ip s := blocks s (ip s) @ qs) \<Longrightarrow> grows s s'"
  by (simp add: grows_def)

lemma grows_scope:
  assumes m: "steps grows (\<lambda>_. True) m" and run: "in_scope c b table m s = (Inr u, s')"
  shows "grows s s' \<and> (func_entry s \<longrightarrow> symbol_tables s' = symbol_tables s)"
  using run
proof (rule in_scope_state)
  fix s1 s2
  assume 1: "m (s\<lparr>ip := b, cur_loc := Loc_unknown, symbol_tables := table # symbol_tables s\<rparr>) = (Inr (), s1)"
    and 2: "close_final_signpost c s1 = (Inr (), s2)"
    and 3: "s' = (add_op ''scf.yield'' [] [] None [] s2)\<lparr>symbol_tables := tl (symbol_tables s2), cur_loc := cur_loc s, ip := ip s\<rparr>"
  from stepsD [OF m 1] have 4: "func_entry s \<longrightarrow> func_entry s1 \<and> ip s1 = b \<and> (\<forall>b. prefix (blocks s b) (blocks s1 b)) \<and>
      tl (symbol_tables s1) = symbol_tables s \<and> accessor_names s1 = accessor_names s \<and>
      accessor_indices s1 = accessor_indices s" by (simp add: grows_def)
  have "prefix (blocks s1 b) (blocks s2 b)" "symbol_tables s2 = symbol_tables s1" "func_entry s2 = func_entry s1"
    "accessor_names s2 = accessor_names s1" "accessor_indices s2 = accessor_indices s1" for b
    using 2 by (auto simp: close_final_state split: if_splits)
  with 4 show ?thesis
    by (auto simp: grows_def 3 prefix_order.order_trans intro: prefix_order.trans)
qed

lemma grows_trans: "grows s s1 \<Longrightarrow> grows s1 s2 \<Longrightarrow> grows s s2"
  by (auto simp: grows_def intro: prefix_order.trans)

lemma grows_laws: "documented c \<Longrightarrow> emission_stmt grows c True"
proof (unfold_locales, goal_cases)
  case (2 s s1 s2)
  then show ?case by (blast intro: grows_trans)
next
  case (3 n vs r s attrs bs)
  then show ?case by (auto intro!: grows_blocks)
next
  case (6 p s s')
  then show ?case by (auto simp: line_signpost_state Let_def intro!: grows_blocks split: if_splits)
next
  case (7 s attrs)
  then show ?case by (auto intro!: grows_blocks)
next
  case (12 x v s s')
  then show ?case by (auto simp: grows_def dest!: bind_name_state)
next
  case (13 s s')
  then show ?case by (auto simp: close_final_state intro!: grows_blocks split: if_splits)
next
  case (15 s n vs attrs t opn p imp w s')
  then show ?case by (auto simp: zone_emit_state Let_def intro!: grows_blocks)
next
  case (16 s n vs opn p imp attrs u s')
  then show ?case by (auto simp: zone_op_state intro!: grows_blocks)
next
  case (17 s m b table s')
  then show ?case using grows_scope by blast
next
  case (18 p name params body s u s')
  then show ?case using nested_function [of s c p name params body u s']
    by (auto simp: grows_def simp del: visit_stmt.simps)
next
  case 8
  then show ?case by (rule documentedD)
next
  case 9
  then show ?case by (rule documentedD)
next
  case 10
  then show ?case by (rule documentedD)
next
  case 11
  then show ?case by (rule documentedD)
qed (simp_all add: grows_def)

interpretation growing: emission_stmt grows "sane c" True for c
  by (rule grows_laws) (rule sane_documented)

text \<open>Expressions bind no names.\<close>

definition same_tables :: "cstate \<Rightarrow> cstate \<Rightarrow> bool" where
  "same_tables s s' \<longleftrightarrow> symbol_tables s' = symbol_tables s \<and> func_entry s' = func_entry s"

interpretation expression: emission same_tables "sane c" True for c
proof (unfold_locales, goal_cases)
  case (6 p s s')
  then show ?case by (auto simp: same_tables_def line_signpost_state Let_def split: if_splits)
qed (use documentedD [OF sane_documented] in \<open>simp_all add: same_tables_def\<close>)

lemma tables_kept:
  assumes "documented c"
  shows "visit c e s = (Inr v, s') \<Longrightarrow> symbol_tables s' = symbol_tables s \<and> func_entry s' = func_entry s"
    and "if_condition c v s = (Inr w, s') \<Longrightarrow> symbol_tables s' = symbol_tables s \<and> func_entry s' = func_entry s"
    and "loop_bounds c e s = (Inr ws, s') \<Longrightarrow> symbol_tables s' = symbol_tables s \<and> func_entry s' = func_entry s"
  using stepsD [OF expression.steps_visit [of _ c]] stepsD [OF expression.steps_if_condition [of c]]
    stepsD [OF expression.steps_loop_bounds [of _ c]]
  by (auto simp: same_tables_def sane_id [OF assms])

lemma bookkeeping_tables:
  "new_block s = (Inr k, s') \<Longrightarrow> symbol_tables s' = symbol_tables s \<and> func_entry s' = func_entry s"
  "emit_region n vs attrs bs s = (Inr u, s') \<Longrightarrow> symbol_tables s' = symbol_tables s \<and> func_entry s' = func_entry s"
  "new_block_arg t s = (Inr w, s') \<Longrightarrow> symbol_tables s' = symbol_tables s \<and> func_entry s' = func_entry s"
  "close_final_signpost c s = (Inr u, s') \<Longrightarrow> symbol_tables s' = symbol_tables s \<and> func_entry s' = func_entry s"
  by (auto simp: new_block_def emit_region_def new_block_arg_def smodify_def close_final_state split: if_splits)

lemma scope_tables:
  assumes "in_scope c b table (visit_stmts c body) s = (Inr u, s')" and "documented c" and "func_entry s"
  shows "symbol_tables s' = symbol_tables s \<and> func_entry s'"
  using grows_scope [OF growing.steps_visit_stmts(2) [of body c, unfolded sane_id [OF assms(2)]] assms(1)] assms(3)
  by (simp add: grows_def)

lemma for_scope:
  assumes "visit_stmt c (For p target iter body) s = (Inr u, s')" and doc: "documented c" and f: "func_entry s"
  shows "symbol_tables s' = symbol_tables s"
  using assms(1)
proof (rule for_parts)
  fix bounds s1 u1 s2 b s3 u2 s4 i s5 x s6
  assume 1: "loop_bounds c iter s = (Inr bounds, s1)" and 2: "close_final_signpost c s1 = (Inr u1, s2)"
    and 3: "new_block s2 = (Inr b, s3)" and 4: "emit_region ''scf.for'' bounds [] [b] s3 = (Inr u2, s4)"
    and 5: "new_block_arg T_index s4 = (Inr i, s5)" and x: "sresult (id_of target) s5 = (Inr x, s6)"
    and body: "in_scope c b [(x, P_value i)] (visit_stmts c body) s6 = (Inr u, s')"
  have "symbol_tables s5 = symbol_tables s \<and> func_entry s5"
    using f tables_kept(3) [OF doc 1] bookkeeping_tables(4) [OF 2] bookkeeping_tables(1) [OF 3]
      bookkeeping_tables(2) [OF 4] bookkeeping_tables(3) [OF 5] by simp
  with x scope_tables [OF body doc] show ?thesis by simp
qed

lemma if_scope:
  assumes "visit_stmt c (If p test body orelse) s = (Inr u, s')" and doc: "documented c" and f: "func_entry s"
  shows "symbol_tables s' = symbol_tables s"
  using assms(1)
proof (rule if_parts)
  fix v s1 cond s2 tb s3 eb s4 u1 s5 u2 s6 u3 s7
  assume 1: "visit c test s = (Inr v, s1)" and 2: "if_condition c v s1 = (Inr cond, s2)"
    and 3: "new_block s2 = (Inr tb, s3)" and 4: "new_block s3 = (Inr eb, s4)"
    and 5: "emit_region ''scf.if'' [cond] [] (if orelse = [] then [tb] else [tb, eb]) s4 = (Inr u1, s5)"
    and 6: "close_final_signpost c s5 = (Inr u2, s6)"
    and body: "in_scope c tb [] (visit_stmts c body) s6 = (Inr u3, s7)"
    and els: "(if orelse = [] then sreturn () else in_scope c eb [] (visit_stmts c orelse)) s7 = (Inr u, s')"
  have "symbol_tables s6 = symbol_tables s \<and> func_entry s6"
    using f tables_kept(1) [OF doc 1] tables_kept(2) [OF doc 2] bookkeeping_tables(1) [OF 3]
      bookkeeping_tables(1) [OF 4] bookkeeping_tables(2) [OF 5] bookkeeping_tables(4) [OF 6] by simp
  with scope_tables [OF body doc] have "symbol_tables s7 = symbol_tables s \<and> func_entry s7" by simp
  with els scope_tables [OF _ doc] show ?thesis by (auto split: if_splits)
qed

definition compound :: "stmt \<Rightarrow> bool" where
  "compound t = (case t of If _ _ _ _ \<Rightarrow> True | For _ _ _ _ \<Rightarrow> True | _ \<Rightarrow> False)"


text \<open>A thread with two buffers in scope, compiled without profiling.\<close>

definition quiet_env :: cenv where
  "quiet_env = plain_env\<lparr>ce_auto_profile := False, ce_debug_locations := False\<rparr>"

definition demo_cb :: "nat \<Rightarrow> pyval" where
  "demo_cb i = P_value (Block_arg i (T_cb [1, 1] (T_tile 32 32 BFloat16) 2))"

definition demo_state :: cstate where
  "demo_state = (entered quiet_env demo_mapper (1, 0) ''work'' [] ''compute'')
     \<lparr>symbol_tables := [[(''lhs'', demo_cb 0), (''out'', demo_cb 1)]]\<rparr>"

lemma quiet_documented: "documented quiet_env"
  by (simp add: documented_def quiet_env_def plain_env_def demo_env_def demo_lib_def)

lemma demo_state_entered: "func_entry demo_state"
  by (simp add: demo_state_def entered_def)

text \<open>A branch of which the body assigns to a name of the thread.\<close>

definition demo_if :: stmt where
  "demo_if = If (2, 2) (Constant (2, 5) (C_bool True)) [Assign (3, 4) [Name (3, 4) ''lhs''] (Constant (3, 10) (C_int 1))] []"

lemma demo_if_runs: "fst (visit_stmt quiet_env demo_if demo_state) = Inr ()"
  by code_simp


end
