(* ===== verification/Frontwith.thy ===== *)
theory Frontwith
  imports Frontprops
begin

text \<open>
  The \<open>with\<close> statement acquires its buffers in order and releases them in reverse order; the
  arguments of a thread function; where errors are reported; and the compiler front end as the part
  of the compile pipeline that \<open>Kernelapi\<close> takes as a parameter.
\<close>

section \<open>with\<close>

text \<open>The operations on buffers in a block.\<close>

definition cb_op_names :: "string list" where
  "cb_op_names = [''ttl.cb_reserve'', ''ttl.cb_wait'', ''ttl.cb_push'', ''ttl.cb_pop'']"

definition cb_ops :: "operation list \<Rightarrow> (string \<times> val list) list" where
  "cb_ops qs = map (\<lambda>q. (op_name q, op_operands q)) (filter (\<lambda>q. op_name q \<in> set cb_op_names) qs)"

lemma cb_ops_append [simp]: "cb_ops (qs @ rs) = cb_ops qs @ cb_ops rs" "cb_ops [] = []"
  by (simp_all add: cb_ops_def)

lemma cb_ops_signposts [simp]: "cb_ops (map (signpost_op l) ns) = []" "cb_ops [signpost_op l n] = []"
  by (auto simp: cb_ops_def signpost_op_def cb_op_names_def)

lemma cb_ops_zone: "cb_ops (zone_ops c opn p imp q) = cb_ops [q]"
  by (simp add: zone_ops_def cb_ops_def signpost_op_def cb_op_names_def)

lemma prefix_cb_ops: "prefix qs rs \<Longrightarrow> \<exists>inner. cb_ops rs = cb_ops qs @ inner"
  by (auto simp: prefix_def)

definition acquired :: "string \<times> val \<Rightarrow> string \<times> val list" where
  "acquired r = (''ttl.'' @ acquire_op (fst r), [snd r])"

definition released :: "string \<times> val \<Rightarrow> string \<times> val list" where
  "released r = (''ttl.'' @ release_op (fst r), [snd r])"

lemma attach_cb_state:
  assumes "attach_cb lib t cb s = (Inr r, s')"
  shows "ip s' = ip s \<and> cb_ops (blocks s' (ip s)) = cb_ops (blocks s (ip s)) \<and> func_entry s' = func_entry s"
  using assms
  by (auto simp: attach_cb_def like_first_def sbind_eq_Inr operands_def emit_def Let_def sreturn_def cb_ops_def cb_op_names_def)

lemma bind_var_state:
  assumes "bind_var c var v s = (Inr u, s')"
  shows "ip s' = ip s \<and> blocks s' = blocks s \<and> func_entry s' = func_entry s"
  using assms
  by (auto simp: bind_var_def sreturn_def raise_error_def sraise_def dest!: bind_name_state split: option.splits expr.splits)

text \<open>One item: the buffer operation it adds, and what it puts on the list of releases.\<close>

definition adds_ops :: "(string \<times> val list) list \<Rightarrow> cstate \<Rightarrow> cstate \<Rightarrow> bool" where
  "adds_ops qs s s' \<longleftrightarrow> ip s' = ip s \<and> func_entry s' = func_entry s \<and>
     cb_ops (blocks s' (ip s)) = cb_ops (blocks s (ip s)) @ qs"

lemma adds_ops_trans: "adds_ops qs s s1 \<Longrightarrow> adds_ops rs s1 s2 \<Longrightarrow> adds_ops (qs @ rs) s s2"
  by (simp add: adds_ops_def)

lemma adds_ops_refl: "adds_ops [] s s"
  by (simp add: adds_ops_def)

lemma acquire_emit:
  assumes "emit_op_signposts c (acquire_op m) p False (emit (''ttl.'' @ acquire_op m) [cb] [] t) s = (Inr v, s')"
  shows "adds_ops [acquired (m, cb)] s s'"
  using assms
  by (auto simp: zone_emit_state Let_def adds_ops_def acquired_def cb_ops_zone op_at_def)
    (auto simp: cb_ops_def cb_op_names_def acquire_op_def)

lemma release_emit:
  assumes "emit_op_signposts c (release_op m) p True (emit_op (''ttl.'' @ release_op m) [cb] []) s = (Inr u, s')"
  shows "adds_ops [released (m, cb)] s s'"
  using assms
  by (auto simp: zone_op_state adds_ops_def released_def cb_ops_zone op_at_def)
    (auto simp: cb_ops_def cb_op_names_def release_op_def)

lemma acquire_state:
  assumes "acquire c item s = (Inr r, s')"
  obtains m q x cb where "with_call c (fst item) = Inr (m, q, x)" and "r = (release_op m, cb, expr_pos (fst item))"
    and "adds_ops [acquired (m, cb)] s s'"
proof -
  from assms obtain m q x cb t w tensor v s1 s2 where w: "with_call c (fst item) = Inr (m, q, x)"
    and cb: "operands (ce_lib c) [cb] s = (Inr w, s)"
    and e: "emit_op_signposts c (acquire_op m) (expr_pos (fst item)) False
        (emit (''ttl.'' @ acquire_op m) w [] t) s = (Inr tensor, s1)"
    and a: "attach_cb (ce_lib c) (P_value tensor) cb s1 = (Inr v, s2)"
    and b: "bind_var c (snd item) v s2 = (Inr (), s')"
    and r: "r = (release_op m, hd w, expr_pos (fst item))"
    by (auto simp: acquire_def Let_def sbind_eq_Inr lookup_def raise_error_def sraise_def operands_def
        sreturn_def split: option.splits)
  from cb obtain wv where wv: "w = [wv]" by (auto simp: operands_def rbind_eq_Inr)
  with acquire_emit [of c m _ wv] e have "adds_ops [acquired (m, wv)] s s1" by blast
  with attach_cb_state [OF a] bind_var_state [OF b] have "adds_ops [acquired (m, wv)] s s'"
    by (auto simp: adds_ops_def)
  with w r wv show thesis by (intro that) auto
qed

text \<open>All items in order, and all releases in the order they are done.\<close>

definition acquires :: "cenv \<Rightarrow> expr \<times> expr option \<Rightarrow> string \<times> val \<Rightarrow> bool" where
  "acquires c item r \<longleftrightarrow> (\<exists>q x. with_call c (fst item) = Inr (fst r, q, x))"

definition release_of :: "(expr \<times> expr option) \<times> (string \<times> val) \<Rightarrow> release" where
  "release_of ir = (release_op (fst (snd ir)), snd (snd ir), expr_pos (fst (fst ir)))"

lemma release_of_pair: "release_of (item, m, cb) = (release_op m, cb, expr_pos (fst item))"
  by (simp add: release_of_def)

lemma acquire_all_state:
  "smap (acquire c) items s = (Inr rs, s') \<Longrightarrow>
     \<exists>bs. list_all2 (acquires c) items bs \<and> rs = map release_of (zip items bs) \<and> adds_ops (map acquired bs) s s'"
proof (induction items arbitrary: s rs)
  case Nil
  then show ?case by (auto simp: smap_Nil sreturn_def adds_ops_refl)
next
  case (Cons item items)
  from Cons.prems obtain r s1 rs' where r: "acquire c item s = (Inr r, s1)"
    and rs': "smap (acquire c) items s1 = (Inr rs', s')" "rs = r # rs'"
    by (auto simp: smap_def sbind_eq_Inr sreturn_def)
  from r obtain m q x cb where "with_call c (fst item) = Inr (m, q, x)"
    and "r = (release_op m, cb, expr_pos (fst item))" and "adds_ops [acquired (m, cb)] s s1"
    by (rule acquire_state)
  moreover from Cons.IH [OF rs'(1)] obtain bs where "list_all2 (acquires c) items bs"
    and "rs' = map release_of (zip items bs)" and "adds_ops (map acquired bs) s1 s'" by blast
  ultimately show ?case using rs'(2) adds_ops_trans
    by (intro exI [of _ "(m, cb) # bs"]) (fastforce simp: acquires_def release_of_def)
qed

lemma release_list_state:
  assumes "sfor (\<lambda>(opn, cb, p). emit_op_signposts c opn p True (emit_op (''ttl.'' @ opn) [cb] []))
      (map release_of zs) s = (Inr u, s')"
  shows "adds_ops (map (released \<circ> snd) zs) s s'"
  using assms
proof (induction zs arbitrary: s)
  case Nil
  then show ?case by (auto simp: adds_ops_refl sreturn_def)
next
  case (Cons z zs)
  obtain item m cb where z: "z = (item, m, cb)" by (cases z) auto
  from Cons.prems obtain s1 where "emit_op_signposts c (release_op m) (expr_pos (fst item)) True
      (emit_op (''ttl.'' @ release_op m) [cb] []) s = (Inr (), s1)"
    and rest: "sfor (\<lambda>(opn, cb, p). emit_op_signposts c opn p True (emit_op (''ttl.'' @ opn) [cb] []))
      (map release_of zs) s1 = (Inr u, s')"
    by (auto simp: sbind_eq_Inr release_of_pair z)
  then have "adds_ops [released (m, cb)] s s1" by (intro release_emit)
  from adds_ops_trans [OF this Cons.IH [OF rest]] show ?case by (simp add: z)
qed

lemma close_final_ops:
  "close_final_signpost c s = (Inr u, s') \<Longrightarrow> adds_ops [] s s'"
  by (auto simp: close_final_state adds_ops_def split: if_splits)


definition demo_with :: stmt where
  "demo_with = With (2, 2)
     [(Call (2, 7) (Attribute (2, 7) (Name (2, 7) ''lhs'') ''wait'') [] [], Some (Name (2, 21) ''l'')),
      (Call (2, 24) (Attribute (2, 24) (Name (2, 24) ''out'') ''reserve'') [] [], Some (Name (2, 41) ''o''))] []"

lemma demo_with_runs: "fst (visit_stmt quiet_env demo_with demo_state) = Inr ()"
  by code_simp


section \<open>The arguments of a thread function\<close>

text \<open>A type with as many tiles of 32 by 32 as the shape needs.\<close>

definition tiled_type :: "int list \<Rightarrow> ty \<Rightarrow> bool" where
  "tiled_type shp t \<longleftrightarrow> length shp = 2 \<and>
     (\<exists>ns d l. t = T_tensor ns (T_tile 32 32 d) (Some l) \<and> list_all2 (\<lambda>n k. n \<le> 32 * k \<and> 32 * k < n + 32) shp ns)"

lemma tiles_of_bounds: "n \<le> 32 * tiles_of n \<and> 32 * tiles_of n < n + 32"
  unfolding tiles_of_def DEFAULT_TILE_SIZE_def by linarith

lemma build_tensor_type_tiled: "build_tensor_type c t = Inr ty \<Longrightarrow> tiled_type (fst (ce_tensor c t)) ty"
  unfolding build_tensor_type_def tiled_type_def
  by (auto simp: rbind_eq_Inr Let_def list_all2_map2 list_all2_conv_all_nth tiles_of_bounds DEFAULT_TILE_SIZE_def
      split: prod.splits)

lemma rmap_list_all2: "rmap f xs = Inr ys \<Longrightarrow> list_all2 (\<lambda>x y. f x = Inr y) xs ys"
  by (induction xs arbitrary: ys) (auto simp: rbind_eq_Inr)

lemma tensor_captures_all2:
  assumes "tensor_captures c = Inr tcs"
  shows "list_all2 (\<lambda>(n, t) (n', i, ty). n' = n \<and> get_tensor_global_index t (ce_registry c) = Inr i \<and>
    tiled_type (fst (ce_tensor c t)) ty) (captured_tensors c) tcs"
  using rmap_list_all2 [OF assms [unfolded tensor_captures_def]]
  by (rule list_all2_mono) (auto simp: rbind_eq_Inr dest: build_tensor_type_tiled)

lemma growsD:
  assumes "grows s s'" and "func_entry s"
  shows "prefix (blocks s b) (blocks s' b)" "accessor_names s' = accessor_names s"
    "accessor_indices s' = accessor_indices s"
  using assms by (auto simp: grows_def)

text \<open>Property C12: the arguments of the compiled function are the captured tensors in the order of the
  captures: their names, their global indices, by which the kernel runner passes the addresses of the
  tensors, and types of as many tiles as their shapes need belong together position by position.\<close>

theorem arguments_line_up:
  assumes "compile_ast c m [Function_def p name params body] = Inr s" and doc: "documented c"
  shows "\<exists>tys th l rest. accessor_names s = map fst (captured_tensors c) \<and>
    list_all2 (\<lambda>(n, t) i. get_tensor_global_index t (ce_registry c) = Inr i) (captured_tensors c) (accessor_indices s) \<and>
    list_all2 (\<lambda>(n, t) ty. tiled_type (fst (ce_tensor c t)) ty) (captured_tensors c) tys \<and>
    blocks s 0 = \<lparr>op_name = ''func.func'', op_operands = [], op_attrs = [A_str name, A_str th] @ map A_ty tys,
      op_result = None, op_blocks = [1], op_loc = l\<rparr> # rest"
  using assms(1)
proof (rule compile_entered)
  fix tcs th s2
  assume tcs: "tensor_captures c = Inr tcs"
    and run: "sbind (bind_captures c p tcs) (\<lambda>_. sbind (visit_stmts c body) (\<lambda>_. close_function c))
      (entered c m p name tcs th) = (Inr (), s2)"
    and s: "s = s2\<lparr>ip := 0, symbol_tables := tl (symbol_tables s2), cur_loc := Loc_unknown\<rparr>"
  from stepsD [OF growing.steps_body [of body c, unfolded sane_id [OF doc]] run]
  have "grows (entered c m p name tcs th) s2" by simp
  moreover have "func_entry (entered c m p name tcs th)" by (simp add: entered_def)
  ultimately have g: "prefix (blocks (entered c m p name tcs th) 0) (blocks s 0)" "accessor_names s = map fst tcs"
    "accessor_indices s = map (fst \<circ> snd) tcs"
    using growsD [of "entered c m p name tcs th" s2] by (auto simp: s) (simp_all add: entered_def)
  from tensor_captures_all2 [OF tcs] have "accessor_names s = map fst (captured_tensors c)"
    unfolding g(2) by (induction rule: list_all2_induct) auto
  moreover from tensor_captures_all2 [OF tcs]
  have "list_all2 (\<lambda>(n, t) i. get_tensor_global_index t (ce_registry c) = Inr i) (captured_tensors c) (accessor_indices s)"
    unfolding g(3) list_all2_map2 by (rule list_all2_mono) auto
  moreover from tensor_captures_all2 [OF tcs]
  have "list_all2 (\<lambda>(n, t) ty. tiled_type (fst (ce_tensor c t)) ty) (captured_tensors c) (map (snd \<circ> snd) tcs)"
    unfolding list_all2_map2 by (rule list_all2_mono) auto
  ultimately show ?thesis using g(1) by (auto simp: entered_def prefix_def)
qed

lemma arguments_line_up_witness:
  "accessor_names (outcome (compile_ast plain_env demo_mapper [demo_loop])) = [''x'']"
  using arguments_line_up [OF succeeded_outcome [OF demo_loop_compiles, unfolded demo_loop_def] plain_documented]
  by (auto simp: demo_loop_def captured_tensors_def List.map_filter_def captured_tensor_def plain_env_def demo_env_def)

section \<open>Where errors are reported\<close>

definition unknown_name :: "cenv \<Rightarrow> cstate \<Rightarrow> string \<Rightarrow> bool" where
  "unknown_name c s x \<longleftrightarrow> x \<noteq> ''int'' \<and> var_lookup (symbol_tables s) x = None \<and> map_of (ce_globals c) x = None"

lemma visit_unknown: "unknown_name c s x \<Longrightarrow> visit c (Name r x) s = (Inr P_none, s)"
  by (simp add: unknown_name_def visit_name_def sbind_def lookup_def global_const_def sreturn_def)

lemma located_error: "fst (located c p m s) = Inl e \<Longrightarrow> \<exists>e0. fst (m (s\<lparr>cur_loc := loc_for_node c p\<rparr>)) = Inl e0 \<and> e = locate c p e0"
  by (auto simp: located_def with_location_def catch_def split: prod.splits sum.splits)

lemma locate_class: "locate c p e \<notin> range ValueError \<union> range TypeError \<union> range NotImplementedError"
  by (auto simp: locate_def error_at_def split: exn.splits)

lemma line_signpost_unknown:
  "unknown_name c s x \<Longrightarrow> \<exists>s'. emit_line_signpost_if_needed c p s = (Inr (), s') \<and> unknown_name c s' x"
  by (simp add: line_signpost_state Let_def unknown_name_def)

lemma unknown_located: "unknown_name c (s\<lparr>cur_loc := l\<rparr>) x \<longleftrightarrow> unknown_name c s x"
  by (simp add: unknown_name_def)

definition located_expr :: "expr \<Rightarrow> bool" where
  "located_expr e = (case e of Call _ _ _ _ \<Rightarrow> True | BinOp _ _ _ _ \<Rightarrow> True | Attribute _ _ _ \<Rightarrow> True | _ \<Rightarrow> False)"



end
