(* ===== verification/Frontarith.thy ===== *)
theory Frontarith
  imports Frontwith "HOL-Library.Word" "HOL-Library.Signed_Division"
begin

text \<open>
  What the integer arithmetic of a compiled thread computes, compared with what Python computes on
  the same expression. A value carries the operation that makes it, so that its value is a function of
  the value itself and of the arguments of the blocks.
\<close>

unbundle bit_operations_syntax

section \<open>The meaning of integer values\<close>

text \<open>
  The operations of the dialects \<open>arith\<close> and \<open>emitc\<close> on 64 bits, the width of \<open>i64\<close> and of \<open>index\<close>;
  division truncates, and division by zero has no value.
\<close>

definition exec2 :: "string \<Rightarrow> attr list \<Rightarrow> 64 word \<Rightarrow> 64 word \<Rightarrow> 64 word option" where
  "exec2 n attrs a b =
     (if n = ''arith.addi'' then Some (a + b)
      else if n = ''arith.subi'' then Some (a - b)
      else if n = ''arith.muli'' then Some (a * b)
      else if n = ''arith.andi'' then Some (a AND b)
      else if n = ''arith.ori'' then Some (a OR b)
      else if n = ''arith.xori'' then Some (a XOR b)
      else if n = ''arith.divsi'' then (if b = 0 then None else Some (word_of_int (sint a sdiv sint b)))
      else if n = ''arith.remsi'' then (if b = 0 then None else Some (word_of_int (sint a smod sint b)))
      else if n = ''arith.cmpi'' \<and> attrs = [A_str ''eq''] then Some (of_bool (a = b))
      else if n = ''arith.cmpi'' \<and> attrs = [A_str ''ne''] then Some (of_bool (a \<noteq> b))
      else if n = ''arith.cmpi'' \<and> attrs = [A_str ''slt''] then Some (of_bool (sint a < sint b))
      else if n = ''arith.cmpi'' \<and> attrs = [A_str ''sle''] then Some (of_bool (sint a \<le> sint b))
      else if n = ''arith.cmpi'' \<and> attrs = [A_str ''sgt''] then Some (of_bool (sint b < sint a))
      else if n = ''arith.cmpi'' \<and> attrs = [A_str ''sge''] then Some (of_bool (sint b \<le> sint a))
      else None)"

definition exec1 :: "string \<Rightarrow> 64 word \<Rightarrow> 64 word option" where
  "exec1 n a =
     (if n = ''arith.index_cast'' \<or> n = ''emitc.unary_plus'' then Some a
      else if n = ''emitc.unary_minus'' then Some (- a)
      else if n = ''emitc.bitwise_not'' then Some (NOT a)
      else None)"

definition exec :: "string \<Rightarrow> attr list \<Rightarrow> 64 word option list \<Rightarrow> 64 word option" where
  "exec n attrs ws =
     (case ws of
        [] \<Rightarrow> (case attrs of [A_int i] \<Rightarrow> if n = ''arith.constant'' then Some (word_of_int i) else None | _ \<Rightarrow> None)
      | [Some a] \<Rightarrow> exec1 n a
      | [Some a, Some b] \<Rightarrow> exec2 n attrs a b
      | _ \<Rightarrow> None)"

fun value_of :: "(nat \<Rightarrow> 64 word) \<Rightarrow> val \<Rightarrow> 64 word option" where
  "value_of args (Block_arg k t) = Some (args k)"
| "value_of args (Result k n vs attrs t) = exec n attrs (map (value_of args) vs)"

definition wide :: "ty \<Rightarrow> bool" where
  "wide t \<longleftrightarrow> t = T_int 64 \<or> t = T_index"

definition carries :: "(nat \<Rightarrow> 64 word) \<Rightarrow> pyval \<Rightarrow> 64 word \<Rightarrow> bool" where
  "carries args v w \<longleftrightarrow> (\<exists>u. pv_val v = Some u \<and> wide (ty_of u) \<and> value_of args u = Some w)"

section \<open>What Python computes\<close>

fun py_value :: "(string \<Rightarrow> int) \<Rightarrow> expr \<Rightarrow> int" where
  "py_value r (Name p x) = r x"
| "py_value r (Constant p (C_int i)) = i"
| "py_value r (UnaryOp p o1 e) =
     (case o1 of USub \<Rightarrow> - py_value r e | UAdd \<Rightarrow> py_value r e | Invert \<Rightarrow> NOT (py_value r e) | Not \<Rightarrow> 0)"
| "py_value r (BinOp p a o2 b) =
     (case o2 of
        Add \<Rightarrow> py_value r a + py_value r b
      | Sub \<Rightarrow> py_value r a - py_value r b
      | Mult \<Rightarrow> py_value r a * py_value r b
      | BitAnd \<Rightarrow> py_value r a AND py_value r b
      | BitOr \<Rightarrow> py_value r a OR py_value r b
      | BitXor \<Rightarrow> py_value r a XOR py_value r b
      | FloorDiv \<Rightarrow> py_value r a div py_value r b
      | Mod \<Rightarrow> py_value r a mod py_value r b
      | _ \<Rightarrow> 0)"
| "py_value r _ = 0"

text \<open>
  Integer expressions of operators that commute with taking 64 bits. The operation of a sign has no
  attribute \<open>type\<close>, so that the operand of a unary operator must not be signed itself.
\<close>

definition sign_expr :: "expr \<Rightarrow> bool" where
  "sign_expr e = (case e of UnaryOp _ o1 _ \<Rightarrow> o1 = USub \<or> o1 = UAdd | _ \<Rightarrow> False)"

fun integral :: "expr \<Rightarrow> bool" where
  "integral (Name p x) \<longleftrightarrow> x \<noteq> ''int''"
| "integral (Constant p k) \<longleftrightarrow> (\<exists>i. k = C_int i)"
| "integral (UnaryOp p o1 e) \<longleftrightarrow> o1 \<noteq> Not \<and> integral e \<and> \<not> sign_expr e"
| "integral (BinOp p a o2 b) \<longleftrightarrow> o2 \<in> {Add, Sub, Mult, BitAnd, BitOr, BitXor} \<and> integral a \<and> integral b"
| "integral _ \<longleftrightarrow> False"

fun names_of :: "expr \<Rightarrow> string set" where
  "names_of (Name p x) = {x}"
| "names_of (UnaryOp p o1 e) = names_of e"
| "names_of (BinOp p a o2 b) = names_of a \<union> names_of b"
| "names_of _ = {}"

text \<open>The names hold 64-bit values, and the bindings infer the type of the operands.\<close>

definition holds :: "cenv \<Rightarrow> (nat \<Rightarrow> 64 word) \<Rightarrow> (string \<Rightarrow> int) \<Rightarrow> string set \<Rightarrow> cstate \<Rightarrow> bool" where
  "holds c args r xs s \<longleftrightarrow> (\<forall>x \<in> xs. \<exists>v. var_lookup (symbol_tables s) x = Some v \<and> has_type (ce_lib c) v \<and>
     carries args v (word_of_int (r x)))"

definition arith_names :: "string set" where
  "arith_names = {''arith.addi'', ''arith.subi'', ''arith.muli'', ''arith.andi'', ''arith.ori'', ''arith.xori'',
     ''arith.divsi'', ''arith.remsi''}"

definition arith_documented :: "cenv \<Rightarrow> bool" where
  "arith_documented c \<longleftrightarrow>
     (\<forall>n a b. n \<in> arith_names \<longrightarrow> ty_of a = ty_of b \<longrightarrow> wide (ty_of a) \<longrightarrow> infer (ce_lib c) n [a, b] [] = Inr (ty_of a)) \<and>
     (\<forall>p a b. ty_of a = ty_of b \<longrightarrow> wide (ty_of a) \<longrightarrow> infer (ce_lib c) ''arith.cmpi'' [a, b] [A_str p] = Inr (T_int 1)) \<and>
     (\<forall>f \<in> set (ce_unary c @ ce_binary c). \<not> prefix ''!'' f)"

section \<open>One operator\<close>

lemma show_nat_64: "show_nat 64 = ''64''"
  by code_simp

lemma get_type_str_wide: "wide t \<Longrightarrow> get_type_str t = ''!i64'' \<or> get_type_str t = ''!index''"
  by (auto simp: wide_def get_type_str_def show_nat_64)

lemma no_method:
  assumes "arith_documented c" and "wide t"
  shows "signature_of c (get_type_str t @ ''.'' @ op_method o2) = None"
proof -
  let ?f = "get_type_str t @ ''.'' @ op_method o2"
  have "prefix ''!'' ?f" using get_type_str_wide [OF assms(2)] by auto
  then have "?f \<notin> set (ce_unary c)" "?f \<notin> set (ce_binary c)" using assms(1) by (auto simp: arith_documented_def)
  moreover have "map_of signatures ?f = None"
    using get_type_str_wide [OF assms(2)] by (cases o2) (auto simp: signatures_def op_method_def)
  ultimately show ?thesis by (simp add: signature_of_def)
qed

lemma wide_not_memref: "wide t \<Longrightarrow> \<not> is_memref t"
  by (auto simp: wide_def is_memref_def)

lemma carries_typed:
  assumes "carries args v w" and "has_type lib v"
  obtains u where "pv_val v = Some u" and "type_of lib v = Inr (ty_of u)" and "wide (ty_of u)" and "value_of args u = Some w"
    and "loaded lib v s = (Inr v, s)"
proof -
  from assms(1) obtain u where u: "pv_val v = Some u" "wide (ty_of u)" "value_of args u = Some w"
    by (auto simp: carries_def)
  then have t: "type_of lib v = Inr (ty_of u)" using assms(2) by (simp add: type_of_def)
  then have "loaded lib v s = (Inr v, s)"
    using wide_not_memref [OF u(2)] by (simp add: loaded_def sbind_def sreturn_def)
  with u t show thesis by (intro that)
qed

lemma carries_unview: "carries args v w \<Longrightarrow> carries args (unview v) w \<and> (\<exists>u. unview v = P_value u)"
  by (cases v) (auto simp: carries_def unview_def)

text \<open>Two values brought to one type.\<close>

definition typed_as :: "mlir \<Rightarrow> pyval \<Rightarrow> val \<Rightarrow> bool" where
  "typed_as lib v a \<longleftrightarrow> pv_val v = Some a \<and> type_of lib v = Inr (ty_of a)"

lemma typed_as_value: "typed_as lib (P_value a) a"
  by (simp add: typed_as_def)

lemma same_type_wide:
  assumes v: "typed_as lib v a" "wide (ty_of a)" and w: "typed_as lib w b" "wide (ty_of b)" "value_of args b = Some y"
  obtains w' b' s' where "same_type lib v w s = (Inr (ty_of a, w'), s')" and "pv_val w' = Some b'"
    and "ty_of b' = ty_of a" and "value_of args b' = Some y"
proof (cases "ty_of a = ty_of b")
  case True
  then show thesis using assms that
    by (auto simp: same_type_def typed_as_def sbind_def sreturn_def)
next
  case False
  define b' where "b' = Result (next_value s) ''arith.index_cast'' [b] [] (ty_of a)"
  from False assms have "cast lib w (ty_of a) s =
      (Inr (P_value b'), (add_op ''arith.index_cast'' [b] [] (Some b') [] s)\<lparr>next_value := next_value s + 1\<rparr>)"
    by (auto simp: cast_def typed_as_def sbind_def operands_def operand_of_def wide_def int_width_def emit_def Let_def
        sreturn_def b'_def)
  moreover have "ty_of b' = ty_of a" "value_of args b' = Some y" using w(3)
    by (simp_all add: b'_def exec_def exec1_def)
  ultimately show thesis using False v w that by (simp add: same_type_def typed_as_def sbind_def sreturn_def)
qed

lemma arith2_value:
  assumes "infer lib n [a, b] attrs = Inr t" and "pv_val v = Some a" and "pv_val w = Some b"
    and "value_of args a = Some x" and "value_of args b = Some y" and "exec2 n attrs x y = Some r"
  shows "\<exists>u s'. arith2 lib n attrs [v, w] s = (Inr (P_value u), s') \<and> ty_of u = t \<and> value_of args u = Some r"
  using assms by (auto simp: arith2_def sbind_def operands_def operand_of_def emit_infer_def emit_def Let_def sreturn_def exec_def)

lemma load_wide: "wide (ty_of u) \<Longrightarrow> load_if_memref lib (P_value u) s = (Inr (P_value u), s)"
  by (auto simp: load_if_memref_def has_type_def loaded_def sbind_def sreturn_def wide_not_memref)

lemma bin_op_value:
  assumes doc: "arith_documented c" and v: "carries args v a" and w: "carries args w b"
    and n: "op_arith o2 = Some n" "n \<in> arith_names" and r: "exec2 n [] a b = Some r"
  shows "\<exists>u s'. bin_op c o2 v w s = (Inr (P_value u), s') \<and> carries args (P_value u) r"
proof -
  from carries_unview [OF v] obtain x where x: "unview v = P_value x" "wide (ty_of x)" "value_of args x = Some a"
    by (auto simp: carries_def)
  from carries_unview [OF w] obtain y where y: "unview w = P_value y" "wide (ty_of y)" "value_of args y = Some b"
    by (auto simp: carries_def)
  have truthy: "truthy v" "truthy w" using v w by (cases v; cases w; simp add: carries_def truthy_def)+
  from same_type_wide [OF typed_as_value x(2) typed_as_value y(2,3)] obtain w' y' s1 where y':
    "same_type (ce_lib c) (P_value x) (P_value y) s = (Inr (ty_of x, w'), s1)"
    "pv_val w' = Some y'" "ty_of y' = ty_of x" "value_of args y' = Some b" .
  have "infer (ce_lib c) n [x, y'] [] = Inr (ty_of x)" using doc n(2) x(2) y'(3) by (simp add: arith_documented_def)
  from arith2_value [OF this _ y'(2) x(3) y'(4) r, of "P_value x"] obtain u s2 where
    "arith2 (ce_lib c) n [] [P_value x, w'] s1 = (Inr (P_value u), s2)" "ty_of u = ty_of x" "value_of args u = Some r"
    by fastforce
  with truthy x y y' n(1) no_method [OF doc x(2)] show ?thesis
    by (simp add: bin_op_def Let_def sbind_def load_wide carries_def)
qed

lemma unary_op_value:
  assumes v: "carries args v a" "has_type (ce_lib c) v" and o1: "o1 \<noteq> Not"
  shows "\<exists>u s'. unary_op c o1 v s = (Inr u, s') \<and> (o1 = Invert \<longrightarrow> has_type (ce_lib c) u) \<and>
    carries args u (case o1 of USub \<Rightarrow> - a | Invert \<Rightarrow> NOT a | _ \<Rightarrow> a)"
proof -
  from carries_typed [OF v, of s] obtain x where x: "pv_val v = Some x" "type_of (ce_lib c) v = Inr (ty_of x)"
    "wide (ty_of x)" "value_of args x = Some a" "loaded (ce_lib c) v s = (Inr v, s)" .
  have "truthy v" using v by (cases v) (simp_all add: carries_def truthy_def)
  with x o1 show ?thesis
    by (cases o1) (simp_all add: unary_op_def Let_def sbind_def operands_def operand_of_def emit_def sreturn_def
      carries_def exec_def exec1_def has_type_def)
qed

section \<open>Expressions\<close>

lemma visit_binop:
  assumes "visit c l (snd (emit_line_signpost_if_needed c p (s\<lparr>cur_loc := loc_for_node c p\<rparr>))) = (Inr v, s1)"
    and "visit c r s1 = (Inr w, s2)" and "bin_op c o2 v w s2 = (Inr u, s3)"
  shows "visit c (BinOp p l o2 r) s = (Inr u, s3\<lparr>cur_loc := cur_loc s\<rparr>)"
proof -
  obtain s0 where e: "emit_line_signpost_if_needed c p (s\<lparr>cur_loc := loc_for_node c p\<rparr>) = (Inr (), s0)"
    by (simp add: line_signpost_state)
  with assms show ?thesis
    by (simp add: located_def with_location_def catch_def sbind_def)
qed

lemma line_signpost_tables:
  "symbol_tables (snd (emit_line_signpost_if_needed c p s)) = symbol_tables s"
  by (simp add: line_signpost_state Let_def)

lemma holds_tables: "symbol_tables s' = symbol_tables s \<Longrightarrow> holds c args r xs s' = holds c args r xs s"
  by (simp add: holds_def)

lemma exec2_names:
  "exec2 ''arith.addi'' [] a b = Some (a + b)" "exec2 ''arith.subi'' [] a b = Some (a - b)"
  "exec2 ''arith.muli'' [] a b = Some (a * b)" "exec2 ''arith.andi'' [] a b = Some (a AND b)"
  "exec2 ''arith.ori'' [] a b = Some (a OR b)" "exec2 ''arith.xori'' [] a b = Some (a XOR b)"
  by (simp_all add: exec2_def)

lemma exec2_int:
  assumes "o2 \<in> {Add, Sub, Mult, BitAnd, BitOr, BitXor}"
  shows "\<exists>n. op_arith o2 = Some n \<and> n \<in> arith_names \<and>
       exec2 n [] (word_of_int (py_value r l)) (word_of_int (py_value r l')) = Some (word_of_int (py_value r (BinOp p l o2 l')))"
  using assms
  by (elim insertE emptyE) (simp_all add: op_arith_def arith_names_def exec2_names of_int_and_eq of_int_or_eq of_int_xor_eq)

lemma visit_name_bound:
  assumes "holds c args r {x} s" and "x \<noteq> ''int''"
  shows "\<exists>v. visit c (Name p x) s = (Inr v, s) \<and> has_type (ce_lib c) v \<and> carries args v (word_of_int (r x))"
  using assms by (auto simp: holds_def visit_name_def sbind_def lookup_def sreturn_def carries_def)

lemma integer_visit:
  assumes doc: "documented c" "arith_documented c"
  shows "integral e \<Longrightarrow> holds c args r (names_of e) s \<Longrightarrow>
    \<exists>v s'. visit c e s = (Inr v, s') \<and> carries args v (word_of_int (py_value r e)) \<and>
      (\<not> sign_expr e \<longrightarrow> has_type (ce_lib c) v)"
proof (induction e arbitrary: s rule: integral.induct)
  case (1 p x)
  then show ?case using visit_name_bound [of c args r x s p] by fastforce
next
  case (2 p k)
  then show ?case using documentedD(2) [OF doc(1)]
    by (auto simp: visit_constant_def sbind_def const_op_def emit_def Let_def sreturn_def carries_def wide_def exec_def
        has_type_def)
next
  case (3 p o1 e)
  from 3 obtain v s1 where v: "visit c e s = (Inr v, s1)" "carries args v (word_of_int (py_value r e))"
    "has_type (ce_lib c) v" by fastforce
  from unary_op_value [OF v(2,3), of o1 s1] 3(2) obtain u s2 where "unary_op c o1 v s1 = (Inr u, s2)"
    "o1 = Invert \<longrightarrow> has_type (ce_lib c) u"
    "carries args u (case o1 of USub \<Rightarrow> - word_of_int (py_value r e) | Invert \<Rightarrow> NOT (word_of_int (py_value r e)) | _ \<Rightarrow> word_of_int (py_value r e))"
    by auto
  with v(1) 3(2) show ?case by (cases o1) (simp_all add: sbind_def sign_expr_def of_int_not_eq)
next
  case (4 p a o2 b)
  let ?s0 = "snd (emit_line_signpost_if_needed c p (s\<lparr>cur_loc := loc_for_node c p\<rparr>))"
  have "holds c args r (names_of a) ?s0" using 4(4) by (simp add: holds_def line_signpost_tables)
  with 4 obtain v s1 where v: "visit c a ?s0 = (Inr v, s1)" "carries args v (word_of_int (py_value r a))" by fastforce
  have "holds c args r (names_of b) s1" using 4(4) tables_kept(1) [OF doc(1) v(1)] by (simp add: holds_def line_signpost_tables)
  with 4 obtain w s2 where w: "visit c b s1 = (Inr w, s2)" "carries args w (word_of_int (py_value r b))" by fastforce
  from exec2_int [of o2 r a b p] 4(3) obtain n where "op_arith o2 = Some n" "n \<in> arith_names"
    "exec2 n [] (word_of_int (py_value r a)) (word_of_int (py_value r b)) = Some (word_of_int (py_value r (BinOp p a o2 b)))"
    by auto
  from bin_op_value [OF doc(2) v(2) w(2) this, of s2] obtain u s3 where
    "bin_op c o2 v w s2 = (Inr (P_value u), s3)" "carries args (P_value u) (word_of_int (py_value r (BinOp p a o2 b)))" by blast
  with visit_binop [OF v(1) w(1)] show ?case by (fastforce simp: has_type_def simp del: py_value.simps)
qed auto


definition index_state :: cstate where
  "index_state = demo_state\<lparr>symbol_tables := [[(''i'', P_value (Block_arg 0 T_index))]]\<rparr>"

lemma quiet_arith: "arith_documented quiet_env"
  by (auto simp: arith_documented_def arith_names_def quiet_env_def plain_env_def demo_env_def demo_lib_def wide_def)

lemma index_holds: "holds quiet_env (\<lambda>_. 5) (\<lambda>_. 5) {''i''} index_state"
  by (simp add: holds_def index_state_def has_type_def carries_def wide_def)

definition demo_product :: expr where
  "demo_product = BinOp (2, 0) (BinOp (2, 0) (Name (2, 0) ''i'') Sub (Constant (2, 4) (C_int 7))) Mult
     (UnaryOp (2, 8) USub (Constant (2, 9) (C_int 3)))"


section \<open>Division\<close>

definition in_range :: "int \<Rightarrow> bool" where
  "in_range i \<longleftrightarrow> - (2 ^ 63) \<le> i \<and> i < 2 ^ 63"

lemma sint_in_range: "in_range i \<Longrightarrow> sint (word_of_int i :: 64 word) = i"
  by (simp add: in_range_def int_word_sint)

lemma word_of_in_range: "in_range i \<Longrightarrow> i \<noteq> 0 \<Longrightarrow> (word_of_int i :: 64 word) \<noteq> 0"
  using sint_in_range [of i] by auto

lemma truncated_iff_floor:
  fixes a b :: int
  assumes "b \<noteq> 0"
  shows "a sdiv b = a div b \<longleftrightarrow> b dvd a \<or> sgn a = sgn b" and "a smod b = a mod b \<longleftrightarrow> b dvd a \<or> sgn a = sgn b"
  using assms by (auto simp: signed_divide_int_eq_divide_int signed_modulo_int_eq_modulo_int)

lemma division_visit:
  assumes doc: "documented c" "arith_documented c" and l: "integral l" and r: "integral e"
    and h: "holds c args r (names_of l \<union> names_of e) s" and n: "op_arith o2 = Some n" "n \<in> arith_names"
    and x: "exec2 n [] (word_of_int (py_value r l)) (word_of_int (py_value r e)) = Some w"
  shows "\<exists>v s'. visit c (BinOp p l o2 e) s = (Inr v, s') \<and> carries args v w"
proof -
  let ?s0 = "snd (emit_line_signpost_if_needed c p (s\<lparr>cur_loc := loc_for_node c p\<rparr>))"
  have "holds c args r (names_of l) ?s0" using h by (simp add: holds_def line_signpost_tables)
  with integer_visit [OF doc l] obtain v s1 where v: "visit c l ?s0 = (Inr v, s1)" "carries args v (word_of_int (py_value r l))"
    by blast
  have "holds c args r (names_of e) s1" using h tables_kept(1) [OF doc(1) v(1)] by (simp add: holds_def line_signpost_tables)
  with integer_visit [OF doc r] obtain w' s2 where w': "visit c e s1 = (Inr w', s2)" "carries args w' (word_of_int (py_value r e))"
    by blast
  from bin_op_value [OF doc(2) v(2) w'(2) n x, of s2] visit_binop [OF v(1) w'(1)] show ?thesis by blast
qed


definition demo_difference :: expr where
  "demo_difference = BinOp (2, 0) (Name (2, 0) ''i'') Sub (Constant (2, 4) (C_int 12))"


section \<open>Conditions\<close>

definition py_compare :: "cmp_op \<Rightarrow> int \<Rightarrow> int \<Rightarrow> bool" where
  "py_compare o2 a b =
     (case o2 of
        Eq \<Rightarrow> a = b | NotEq \<Rightarrow> a \<noteq> b | Lt \<Rightarrow> a < b | LtE \<Rightarrow> a \<le> b | Gt \<Rightarrow> b < a | GtE \<Rightarrow> b \<le> a
      | Other_cmp _ \<Rightarrow> False)"

lemma in_range_inject: "in_range a \<Longrightarrow> in_range b \<Longrightarrow> (word_of_int a :: 64 word) = word_of_int b \<longleftrightarrow> a = b"
  using sint_in_range by metis

lemma exec2_compare:
  "in_range a \<Longrightarrow> in_range b \<Longrightarrow> cmp_predicate o2 = Some q \<Longrightarrow>
     exec2 ''arith.cmpi'' [A_str q] (word_of_int a) (word_of_int b) = Some (of_bool (py_compare o2 a b))"
  by (cases o2) (auto simp: cmp_predicate_def exec2_def py_compare_def sint_in_range in_range_inject)

lemma compare_value:
  assumes doc: "arith_documented c" and v: "carries args v (word_of_int a)" "has_type (ce_lib c) v"
    and w: "carries args w (word_of_int b)" "has_type (ce_lib c) w" and r: "in_range a" "in_range b"
    and q: "cmp_predicate o2 = Some q"
  shows "\<exists>u s'. compare_op c o2 v w s = (Inr (P_value u), s') \<and> ty_of u = T_int 1 \<and>
    value_of args u = Some (of_bool (py_compare o2 a b))"
proof -
  from carries_typed [OF v, of s] obtain x where x: "typed_as (ce_lib c) v x" "wide (ty_of x)"
    "value_of args x = Some (word_of_int a)" "loaded (ce_lib c) v s = (Inr v, s)" unfolding typed_as_def by blast
  from carries_typed [OF w, of s] obtain y where y: "typed_as (ce_lib c) w y" "wide (ty_of y)"
    "value_of args y = Some (word_of_int b)" "loaded (ce_lib c) w s = (Inr w, s)" unfolding typed_as_def by blast
  have truthy: "truthy v" "truthy w" using v w by (cases v; cases w; simp add: carries_def truthy_def)+
  from same_type_wide [OF x(1,2) y(1-3)] obtain w' y' s1 where y':
    "same_type (ce_lib c) v w s = (Inr (ty_of x, w'), s1)"
    "pv_val w' = Some y'" "ty_of y' = ty_of x" "value_of args y' = Some (word_of_int b)" .
  have i: "infer (ce_lib c) ''arith.cmpi'' [x, y'] [A_str q] = Inr (T_int 1)"
    using doc x(2) y'(3) by (simp add: arith_documented_def)
  have "pv_val v = Some x" using x(1) by (simp add: typed_as_def)
  from arith2_value [OF i this y'(2) x(3) y'(4) exec2_compare [OF r q]] truthy x(4) y(4) y'(1) q
  show ?thesis by (simp add: compare_op_def Let_def sbind_def)
qed

lemma if_condition_bit: "ty_of u = T_int 1 \<Longrightarrow> if_condition c (P_value u) s = (Inr u, s)"
  by (simp add: if_condition_def Let_def unview_def load_if_memref_def has_type_def loaded_def is_memref_def
      sbind_def int_width_def operands_def operand_of_def sreturn_def)



end
