(* ===== verification/Frontdriver.thy ===== *)
theory Frontdriver
  imports Frontwith
begin

text \<open>
  The compiler front end in its place in the compile pipeline: \<open>Kernelapi\<close> takes the front end as a
  parameter, here it is \<open>compile_ast\<close> on the syntax tree of the thread, as the wrapper that
  \<open>_compile\<close> of \<open>ttl_api.py\<close> makes calls it. The result is followed to the descriptor of the kernel:
  the runtime arguments of a kernel are the addresses of the tensors its thread captures.
\<close>

section \<open>The front end of the driver\<close>

text \<open>What the wrapper knows of the decorated function: its syntax tree, source lines and globals.\<close>

record thread_source =
  ts_syntax :: "stmt list"
  ts_lines :: "string list"
  ts_globals :: "(string \<times> global) list"

text \<open>The bindings, the shape and data type of the tensors, and the names of the generated functions.\<close>

record front_world =
  fw_lib :: mlir
  fw_tensor :: "nat \<Rightarrow> int list \<times> dtype"
  fw_str_of :: "dtype \<Rightarrow> string"
  fw_binary :: "string list"
  fw_unary :: "string list"

definition thread_env ::
    "world \<Rightarrow> front_world \<Rightarrow> thread_source thread_fn \<Rightarrow> (string \<times> capture) list \<Rightarrow> int list \<Rightarrow> string \<Rightarrow> bool \<Rightarrow>
     registry \<Rightarrow> cenv" where
  "thread_env w fw t captures grid memory_space tiled reg =
     \<lparr>ce_name = tf_name t, ce_kernel_type = tf_kernel_type t, ce_captures = captures, ce_grid = grid,
      ce_memory_space = memory_space, ce_tiled = tiled, ce_debug_locations = True,
      ce_source_file = tf_source_file t, ce_source_lines = ts_lines (tf_body t), ce_line_offset = tf_line_offset t,
      ce_globals = ts_globals (tf_body t), ce_auto_profile = w_auto_profile w, ce_lib = fw_lib fw,
      ce_tensor = fw_tensor fw, ce_registry = reg, ce_str_of = fw_str_of fw, ce_can_import = w_can_import w,
      ce_binary = fw_binary fw, ce_unary = fw_unary fw\<rparr>"

text \<open>The table of signposts that the threads share is that at the start of this thread.\<close>

definition ttl_front_end ::
    "world \<Rightarrow> front_world \<Rightarrow> (thread_source thread_fn \<Rightarrow> source_line_mapper) \<Rightarrow> thread_source thread_fn \<Rightarrow>
     (string \<times> capture) list \<Rightarrow> arg list \<Rightarrow> int list \<Rightarrow> string \<Rightarrow> bool \<Rightarrow> registry \<Rightarrow>
     cstate compiled_thread result" where
  "ttl_front_end w fw mapper_at t captures args grid memory_space tiled reg =
     rbind (compile_ast (thread_env w fw t captures grid memory_space tiled reg) (mapper_at t)
       (ts_syntax (tf_body t))) (\<lambda>b.
     Inr \<lparr>ct_name = tf_name t, ct_tensor_indices = accessor_indices b, ct_source_file = tf_source_file t,
          ct_source_lines = ts_lines (tf_body t), ct_line_offset = tf_line_offset t, ct_op = b\<rparr>)"

section \<open>Global indices\<close>

text \<open>After the arguments are registered, the global index of an argument is a position it has.\<close>

lemma register_name_index:
  "index_registry (register_tensor_name t name (int i) r) = (index_registry r)(t \<mapsto> int i)"
  by (simp add: register_tensor_name_def)

lemma register_names_step:
  assumes "length params = length args"
  shows "register_names (params @ [n]) (args @ [a]) r =
    (case arg_id a of None \<Rightarrow> register_names params args r
     | Some t \<Rightarrow> register_tensor_name t n (int (length args)) (register_names params args r))"
  using assms unfolding register_names_def by simp

lemma register_names_index:
  assumes "length params = length args" and "index_registry (register_names params args r) t = Some i"
    and "\<exists>a \<in> set args. arg_id a = Some t"
  shows "\<exists>j < length args. arg_id (args ! j) = Some t \<and> i = int j"
  using assms
proof (induction args arbitrary: params i rule: rev_induct)
  case Nil
  then show ?case by simp
next
  case (snoc a args)
  from snoc.prems(1) obtain ps n where ps: "params = ps @ [n]" "length ps = length args"
    by (cases params rule: rev_cases) auto
  show ?case
  proof (cases "arg_id a = Some t")
    case True
    with snoc.prems(2) have "i = int (length args)" by (simp add: ps register_names_step register_name_index)
    with True show ?thesis by (intro exI [of _ "length args"]) simp
  next
    case False
    with snoc.prems(2) have "index_registry (register_names ps args r) t = Some i"
      by (auto simp: ps register_names_step register_name_index split: option.splits if_splits)
    with snoc.IH [OF ps(2)] snoc.prems(3) False
    obtain j where "j < length args" "arg_id (args ! j) = Some t" "i = int j" by auto
    then show ?thesis by (intro exI [of _ j]) (simp add: nth_append)
  qed
qed

lemma track_sources_index: "index_registry (track_tensor_sources w params args f r) = index_registry r"
proof -
  have "index_registry (foldl (\<lambda>r (name, a). case a of Tensor t _ \<Rightarrow>
      if w_can_import w then (case find_variable_assignment ls name l of None \<Rightarrow> r
        | Some l' \<Rightarrow> register_tensor_source t f l' r) else r | _ \<Rightarrow> r) r xs) = index_registry r" for ls l xs
    by (induction xs arbitrary: r) (auto simp: register_tensor_source_def split: arg.splits option.splits)
  then show ?thesis by (auto simp: track_tensor_sources_def split: option.splits)
qed

section \<open>From the capture to the address\<close>

lemma accessor_indices_captured:
  assumes "compile_ast c m [Function_def p name params body] = Inr s" and doc: "documented c"
  shows "list_all2 (\<lambda>(n, t) i. get_tensor_global_index t (ce_registry c) = Inr i) (captured_tensors c) (accessor_indices s)"
  using assms(1)
proof (rule compile_entered)
  fix tcs th s2
  assume tcs: "tensor_captures c = Inr tcs"
    and run: "sbind (bind_captures c p tcs) (\<lambda>_. sbind (visit_stmts c body) (\<lambda>_. close_function c))
      (entered c m p name tcs th) = (Inr (), s2)"
    and s: "s = s2\<lparr>ip := 0, symbol_tables := tl (symbol_tables s2), cur_loc := Loc_unknown\<rparr>"
  from stepsD [OF growing.steps_body [of body c, unfolded sane_id [OF doc]] run]
  have "accessor_indices s = map (fst \<circ> snd) tcs"
    using growsD(3) [of "entered c m p name tcs th" s2] by (simp add: s) (simp add: entered_def)
  with tensor_captures_all2 [OF tcs] show ?thesis
    by (auto simp: list_all2_map2 elim!: list_all2_mono)
qed

lemma compile_ttnn_kernel_indices:
  "compile_ttnn_kernel w cc m args grid idx cfgs h fp32 dst src offs = Inr (Some ck) \<Longrightarrow> ck_tensor_indices ck = idx"
  by (auto simp: compile_ttnn_kernel_def rbind_eq_Inr Let_def case_prod_beta split: if_splits list.splits)

lemma compile_module_indices:
  assumes "compile_module w cc perf file off args grid space tiled h fp32 dst ts s = Inr (Some ck)"
  obtains cts where "list_all2 (\<lambda>t ct. compile_thread w cc args grid space tiled (tensor_registry s) t = Inr ct) ts cts"
    and "ck_tensor_indices ck = map ct_tensor_indices cts"
proof -
  from assms obtain cfgs cts passes where cts: "rmap (\<lambda>t. map_error (located_error w file off)
      (compile_thread w cc args grid space tiled (tensor_registry s) t)) ts = Inr cts"
    and r: "(case run_passes cc (pipeline_str passes) (map (module_thread_of (cb_counter s)) cts) of
       Inl msg \<Rightarrow> Inl (RuntimeError (format_mlir_error (w_read_file w) (w_verbose_errors w) msg
         (Some (snd (hd (by_thread ct_source_lines cts)))) (Some (snd (hd (by_thread ct_source_file cts))))))
     | Inr m \<Rightarrow>
         compile_ttnn_kernel w cc m args grid (map ct_tensor_indices cts) cfgs h fp32 dst
           (by_thread ct_source_lines cts) (by_thread ct_line_offset cts)) = Inr (Some ck)"
    unfolding compile_module_def Let_def by (elim rbind_InrE) auto
  from r have "ck_tensor_indices ck = map ct_tensor_indices cts"
    by (auto dest: compile_ttnn_kernel_indices split: sum.splits)
  moreover from rmap_list_all2 [OF cts]
  have "list_all2 (\<lambda>t ct. compile_thread w cc args grid space tiled (tensor_registry s) t = Inr ct) ts cts"
    by (rule list_all2_mono) (auto simp: map_error_def split: sum.splits)
  ultimately show thesis by (rule that [rotated])
qed

lemma kernel_specs_nth:
  assumes "kernel_specs ck = Inr specs" and "i < length specs"
  shows "i < length (ck_tensor_indices ck) \<and> tensor_indices (specs ! i) = ck_tensor_indices ck ! i"
  using list_all2_nthD2 [OF rmap_list_all2 [OF assms(1) [unfolded kernel_specs_def]] assms(2)]
    list_all2_lengthD [OF rmap_list_all2 [OF assms(1) [unfolded kernel_specs_def]]] assms(2)
  by (auto simp: rbind_eq_Inr py_nth_def split: prod.splits if_splits dest!: arg_cong [where f = tensor_indices])

lemma descriptor_addresses:
  assumes "build_kernel_descriptor api tensors acc cr cols rows n spec = Inr kd"
  shows "list_all2 (\<lambda>idx a. \<exists>t. py_item tensors idx = Inr t \<and> a = buffer_address api t) (tensor_indices spec)
    (common_runtime_args kd)"
  using assms unfolding build_kernel_descriptor_def Let_def
  by (auto simp: rbind_eq_Inr dest!: rmap_list_all2 elim!: list_all2_mono)

lemma compile_thread_indices:
  assumes "compile_thread w cc args grid space tiled reg t = Inr ct" and "front_end cc = ttl_front_end w fw mp"
    and "collect_captures t = Inr caps" and "ts_syntax (tf_body t) = [Function_def p name ps body]"
    and "documented (thread_env w fw t caps grid space tiled reg)"
  shows "list_all2 (\<lambda>(n, x) i. get_tensor_global_index x reg = Inr i)
    (captured_tensors (thread_env w fw t caps grid space tiled reg)) (ct_tensor_indices ct)"
proof -
  from assms(1-4) obtain b where
    "compile_ast (thread_env w fw t caps grid space tiled reg) (mp t) [Function_def p name ps body] = Inr b"
    and "ct_tensor_indices ct = accessor_indices b"
    by (auto simp: compile_thread_def ttl_front_end_def rbind_eq_Inr split: option.splits)
  with accessor_indices_captured [OF _ assms(5)] show ?thesis by (fastforce simp: thread_env_def)
qed

text \<open>Property C5: when a kernel is compiled with this front end and run on tensors, the runtime
  arguments of its \<open>i\<close>-th kernel are, in the order in which the \<open>i\<close>-th thread captures them, the
  addresses of the tensors that stand at the places of the captured tensors among the arguments,
  also when the kernel is run on other tensors than it was compiled for.\<close>

theorem captured_addresses:
  assumes cc: "front_end cc = ttl_front_end w fw mp"
    and run: "compile_module w cc perf file off args grid space tiled h fp32 dst ts s = Inr (Some ck)"
    and reg: "tensor_registry s = track_tensor_sources w params args file (register_names params args r0)"
    and params: "length params = length args"
    and i: "i < length ts" "collect_captures (ts ! i) = Inr caps" "ts_syntax (tf_body (ts ! i)) = [Function_def p name ps body]"
    and doc: "documented (thread_env w fw (ts ! i) caps grid space tiled (tensor_registry s))"
    and captured: "\<forall>x \<in> snd ` set (captured_tensors (thread_env w fw (ts ! i) caps grid space tiled (tensor_registry s))).
      \<exists>a \<in> set args. arg_id a = Some x"
    and specs: "kernel_specs ck = Inr specs" "i < length specs"
    and kd: "build_kernel_descriptor api tensors acc cr cols rows n (specs ! i) = Inr kd" "length tensors = length args"
  shows "list_all2 (\<lambda>(n, x) a. \<exists>j < length args. arg_id (args ! j) = Some x \<and> a = buffer_address api (tensors ! j))
    (captured_tensors (thread_env w fw (ts ! i) caps grid space tiled (tensor_registry s))) (common_runtime_args kd)"
proof -
  let ?c = "thread_env w fw (ts ! i) caps grid space tiled (tensor_registry s)"
  from run obtain cts where cts: "list_all2 (\<lambda>t ct. compile_thread w cc args grid space tiled (tensor_registry s) t = Inr ct) ts cts"
    and idx: "ck_tensor_indices ck = map ct_tensor_indices cts" by (rule compile_module_indices)
  from compile_thread_indices [OF list_all2_nthD [OF cts i(1)] cc i(2,3) doc]
  have ind: "list_all2 (\<lambda>(n, x) i. get_tensor_global_index x (tensor_registry s) = Inr i) (captured_tensors ?c)
      (tensor_indices (specs ! i))"
    using kernel_specs_nth [OF specs] list_all2_lengthD [OF cts] i(1) by (simp add: idx)
  have place: "\<exists>j < length args. arg_id (args ! j) = Some x \<and> k = int j"
    if "get_tensor_global_index x (tensor_registry s) = Inr k" "x \<in> snd ` set (captured_tensors ?c)" for x k
    using that(1) register_names_index [OF params, of r0 x k] captured that(2)
    by (auto simp: get_tensor_global_index_def reg track_sources_index split: option.splits)
  show ?thesis unfolding list_all2_conv_all_nth
  proof (intro conjI allI impI)
    show "length (captured_tensors ?c) = length (common_runtime_args kd)"
      using list_all2_lengthD [OF ind] list_all2_lengthD [OF descriptor_addresses [OF kd(1)]] by simp
    fix k assume k: "k < length (captured_tensors ?c)"
    obtain n x where x: "captured_tensors ?c ! k = (n, x)" by fastforce
    with k have mem: "x \<in> snd ` set (captured_tensors ?c)" by (metis nth_mem snd_conv imageI)
    from list_all2_nthD [OF ind k] x have "get_tensor_global_index x (tensor_registry s) = Inr (tensor_indices (specs ! i) ! k)"
      by simp
    from place [OF this mem] obtain j where j: "j < length args" "arg_id (args ! j) = Some x"
      "tensor_indices (specs ! i) ! k = int j" by blast
    have "k < length (tensor_indices (specs ! i))" using k list_all2_lengthD [OF ind] by simp
    from list_all2_nthD [OF descriptor_addresses [OF kd(1)] this] j kd(2)
    have "common_runtime_args kd ! k = buffer_address api (tensors ! j)" by auto
    with j x show "(case captured_tensors ?c ! k of (n, x) \<Rightarrow> \<lambda>a. \<exists>j < length args. arg_id (args ! j) = Some x \<and>
        a = buffer_address api (tensors ! j)) (common_runtime_args kd ! k)"
      by auto
  qed
qed

text \<open>A kernel of three threads, the second of which captures two tensors, in another order than the arguments.\<close>

definition demo_front :: front_world where
  "demo_front = \<lparr>fw_lib = demo_lib, fw_tensor = demo_tensor_shape, fw_str_of = (\<lambda>_. ''torch''), fw_binary = [], fw_unary = []\<rparr>"

definition front_compiler :: "(thread_source, cstate, unit) compiler" where
  "front_compiler =
     \<lparr>front_end = ttl_front_end demo_world demo_front (\<lambda>_. demo_mapper), verify_error = (\<lambda>_. None),
      run_passes = (\<lambda>_ _. Inr ()), get_ttkernel_names = (\<lambda>_. demo_names), to_cpp = (\<lambda>_ n. n),
      get_arg_spec = (\<lambda>_ _. None), md5_of = (\<lambda>s. ''0123456789'')\<rparr>"

definition front_thread :: "string \<Rightarrow> string \<Rightarrow> string list \<Rightarrow> capture list \<Rightarrow> thread_source thread_fn" where
  "front_thread name kind xs caps =
     \<lparr>tf_name = name, tf_kernel_type = kind, tf_source_file = ''k.py'', tf_line_offset = 0, tf_freevars = xs,
      tf_closure = Some (map Some caps),
      tf_body = \<lparr>ts_syntax = [Function_def (1, 0) name [] [Pass (2, 2)]], ts_lines = [], ts_globals = []\<rparr>\<rparr>"

definition front_threads :: "thread_source thread_fn list" where
  "front_threads =
     [front_thread ''c'' ''compute'' [] [], front_thread ''r'' ''datamovement'' [''x'', ''y''] [Cap_tensor 7, Cap_tensor 9],
      front_thread ''w'' ''datamovement'' [] []]"

definition front_args :: "arg list" where
  "front_args = [Tensor 9 demo_tensor, Tensor 7 demo_tensor]"

definition front_state :: "thread_source api_state" where
  "front_state = \<lparr>thread_registry = [], cb_counter = 0,
     tensor_registry = track_tensor_sources demo_world [''a'', ''b''] front_args ''k.py'' (register_names [''a'', ''b''] front_args
       \<lparr>name_registry = Map.empty, index_registry = Map.empty, source_registry = Map.empty\<rparr>),
     current_grid = [1, 1]\<rparr>"

definition front_run :: "compiled_kernel option result" where
  "front_run = compile_module demo_world front_compiler False ''k.py'' 0 front_args [1, 1] ''L1'' True 0 None None
     front_threads front_state"

definition front_descriptor :: "(kernel_config, int \<times> int) kernel_descriptor result" where
  "front_descriptor = rbind front_run (\<lambda>ck. rbind (kernel_specs (the ck)) (\<lambda>specs.
     build_kernel_descriptor demo_api [0, 1] [] (0, 0) 1 1 0 (specs ! 1)))"

lemma front_runs:
  "rbind front_run (\<lambda>r. case r of None \<Rightarrow> Inl (ValueError ''none'')
     | Some ck \<Rightarrow> rbind (kernel_specs ck) (\<lambda>specs. Inr (length specs))) = Inr 3"
  by code_simp

lemma front_descriptor_built: "case front_descriptor of Inr kd \<Rightarrow> True | Inl _ \<Rightarrow> False"
  by code_simp

lemma captured_addresses_witness:
  "\<exists>kd. front_descriptor = Inr kd \<and> common_runtime_args kd = [4096, 0]"
proof -
  from front_runs obtain ck specs where ck: "front_run = Inr (Some ck)" and specs: "kernel_specs ck = Inr specs" "length specs = 3"
    by (auto simp: rbind_eq_Inr split: option.split_asm)
  from front_descriptor_built obtain kd where d: "front_descriptor = Inr kd" by (auto split: sum.splits)
  have "front_descriptor = build_kernel_descriptor demo_api [0, 1] [] (0, 0) 1 1 0 (specs ! 1)"
    unfolding front_descriptor_def ck by (simp add: specs(1))
  with d have kd: "build_kernel_descriptor demo_api [0, 1] [] (0, 0) 1 1 0 (specs ! 1) = Inr kd" by simp
  let ?c = "thread_env demo_world demo_front (front_threads ! 1) [(''x'', Cap_tensor 7), (''y'', Cap_tensor 9)] [1, 1] ''L1'' True
    (tensor_registry front_state)"
  have cap: "captured_tensors ?c = [(''x'', 7), (''y'', 9)]"
    by (simp add: captured_tensors_def captured_tensor_def thread_env_def demo_world_def)
  have "list_all2 (\<lambda>(n, x) a. \<exists>j < length front_args. arg_id (front_args ! j) = Some x \<and> a = buffer_address demo_api ([0, 1] ! j))
      (captured_tensors ?c) (common_runtime_args kd)"
  proof (rule captured_addresses [OF _ ck [unfolded front_run_def] _ _ _ _ _ _ _ specs(1) _ kd])
    show "front_end front_compiler = ttl_front_end demo_world demo_front (\<lambda>_. demo_mapper)" by (simp add: front_compiler_def)
    show "tensor_registry front_state = track_tensor_sources demo_world [''a'', ''b''] front_args ''k.py''
      (register_names [''a'', ''b''] front_args \<lparr>name_registry = Map.empty, index_registry = Map.empty, source_registry = Map.empty\<rparr>)"
      by (simp add: front_state_def)
    show "collect_captures (front_threads ! 1) = Inr [(''x'', Cap_tensor 7), (''y'', Cap_tensor 9)]"
      by (simp add: collect_captures_def front_threads_def front_thread_def convert_def)
    show "ts_syntax (tf_body (front_threads ! 1)) = [Function_def (1, 0) ''r'' [] [Pass (2, 2)]]"
      by (simp add: front_threads_def front_thread_def)
    show "documented ?c" by (simp add: documented_def thread_env_def demo_front_def demo_lib_def)
    show "\<forall>x \<in> snd ` set (captured_tensors ?c). \<exists>a \<in> set front_args. arg_id a = Some x"
      unfolding cap by (simp add: front_args_def arg_id_def)
  qed (simp_all add: front_args_def front_threads_def specs)
  then have "common_runtime_args kd = [4096, 0]"
    unfolding cap by (auto simp: list_all2_Cons1 front_args_def arg_id_def demo_api_def less_Suc_eq)
  with d show ?thesis by blast
qed

end
