(* ===== verification/Spec2Isabelle.thy ===== *)
theory Spec2Isabelle
  imports Simtensor Stats Multicast Program Blockmath Allocation Kernelapi Perfsummary Autoprofile Genops Frontarith Frontdriver
begin

text \<open>
  A development beside the Python code of tt-lang: its functional simulator \<open>python/sim\<close>, where
  kernels made of one compute and two data movement threads per core run on a grid of simulated
  cores, exchange tiles through dataflow buffers and pipes, and are scheduled cooperatively; and
  the driver \<open>python/ttl\<close> that compiles the same kernels for a device and runs them there.

  How the parts interact. \<open>kernel\<close> (kernel.py) runs the kernel body, which defines threads
  through the decorators of decorators.py; \<open>Program\<close> (program.py) builds one context per core
  with fresh \<open>DataflowBuffer\<close>s, binds the thread functions to it and hands them to
  \<open>GreenletScheduler\<close>. A thread works on \<open>Block\<close>s that \<open>reserve\<close> and \<open>wait\<close> of a
  buffer give it, moves tiles with \<open>copy\<close> transactions between tensors, blocks and pipes, and
  switches out in \<open>block_if_needed\<close>, which asks \<open>can_wait\<close>/\<open>can_reserve\<close> of the object.
  Blocks carry a state machine that says which operation may come next; the buffer is a ring
  with one reserved and one waited window. For the device, \<open>pykernel_gen\<close> (ttl_api.py) runs the
  kernel body, which creates buffers and registers threads, has MLIR operations built and lowered,
  and hands descriptors of kernels and buffers to \<open>ttnn.generic_op\<close> (kernel_runner.py); compiled
  kernels are cached by the properties of their tensors.

  Theories, in the order of the code's layers:
  \<^item> Prelude: exceptions as values, results, operations on a state that keep their effects when
    they raise, loops, decimal printing. Fifo: the contract \<open>fifo\<close> of a bounded channel and
    what follows from it for every interleaving.
  \<^item> Blockstate (blockstate.py, the mark operations of dfb.py): the transition table as data,
    traces of operations, reachable states.
  \<^item> Dfbstate (dfbstate.py, DFBAPI of dfb.py on one state): the ring, its invariant, and the
    interpretation of \<open>fifo\<close>.
  \<^item> Torch, Tensoraccessor (tensoraccessor.py), Ttnnsim, Simtensor (ttnnsim.py): tile access to tensors
    of a tensor library that is a parameter; work splitting.
  \<^item> Stats (stats.py): the counters and the report, with the contract \<open>tally\<close>.
  \<^item> Block, Dfb, Dfbchannel, Dfbprops (dfb.py): blocks, API objects and buffers on a heap of
    indexed objects; the invariant \<open>buffer_inv\<close>; a buffer used in whole cycles refines
    \<open>fifo\<close>.
  \<^item> Blockmath (math.py): the functions of \<open>ttl.math\<close> on blocks, reductions element by element.
  \<^item> Allocation (utils/block_allocation.py): splitting work and matrix blocks over a grid.
  \<^item> Corecontext (corecontext.py), Pipe (pipe.py): core coordinates in mixed radix, ranges.
  \<^item> Copyhandlers (copyhandlers.py), Multicast, Copy (copy.py): the pipe log with one cursor per
    receiver, the handlers, transactions.
  \<^item> Scheduler, Schedfacts, Schedprops (greenlet_scheduler.py): the scheduler over thread
    functions as resumptions; the contract \<open>sync_objects\<close> of the objects threads wait for.
  \<^item> Program (decorators.py, kernel.py, program.py): from a kernel to a run, with
    \<open>sync_objects\<close> interpreted on buffers and transactions.

  \<^item> Pystring: the string methods the driver uses. Diagnostics (diagnostics.py): locations in MLIR
    messages and the rendering of errors.
  \<^item> Kernelrun (kernel_runner.py, dtype_utils.py, circular_buffer.py, layouts.py, ttl_utils.py,
    tensor_registry.py): data types, buffers and the descriptors of a program; the record
    \<open>device_api\<close> stands for \<open>ttnn\<close>. Kernelapi (ttl_api.py): options, captures, compilation, cache
    and call; the record \<open>compiler\<close> stands for the MLIR bindings.
  \<^item> Mlir, Operators (operators.py, circular_buffer.py), Frontend (ttl_ast.py, kernel_ast.py,
    base_ast.py): the compiler front end, a visitor of syntax trees over a state of blocks, insertion
    point and symbol tables that emits operations; the record \<open>mlir\<close> stands for what the bindings
    decide. Frontsteps: the contracts \<open>emission\<close> and \<open>emission_stmt\<close>, laws of a relation between
    states under which every visit keeps it. Frontprops, Frontwith: interpretations of the contracts
    for typing, signpost zones, growth of blocks and symbol tables, and what follows from them.
    Frontarith: what compiled integer expressions and conditions compute, against Python. Frontdriver:
    the front end as the parameter of Kernelapi, followed to the addresses a kernel is run with.
  \<^item> Genops (gen_elementwise.py): the generator of the element-wise functions of the front end.

  \<^item> Pyfloat: rounded quotients and number formatting. Perfsummary (perf_summary.py): traces folded
    into counters, durations from two sources. Autoprofile (auto_profile.py): signposts, the flow of
    buffers, the report.

  State. A Python object that others refer to is an index into a list of the state record
  (API objects, blocks, buffers, tensors, transactions); the records extend one another
  (\<open>globals\<close>, \<open>heap\<close>, \<open>sim\<close>, \<open>world\<close>, \<open>cworld\<close>). An operation takes the state and
  returns a result or an exception with the state it leaves. Methods that wait are cut in two
  at \<open>block_if_needed\<close>.

  Termination. A thread function is a well-founded resumption, that is user code that reaches
  finitely many synchronisation points on every path; the main loop of the scheduler is
  \<open>partial_function\<close> and proved to return, by the multiset of the greenlets. No fuel is used.

  Abstractions. Tensors are values (torch storage shared between views is not modelled). One
  operating system thread runs all greenlets, so locks are free and a wait with a timeout that
  nobody can satisfy ends with the timeout. Messages of exceptions keep their fixed text only.

  Not modelled: the one-line wrappers of torch operations in golden_ops.py and the tensor comparisons of correctness.py; the
  passes in C++; the command line and module loading; printing, tracebacks and the comments of a verbose
  compiler; containers of buffers in a program's context.
\<close>

end
